(* ===== verification/Azmuth_Prelude.thy ===== *)
theory Azmuth_Prelude
  imports Main "HOL-Library.Word" "HOL-Library.Monad_Syntax"
begin

text \<open>
  Prelude of the Azmuth development: the machine integer types of the C firmware and of the
  RTL, bit-field selection as Verilog and C write it, the byte view of C buffers that the
  libraries access as \<open>uint32_t\<close> arrays, and the collections of rewrite rules that the
  component theories share.
\<close>

unbundle bit_operations_syntax

section \<open>Machine integers\<close>

type_synonym u2 = "2 word"
type_synonym u3 = "3 word"
type_synonym u4 = "4 word"
type_synonym u5 = "5 word"
type_synonym u6 = "6 word"
type_synonym u7 = "7 word"
type_synonym u8 = "8 word"
type_synonym u9 = "9 word"
type_synonym u10 = "10 word"
type_synonym u12 = "12 word"
type_synonym u16 = "16 word"
type_synonym u32 = "32 word"

named_theorems bus_simps \<open>what the accessors of a bus do on each state\<close>
named_theorems sdk_defs \<open>definitions of the SDK entry points\<close>
named_theorems rtl_defs \<open>definitions of clocked RTL blocks\<close>

text \<open>Undefined behaviour that the C code can reach is a value of its own.\<close>

datatype ub = OutOfBounds | BadConversion

section \<open>Bit fields\<close>

text \<open>\<open>bitsel hi lo w\<close> is Verilog's \<open>w[hi:lo]\<close>, zero extended to the width of \<open>w\<close>.\<close>

definition bitsel :: "nat \<Rightarrow> nat \<Rightarrow> 'a::len word \<Rightarrow> 'a word" where
  "bitsel hi lo w = drop_bit lo w AND mask (Suc hi - lo)"

lemma bit_bitsel [simp]:
  "bit (bitsel hi lo (w :: 'a::len word)) n \<longleftrightarrow> n < Suc hi - lo \<and> bit w (lo + n)"
  by (auto simp: bitsel_def bit_simps dest: bit_imp_le_length)

lemma bitsel_less:
  assumes "Suc hi - lo < LENGTH('a)"
  shows "bitsel hi lo (w :: 'a::len word) < 2 ^ (Suc hi - lo)"
  using and_mask_less_size [of "Suc hi - lo" "drop_bit lo w"] assms
  by (simp add: bitsel_def word_size)

lemma bit_one_shift: "bit (push_bit j (1 :: 'a::len word)) n \<longleftrightarrow> n = j \<and> n < LENGTH('a)"
  by (auto simp: bit_simps simp del: push_bit_of_1)

text \<open>Two 32-bit words are equal when their 32 bits are.\<close>

lemma u32_eqI:
  "(\<And>n. n < 32 \<Longrightarrow> bit (a :: u32) n \<longleftrightarrow> bit b n) \<Longrightarrow> a = b"
  by (rule bit_word_eqI) simp

lemma u8_eqI:
  "(\<And>n. n < 8 \<Longrightarrow> bit (a :: u8) n \<longleftrightarrow> bit b n) \<Longrightarrow> a = b"
  by (rule bit_word_eqI) simp

lemma word_and_mask_le: "(w AND mask k :: 'a::len word) \<le> mask k"
  by (rule word_and_le1)

lemma and_mask_id:
  "w < 2 ^ k \<Longrightarrow> k < LENGTH('a) \<Longrightarrow> (w AND mask k :: 'a::len word) = w"
  using less_mask_eq [of w k] by (simp add: word_size)

section \<open>Byte buffers\<close>

text \<open>
  A C object reached through \<open>void *\<close> is a list of bytes; the code reads and writes it as
  an array of little-endian 32-bit words. An access that leaves the object is \<open>None\<close>.
\<close>

definition byte_of :: "nat \<Rightarrow> u32 \<Rightarrow> u8" where
  "byte_of k w = ucast (drop_bit (8 * k) w)"

definition u32_of_bytes :: "u8 \<Rightarrow> u8 \<Rightarrow> u8 \<Rightarrow> u8 \<Rightarrow> u32" where
  "u32_of_bytes b0 b1 b2 b3 =
     (ucast b0 OR push_bit 8 (ucast b1)) OR (push_bit 16 (ucast b2) OR push_bit 24 (ucast b3))"

definition load32 :: "u8 list \<Rightarrow> nat \<Rightarrow> u32 option" where
  "load32 bs off =
     (if off + 4 \<le> length bs
      then Some (u32_of_bytes (bs ! off) (bs ! (off + 1)) (bs ! (off + 2)) (bs ! (off + 3)))
      else None)"

definition store32 :: "u8 list \<Rightarrow> nat \<Rightarrow> u32 \<Rightarrow> u8 list option" where
  "store32 bs off w =
     (if off + 4 \<le> length bs
      then Some (bs[off := byte_of 0 w, off + 1 := byte_of 1 w,
                    off + 2 := byte_of 2 w, off + 3 := byte_of 3 w])
      else None)"

lemma bit_byte_of [simp]: "bit (byte_of k w) n \<longleftrightarrow> n < 8 \<and> bit w (8 * k + n)"
  by (auto simp: byte_of_def bit_simps)

lemma bit_u32_of_bytes:
  "bit (u32_of_bytes b0 b1 b2 b3) n \<longleftrightarrow>
     (n < 8 \<and> bit b0 n) \<or> (8 \<le> n \<and> n < 16 \<and> bit b1 (n - 8)) \<or>
     (16 \<le> n \<and> n < 24 \<and> bit b2 (n - 16)) \<or> (24 \<le> n \<and> n < 32 \<and> bit b3 (n - 24))"
  by (auto simp: u32_of_bytes_def bit_simps dest: bit_imp_le_length)

lemma u32_of_bytes_of: "u32_of_bytes (byte_of 0 w) (byte_of 1 w) (byte_of 2 w) (byte_of 3 w) = w"
proof (rule u32_eqI)
  fix n :: nat assume "n < 32"
  then consider "n < 8" | "8 \<le> n \<and> n < 16" | "16 \<le> n \<and> n < 24" | "24 \<le> n \<and> n < 32"
    by linarith
  then show "bit (u32_of_bytes (byte_of 0 w) (byte_of 1 w) (byte_of 2 w) (byte_of 3 w)) n \<longleftrightarrow> bit w n"
    by cases (auto simp: bit_u32_of_bytes)
qed

lemma byte_of_u32_of_bytes [simp]:
  "byte_of 0 (u32_of_bytes a b c d) = a" "byte_of (Suc 0) (u32_of_bytes a b c d) = b"
  "byte_of 2 (u32_of_bytes a b c d) = c" "byte_of 3 (u32_of_bytes a b c d) = d"
  by (rule u8_eqI, auto simp: bit_u32_of_bytes)+

lemma store32_length: "store32 bs off w = Some bs' \<Longrightarrow> length bs' = length bs"
  by (auto simp: store32_def split: if_splits)

lemma load32_store32: "store32 bs off w = Some bs' \<Longrightarrow> load32 bs' off = Some w"
  using u32_of_bytes_of [of w]
  by (auto simp: store32_def load32_def nth_list_update split: if_splits)

lemma load32_store32_other:
  "store32 bs off w = Some bs' \<Longrightarrow> off' + 4 \<le> off \<or> off + 4 \<le> off' \<Longrightarrow>
     load32 bs' off' = load32 bs off'"
  by (auto simp: store32_def load32_def nth_list_update split: if_splits)

lemma store32_Some_iff: "(\<exists>bs'. store32 bs off w = Some bs') \<longleftrightarrow> off + 4 \<le> length bs"
  by (auto simp: store32_def)

lemma load32_Some_iff: "(\<exists>w. load32 bs off = Some w) \<longleftrightarrow> off + 4 \<le> length bs"
  by (auto simp: load32_def)

section \<open>Word arithmetic used by the loops\<close>

lemma unat_add_small:
  "unat a + unat b < 2 ^ LENGTH('a) \<Longrightarrow> unat (a + b :: 'a::len word) = unat a + unat b"
  by (rule unat_add_lem [THEN iffD1])

lemma word_le_1_iff: "(m :: 'a::len word) \<le> 1 \<longleftrightarrow> m = 0 \<or> m = 1"
  by (auto simp: word_le_nat_alt le_Suc_eq word_unat_eq_iff)

lemma unat_of_nat_u32: "n < 2 ^ 32 \<Longrightarrow> unat (of_nat n :: u32) = n"
  by (simp add: unat_of_nat take_bit_nat_eq_self)

text \<open>Words of 4 bytes needed for \<open>n\<close> bytes: the trip count of \<open>for (i = 0; i < n; i += 4)\<close>.\<close>

definition nwords :: "nat \<Rightarrow> nat" where
  "nwords n = (n + 3) div 4"

lemma less_nwords_iff: "k < nwords n \<longleftrightarrow> 4 * k < n"
  unfolding nwords_def by linarith

lemma nwords_le: "4 * nwords n \<le> n + 3"
  unfolding nwords_def by linarith

text \<open>\<open>ctr k\<close> is a 32-bit loop counter after \<open>k\<close> rounds of \<open>i += 4\<close>.\<close>

definition ctr :: "nat \<Rightarrow> u32" where
  "ctr k = of_nat (4 * k)"

lemma ctr_0 [simp]: "ctr 0 = 0"
  by (simp add: ctr_def)

lemma ctr_add4 [simp]: "ctr k + 4 = ctr (Suc k)" "4 + ctr k = ctr (Suc k)"
  by (simp_all add: ctr_def algebra_simps)

lemma unat_ctr: "4 * k < 2 ^ 32 \<Longrightarrow> unat (ctr k) = 4 * k"
  by (simp add: ctr_def unat_of_nat_u32 del: of_nat_mult)

lemma ctr_div4: "4 * k < 2 ^ 32 \<Longrightarrow> 4 * (ctr k div 4) = ctr k"
  by (rule word_unat_eq_iff [THEN iffD2])
    (simp add: unat_word_ariths unat_div unat_ctr)

lemma ctr_eq: "ctr k = 4 * of_nat k"
  by (simp add: ctr_def)

lemma word_index_small:
  assumes "k < nwords (unat (len :: u32))"
  shows "4 * k < 2 ^ 32"
proof -
  have "4 * k < unat len"
    using assms by (simp add: less_nwords_iff)
  also have "unat len < 2 ^ 32"
    using unsigned_less [of len, where ?'a = nat] by simp
  finally show ?thesis .
qed

lemma ctr_loop:
  assumes "k < nwords (unat (len :: u32))"
  shows "ctr k < len" "4 * (ctr k div 4) = ctr k" "unat (ctr k) = 4 * k"
  using word_index_small [OF assms] assms
  by (simp_all add: word_less_nat_alt unat_ctr ctr_div4 less_nwords_iff)

lemma ctr_exit:
  assumes "unat (len :: u32) + 3 < 2 ^ 32"
  shows "\<not> ctr (nwords (unat len)) < len"
proof -
  have "4 * nwords (unat len) < 2 ^ 32"
    using nwords_le [of "unat len"] assms by linarith
  moreover have "\<not> 4 * nwords (unat len) < unat len"
    using less_nwords_iff [of "nwords (unat len)"] by blast
  ultimately show ?thesis
    by (simp add: word_less_nat_alt unat_ctr)
qed

text \<open>A counter of \<open>for (i = 0; i < n; i++)\<close>.\<close>

lemma u32_inc:
  assumes "i < (n :: u32)"
  shows "unat (i + 1) = Suc (unat i)" "unat n - unat (i + 1) < unat n - unat i"
proof -
  have i: "unat i < unat n"
    using assms by (simp add: word_less_nat_alt)
  then show s: "unat (i + 1) = Suc (unat i)"
    using unat_add_small [of i 1] unsigned_less [of n, where ?'a = nat] by simp
  show "unat n - unat (i + 1) < unat n - unat i"
    using i s by simp
qed

text \<open>\<open>xs[i]\<close> of an array that a pointer reaches: \<open>None\<close> beyond its last element.\<close>

definition fetch :: "'a list \<Rightarrow> u32 \<Rightarrow> 'a option" where
  "fetch xs i = (if unat i < length xs then Some (xs ! unat i) else None)"

definition put :: "'a list \<Rightarrow> u32 \<Rightarrow> 'a \<Rightarrow> 'a list option" where
  "put xs i x = (if unat i < length xs then Some (xs[unat i := x]) else None)"

section \<open>Searching loops\<close>

text \<open>\<open>for (i = 0; i < n; i++) if (P(i)) { ...; break; }\<close> stops at the least hit.\<close>

lemma find_upt_Some:
  "List.find P [0..<n] = Some i \<longleftrightarrow> i < n \<and> P i \<and> (\<forall>j < i. \<not> P j)"
  by (auto simp: find_Some_iff)

lemma find_upt_None: "List.find P [0..<n] = None \<longleftrightarrow> (\<forall>i < n. \<not> P i)"
  by (simp add: find_None_iff)

lemma find_upt_cong:
  "(\<And>i. i < n \<Longrightarrow> P i \<longleftrightarrow> Q i) \<Longrightarrow> List.find P [0..<n] = List.find Q [0..<n]"
  by (rule find_cong) simp_all

end
