(* ===== verification/Soft_Float.thy ===== *)
theory Soft_Float
  imports Complex_Main "HOL-Library.Log_Nat" Azmuth_Prelude
begin

text \<open>
  IEEE 754 binary floating point as the C \<open>float\<close> and \<open>double\<close> of the firmware use it. The
  target has no FPU, so every operation is a call of the soft-float library: one correctly
  rounded operation at a time, round to nearest, ties to even, nothing fused. A finite number
  is its sign, significand and exponent; every operation computes the exact result as a
  fraction of natural numbers and rounds it once with \<open>rnd\<close>, so all of it evaluates.
  \<open>fval\<close> is the real number a datum stands for; the lemmas bound a rounded result by
  representable numbers around the exact one.
\<close>

datatype fp = FNaN | FInf bool | FNum bool nat int

text \<open>A format: precision, exponent of the least subnormal, and the power of two at which
  the format overflows.\<close>

record fmt =
  prec :: nat
  lsb_min :: int
  emax :: int

definition binary32 :: fmt where "binary32 = \<lparr>prec = 24, lsb_min = -149, emax = 128\<rparr>"
definition binary64 :: fmt where "binary64 = \<lparr>prec = 53, lsb_min = -1074, emax = 1024\<rparr>"

lemmas fmts = binary32_def binary64_def

section \<open>Rounding\<close>

text \<open>\<open>n / d\<close> to the nearest natural number, ties to even.\<close>

definition rhe :: "nat \<Rightarrow> nat \<Rightarrow> nat" where
  "rhe n d = (let q = n div d; r = n mod d
              in if 2 * r < d then q else if d < 2 * r then q + 1 else if even q then q else q + 1)"

definition scale2 :: "nat \<Rightarrow> nat \<Rightarrow> int \<Rightarrow> nat \<times> nat" where
  "scale2 n d k = (if 0 \<le> k then (n * 2 ^ nat k, d) else (n, d * 2 ^ nat (- k)))"

text \<open>The exponent of \<open>n / d\<close>: the greatest \<open>k\<close> with \<open>2 ^ k \<le> n / d\<close>.\<close>

definition ilog2 :: "nat \<Rightarrow> nat \<Rightarrow> int" where
  "ilog2 n d = (let k = int (floorlog 2 n) - int (floorlog 2 d)
                in case scale2 n d (- k) of (a, b) \<Rightarrow> if b \<le> a then k else k - 1)"

text \<open>\<open>(-1)^s * (n / d) * 2 ^ e\<close> rounded to the format.\<close>

definition lsb_of :: "fmt \<Rightarrow> nat \<Rightarrow> nat \<Rightarrow> int \<Rightarrow> int" where
  "lsb_of F n d e = max (lsb_min F) (ilog2 n d + e - int (prec F) + 1)"

definition rnd :: "fmt \<Rightarrow> bool \<Rightarrow> nat \<Rightarrow> nat \<Rightarrow> int \<Rightarrow> fp" where
  "rnd F s n d e =
     (if n = 0 then FNum s 0 0
      else let q = lsb_of F n d e;
               m = (case scale2 n d (e - q) of (a, b) \<Rightarrow> rhe a b)
           in if emax F < int (floorlog 2 m) + q then FInf s else FNum s m q)"

section \<open>Operations\<close>

definition of_uint :: "fmt \<Rightarrow> nat \<Rightarrow> fp" where
  "of_uint F n = rnd F False n 1 0"

definition of_sint :: "fmt \<Rightarrow> int \<Rightarrow> fp" where
  "of_sint F i = rnd F (i < 0) (nat \<bar>i\<bar>) 1 0"

definition flit :: "fmt \<Rightarrow> nat \<Rightarrow> nat \<Rightarrow> fp" where
  "flit F n d = rnd F False n d 0"

definition sgn_int :: "bool \<Rightarrow> nat \<Rightarrow> int" where
  "sgn_int s m = (if s then - int m else int m)"

fun fneg :: "fp \<Rightarrow> fp" where
  "fneg FNaN = FNaN"
| "fneg (FInf s) = FInf (\<not> s)"
| "fneg (FNum s m e) = FNum (\<not> s) m e"

fun fadd :: "fmt \<Rightarrow> fp \<Rightarrow> fp \<Rightarrow> fp" where
  "fadd F FNaN y = FNaN"
| "fadd F x FNaN = FNaN"
| "fadd F (FInf s) (FInf t) = (if s = t then FInf s else FNaN)"
| "fadd F (FInf s) y = FInf s"
| "fadd F x (FInf t) = FInf t"
| "fadd F (FNum s m e) (FNum t n k) =
     (let g = min e k;
          c = sgn_int s m * 2 ^ nat (e - g) + sgn_int t n * 2 ^ nat (k - g)
      in if c = 0 then FNum (s \<and> t) 0 0 else rnd F (c < 0) (nat \<bar>c\<bar>) 1 g)"

definition fsub :: "fmt \<Rightarrow> fp \<Rightarrow> fp \<Rightarrow> fp" where
  "fsub F x y = fadd F x (fneg y)"

fun fmul :: "fmt \<Rightarrow> fp \<Rightarrow> fp \<Rightarrow> fp" where
  "fmul F FNaN y = FNaN"
| "fmul F x FNaN = FNaN"
| "fmul F (FInf s) (FInf t) = FInf (s \<noteq> t)"
| "fmul F (FInf s) (FNum t n k) = (if n = 0 then FNaN else FInf (s \<noteq> t))"
| "fmul F (FNum s m e) (FInf t) = (if m = 0 then FNaN else FInf (s \<noteq> t))"
| "fmul F (FNum s m e) (FNum t n k) = rnd F (s \<noteq> t) (m * n) 1 (e + k)"

fun fdiv :: "fmt \<Rightarrow> fp \<Rightarrow> fp \<Rightarrow> fp" where
  "fdiv F FNaN y = FNaN"
| "fdiv F x FNaN = FNaN"
| "fdiv F (FInf s) (FInf t) = FNaN"
| "fdiv F (FInf s) (FNum t n k) = FInf (s \<noteq> t)"
| "fdiv F (FNum s m e) (FInf t) = FNum (s \<noteq> t) 0 0"
| "fdiv F (FNum s m e) (FNum t n k) =
     (if n = 0 then (if m = 0 then FNaN else FInf (s \<noteq> t)) else rnd F (s \<noteq> t) m n (e - k))"

text \<open>The integer square root, and \<open>sqrtf\<close>: two more bits than the precision and a sticky
  bit decide the rounding of the irrational result.\<close>

fun isqrt :: "nat \<Rightarrow> nat" where
  "isqrt n = (if n = 0 then 0
              else let r = 2 * isqrt (n div 4) in if (r + 1) * (r + 1) \<le> n then r + 1 else r)"

declare isqrt.simps [simp del]

fun fsqrt :: "fmt \<Rightarrow> fp \<Rightarrow> fp" where
  "fsqrt F FNaN = FNaN"
| "fsqrt F (FInf s) = (if s then FNaN else FInf False)"
| "fsqrt F (FNum s m e) =
     (if m = 0 then FNum s 0 0
      else if s then FNaN
      else let m' = (if even e then m else 2 * m); e' = (if even e then e else e - 1);
               k = prec F + 2; x = m' * 4 ^ k; r = isqrt x;
               sticky = (if r * r = x then 0 else 1)
           in rnd F False (2 * r + sticky) 1 (e' div 2 - int k - 1))"

text \<open>The comparisons \<open><\<close> and \<open>\<ge>\<close> of C: false on a NaN, and zeros are equal.\<close>

definition num_less :: "bool \<Rightarrow> nat \<Rightarrow> int \<Rightarrow> bool \<Rightarrow> nat \<Rightarrow> int \<Rightarrow> bool" where
  "num_less s m e t n k =
     (let g = min e k
      in sgn_int s m * 2 ^ nat (e - g) < sgn_int t n * 2 ^ nat (k - g))"

fun flt :: "fp \<Rightarrow> fp \<Rightarrow> bool" where
  "flt FNaN y = False"
| "flt x FNaN = False"
| "flt (FInf s) (FInf t) = (s \<and> \<not> t)"
| "flt (FInf s) (FNum t n k) = s"
| "flt (FNum s m e) (FInf t) = (\<not> t)"
| "flt (FNum s m e) (FNum t n k) = num_less s m e t n k"

fun fge :: "fp \<Rightarrow> fp \<Rightarrow> bool" where
  "fge FNaN y = False"
| "fge x FNaN = False"
| "fge x y = (\<not> flt x y)"

definition feq :: "fp \<Rightarrow> fp \<Rightarrow> bool" where
  "feq x y = (fge x y \<and> fge y x)"

text \<open>Truncation to an integer, the value of a C cast where the result is in range.\<close>

fun ftrunc :: "fp \<Rightarrow> int option" where
  "ftrunc (FNum s m e) =
     Some (sgn_int s (case scale2 m 1 e of (a, b) \<Rightarrow> a div b))"
| "ftrunc x = None"

section \<open>Values\<close>

fun fval :: "fp \<Rightarrow> real" where
  "fval (FNum s m e) = of_int (sgn_int s m) * 2 powi e"
| "fval x = 0"

fun finite_fp :: "fp \<Rightarrow> bool" where
  "finite_fp (FNum s m e) = True"
| "finite_fp x = False"

lemma scale2_value:
  assumes "scale2 n d k = (a, b)" and "0 < d"
  shows "0 < b" "real a / real b = real n / real d * 2 powi k"
proof -
  show "0 < b"
    using assms by (auto simp: scale2_def split: if_splits)
  show "real a / real b = real n / real d * 2 powi k"
    using assms by (auto simp: scale2_def power_int_def divide_simps split: if_splits)
qed

lemma rhe_ge: "0 < d \<Longrightarrow> k * d \<le> n \<Longrightarrow> k \<le> rhe n d"
  by (auto simp: rhe_def Let_def less_eq_div_iff_mult_less_eq [symmetric])

lemma rhe_le:
  assumes "0 < d" and "n \<le> k * d"
  shows "rhe n d \<le> k"
proof (cases "n = k * d")
  case True
  then show ?thesis
    using assms by (simp add: rhe_def)
next
  case False
  then have "n div d < k"
    using assms by (simp add: div_less_iff_less_mult)
  then show ?thesis
    by (auto simp: rhe_def Let_def)
qed

lemma rhe_ge_real: "0 < d \<Longrightarrow> real k \<le> real n / real d \<Longrightarrow> k \<le> rhe n d"
  by (rule rhe_ge) (simp_all add: field_simps flip: of_nat_mult)

lemma rhe_le_real: "0 < d \<Longrightarrow> real n / real d \<le> real k \<Longrightarrow> rhe n d \<le> k"
  by (rule rhe_le) (simp_all add: field_simps flip: of_nat_mult)

lemma pow2_mult: "(2 :: real) powi a * 2 powi b = 2 powi (a + b)"
  by (simp add: power_int_add)

lemma pow2_nat: "0 \<le> a \<Longrightarrow> real (2 ^ nat a) = 2 powi a"
  by (simp add: power_int_def)

lemma floorlog_real:
  assumes "0 < n"
  shows "2 powi (int (floorlog 2 n) - 1) \<le> real n" "real n < 2 powi int (floorlog 2 n)"
proof -
  note bounds = floorlog_bounds [OF assms, of 2]
  have f: "0 < floorlog 2 n"
    using assms by (simp add: floorlog_def)
  have "real (2 ^ (floorlog 2 n - 1)) \<le> real n"
    using bounds by (intro of_nat_mono) simp
  moreover have "2 powi (int (floorlog 2 n) - 1) = real (2 ^ (floorlog 2 n - 1))"
    using f pow2_nat [of "int (floorlog 2 n) - 1"] by (simp add: nat_diff_distrib)
  ultimately show "2 powi (int (floorlog 2 n) - 1) \<le> real n"
    by simp
  have "real n < real (2 ^ floorlog 2 n)"
    using bounds by (subst of_nat_less_iff) simp
  then show "real n < 2 powi int (floorlog 2 n)"
    by simp
qed

lemma ilog2_bounds:
  assumes "0 < n" and "0 < d"
  shows "2 powi ilog2 n d \<le> real n / real d" "real n / real d < 2 powi (ilog2 n d + 1)"
proof -
  define k where "k = int (floorlog 2 n) - int (floorlog 2 d)"
  obtain a b where ab: "scale2 n d (- k) = (a, b)"
    by fastforce
  have "1 \<le> real a / real b \<longleftrightarrow> b \<le> a"
    using scale2_value(1) [OF ab assms(2)] by simp
  then have ge: "b \<le> a \<longleftrightarrow> 2 powi k \<le> real n / real d"
    using scale2_value(2) [OF ab assms(2)] assms
    by (simp add: power_int_minus_divide pos_le_divide_eq mult.commute)
  have ilog: "ilog2 n d = (if b \<le> a then k else k - 1)"
    by (simp add: ilog2_def ab flip: k_def)
  have "2 powi (k - 1) * real d < 2 powi (k - 1) * 2 powi int (floorlog 2 d)"
    using floorlog_real(2) [OF assms(2)] by simp
  also have "\<dots> = 2 powi (int (floorlog 2 n) - 1)"
    unfolding pow2_mult by (simp add: k_def)
  also have "\<dots> \<le> real n"
    by (rule floorlog_real [OF assms(1)])
  finally have lo: "2 powi (k - 1) < real n / real d"
    using assms by (simp add: field_simps)
  have "real n < 2 powi int (floorlog 2 n)"
    by (rule floorlog_real [OF assms(1)])
  also have "\<dots> = 2 powi (k + 1) * 2 powi (int (floorlog 2 d) - 1)"
    unfolding pow2_mult by (simp add: k_def)
  also have "\<dots> \<le> 2 powi (k + 1) * real d"
    using floorlog_real(1) [OF assms(2)] by simp
  finally have hi: "real n / real d < 2 powi (k + 1)"
    using assms by (simp add: field_simps)
  show "2 powi ilog2 n d \<le> real n / real d" "real n / real d < 2 powi (ilog2 n d + 1)"
    using lo hi ge by (simp_all add: ilog)
qed

text \<open>
  The rounding lemma. If the exact value \<open>x\<close> lies between two multiples \<open>L * 2 ^ g\<close> and
  \<open>H * 2 ^ g\<close> of a power of two that the format can resolve at the size of \<open>x\<close>, then so
  does the rounded value.
\<close>

lemma rnd_between:
  assumes n: "0 < n" and d: "0 < d"
    and x: "x = real n / real d * 2 powi e"
    and lo: "real L * 2 powi g \<le> x" and hi: "x \<le> real H * 2 powi g"
    and g: "lsb_min F \<le> g" "x < 2 powi (g + int (prec F))"
    and top: "real H * 2 powi g < 2 powi emax F" "g \<le> emax F"
  obtains m q where "rnd F s n d e = FNum s m q"
    and "real L * 2 powi g \<le> real m * 2 powi q" and "real m * 2 powi q \<le> real H * 2 powi g"
    and "m = 0 \<or> q = lsb_of F n d e"
proof -
  define q where "q = lsb_of F n d e"
  obtain a b where ab: "scale2 n d (e - q) = (a, b)"
    by fastforce
  have b: "0 < b" and v: "real a / real b = x * 2 powi (- q)"
    using scale2_value [OF ab d] by (simp_all add: x power_int_diff power_int_minus field_simps)
  define m where "m = rhe a b"
  have "2 powi (ilog2 n d + e) \<le> x"
    using mult_right_mono [OF ilog2_bounds(1) [OF n d], of "2 powi e"] by (simp add: x power_int_add)
  then have "2 powi (ilog2 n d + e) < (2 :: real) powi (g + int (prec F))"
    using g(2) by linarith
  then have "ilog2 n d + e < g + int (prec F)"
    using power_int_increasing [of "g + int (prec F)" "ilog2 n d + e" "2 :: real"] by linarith
  then have qg: "q \<le> g"
    using g(1) by (simp add: q_def lsb_of_def)
  have grid: "real k * 2 powi g * 2 powi (- q) = real (k * 2 ^ nat (g - q))" for k
    using qg by (simp add: mult.assoc pow2_mult pow2_nat [symmetric] del: of_nat_power)
  have "real (L * 2 ^ nat (g - q)) \<le> real a / real b"
    unfolding v grid [symmetric] using lo by (intro mult_right_mono) simp_all
  then have L: "L * 2 ^ nat (g - q) \<le> m"
    unfolding m_def by (rule rhe_ge_real [OF b])
  have "real a / real b \<le> real (H * 2 ^ nat (g - q))"
    unfolding v grid [symmetric] using hi by (intro mult_right_mono) simp_all
  then have H: "m \<le> H * 2 ^ nat (g - q)"
    unfolding m_def by (rule rhe_le_real [OF b])
  have unscale: "real (k * 2 ^ nat (g - q)) * 2 powi q = real k * 2 powi g" for k
    unfolding grid [symmetric] by (simp add: mult.assoc pow2_mult)
  have Lm: "real L * 2 powi g \<le> real m * 2 powi q"
    unfolding unscale [symmetric] using L by (intro mult_right_mono of_nat_mono) simp_all
  have Hm: "real m * 2 powi q \<le> real H * 2 powi g"
    unfolding unscale [symmetric] using H by (intro mult_right_mono of_nat_mono) simp_all
  have "int (floorlog 2 m) + q \<le> emax F"
  proof (cases "m = 0")
    case True
    then show ?thesis using qg top(2) by (simp add: floorlog_def)
  next
    case False
    then have "2 powi (int (floorlog 2 m) - 1) * 2 powi q \<le> real m * 2 powi q"
      using floorlog_real(1) [of m] by simp
    also have "\<dots> < 2 powi emax F"
      using Hm top(1) by linarith
    finally have "2 powi (int (floorlog 2 m) - 1 + q) < (2 :: real) powi emax F"
      by (simp add: power_int_add)
    then show ?thesis
      using power_int_increasing [of "emax F" "int (floorlog 2 m) - 1 + q" "2 :: real"] by linarith
  qed
  then have "rnd F s n d e = FNum s m q"
    using n by (simp add: rnd_def m_def ab Let_def flip: q_def)
  then show ?thesis
    using Lm Hm that q_def by blast
qed

section \<open>Signs, sums and comparisons\<close>

fun fsign :: "fp \<Rightarrow> bool option" where
  "fsign FNaN = None"
| "fsign (FInf s) = Some s"
| "fsign (FNum s m e) = Some s"

lemma fsign_rnd [simp]: "fsign (rnd F s n d e) = Some s"
  by (simp add: rnd_def Let_def)

lemma fsign_fneg: "fsign (fneg x) = map_option Not (fsign x)"
  by (cases x) simp_all

lemma fsign_fmul: "0 < n \<Longrightarrow> fsign (fmul F x (FNum t n k)) = map_option (\<lambda>s. s \<noteq> t) (fsign x)"
  by (cases x) simp_all

lemma fsign_fdiv: "0 < n \<Longrightarrow> fsign (fdiv F x (FNum t n k)) = map_option (\<lambda>s. s \<noteq> t) (fsign x)"
  by (cases x) simp_all

lemma sgn_int_scale: "sgn_int s m * 2 ^ k = sgn_int s (m * 2 ^ k)"
  by (simp add: sgn_int_def)

lemma align_value:
  assumes "g \<le> e"
  shows "real_of_int (sgn_int s m * 2 ^ nat (e - g)) * 2 powi g = fval (FNum s m e)"
proof -
  have "(2 :: real) ^ nat (e - g) * 2 powi g = 2 powi e"
    using assms pow2_nat [of "e - g"] by (simp add: pow2_mult)
  then show ?thesis
    by (simp add: mult.assoc)
qed

lemma flt_fval: "flt (FNum s m e) (FNum t n k) \<longleftrightarrow> fval (FNum s m e) < fval (FNum t n k)"
proof -
  define g where "g = min e k"
  have "fval (FNum s m e) < fval (FNum t n k) \<longleftrightarrow>
      real_of_int (sgn_int s m * 2 ^ nat (e - g)) * 2 powi g < real_of_int (sgn_int t n * 2 ^ nat (k - g)) * 2 powi g"
    using align_value [of g e s m] align_value [of g k t n] by (simp only: g_def min.cobounded1 min.cobounded2)
  also have "\<dots> \<longleftrightarrow> sgn_int s m * 2 ^ nat (e - g) < sgn_int t n * 2 ^ nat (k - g)"
    by (simp only: mult_less_cancel_right_pos zero_less_power_int zero_less_numeral of_int_less_iff)
  finally show ?thesis
    by (simp add: num_less_def g_def Let_def)
qed

text \<open>A rounded sum between multiples of \<open>2 ^ g\<close>, and its sign.\<close>

lemma fadd_between:
  assumes r: "r = fval (FNum s m e) + fval (FNum t n k)"
    and lo: "real L * 2 powi g \<le> \<bar>r\<bar>" and hi: "\<bar>r\<bar> \<le> real H * 2 powi g"
    and g: "lsb_min F \<le> g" "\<bar>r\<bar> < 2 powi (g + int (prec F))"
    and top: "real H * 2 powi g < 2 powi emax F" "g \<le> emax F"
  obtains u v w where "fadd F (FNum s m e) (FNum t n k) = FNum u v w"
    and "real L * 2 powi g \<le> real v * 2 powi w" and "real v * 2 powi w \<le> real H * 2 powi g"
    and "r \<noteq> 0 \<Longrightarrow> u \<longleftrightarrow> r < 0"
proof -
  define h where "h = min e k"
  define c where "c = sgn_int s m * 2 ^ nat (e - h) + sgn_int t n * 2 ^ nat (k - h)"
  have rc: "r = real_of_int c * 2 powi h"
    using align_value [of h e s m] align_value [of h k t n]
    by (simp add: r c_def h_def distrib_right del: fval.simps)
  have sum: "fadd F (FNum s m e) (FNum t n k) =
      (if c = 0 then FNum (s \<and> t) 0 0 else rnd F (c < 0) (nat \<bar>c\<bar>) 1 h)"
    by (simp add: c_def h_def Let_def)
  show ?thesis
  proof (cases "c = 0")
    case True
    then show ?thesis
      using that [of "s \<and> t" 0 0] sum lo rc by simp
  next
    case False
    have "\<bar>r\<bar> = real (nat \<bar>c\<bar>) / real 1 * 2 powi h"
      by (simp add: rc abs_mult)
    then obtain v w where "rnd F (c < 0) (nat \<bar>c\<bar>) 1 h = FNum (c < 0) v w"
        "real L * 2 powi g \<le> real v * 2 powi w" "real v * 2 powi w \<le> real H * 2 powi g"
      using False lo hi g top by (elim rnd_between [of "nat \<bar>c\<bar>" 1, rotated 2]) simp_all
    moreover have "c < 0 \<longleftrightarrow> r < 0"
      by (auto simp: rc mult_less_0_iff not_less [THEN iffD2, OF zero_le_power_int])
    ultimately show ?thesis
      using that sum False by simp
  qed
qed

text \<open>Truncation.\<close>

lemma ftrunc_between:
  assumes "real k \<le> real m * 2 powi e" and "real m * 2 powi e < real k + 1"
  shows "ftrunc (FNum s m e) = Some (sgn_int s k)"
proof -
  obtain a b where ab: "scale2 m 1 e = (a, b)"
    by fastforce
  note v = scale2_value [OF ab zero_less_one]
  have "real k \<le> real a / real b" "real a / real b < real (Suc k)"
    using assms v by simp_all
  then have "k * b \<le> a" "a < Suc k * b"
    using v(1) by (simp_all add: field_simps del: of_nat_Suc flip: of_nat_mult)
  then have "a div b = k"
    by (intro div_nat_eqI) (simp_all add: mult.commute)
  then show ?thesis
    using ab by simp
qed

text \<open>Rewriting with these evaluates any operation on literals.\<close>

lemmas fp_eval =
  flit_def of_uint_def of_sint_def rnd_def lsb_of_def ilog2_def scale2_def rhe_def fmts Let_def
  compute_floorlog sgn_int_def fsub_def

end
