(* ===== verification/Fw_Eml_Optimizer.thy ===== *)
theory Fw_Eml_Optimizer
  imports Soft_Float
begin

text \<open>
  \<open>firmware/eml_optimizer.c\<close>: the profile table of EML expressions, its hash, the
  precompile entry point with its search, slot allocation and eviction, and the profiler.
  The file-scope variables are the record \<open>eml_state\<close>; \<open>eml_get_csr\<close> and \<open>eml_set_csr\<close>
  come from \<open>eml_unit.h\<close>, which is not in the repository, so they are arguments. A
  \<open>for\<close> loop over the table that returns or breaks at the first hit is \<open>List.find\<close>
  over the indices in loop order. A slot index of \<open>-1\<close> is \<open>None\<close>.
\<close>

section \<open>State\<close>

record eml_opt_config =
  tree_ptr :: "u32 list"
  max_depth :: u32
  cache_policy :: u8
  hit_count :: u32
  miss_count :: u32
  compile_count :: u32

record eml_profile_entry =
  expr_hash :: u32
  execution_count :: u32
  avg_cycles :: u32
  hit_rate :: u32
  is_hot_path :: bool

definition EML_PROFILE_SIZE :: nat where "EML_PROFILE_SIZE = 256"
definition EML_HOT_THRESHOLD :: u32 where "EML_HOT_THRESHOLD = 100"

record eml_state =
  profile_table :: "eml_profile_entry list"
  profile_usage :: "u8 list"
  profiling_enabled :: bool

text \<open>The static initialisation: \<open>.bss\<close> is zero, profiling starts enabled.\<close>

definition zero_entry :: eml_profile_entry where
  "zero_entry = \<lparr>expr_hash = 0, execution_count = 0, avg_cycles = 0, hit_rate = 0,
                 is_hot_path = False\<rparr>"

definition eml_boot :: eml_state where
  "eml_boot = \<lparr>profile_table = replicate EML_PROFILE_SIZE zero_entry,
               profile_usage = replicate (EML_PROFILE_SIZE div 8) 0,
               profiling_enabled = True\<rparr>"

text \<open>\<open>profile_usage[i / 8] & (1 << (i % 8))\<close> and its updates.\<close>

definition slot_used :: "eml_state \<Rightarrow> nat \<Rightarrow> bool" where
  "slot_used s i \<longleftrightarrow> profile_usage s ! (i div 8) AND push_bit (i mod 8) 1 \<noteq> 0"

definition mark_used :: "nat \<Rightarrow> u8 list \<Rightarrow> u8 list" where
  "mark_used i us = us[i div 8 := us ! (i div 8) OR push_bit (i mod 8) 1]"

definition mark_free :: "nat \<Rightarrow> u8 list \<Rightarrow> u8 list" where
  "mark_free i us = us[i div 8 := us ! (i div 8) AND NOT (push_bit (i mod 8) 1)]"

definition update_entry ::
  "nat \<Rightarrow> (eml_profile_entry \<Rightarrow> eml_profile_entry) \<Rightarrow> eml_state \<Rightarrow> eml_state" where
  "update_entry i f s = s\<lparr>profile_table := (profile_table s)[i := f (profile_table s ! i)]\<rparr>"

abbreviation slots :: "nat list" where
  "slots \<equiv> [0..<EML_PROFILE_SIZE]"

section \<open>The hash\<close>

text \<open>\<open>for (i = 0; i < max_depth && expr_tree[i] != 0; i++) hash = ((hash << 5) + hash) + ...\<close>.
  The tree is the list of words its pointer reaches.\<close>

function hash_loop :: "u32 list \<Rightarrow> u32 \<Rightarrow> u32 \<Rightarrow> u32 \<Rightarrow> ub + u32" where
  "hash_loop tree depth i hash =
     (if i < depth then
        (if unat i < length tree then
           (if tree ! unat i \<noteq> 0
            then hash_loop tree depth (i + 1) ((push_bit 5 hash + hash) + tree ! unat i)
            else Inr hash)
         else Inl OutOfBounds)
      else Inr hash)"
  by pat_completeness auto
termination
proof (relation "measure (\<lambda>(tree, depth, i, hash). unat depth - unat i)")
  fix tree :: "u32 list" and depth i hash :: u32
  assume "i < depth"
  then have "unat i < unat depth"
    by (simp add: word_less_nat_alt)
  moreover from this have "unat (i + 1) = unat i + 1"
    using unat_add_small [of i 1] unsigned_less [of depth, where ?'a = nat] by simp
  ultimately show "((tree, depth, i + 1, (push_bit 5 hash + hash) + tree ! unat i),
      tree, depth, i, hash) \<in> measure (\<lambda>(tree, depth, i, hash). unat depth - unat i)"
    by simp
qed simp

declare hash_loop.simps [simp del]

definition compress_hash :: "u32 \<Rightarrow> u8" where
  "compress_hash hash =
     ucast (((hash AND 0xFF) XOR (drop_bit 8 hash AND 0xFF)) XOR (drop_bit 16 hash AND 0xFF)
            XOR (drop_bit 24 hash AND 0xFF))"

definition eml_hash_expr :: "u32 list option \<Rightarrow> u32 \<Rightarrow> ub + u32" where
  "eml_hash_expr tree depth =
     (case tree of
        None \<Rightarrow> Inr 0
      | Some t \<Rightarrow>
          if depth = 0 then Inr 0
          else map_sum id (\<lambda>h. ucast (compress_hash h)) (hash_loop t depth 0 5381))"

section \<open>Optimisation (simulated) and eviction\<close>

text \<open>
  \<open>original_complexity * 0.6\<close> is computed in \<open>double\<close> and truncated. The result is
  in range for every \<open>uint32_t\<close>, so the conversion is defined.
\<close>

definition six_tenths :: "u32 \<Rightarrow> u32" where
  "six_tenths n =
     (case ftrunc (fmul binary64 (of_uint binary64 (unat n)) (flit binary64 6 10)) of
        Some i \<Rightarrow> word_of_int i
      | None \<Rightarrow> 0)"

definition eml_perform_optimization :: "eml_opt_config \<Rightarrow> bool \<times> eml_opt_config" where
  "eml_perform_optimization config =
     (let original = max_depth config;
          optimized = six_tenths original;
          optimized' = (if optimized < 2 then 2 else optimized)
      in (True, config\<lparr>hit_count := hit_count config + optimized',
                       miss_count := miss_count config + (original - optimized')\<rparr>))"

text \<open>The loop of \<open>eml_find_cold_slot\<close> keeps the least count so far and its slot.\<close>

definition cold_step :: "eml_state \<Rightarrow> nat \<Rightarrow> u32 \<times> nat option \<Rightarrow> u32 \<times> nat option" where
  "cold_step s i acc =
     (case acc of (min_exec, slot) \<Rightarrow>
        if slot_used s i \<and> \<not> is_hot_path (profile_table s ! i) \<and>
           execution_count (profile_table s ! i) < min_exec
        then (execution_count (profile_table s ! i), Some i)
        else (min_exec, slot))"

definition eml_find_cold_slot :: "eml_state \<Rightarrow> nat option \<times> eml_state" where
  "eml_find_cold_slot s =
     (case fold (cold_step s) slots (0xFFFFFFFF, None) of
        (_, None) \<Rightarrow> (None, s)
      | (_, Some i) \<Rightarrow> (Some i, s\<lparr>profile_usage := mark_free i (profile_usage s)\<rparr>))"

section \<open>Precompile\<close>

definition find_hash :: "eml_state \<Rightarrow> u32 \<Rightarrow> nat option" where
  "find_hash s h = List.find (\<lambda>i. expr_hash (profile_table s ! i) = h) slots"

definition find_empty :: "eml_state \<Rightarrow> nat option" where
  "find_empty s = List.find (\<lambda>i. \<not> slot_used s i) slots"

text \<open>The empty slot if there is one, else the slot that \<open>eml_find_cold_slot\<close> frees.\<close>

definition alloc_slot :: "eml_state \<Rightarrow> nat option \<times> eml_state" where
  "alloc_slot s =
     (case find_empty s of Some i \<Rightarrow> (Some i, s) | None \<Rightarrow> eml_find_cold_slot s)"

definition install :: "nat \<Rightarrow> u32 \<Rightarrow> eml_state \<Rightarrow> eml_state" where
  "install i h s =
     s\<lparr>profile_table := (profile_table s)[i := \<lparr>expr_hash = h, execution_count = 1,
          avg_cycles = 0, hit_rate = 0, is_hot_path = False\<rparr>],
       profile_usage := mark_used i (profile_usage s)\<rparr>"

definition set_dag_mode :: "('d \<Rightarrow> u32) \<Rightarrow> (u32 \<Rightarrow> 'd \<Rightarrow> 'd) \<Rightarrow> 'd \<Rightarrow> 'd" where
  "set_dag_mode get_cfg set_cfg d = set_cfg (get_cfg d OR push_bit 5 1) d"

text \<open>
  \<open>get_cfg\<close> and \<open>set_cfg\<close> are \<open>eml_get_csr(0x7C0)\<close> and \<open>eml_set_csr(0x7C0, v)\<close>. The
  result carries the returned identifier, the file's state and the device; the local
  \<open>config\<close>, whose counters are dropped on return, is not part of it.
\<close>

definition eml_precompile ::
  "('d \<Rightarrow> u32) \<Rightarrow> (u32 \<Rightarrow> 'd \<Rightarrow> 'd) \<Rightarrow> u32 list option \<Rightarrow> u32 \<Rightarrow> u8 \<Rightarrow> eml_state \<times> 'd
   \<Rightarrow> ub + u32 \<times> eml_state \<times> 'd" where
  "eml_precompile get_cfg set_cfg tree depth policy sd =
     (case sd of (s, d) \<Rightarrow>
        (case tree of
           None \<Rightarrow> Inr (0, s, d)
         | Some t \<Rightarrow>
             (case eml_hash_expr tree depth of
                Inl e \<Rightarrow> Inl e
              | Inr h \<Rightarrow>
                  (case find_hash s h of
                     Some i \<Rightarrow>
                       Inr (h, update_entry i (\<lambda>e. e\<lparr>execution_count := execution_count e + 1\<rparr>) s, d)
                   | None \<Rightarrow>
                       (case alloc_slot s of
                          (None, s1) \<Rightarrow> Inr (0, s1, d)
                        | (Some i, s1) \<Rightarrow>
                            let s2 = install i h s1;
                                config = \<lparr>tree_ptr = t, max_depth = depth, cache_policy = policy, hit_count = 0,
                                          miss_count = 0, compile_count = 0\<rparr>
                            in if fst (eml_perform_optimization config)
                               then Inr (h, s2, set_dag_mode get_cfg set_cfg d)
                               else Inr (0, s2, d))))))"

section \<open>Profiling\<close>

definition record_entry :: "u32 \<Rightarrow> bool \<Rightarrow> eml_profile_entry \<Rightarrow> eml_profile_entry" where
  "record_entry cycles cache_hit e =
     (let e1 = e\<lparr>avg_cycles := (avg_cycles e + cycles) div 2\<rparr>;
          e2 = (if cache_hit
                then let r = hit_rate e1 + 5 in e1\<lparr>hit_rate := (if 100 < r then 100 else r)\<rparr>
                else if 5 < hit_rate e1 then e1\<lparr>hit_rate := hit_rate e1 - 5\<rparr> else e1)
      in if EML_HOT_THRESHOLD < execution_count e2 \<and> 80 < hit_rate e2
         then e2\<lparr>is_hot_path := True\<rparr> else e2)"

definition eml_profile_record :: "u32 \<Rightarrow> u32 \<Rightarrow> bool \<Rightarrow> eml_state \<Rightarrow> eml_state" where
  "eml_profile_record h cycles cache_hit s =
     (if profiling_enabled s then
        (case find_hash s h of
           None \<Rightarrow> s
         | Some i \<Rightarrow> update_entry i (record_entry cycles cache_hit) s)
      else s)"

definition eml_is_hot_path :: "u32 \<Rightarrow> eml_state \<Rightarrow> bool" where
  "eml_is_hot_path h s =
     (case find_hash s h of None \<Rightarrow> False | Some i \<Rightarrow> is_hot_path (profile_table s ! i))"

text \<open>\<open>eml_aggressive_optimization\<close> has an empty body; the calls that
  \<open>eml_recompile_hot_paths\<close> makes to it are its argument list.\<close>

definition eml_aggressive_optimization :: "u32 \<Rightarrow> eml_state \<Rightarrow> eml_state" where
  "eml_aggressive_optimization h s = s"

definition eml_recompile_hot_paths :: "eml_state \<Rightarrow> eml_state" where
  "eml_recompile_hot_paths s =
     fold (\<lambda>i st. if is_hot_path (profile_table st ! i)
                  then eml_aggressive_optimization (expr_hash (profile_table st ! i)) st else st)
       slots s"

definition stats_step :: "eml_state \<Rightarrow> nat \<Rightarrow> u32 \<times> u32 \<times> u32 \<Rightarrow> u32 \<times> u32 \<times> u32" where
  "stats_step s i acc =
     (case acc of (hits, misses, hot) \<Rightarrow>
        if slot_used s i then
          let e = profile_table s ! i
          in (hits + hit_rate e * execution_count e div 100,
              misses + (100 - hit_rate e) * execution_count e div 100,
              if is_hot_path e then hot + 1 else hot)
        else acc)"

definition eml_get_stats :: "eml_state \<Rightarrow> u32 \<times> u32 \<times> u32" where
  "eml_get_stats s = fold (stats_step s) slots (0, 0, 0)"

definition eml_set_profiling :: "bool \<Rightarrow> eml_state \<Rightarrow> eml_state" where
  "eml_set_profiling enable s = s\<lparr>profiling_enabled := enable\<rparr>"

section \<open>Usage bits\<close>

lemma slot_used_bit: "slot_used s i \<longleftrightarrow> bit (profile_usage s ! (i div 8)) (i mod 8)"
  unfolding slot_used_def by (rule bit_iff_and_push_bit_not_eq_0 [symmetric])

lemma div_mod_8_eq: "i div 8 = j div 8 \<Longrightarrow> i mod 8 = j mod 8 \<Longrightarrow> i = (j :: nat)"
  by (metis div_mult_mod_eq)

lemma bit_mark_used:
  assumes "i div 8 < length us"
  shows "bit (mark_used i us ! (j div 8)) (j mod 8) \<longleftrightarrow> j = i \<or> bit (us ! (j div 8)) (j mod 8)"
  using assms by (auto simp: mark_used_def nth_list_update bit_simps dest: div_mod_8_eq)

lemma bit_mark_free:
  assumes "i div 8 < length us"
  shows "bit (mark_free i us ! (j div 8)) (j mod 8) \<longleftrightarrow> j \<noteq> i \<and> bit (us ! (j div 8)) (j mod 8)"
  using assms by (auto simp: mark_free_def nth_list_update bit_simps dest: div_mod_8_eq)

lemma length_mark [simp]: "length (mark_used i us) = length us" "length (mark_free i us) = length us"
  by (simp_all add: mark_used_def mark_free_def)

section \<open>The invariant of the table\<close>

text \<open>
  \<open>filled k s\<close>: exactly the first \<open>k\<close> slots are in use, they hold distinct non-zero
  8-bit hashes, the others hold the hash 0, and no hit rate exceeds 100 per cent.
\<close>

definition slot_hash :: "eml_state \<Rightarrow> nat \<Rightarrow> u32" where
  "slot_hash s i = expr_hash (profile_table s ! i)"

definition wf_eml :: "eml_state \<Rightarrow> bool" where
  "wf_eml s \<longleftrightarrow> length (profile_table s) = EML_PROFILE_SIZE \<and>
                length (profile_usage s) = EML_PROFILE_SIZE div 8"

definition rates_ok :: "eml_state \<Rightarrow> bool" where
  "rates_ok s \<longleftrightarrow> (\<forall>e \<in> set (profile_table s). hit_rate e \<le> 100)"

definition filled :: "nat \<Rightarrow> eml_state \<Rightarrow> bool" where
  "filled k s \<longleftrightarrow> wf_eml s \<and> rates_ok s \<and> k \<le> EML_PROFILE_SIZE \<and>
     (\<forall>i < EML_PROFILE_SIZE. slot_used s i \<longleftrightarrow> i < k) \<and>
     (\<forall>i < k. slot_hash s i \<noteq> 0 \<and> slot_hash s i < 256) \<and>
     inj_on (slot_hash s) {..<k} \<and>
     (\<forall>i. k \<le> i \<longrightarrow> i < EML_PROFILE_SIZE \<longrightarrow> slot_hash s i = 0)"

definition eml_inv :: "eml_state \<Rightarrow> bool" where
  "eml_inv s \<longleftrightarrow> (\<exists>k. filled k s)"

text \<open>There are only 255 non-zero 8-bit hashes, so a slot is always left.\<close>

lemma filled_less:
  assumes "filled k s"
  shows "k < EML_PROFILE_SIZE"
proof -
  have "inj_on (slot_hash s) {..<k}"
    using assms by (simp add: filled_def)
  then have "inj_on (unat \<circ> slot_hash s) {..<k}"
    by (rule comp_inj_on) (simp add: inj_on_def word_unat_eq_iff)
  moreover have "(unat \<circ> slot_hash s) ` {..<k} \<subseteq> {1..255}"
    using assms by (auto simp: filled_def word_less_nat_alt unat_gt_0 Suc_le_eq)
  ultimately have "card {..<k} \<le> card {1..255 :: nat}"
    by (rule card_inj_on_le) simp
  then show ?thesis
    by (simp add: EML_PROFILE_SIZE_def)
qed

lemma eml_boot_filled: "filled 0 eml_boot"
  by (simp add: filled_def eml_boot_def wf_eml_def rates_ok_def slot_hash_def slot_used_bit
      EML_PROFILE_SIZE_def zero_entry_def)

section \<open>Searching\<close>

lemma find_hash_Some:
  "find_hash s h = Some i \<longleftrightarrow>
     i < EML_PROFILE_SIZE \<and> slot_hash s i = h \<and> (\<forall>j < i. slot_hash s j \<noteq> h)"
  by (simp add: find_hash_def slot_hash_def find_upt_Some)

lemma find_hash_None: "find_hash s h = None \<longleftrightarrow> (\<forall>i < EML_PROFILE_SIZE. slot_hash s i \<noteq> h)"
  by (simp add: find_hash_def slot_hash_def find_upt_None)

lemma find_empty_filled:
  assumes "filled k s"
  shows "find_empty s = Some k"
  using assms filled_less [OF assms]
  by (auto simp: find_empty_def find_upt_Some filled_def)

lemma find_hash_zero_filled:
  assumes "filled k s"
  shows "find_hash s 0 = Some k"
  using assms filled_less [OF assms] by (auto simp: find_hash_Some filled_def)

lemma alloc_slot_filled: "filled k s \<Longrightarrow> alloc_slot s = (Some k, s)"
  by (simp add: alloc_slot_def find_empty_filled)

section \<open>Preservation\<close>

lemma update_entry_simps [simp]:
  "profile_usage (update_entry i f s) = profile_usage s"
  "profiling_enabled (update_entry i f s) = profiling_enabled s"
  "profile_table (update_entry i f s) = (profile_table s)[i := f (profile_table s ! i)]"
  by (simp_all add: update_entry_def)

lemma slot_used_update_entry [simp]: "slot_used (update_entry i f s) j \<longleftrightarrow> slot_used s j"
  by (simp add: slot_used_def)

lemma filled_update_entry:
  assumes "filled k s" and "i < EML_PROFILE_SIZE"
    and hash: "\<And>e. expr_hash (f e) = expr_hash e"
    and rate: "\<And>e. hit_rate e \<le> 100 \<Longrightarrow> hit_rate (f e) \<le> 100"
  shows "filled k (update_entry i f s)"
proof -
  have len: "length (profile_table s) = EML_PROFILE_SIZE"
    using assms(1) by (simp add: filled_def wf_eml_def)
  then have "slot_hash (update_entry i f s) j = slot_hash s j" for j
    using assms(2) by (simp add: slot_hash_def nth_list_update hash)
  moreover have "rates_ok (update_entry i f s)"
    using assms(1,2) len rate nth_mem [of i "profile_table s"]
    by (auto simp: filled_def rates_ok_def dest!: set_update_subset_insert [THEN subsetD])
  ultimately show ?thesis
    using assms(1) by (simp add: filled_def wf_eml_def cong: inj_on_cong)
qed

lemma filled_install:
  assumes s: "filled k s" and h: "h \<noteq> 0" "h < 256" and new: "\<forall>i < EML_PROFILE_SIZE. slot_hash s i \<noteq> h"
  shows "filled (Suc k) (install k h s)"
proof -
  note k = filled_less [OF s]
  have len: "length (profile_table s) = EML_PROFILE_SIZE" "k div 8 < length (profile_usage s)"
    using s k by (simp_all add: filled_def wf_eml_def EML_PROFILE_SIZE_def)
  have hash: "slot_hash (install k h s) i = (if i = k then h else slot_hash s i)" for i
    using k len by (simp add: slot_hash_def install_def nth_list_update)
  have used: "slot_used (install k h s) i \<longleftrightarrow> i = k \<or> slot_used s i" for i
    using len by (simp add: slot_used_bit install_def bit_mark_used)
  have "rates_ok (install k h s)"
    using s by (auto simp: filled_def rates_ok_def install_def
        dest!: set_update_subset_insert [THEN subsetD])
  moreover have "inj_on (slot_hash (install k h s)) {..<Suc k}"
  proof -
    have "inj_on (slot_hash (install k h s)) {..<k} \<longleftrightarrow> inj_on (slot_hash s) {..<k}"
      by (rule inj_on_cong) (simp add: hash)
    moreover have "h \<notin> slot_hash (install k h s) ` {..<k}"
      using new k by (auto simp: hash dest: less_trans)
    ultimately show ?thesis
      using s by (simp add: filled_def lessThan_Suc hash)
  qed
  moreover have "wf_eml (install k h s)"
    using s by (simp add: filled_def wf_eml_def install_def)
  ultimately show ?thesis
    using s k h by (auto simp: filled_def hash used less_Suc_eq)
qed

section \<open>The operations\<close>

lemma eml_hash_expr_less:
  assumes "eml_hash_expr tree depth = Inr h"
  shows "h < 256"
proof -
  have "(ucast (w :: u8) :: u32) < 256" for w
    using unsigned_less [of w, where ?'a = nat]
    by (simp add: word_less_nat_alt unsigned_ucast_eq take_bit_nat_eq_self)
  then show ?thesis
    using assms by (auto simp: eml_hash_expr_def split: option.splits if_splits sum.splits)
      (auto simp: map_sum_def split: sum.splits)
qed

lemma perform_optimization_True [simp]: "fst (eml_perform_optimization config)"
  by (simp add: eml_perform_optimization_def Let_def)

text \<open>What \<open>eml_precompile\<close> does in a state of the invariant, by the two outcomes of the
  search for the hash.\<close>

lemma precompile_known:
  "eml_hash_expr (Some t) depth = Inr h \<Longrightarrow> find_hash s h = Some i \<Longrightarrow>
   eml_precompile g st (Some t) depth pol (s, d) =
     Inr (h, update_entry i (\<lambda>e. e\<lparr>execution_count := execution_count e + 1\<rparr>) s, d)"
  by (simp add: eml_precompile_def)

lemma precompile_new:
  "eml_hash_expr (Some t) depth = Inr h \<Longrightarrow> find_hash s h = None \<Longrightarrow> filled k s \<Longrightarrow>
   eml_precompile g st (Some t) depth pol (s, d) =
     Inr (h, install k h s, set_dag_mode g st d)"
  by (simp add: eml_precompile_def alloc_slot_filled Let_def)

lemma precompile_filled:
  assumes s: "filled k s" and run: "eml_precompile g st tree depth pol (s, d) = Inr (r, s', d')"
  shows "filled k s' \<or> filled (Suc k) s'"
proof (cases tree)
  case None
  then show ?thesis
    using s run by (simp add: eml_precompile_def)
next
  case (Some t)
  then obtain h where h: "eml_hash_expr (Some t) depth = Inr h"
    using run by (auto simp: eml_precompile_def split: sum.splits)
  show ?thesis
  proof (cases "find_hash s h")
    case None
    have "h \<noteq> 0"
      using None find_hash_zero_filled [OF s] by auto
    then have "filled (Suc k) (install k h s)"
      using s None eml_hash_expr_less [OF h] by (intro filled_install) (simp_all add: find_hash_None)
    then show ?thesis
      using run Some by (auto simp: precompile_new [OF h None s])
  next
    case (Some i)
    then have "i < EML_PROFILE_SIZE"
      by (simp add: find_hash_Some)
    then show ?thesis
      using s run \<open>tree = Some t\<close>
      by (auto simp: precompile_known [OF h Some] intro!: filled_update_entry)
  qed
qed

lemma record_entry_hash [simp]: "expr_hash (record_entry c b e) = expr_hash e"
  by (simp add: record_entry_def Let_def)

lemma word_gt5_minus: "5 < (r :: u32) \<Longrightarrow> r \<le> 100 \<Longrightarrow> r - 5 \<le> 100"
  by unat_arith

lemma record_entry_rate: "hit_rate e \<le> 100 \<Longrightarrow> hit_rate (record_entry c b e) \<le> 100"
  by (auto simp: record_entry_def Let_def not_less word_gt5_minus)

lemma profile_record_filled:
  assumes "filled k s"
  shows "filled k (eml_profile_record h c b s)"
  using assms
  by (auto simp: eml_profile_record_def find_hash_Some record_entry_rate
      split: option.splits intro!: filled_update_entry)

lemma set_profiling_filled: "filled k s \<Longrightarrow> filled k (eml_set_profiling b s)"
  by (simp add: filled_def eml_set_profiling_def wf_eml_def rates_ok_def slot_hash_def
      slot_used_def cong: inj_on_cong)

lemma recompile_id [simp]: "eml_recompile_hot_paths s = s"
proof -
  have "fold (\<lambda>i st. if is_hot_path (profile_table st ! i)
      then eml_aggressive_optimization (expr_hash (profile_table st ! i)) st else st) xs s = s" for xs
    by (induction xs) (simp_all add: eml_aggressive_optimization_def)
  then show ?thesis
    by (simp add: eml_recompile_hot_paths_def)
qed

section \<open>The hash is DJB2 over the words before the terminator\<close>

definition djb2 :: "u32 \<Rightarrow> u32 list \<Rightarrow> u32" where
  "djb2 = foldl (\<lambda>h w. 33 * h + w)"

definition expr_words :: "u32 \<Rightarrow> u32 list \<Rightarrow> u32 list" where
  "expr_words depth t = takeWhile (\<lambda>w. w \<noteq> 0) (take (unat depth) t)"

lemma shift5_add: "push_bit 5 h + h = 33 * (h :: u32)"
  by (simp add: push_bit_eq_mult)

lemma hash_loop_djb2:
  "unat i \<le> length t \<Longrightarrow>
   hash_loop t depth i h =
     (if unat depth \<le> length t \<or> 0 \<in> set (drop (unat i) t)
      then Inr (djb2 h (takeWhile (\<lambda>w. w \<noteq> 0) (drop (unat i) (take (unat depth) t))))
      else Inl OutOfBounds)"
proof (induction t depth i h rule: hash_loop.induct)
  case (1 t depth i h)
  show ?case
  proof (cases "i < depth \<and> unat i < length t")
    case False
    then show ?thesis
      using "1.prems" by (subst hash_loop.simps) (auto simp: djb2_def word_less_nat_alt not_less)
  next
    case True
    then have less: "unat i < unat depth" "unat i < length t"
      by (simp_all add: word_less_nat_alt)
    then have i1: "unat (i + 1) = Suc (unat i)"
      using unat_add_small [of i 1] unsigned_less [of depth, where ?'a = nat] by simp
    have drops: "drop (unat i) t = t ! unat i # drop (Suc (unat i)) t"
        "drop (unat i) (take (unat depth) t) =
           t ! unat i # drop (Suc (unat i)) (take (unat depth) t)"
      using less by (simp_all add: Cons_nth_drop_Suc [symmetric])
    show ?thesis
      using 1 True by (subst hash_loop.simps) (simp add: drops i1 djb2_def shift5_add)
  qed
qed

lemma compress_hash_bytes:
  "compress_hash h = byte_of 0 h XOR byte_of 1 h XOR byte_of 2 h XOR byte_of 3 h"
  by (rule u8_eqI) (auto simp: compress_hash_def byte_of_def bit_simps less_Suc_eq numeral_eq_Suc)

section \<open>Eviction\<close>

definition cold_candidate :: "eml_state \<Rightarrow> nat \<Rightarrow> bool" where
  "cold_candidate s i \<longleftrightarrow> slot_used s i \<and> \<not> is_hot_path (profile_table s ! i)"

abbreviation exec_of :: "eml_state \<Rightarrow> nat \<Rightarrow> u32" where
  "exec_of s i \<equiv> execution_count (profile_table s ! i)"

lemma cold_step_eq:
  "cold_step s i (m, sl) =
     (if cold_candidate s i \<and> exec_of s i < m then (exec_of s i, Some i) else (m, sl))"
  by (simp add: cold_step_def cold_candidate_def)

text \<open>The accumulator after the first \<open>n\<close> slots.\<close>

definition cold_acc :: "eml_state \<Rightarrow> u32 \<Rightarrow> nat \<Rightarrow> u32 \<times> nat option \<Rightarrow> bool" where
  "cold_acc s M n acc =
     (case acc of
        (m, None) \<Rightarrow> m = M \<and> (\<forall>j < n. cold_candidate s j \<longrightarrow> M \<le> exec_of s j)
      | (m, Some i) \<Rightarrow> i < n \<and> cold_candidate s i \<and> m = exec_of s i \<and> m < M \<and>
          (\<forall>j < n. cold_candidate s j \<longrightarrow> m \<le> exec_of s j) \<and>
          (\<forall>j < i. cold_candidate s j \<longrightarrow> m < exec_of s j))"

lemma cold_acc_step:
  assumes "cold_acc s M n acc"
  shows "cold_acc s M (Suc n) (cold_step s n acc)"
proof -
  obtain m sl where acc: "acc = (m, sl)"
    by fastforce
  have trans: "exec_of s n < m \<Longrightarrow> m \<le> exec_of s j \<Longrightarrow> exec_of s n \<le> exec_of s j"
    "exec_of s n < m \<Longrightarrow> m \<le> exec_of s j \<Longrightarrow> exec_of s n < exec_of s j"
    "exec_of s n < m \<Longrightarrow> m < M \<Longrightarrow> exec_of s n < M" for j
    by simp_all
  show ?thesis
    using assms trans
    by (cases sl) (auto simp: acc cold_acc_def cold_step_eq less_Suc_eq not_less
        simp del: order.trans)
qed

lemma cold_fold: "cold_acc s M n (fold (cold_step s) [0..<n] (M, None))"
proof (induction n)
  case 0
  show ?case by (simp add: cold_acc_def)
next
  case (Suc n)
  then show ?case by (simp add: cold_acc_step)
qed

lemma find_cold_Some:
  assumes "eml_find_cold_slot s = (Some i, s')" and "wf_eml s"
  shows "i < EML_PROFILE_SIZE" "cold_candidate s i"
    "\<forall>j < EML_PROFILE_SIZE. cold_candidate s j \<longrightarrow> exec_of s i \<le> exec_of s j"
    "\<forall>j < i. cold_candidate s j \<longrightarrow> exec_of s i < exec_of s j"
    "profile_table s' = profile_table s" "slot_used s' j \<longleftrightarrow> j \<noteq> i \<and> slot_used s j"
proof -
  obtain m where "fold (cold_step s) slots (0xFFFFFFFF, None) = (m, Some i)"
    and s': "s' = s\<lparr>profile_usage := mark_free i (profile_usage s)\<rparr>"
    using assms(1) by (auto simp: eml_find_cold_slot_def split: prod.splits option.splits)
  with cold_fold [of s "0xFFFFFFFF" EML_PROFILE_SIZE]
  have acc: "cold_acc s 0xFFFFFFFF EML_PROFILE_SIZE (m, Some i)"
    by simp
  then show i: "i < EML_PROFILE_SIZE" and "cold_candidate s i"
    and "\<forall>j < EML_PROFILE_SIZE. cold_candidate s j \<longrightarrow> exec_of s i \<le> exec_of s j"
    and "\<forall>j < i. cold_candidate s j \<longrightarrow> exec_of s i < exec_of s j"
    by (auto simp: cold_acc_def)
  show "profile_table s' = profile_table s"
    by (simp add: s')
  have "i div 8 < length (profile_usage s)"
    using i assms(2) by (simp add: wf_eml_def EML_PROFILE_SIZE_def)
  then show "slot_used s' j \<longleftrightarrow> j \<noteq> i \<and> slot_used s j"
    by (simp add: slot_used_bit s' bit_mark_free)
qed

lemma find_cold_None:
  assumes "eml_find_cold_slot s = (None, s')"
  shows "s' = s" "\<forall>j < EML_PROFILE_SIZE. cold_candidate s j \<longrightarrow> exec_of s j = 0xFFFFFFFF"
proof -
  obtain m where "fold (cold_step s) slots (0xFFFFFFFF, None) = (m, None)" and s': "s' = s"
    using assms by (auto simp: eml_find_cold_slot_def split: prod.splits option.splits)
  with cold_fold [of s "0xFFFFFFFF" EML_PROFILE_SIZE]
  have "\<forall>j < EML_PROFILE_SIZE. cold_candidate s j \<longrightarrow> 0xFFFFFFFF \<le> exec_of s j"
    by (simp add: cold_acc_def)
  moreover have "0xFFFFFFFF \<le> w \<Longrightarrow> w = 0xFFFFFFFF" for w :: u32
    using unsigned_less [of w, where ?'a = nat] by (simp add: word_le_nat_alt word_unat_eq_iff)
  ultimately show "\<forall>j < EML_PROFILE_SIZE. cold_candidate s j \<longrightarrow> exec_of s j = 0xFFFFFFFF"
    by blast
  show "s' = s" by (rule s')
qed

end
