(* ===== verification/Fw_Eml_Table.thy ===== *)
theory Fw_Eml_Table
  imports Fw_Eml_Optimizer
begin

text \<open>
  What the profile table of \<open>firmware/eml_optimizer.c\<close> promises. The contract is a map from
  identifiers to profile entries, with \<open>spec_precompile\<close> and \<open>spec_record\<close> as its operations;
  the code's operations are shown to refine them in every state that calls reach. \<open>eml_step\<close>
  is one call of an entry point; the CSR that \<open>eml_precompile\<close> updates does not influence the
  table, so the step relation keeps it in a word of its own.
\<close>

section \<open>The table as a finite map\<close>

text \<open>
  The contract of the profiler: a map from the non-zero identifiers to their profile entries.
  \<open>known\<close> reads it off the table; \<open>spec_precompile\<close> and \<open>spec_record\<close> are the operations on
  the map.
\<close>

definition known :: "eml_state \<Rightarrow> u32 \<Rightarrow> eml_profile_entry option" where
  "known s h = (if h = 0 then None else map_option (\<lambda>i. profile_table s ! i) (find_hash s h))"

definition spec_precompile ::
  "u32 \<Rightarrow> (u32 \<Rightarrow> eml_profile_entry option) \<Rightarrow> u32 \<Rightarrow> eml_profile_entry option" where
  "spec_precompile h m =
     m(h \<mapsto> (case m h of
              None \<Rightarrow> \<lparr>expr_hash = h, execution_count = 1, avg_cycles = 0, hit_rate = 0,
                       is_hot_path = False\<rparr>
            | Some e \<Rightarrow> e\<lparr>execution_count := execution_count e + 1\<rparr>))"

definition spec_record ::
  "u32 \<Rightarrow> u32 \<Rightarrow> bool \<Rightarrow> (u32 \<Rightarrow> eml_profile_entry option) \<Rightarrow> u32 \<Rightarrow> eml_profile_entry option" where
  "spec_record h cycles cache_hit m =
     (case m h of None \<Rightarrow> m | Some e \<Rightarrow> m(h \<mapsto> record_entry cycles cache_hit e))"

lemma find_hash_update_entry:
  assumes "i < EML_PROFILE_SIZE" and "length (profile_table s) = EML_PROFILE_SIZE"
    and "\<And>e. expr_hash (f e) = expr_hash e"
  shows "find_hash (update_entry i f s) h = find_hash s h"
  unfolding find_hash_def using assms by (intro find_upt_cong) (simp add: nth_list_update)

lemma find_hash_install:
  assumes s: "filled k s" and h: "find_hash s h = None"
  shows "h' \<noteq> 0 \<Longrightarrow> find_hash (install k h s) h' = (if h' = h then Some k else find_hash s h')"
proof -
  assume "h' \<noteq> 0"
  note k = filled_less [OF s]
  have hash: "slot_hash (install k h s) i = (if i = k then h else slot_hash s i)" for i
    using k s by (simp add: slot_hash_def install_def nth_list_update filled_def wf_eml_def)
  have zero: "slot_hash s i = 0" if "k \<le> i" "i < EML_PROFILE_SIZE" for i
    using s that by (simp add: filled_def)
  show ?thesis
  proof (cases "h' = h")
    case True
    then show ?thesis
      using h k by (auto simp: find_hash_Some find_hash_None hash)
  next
    case False
    then have "slot_hash (install k h s) i = h' \<longleftrightarrow> slot_hash s i = h'" for i
      using \<open>h' \<noteq> 0\<close> zero [OF order_refl k] by (simp add: hash)
    then show ?thesis
      using False unfolding find_hash_def slot_hash_def by simp
  qed
qed

lemma known_update_entry:
  assumes s: "filled k s" and i: "find_hash s h = Some i" and f: "\<And>e. expr_hash (f e) = expr_hash e"
  shows "known (update_entry i f s) = (if h = 0 then known s else (known s)(h \<mapsto> f (profile_table s ! i)))"
proof
  fix h'
  have i': "i < EML_PROFILE_SIZE" "slot_hash s i = h" and len: "length (profile_table s) = EML_PROFILE_SIZE"
    using i s by (auto simp: find_hash_Some filled_def wf_eml_def)
  have other: "j \<noteq> i" if "find_hash s h' = Some j" "h' \<noteq> h" for j
    using that i' by (auto simp: find_hash_Some)
  show "known (update_entry i f s) h' = (if h = 0 then known s else (known s)(h \<mapsto> f (profile_table s ! i))) h'"
    using i i' len other
    by (cases "find_hash s h'") (auto simp: known_def find_hash_update_entry f nth_list_update)
qed

lemma known_install:
  assumes "filled k s" and "find_hash s h = None"
  shows "known (install k h s) = spec_precompile h (known s)"
proof
  fix h'
  have h: "h \<noteq> 0"
    using find_hash_zero_filled [OF assms(1)] assms(2) by auto
  have "k < length (profile_table s)"
    using filled_less [OF assms(1)] assms(1) by (simp add: filled_def wf_eml_def)
  moreover have "j \<noteq> k" if "find_hash s h' = Some j" "h' \<noteq> 0" for j
    using that assms(1) filled_less [OF assms(1)] by (auto simp: find_hash_Some filled_def)
  ultimately show "known (install k h s) h' = spec_precompile h (known s) h'"
    using find_hash_install [OF assms, of h'] assms(2) h
    by (cases "find_hash s h'") (auto simp: known_def spec_precompile_def install_def nth_list_update)
qed

lemma precompile_known_spec:
  assumes s: "filled k s" and run: "eml_precompile g st (Some t) depth pol (s, d) = Inr (r, s', d')"
  shows "eml_hash_expr (Some t) depth = Inr r"
    "known s' = (if r = 0 then known s else spec_precompile r (known s))"
    "d' = (if r = 0 \<or> known s r \<noteq> None then d else set_dag_mode g st d)"
proof -
  obtain h where h: "eml_hash_expr (Some t) depth = Inr h"
    using run by (auto simp: eml_precompile_def split: sum.splits)
  have zero: "find_hash s 0 = Some k"
    by (rule find_hash_zero_filled [OF s])
  have "r = h \<and> known s' = (if r = 0 then known s else spec_precompile r (known s)) \<and>
    d' = (if r = 0 \<or> known s r \<noteq> None then d else set_dag_mode g st d)"
  proof (cases "find_hash s h")
    case None
    then show ?thesis
      using run zero known_install [OF s None] by (auto simp: precompile_new [OF h None s] known_def [of s])
  next
    case (Some i)
    then have "r = h" "s' = update_entry i (\<lambda>e. e\<lparr>execution_count := execution_count e + 1\<rparr>) s" "d' = d"
      using run by (auto simp: precompile_known [OF h Some])
    moreover have "known s' = (if h = 0 then known s
        else (known s)(h \<mapsto> (profile_table s ! i)\<lparr>execution_count := execution_count (profile_table s ! i) + 1\<rparr>))"
      unfolding calculation(2) by (rule known_update_entry [OF s Some]) simp
    ultimately show ?thesis
      using Some by (simp add: spec_precompile_def known_def)
  qed
  then show "eml_hash_expr (Some t) depth = Inr r"
    "known s' = (if r = 0 then known s else spec_precompile r (known s))"
    "d' = (if r = 0 \<or> known s r \<noteq> None then d else set_dag_mode g st d)"
    using h by auto
qed

lemma record_known_spec:
  assumes "filled k s"
  shows "known (eml_profile_record h c b s) = (if profiling_enabled s then spec_record h c b (known s) else known s)"
proof (cases "find_hash s h")
  case None
  then show ?thesis
    by (simp add: eml_profile_record_def spec_record_def known_def)
next
  case (Some i)
  then show ?thesis
    using known_update_entry [OF assms Some, of "record_entry c b"]
    by (auto simp: eml_profile_record_def spec_record_def known_def [of s h])
qed

lemma hot_known: "filled k s \<Longrightarrow> h \<noteq> 0 \<Longrightarrow> eml_is_hot_path h s = (case known s h of None \<Rightarrow> False | Some e \<Rightarrow> is_hot_path e)"
  by (auto simp: eml_is_hot_path_def known_def split: option.split)

section \<open>Calls in sequence\<close>

inductive eml_step :: "eml_state \<Rightarrow> eml_state \<Rightarrow> bool" where
  precompile: "eml_precompile (\<lambda>d :: u32. d) (\<lambda>v _. v) tree depth pol (s, d) = Inr (r, s', d') \<Longrightarrow> eml_step s s'"
| record_op: "eml_step s (eml_profile_record h c b s)"
| set_profiling: "eml_step s (eml_set_profiling b s)"
| recompile: "eml_step s (eml_recompile_hot_paths s)"

lemma step_filled:
  assumes "eml_step s s'" and "eml_inv s"
  shows "eml_inv s'"
  using assms
proof (cases rule: eml_step.cases)
  case (precompile tree depth pol d r d')
  then show ?thesis
    using assms(2) precompile_filled by (fastforce simp: eml_inv_def)
qed (auto simp: eml_inv_def intro: profile_record_filled set_profiling_filled)

abbreviation eml_reachable :: "eml_state \<Rightarrow> bool" where
  "eml_reachable \<equiv> eml_step\<^sup>*\<^sup>* eml_boot"

lemma steps_inv: "eml_step\<^sup>*\<^sup>* s s' \<Longrightarrow> eml_inv s \<Longrightarrow> eml_inv s'"
  by (induction rule: rtranclp_induct) (auto intro: step_filled)

lemma reach_filled:
  assumes "eml_reachable s"
  obtains k where "filled k s"
  using steps_inv [OF assms] eml_boot_filled unfolding eml_inv_def by blast

text \<open>A known hot expression stays known and hot.\<close>

definition hot :: "u32 \<Rightarrow> eml_state \<Rightarrow> bool" where
  "hot h s \<longleftrightarrow> (\<exists>e. known s h = Some e \<and> is_hot_path e)"

lemma record_entry_hot: "is_hot_path e \<Longrightarrow> is_hot_path (record_entry c b e)"
  by (simp add: record_entry_def Let_def)

lemma step_hot:
  assumes "eml_step s s'" and s: "filled k s" and "hot h s"
  shows "hot h s'"
  using assms(1)
proof (cases rule: eml_step.cases)
  case (precompile tree depth pol d r d')
  show ?thesis
  proof (cases tree)
    case None
    then show ?thesis
      using precompile assms(3) by (simp add: eml_precompile_def)
  next
    case (Some t)
    then show ?thesis
      using precompile_known_spec(2) [OF s precompile [unfolded Some]] assms(3)
      by (auto simp: hot_def spec_precompile_def split: if_splits)
  qed
next
  case (record_op h' c b)
  then show ?thesis
    using record_known_spec [OF s, of h' c b] assms(3)
    by (auto simp: hot_def spec_record_def record_entry_hot split: option.split)
next
  case (set_profiling b)
  then have "known s' = known s"
    by (simp add: fun_eq_iff known_def eml_set_profiling_def find_hash_def)
  then show ?thesis
    using assms(3) by (simp add: hot_def)
next
  case recompile
  then show ?thesis
    using assms(3) by simp
qed

lemma hot_iff: "filled k s \<Longrightarrow> h \<noteq> 0 \<Longrightarrow> eml_is_hot_path h s \<longleftrightarrow> hot h s"
  by (simp add: hot_known hot_def split: option.split)

lemma known_hot: "filled k s \<Longrightarrow> known s h = Some e \<Longrightarrow> is_hot_path e \<Longrightarrow> eml_is_hot_path h s"
  by (cases "h = 0") (simp_all add: hot_known known_def [of s 0])

lemma steps_hot: "eml_step\<^sup>*\<^sup>* s s' \<Longrightarrow> eml_inv s \<Longrightarrow> hot h s \<Longrightarrow> hot h s'"
proof (induction rule: rtranclp_induct)
  case (step s1 s2)
  then obtain k where "filled k s1"
    using steps_inv [of s s1] unfolding eml_inv_def by blast
  then show ?case
    using step step_hot by blast
qed

text \<open>A run of cache hits.\<close>

lemma hit_rate_hit: "unat (hit_rate e) \<le> 100 \<Longrightarrow>
  unat (hit_rate (record_entry c True e)) = min 100 (unat (hit_rate e) + 5)"
proof -
  assume r: "unat (hit_rate e) \<le> 100"
  then have "unat (hit_rate e + 5) = unat (hit_rate e) + 5"
    using unat_add_small [of "hit_rate e" 5] by simp
  then show ?thesis
    by (simp add: record_entry_def Let_def word_less_nat_alt min_def)
qed

lemma record_entry_exec [simp]: "execution_count (record_entry c b e) = execution_count e"
  by (simp add: record_entry_def Let_def)

lemma record_entry_becomes_hot:
  "EML_HOT_THRESHOLD < execution_count e \<Longrightarrow> 80 < hit_rate (record_entry c b e) \<Longrightarrow> is_hot_path (record_entry c b e)"
  by (simp add: record_entry_def Let_def split: if_splits)

lemma hits_rate:
  "unat (hit_rate e) \<le> 100 \<Longrightarrow> unat (hit_rate ((record_entry c True ^^ n) e)) = min 100 (unat (hit_rate e) + 5 * n)"
  by (induction n) (auto simp: hit_rate_hit min_def)

lemma hits_exec: "execution_count ((record_entry c b ^^ n) e) = execution_count e"
  by (induction n) simp_all

lemma hits_hot:
  assumes "unat (hit_rate e) \<le> 100" and "EML_HOT_THRESHOLD < execution_count e" and "17 \<le> n"
  shows "is_hot_path ((record_entry c True ^^ n) e)"
proof -
  obtain m where n: "n = Suc m"
    using assms(3) by (cases n) auto
  have "80 < hit_rate (record_entry c True ((record_entry c True ^^ m) e))"
    using hits_rate [OF assms(1), of n c] assms(3) by (simp add: n word_less_nat_alt)
  then show ?thesis
    unfolding n using assms(2) by (simp add: record_entry_becomes_hot hits_exec)
qed

lemma known_hits:
  assumes "filled k s" and "profiling_enabled s" and "known s h = Some e"
  shows "filled k ((eml_profile_record h c b ^^ n) s) \<and> profiling_enabled ((eml_profile_record h c b ^^ n) s) \<and>
    known ((eml_profile_record h c b ^^ n) s) h = Some ((record_entry c b ^^ n) e)"
proof (induction n)
  case 0
  then show ?case using assms by simp
next
  case (Suc n)
  define s1 where "s1 = (eml_profile_record h c b ^^ n) s"
  have "profiling_enabled (eml_profile_record h c b s1) = profiling_enabled s1"
    by (simp add: eml_profile_record_def split: option.split)
  then show ?case
    using Suc profile_record_filled [of k s1 h c b] record_known_spec [of k s1 h c b]
    by (simp add: s1_def spec_record_def)
qed

lemma known_rate: "filled k s \<Longrightarrow> known s h = Some e \<Longrightarrow> unat (hit_rate e) \<le> 100"
proof -
  assume "filled k s" "known s h = Some e"
  then have "e \<in> set (profile_table s)" "rates_ok s"
    by (auto simp: known_def find_hash_Some filled_def wf_eml_def split: if_splits)
  then show ?thesis
    by (auto simp: rates_ok_def word_le_nat_alt)
qed

section \<open>Statistics\<close>

lemma stats_fold:
  "fold (stats_step s) is (a, b, c) =
     (a + sum_list (map (\<lambda>i. hit_rate (profile_table s ! i) * exec_of s i div 100) (filter (slot_used s) is)),
      b + sum_list (map (\<lambda>i. (100 - hit_rate (profile_table s ! i)) * exec_of s i div 100) (filter (slot_used s) is)),
      c + of_nat (length (filter (\<lambda>i. slot_used s i \<and> is_hot_path (profile_table s ! i)) is)))"
  by (induction "is" arbitrary: a b c) (simp_all add: stats_step_def Let_def add.assoc)

section \<open>States of the witnesses\<close>

lemma hash_demo: "eml_hash_expr (Some [1, 0]) 2 = Inr 17"
  by (simp add: eml_hash_expr_def hash_loop.simps compress_hash_def)

lemma hash_zero: "eml_hash_expr (Some [0xFFFD4A5B]) 1 = Inr 0"
  by (simp add: eml_hash_expr_def hash_loop.simps compress_hash_def)

definition one_expr :: eml_state where
  "one_expr = install 0 17 eml_boot"

lemma boot_none: "h \<noteq> 0 \<Longrightarrow> find_hash eml_boot h = None"
  using eml_boot_filled by (auto simp: find_hash_None filled_def)

lemma precompile_boot:
  "eml_precompile g st (Some [1, 0]) 2 pol (eml_boot, d) = Inr (17, one_expr, set_dag_mode g st d)"
  by (simp add: precompile_new [OF hash_demo boot_none eml_boot_filled] one_expr_def)

lemma one_expr_reachable: "eml_reachable one_expr"
  using precompile_boot [of "\<lambda>d. d" "\<lambda>v _. v" 0 0] by (auto intro: eml_step.precompile)

lemma one_expr_simps: "filled 1 one_expr" "profiling_enabled one_expr"
  "known one_expr = [17 \<mapsto> \<lparr>expr_hash = 17, execution_count = 1, avg_cycles = 0, hit_rate = 0, is_hot_path = False\<rparr>]"
proof -
  show "filled 1 one_expr"
    using filled_install [OF eml_boot_filled, of 17] boot_none [of 17]
    by (simp add: one_expr_def find_hash_None)
  show "profiling_enabled one_expr"
    by (simp add: one_expr_def install_def eml_boot_def)
  have "known eml_boot = Map.empty"
    using boot_none by (auto simp: known_def)
  then show "known one_expr = [17 \<mapsto> \<lparr>expr_hash = 17, execution_count = 1, avg_cycles = 0, hit_rate = 0, is_hot_path = False\<rparr>]"
    using known_install [OF eml_boot_filled boot_none [of 17]] by (simp add: one_expr_def spec_precompile_def)
qed

text \<open>The same tree submitted again, a hundred times; then a run of cache hits.\<close>

definition resubmit :: "eml_state \<Rightarrow> eml_state" where
  "resubmit s = fst (snd (projr (eml_precompile (\<lambda>d :: u32. d) (\<lambda>v _. v) (Some [1, 0]) 2 0 (s, 0))))"

lemma resubmit_step:
  assumes s: "filled k s" and e: "known s 17 = Some e"
  shows "eml_step s (resubmit s)" "filled k (resubmit s)"
    "profiling_enabled (resubmit s) = profiling_enabled s"
    "known (resubmit s) 17 = Some (e\<lparr>execution_count := execution_count e + 1\<rparr>)"
proof -
  obtain i where i: "find_hash s 17 = Some i" "e = profile_table s ! i"
    using e by (auto simp: known_def)
  note run = precompile_known [OF hash_demo i(1), of "\<lambda>d. d" "\<lambda>v _. v" 0 "0 :: u32"]
  then have eq: "resubmit s = update_entry i (\<lambda>e. e\<lparr>execution_count := execution_count e + 1\<rparr>) s"
    by (simp add: resubmit_def)
  show "eml_step s (resubmit s)"
    unfolding eq by (rule eml_step.precompile [OF run])
  show "filled k (resubmit s)"
    unfolding eq using s i(1) by (intro filled_update_entry) (simp_all add: find_hash_Some)
  show "profiling_enabled (resubmit s) = profiling_enabled s"
    by (simp add: eq)
  show "known (resubmit s) 17 = Some (e\<lparr>execution_count := execution_count e + 1\<rparr>)"
    unfolding eq by (simp add: known_update_entry [OF s i(1)] i(2))
qed

lemma resubmit_many:
  "\<exists>e. eml_reachable ((resubmit ^^ n) one_expr) \<and> filled 1 ((resubmit ^^ n) one_expr) \<and>
     profiling_enabled ((resubmit ^^ n) one_expr) \<and> known ((resubmit ^^ n) one_expr) 17 = Some e \<and>
     execution_count e = of_nat (Suc n)"
proof (induction n)
  case 0
  then show ?case
    using one_expr_reachable by (simp add: one_expr_simps del: One_nat_def)
next
  case (Suc n)
  then obtain e where e: "eml_reachable ((resubmit ^^ n) one_expr)" "filled 1 ((resubmit ^^ n) one_expr)"
    "profiling_enabled ((resubmit ^^ n) one_expr)" "known ((resubmit ^^ n) one_expr) 17 = Some e"
    "execution_count e = of_nat (Suc n)" by blast
  show ?case
    using resubmit_step [OF e(2,4)] e(1,3,5) by (auto intro: rtranclp.rtrancl_into_rtrancl)
qed

definition busy :: eml_state where
  "busy = (resubmit ^^ 100) one_expr"

lemma busy_facts:
  obtains e where "eml_reachable busy" "filled 1 busy" "profiling_enabled busy" "known busy 17 = Some e"
    "execution_count e = 101"
  using resubmit_many [of 100] unfolding busy_def by auto

lemma hits_reachable: "eml_reachable s \<Longrightarrow> eml_reachable ((eml_profile_record h c b ^^ n) s)"
  by (induction n) (auto intro: rtranclp.rtrancl_into_rtrancl eml_step.record_op)

lemma busy_hot: "eml_is_hot_path 17 ((eml_profile_record 17 5 True ^^ 17) busy)"
proof -
  obtain e where e: "filled 1 busy" "profiling_enabled busy" "known busy 17 = Some e"
    "execution_count e = 101" by (rule busy_facts)
  show ?thesis
    using known_hits [OF e(1-3), where c = 5 and b = True and n = 17]
      hits_hot [OF known_rate [OF e(1,3)], of 17 5] e(4)
    by (intro known_hot) (auto simp: EML_HOT_THRESHOLD_def)
qed

section \<open>Properties\<close>

text \<open>C7: In every state that calls of the entry points reach, exactly the first \<open>k\<close> slots are
  used, with \<open>k\<close> below 256; they hold distinct non-zero identifiers below 256, and no hit rate
  exceeds 100. So \<open>eml_precompile\<close> always finds an empty slot and never evicts.\<close>

theorem table_never_full:
  assumes "eml_reachable s"
  shows "\<exists>k < EML_PROFILE_SIZE. (\<forall>i < EML_PROFILE_SIZE. slot_used s i \<longleftrightarrow> i < k) \<and>
    inj_on (slot_hash s) {..<k} \<and> (\<forall>i < k. 0 < slot_hash s i \<and> slot_hash s i < 256) \<and>
    (\<forall>e \<in> set (profile_table s). hit_rate e \<le> 100) \<and> alloc_slot s = (Some k, s)"
proof -
  obtain k where k: "filled k s"
    using assms by (rule reach_filled)
  then show ?thesis
    using filled_less [OF k] alloc_slot_filled [OF k]
    by (auto simp: filled_def rates_ok_def word_neq_0_conv intro!: exI [of _ k])
qed

theorem table_never_full_witness:
  "\<exists>k < EML_PROFILE_SIZE. alloc_slot one_expr = (Some k, one_expr)"
  using table_never_full [OF one_expr_reachable] by blast

text \<open>C5: \<open>eml_precompile\<close> refines the map of known expressions: it returns the identifier of the
  tree, a new identifier is entered with one execution and a known one gains an execution, and
  the DAG_MODE write happens exactly for a new identifier. The identifier 0, which the interface
  gives to failures, is the hash of some trees: then nothing becomes known and no CSR is written.\<close>

theorem precompile_refines:
  assumes "eml_reachable s"
    and "eml_precompile get_cfg set_cfg (Some t) depth pol (s, d) = Inr (r, s', d')"
  shows "eml_hash_expr (Some t) depth = Inr r \<and>
    known s' = (if r = 0 then known s else spec_precompile r (known s)) \<and>
    d' = (if r \<noteq> 0 \<and> known s r = None then set_cfg (get_cfg d OR push_bit 5 1) d else d)"
proof -
  obtain k where k: "filled k s"
    using assms(1) by (rule reach_filled)
  show ?thesis
    using precompile_known_spec [OF k assms(2)] by (simp add: set_dag_mode_def)
qed

theorem precompile_refines_witness:
  "known (fst (snd (projr (eml_precompile (\<lambda>d. d) (\<lambda>v _. v) (Some [1, 0]) 2 0 (eml_boot, 0 :: u32))))) =
     spec_precompile 17 (known eml_boot)"
  using precompile_refines [OF rtranclp.rtrancl_refl precompile_boot [of "\<lambda>d. d" "\<lambda>v _. v" 0 "0 :: u32"]]
  by (simp add: precompile_boot)

text \<open>C6: \<open>eml_profile_record\<close> and \<open>eml_is_hot_path\<close> refine the map as well: a record updates the
  entry of a known identifier while profiling is on and is ignored otherwise, and a non-zero
  identifier is hot exactly when its entry is.\<close>

theorem record_refines:
  assumes "eml_reachable s"
  shows "known (eml_profile_record h cycles cache_hit s) =
      (if profiling_enabled s then spec_record h cycles cache_hit (known s) else known s) \<and>
    (h \<noteq> 0 \<longrightarrow> eml_is_hot_path h s = (case known s h of None \<Rightarrow> False | Some e \<Rightarrow> is_hot_path e))"
proof -
  obtain k where k: "filled k s"
    using assms by (rule reach_filled)
  show ?thesis
    using record_known_spec [OF k] hot_known [OF k] by simp
qed

theorem record_refines_witness:
  "known (eml_profile_record 17 6 True one_expr) = spec_record 17 6 True (known one_expr)"
  using record_refines [OF one_expr_reachable, of 17 6 True] by (simp add: one_expr_simps)

text \<open>An expression that is hot stays hot under every later call, because nothing clears
  \<open>is_hot_path\<close> and no entry is evicted.\<close>

lemma hot_forever:
  assumes "eml_reachable s" and "eml_step\<^sup>*\<^sup>* s s'" and "h \<noteq> 0" and "eml_is_hot_path h s"
  shows "eml_is_hot_path h s'"
proof -
  obtain k where k: "filled k s"
    using assms(1) by (rule reach_filled)
  obtain k' where k': "filled k' s'"
    using rtranclp_trans [OF assms(1,2)] by (rule reach_filled)
  show ?thesis
    using steps_hot [OF assms(2), of h] k assms(3,4) hot_iff [OF k assms(3)] hot_iff [OF k' assms(3)]
    unfolding eml_inv_def by blast
qed

text \<open>Profiling promotes: a known expression with more than 100 executions is hot after any 17
  or more recorded cache hits in a row while profiling is on.\<close>

lemma hits_promote:
  assumes "eml_reachable s" and "profiling_enabled s" and "known s h = Some e"
    and "EML_HOT_THRESHOLD < execution_count e" and "17 \<le> n"
  shows "eml_is_hot_path h ((eml_profile_record h cycles True ^^ n) s)"
proof -
  obtain k where k: "filled k s"
    using assms(1) by (rule reach_filled)
  show ?thesis
    using known_hits [OF k assms(2,3), where c = cycles and b = True and n = n]
      hits_hot [OF known_rate [OF k assms(3)] assms(4,5)] by (blast intro: known_hot)
qed

text \<open>\<open>eml_hash_expr\<close> is the DJB2 hash of the words before the terminator, folded to a byte
  by exclusive or; it reads outside the tree exactly when neither a zero word nor the depth ends
  the scan within it.\<close>

lemma hash_expr_djb2:
  "eml_hash_expr (Some t) depth =
     (if depth = 0 then Inr 0
      else if unat depth \<le> length t \<or> 0 \<in> set t then
        Inr (let h = djb2 5381 (expr_words depth t)
             in ucast (byte_of 0 h XOR byte_of 1 h XOR byte_of 2 h XOR byte_of 3 h))
      else Inl OutOfBounds)"
  using hash_loop_djb2 [of 0 t depth 5381]
  by (simp add: eml_hash_expr_def expr_words_def compress_hash_bytes Let_def)

text \<open>\<open>eml_find_cold_slot\<close> frees the first of the used slots with the least execution count
  among those that are not hot and touches nothing else; it finds none only when all of these
  have the greatest count.\<close>

lemma cold_slot_choice:
  assumes "wf_eml s"
  shows "case eml_find_cold_slot s of
      (None, s') \<Rightarrow> s' = s \<and> (\<forall>j < EML_PROFILE_SIZE. cold_candidate s j \<longrightarrow> exec_of s j = 0xFFFFFFFF)
    | (Some i, s') \<Rightarrow> i < EML_PROFILE_SIZE \<and> cold_candidate s i \<and>
        (\<forall>j < EML_PROFILE_SIZE. cold_candidate s j \<longrightarrow> exec_of s i \<le> exec_of s j) \<and>
        (\<forall>j < i. cold_candidate s j \<longrightarrow> exec_of s i < exec_of s j) \<and>
        profile_table s' = profile_table s \<and> (\<forall>j. slot_used s' j \<longleftrightarrow> j \<noteq> i \<and> slot_used s j)"
proof -
  obtain r s' where r: "eml_find_cold_slot s = (r, s')"
    by fastforce
  show ?thesis
  proof (cases r)
    case None
    then show ?thesis
      using find_cold_None [of s s'] r by simp
  next
    case (Some i)
    note facts = find_cold_Some [OF r [unfolded Some] assms]
    show ?thesis
      unfolding r Some using facts(1-5) facts(6) by simp
  qed
qed

text \<open>\<open>eml_get_stats\<close> sums over the used slots the hits and misses that rate and count give,
  in 32-bit arithmetic, and counts the hot ones.\<close>

lemma stats_sums:
  "eml_get_stats s =
     (\<Sum>i\<leftarrow>filter (slot_used s) slots. hit_rate (profile_table s ! i) * exec_of s i div 100,
      \<Sum>i\<leftarrow>filter (slot_used s) slots. (100 - hit_rate (profile_table s ! i)) * exec_of s i div 100,
      of_nat (length (filter (\<lambda>i. slot_used s i \<and> is_hot_path (profile_table s ! i)) slots)))"
  by (simp add: eml_get_stats_def stats_fold)

text \<open>A tree whose hash is 0 gives the failure value 0 although nothing failed, and it counts an
  execution in the first free slot, which stays free: the word 0xFFFD4A5B alone is such a tree.\<close>

lemma zero_hash_is_failure:
  assumes "eml_reachable s"
  shows "\<exists>i. \<not> slot_used s i \<and>
    eml_precompile get_cfg set_cfg (Some [0xFFFD4A5B]) 1 pol (s, d) =
      Inr (0, update_entry i (\<lambda>e. e\<lparr>execution_count := execution_count e + 1\<rparr>) s, d)"
proof -
  obtain k where k: "filled k s"
    using assms by (rule reach_filled)
  show ?thesis
    using precompile_known [OF hash_zero find_hash_zero_filled [OF k]] k filled_less [OF k]
    by (auto simp: filled_def intro!: exI [of _ k])
qed

end
