(* ===== verification/Fw_Snn_Temporal.thy ===== *)
theory Fw_Snn_Temporal
  imports Soft_Float
begin

text \<open>
  \<open>firmware/snn_temporal.c\<close>: time-to-first-spike coding and the STDP rule in software. The
  file-scope variables and the function-local \<open>static\<close> arrays are the record \<open>snn_state\<close>.
  What the missing headers \<open>snn_unit.h\<close> and \<open>radio_interface.h\<close> and the C library give is
  an argument: the CSR accessors, the two clock macros, \<open>expf\<close>, \<open>malloc\<close> and \<open>free\<close>. A cast
  of a \<open>float\<close> that is not in the range of the integer type is \<open>BadConversion\<close>.
\<close>

section \<open>State\<close>

record snn_ttfs_config_t =
  window_us :: u32
  refractory_cycles :: u32
  threshold :: fp
  leak_rate :: fp
  ttfs_enabled :: bool

record snn_state =
  ttfs_config :: snn_ttfs_config_t
  temporal_window_start :: u32
  current_cycle :: u32
  spike_train_buffer :: "u32 option"
  buffer_size :: u32
  membrane_potentials :: "fp list"
  refractory_timers :: "u32 list"
  temporal_windows :: "u32 list"
  thresholds :: "fp list"

definition f_zero :: fp where "f_zero = FNum False 0 0"
definition f_one :: fp where "f_one = FNum False 1 0"

text \<open>The statics before any call: zero bits, which are \<open>0.0f\<close>, \<open>false\<close> and \<open>NULL\<close>.\<close>

definition snn_boot :: snn_state where
  "snn_boot = \<lparr>ttfs_config = \<lparr>window_us = 0, refractory_cycles = 0, threshold = f_zero,
                              leak_rate = f_zero, ttfs_enabled = False\<rparr>,
     temporal_window_start = 0, current_cycle = 0, spike_train_buffer = None, buffer_size = 0,
     membrane_potentials = replicate 256 f_zero, refractory_timers = replicate 256 0,
     temporal_windows = replicate 256 0, thresholds = replicate 256 f_zero\<rparr>"

section \<open>Configuration\<close>

definition ttfs_csr :: "u32 \<Rightarrow> u32 \<Rightarrow> u32" where
  "ttfs_csr window csr_val =
     ((csr_val OR push_bit 7 1) AND 0xFFFFF1FF) OR push_bit 8 ((window div 100) AND 0x7)"

text \<open>\<open>get_csr\<close> and \<open>set_csr\<close> are \<open>snn_get_csr(0x7C5)\<close> and \<open>snn_set_csr(0x7C5, v)\<close>.\<close>

definition snn_ttfs_config ::
  "('d \<Rightarrow> u32) \<Rightarrow> (u32 \<Rightarrow> 'd \<Rightarrow> 'd) \<Rightarrow> u32 \<Rightarrow> u32 \<Rightarrow> snn_state \<times> 'd \<Rightarrow> bool \<times> snn_state \<times> 'd" where
  "snn_ttfs_config get_csr set_csr window refractory sd =
     (case sd of (s, d) \<Rightarrow>
        if window = 0 \<or> refractory = 0 then (False, s, d)
        else (True,
              s\<lparr>ttfs_config := (ttfs_config s)\<lparr>window_us := window, refractory_cycles := refractory\<rparr>\<rparr>,
              set_csr (ttfs_csr window (get_csr d)) d))"

definition snn_init_temporal_coding ::
  "(u32 \<Rightarrow> 'h \<Rightarrow> u32 option \<times> 'h) \<Rightarrow> snn_state \<times> 'h \<Rightarrow> snn_state \<times> 'h" where
  "snn_init_temporal_coding malloc sh =
     (case sh of (s, h) \<Rightarrow>
        (case malloc (1024 * 1) h of
           (p, h') \<Rightarrow>
             (s\<lparr>ttfs_config := \<lparr>window_us = 1000, refractory_cycles = 10,
                  threshold = flit binary32 5 10, leak_rate = flit binary32 1 10,
                  ttfs_enabled = False\<rparr>,
                buffer_size := 1024, spike_train_buffer := p, current_cycle := 0\<rparr>, h')))"

definition snn_deinit_temporal_coding ::
  "(u32 \<Rightarrow> 'h \<Rightarrow> 'h) \<Rightarrow> snn_state \<times> 'h \<Rightarrow> snn_state \<times> 'h" where
  "snn_deinit_temporal_coding free sh =
     (case sh of (s, h) \<Rightarrow>
        (case spike_train_buffer s of
           Some p \<Rightarrow> (s\<lparr>spike_train_buffer := None\<rparr>, free p h)
         | None \<Rightarrow> (s, h)))"

definition stdp_csr :: "u8 \<Rightarrow> u32 \<Rightarrow> u32" where
  "stdp_csr policy csr_val = (csr_val AND 0xFFFF0FFF) OR push_bit 12 (ucast policy AND 0xF)"

definition snn_configure_stdp ::
  "('d \<Rightarrow> u32) \<Rightarrow> (u32 \<Rightarrow> 'd \<Rightarrow> 'd) \<Rightarrow> u8 \<Rightarrow> 'd \<Rightarrow> bool \<times> 'd" where
  "snn_configure_stdp get_csr set_csr policy d = (True, set_csr (stdp_csr policy (get_csr d)) d)"

definition snn_get_ttfs_stats :: "fp \<times> fp" where
  "snn_get_ttfs_stats = (flit binary32 40 1, flit binary32 95 1)"

section \<open>The encoder of I/Q samples\<close>

text \<open>\<open>(ttfs_config.window_us * SYSTEM_FREQ_MHZ) / 1000000\<close> in \<open>uint32_t\<close>.\<close>

definition window_cycles :: "u32 \<Rightarrow> snn_ttfs_config_t \<Rightarrow> u32" where
  "window_cycles mhz cfg = (window_us cfg * mhz) div 1000000"

definition leak :: "snn_ttfs_config_t \<Rightarrow> fp \<Rightarrow> fp \<Rightarrow> fp" where
  "leak cfg v inp = fadd binary32 (fmul binary32 v (fsub binary32 f_one (leak_rate cfg))) inp"

definition magnitude :: "fp \<Rightarrow> fp \<Rightarrow> fp" where
  "magnitude a b = fsqrt binary32 (fadd binary32 (fmul binary32 a a) (fmul binary32 b b))"

record enc =
  spike_count :: u32
  membrane_potential :: fp
  refractory_timer :: u32
  window_timer :: u32
  encoded_output :: "u8 list"

text \<open>The guarded block of the loop body: leak, threshold crossing, spike.\<close>

definition enc_integrate :: "snn_ttfs_config_t \<Rightarrow> u32 \<Rightarrow> u32 \<Rightarrow> fp \<Rightarrow> enc \<Rightarrow> ub + enc" where
  "enc_integrate cfg W i intensity st =
     (if refractory_timer st = 0 then
        let v = leak cfg (membrane_potential st) intensity
        in if window_timer st < W \<and> fge v (threshold cfg) then
             (case put (encoded_output st) (spike_count st) (ucast (i mod 256)) of
                None \<Rightarrow> Inl OutOfBounds
              | Some out \<Rightarrow>
                  Inr (st\<lparr>encoded_output := out, spike_count := spike_count st + 1,
                          membrane_potential := f_zero, refractory_timer := refractory_cycles cfg,
                          window_timer := W\<rparr>))
           else Inr (st\<lparr>membrane_potential := v\<rparr>)
      else Inr st)"

definition enc_timers :: "u32 \<Rightarrow> enc \<Rightarrow> enc" where
  "enc_timers W st =
     (let st1 = (if 0 < refractory_timer st
                 then st\<lparr>refractory_timer := refractory_timer st - 1\<rparr> else st)
      in if W \<le> window_timer st1
         then st1\<lparr>window_timer := 0, membrane_potential := f_zero\<rparr>
         else st1\<lparr>window_timer := window_timer st1 + 1\<rparr>)"

definition enc_step ::
  "snn_ttfs_config_t \<Rightarrow> u32 \<Rightarrow> fp list \<Rightarrow> u32 \<Rightarrow> enc \<Rightarrow> ub + enc" where
  "enc_step cfg W iq i st =
     (case (fetch iq i, fetch iq (i + 1)) of
        (Some a, Some b) \<Rightarrow> map_sum id (enc_timers W) (enc_integrate cfg W i (magnitude a b) st)
      | _ \<Rightarrow> Inl OutOfBounds)"

text \<open>\<open>i += 2\<close> wraps when \<open>sample_count\<close> is the greatest \<open>uint32_t\<close>, so the loop is partial.\<close>

partial_function (option) enc_loop ::
  "snn_ttfs_config_t \<Rightarrow> u32 \<Rightarrow> fp list \<Rightarrow> u32 \<Rightarrow> u32 \<Rightarrow> u32 \<Rightarrow> enc \<Rightarrow> (ub + enc) option" where
  "enc_loop cfg W iq n size_out i st =
     (if i < n \<and> \<not> size_out \<le> spike_count st then
        (case enc_step cfg W iq i st of
           Inl e \<Rightarrow> Some (Inl e)
         | Inr st' \<Rightarrow> enc_loop cfg W iq n size_out (i + 2) st')
      else Some (Inr st))"

definition enc_init :: "u8 list \<Rightarrow> enc" where
  "enc_init out = \<lparr>spike_count = 0, membrane_potential = f_zero, refractory_timer = 0,
                   window_timer = 0, encoded_output = out\<rparr>"

definition snn_encode_rf_to_ttfs ::
  "u32 \<Rightarrow> fp list option \<Rightarrow> u32 \<Rightarrow> u8 list option \<Rightarrow> u32 \<Rightarrow> snn_state
   \<Rightarrow> (ub + u32 \<times> u8 list option) option" where
  "snn_encode_rf_to_ttfs mhz iq_data sample_count output output_size s =
     (case (iq_data, output) of
        (Some iq, Some out) \<Rightarrow>
          map_option (map_sum id (\<lambda>st. (spike_count st, Some (encoded_output st))))
            (enc_loop (ttfs_config s) (window_cycles mhz (ttfs_config s)) iq sample_count
               output_size 0 (enc_init out))
      | _ \<Rightarrow> Some (Inr (0, output)))"

section \<open>One neuron, one cycle\<close>

text \<open>The four statements that touch the arrays at \<open>neuron_idx\<close>, which an \<open>uint8_t\<close> keeps
  within their 256 elements.\<close>

definition default_threshold :: "nat \<Rightarrow> snn_state \<Rightarrow> snn_state" where
  "default_threshold j s =
     (if feq (thresholds s ! j) f_zero
      then s\<lparr>thresholds := (thresholds s)[j := threshold (ttfs_config s)]\<rparr> else s)"

definition advance_window :: "u32 \<Rightarrow> nat \<Rightarrow> snn_state \<Rightarrow> snn_state" where
  "advance_window W j s =
     (let t = temporal_windows s ! j + 1
      in s\<lparr>temporal_windows := (temporal_windows s)[j := if W \<le> t then 0 else t]\<rparr>)"

definition snn_process_temporal_cycle :: "u32 \<Rightarrow> fp \<Rightarrow> u8 \<Rightarrow> snn_state \<Rightarrow> u8 \<times> snn_state" where
  "snn_process_temporal_cycle mhz input_current neuron_idx s0 =
     (let j = unat neuron_idx;
          s = default_threshold j s0;
          W = window_cycles mhz (ttfs_config s)
      in if 0 < refractory_timers s ! j then
           (0, s\<lparr>refractory_timers := (refractory_timers s)[j := refractory_timers s ! j - 1],
                 membrane_potentials := (membrane_potentials s)[j := f_zero]\<rparr>)
         else
           let v = leak (ttfs_config s) (membrane_potentials s ! j) input_current
           in if temporal_windows s ! j < W \<and> fge v (thresholds s ! j) then
                (1, advance_window W j
                      (s\<lparr>membrane_potentials := (membrane_potentials s)[j := f_zero],
                         refractory_timers :=
                           (refractory_timers s)[j := refractory_cycles (ttfs_config s)],
                         temporal_windows := (temporal_windows s)[j := W]\<rparr>))
              else
                (0, advance_window W j
                      (s\<lparr>membrane_potentials := (membrane_potentials s)[j := v]\<rparr>)))"

section \<open>STDP\<close>

definition A_PLUS :: fp where "A_PLUS = flit binary32 1 100"
definition A_MINUS :: fp where "A_MINUS = fneg (flit binary32 1 100)"
definition TAU_PLUS :: fp where "TAU_PLUS = flit binary32 20 1"
definition TAU_MINUS :: fp where "TAU_MINUS = flit binary32 20 1"

text \<open>\<open>delta_t\<close> is the \<open>int32_t\<close> with the bits of the difference; \<open>freq\<close> is \<open>SYSTEM_FREQ_HZ\<close>
  after its conversion to \<open>float\<close>.\<close>

definition delta_us :: "fp \<Rightarrow> u32 \<Rightarrow> fp" where
  "delta_us freq delta =
     fdiv binary32 (fmul binary32 (of_sint binary32 (sint delta)) (flit binary32 1000000 1)) freq"

definition stdp_value :: "(fp \<Rightarrow> fp) \<Rightarrow> fp \<Rightarrow> u32 \<Rightarrow> u32 \<Rightarrow> fp" where
  "stdp_value expf freq pre post =
     (if pre < post
      then fmul binary32 A_PLUS (expf (fdiv binary32 (fneg (delta_us freq (post - pre))) TAU_PLUS))
      else fmul binary32 A_MINUS
             (expf (fdiv binary32 (fneg (delta_us freq (pre - post))) TAU_MINUS)))"

definition clamp_weight :: "fp \<Rightarrow> fp" where
  "clamp_weight w =
     (if flt (flit binary32 127 1) w then flit binary32 127 1
      else if flt w (fneg (flit binary32 127 1)) then fneg (flit binary32 127 1) else w)"

definition to_int8 :: "fp \<Rightarrow> ub + 8 word" where
  "to_int8 x =
     (case ftrunc x of
        Some i \<Rightarrow> if -128 \<le> i \<and> i \<le> 127 then Inr (word_of_int i) else Inl BadConversion
      | None \<Rightarrow> Inl BadConversion)"

definition stdp_update :: "(fp \<Rightarrow> fp) \<Rightarrow> fp \<Rightarrow> u32 \<Rightarrow> u32 \<Rightarrow> 8 word \<Rightarrow> ub + 8 word" where
  "stdp_update expf freq pre post w =
     to_int8 (clamp_weight
       (fadd binary32 (of_sint binary32 (sint w)) (stdp_value expf freq pre post)))"

text \<open>The loop body: \<open>post_spikes[i]\<close> is read only when \<open>pre_spikes[i]\<close> is positive, and
  \<open>weights[i]\<close> only when both are.\<close>

definition stdp_at ::
  "(fp \<Rightarrow> fp) \<Rightarrow> fp \<Rightarrow> u32 list \<Rightarrow> u32 list \<Rightarrow> u32 \<Rightarrow> 8 word list \<Rightarrow> ub + 8 word list" where
  "stdp_at expf freq pre post i ws =
     (case fetch pre i of
        None \<Rightarrow> Inl OutOfBounds
      | Some p \<Rightarrow>
          if \<not> 0 < p then Inr ws
          else (case fetch post i of
                  None \<Rightarrow> Inl OutOfBounds
                | Some q \<Rightarrow>
                    if \<not> 0 < q then Inr ws
                    else (case fetch ws i of
                            None \<Rightarrow> Inl OutOfBounds
                          | Some w \<Rightarrow>
                              map_sum id (\<lambda>w'. ws[unat i := w']) (stdp_update expf freq p q w))))"

function stdp_loop ::
  "(fp \<Rightarrow> fp) \<Rightarrow> fp \<Rightarrow> u32 list \<Rightarrow> u32 list \<Rightarrow> u32 \<Rightarrow> u32 \<Rightarrow> 8 word list \<Rightarrow> ub + 8 word list" where
  "stdp_loop expf freq pre post n i ws =
     (if i < n then
        (case stdp_at expf freq pre post i ws of
           Inl e \<Rightarrow> Inl e
         | Inr ws' \<Rightarrow> stdp_loop expf freq pre post n (i + 1) ws')
      else Inr ws)"
  by pat_completeness auto
termination
  by (relation "measure (\<lambda>(expf, freq, pre, post, n, i, ws). unat n - unat i)")
    (auto dest: u32_inc(2))

declare stdp_loop.simps [simp del]

definition snn_apply_stdp_learning ::
  "(fp \<Rightarrow> fp) \<Rightarrow> fp \<Rightarrow> u32 list option \<Rightarrow> u32 list option \<Rightarrow> 8 word list option \<Rightarrow> u32
   \<Rightarrow> ub + 8 word list option" where
  "snn_apply_stdp_learning expf freq pre post weights n =
     (case (pre, post, weights) of
        (Some p, Some q, Some ws) \<Rightarrow> map_sum id Some (stdp_loop expf freq p q n 0 ws)
      | _ \<Rightarrow> Inr weights)"

section \<open>Continuous values\<close>

definition to_uint32 :: "fp \<Rightarrow> ub + u32" where
  "to_uint32 x =
     (case ftrunc x of
        Some i \<Rightarrow> if 0 \<le> i \<and> i < 2 ^ 32 then Inr (word_of_int i) else Inl BadConversion
      | None \<Rightarrow> Inl BadConversion)"

definition normalized :: "snn_ttfs_config_t \<Rightarrow> fp \<Rightarrow> fp" where
  "normalized cfg v =
     fdiv binary32 (fsub binary32 v (threshold cfg)) (fsub binary32 f_one (threshold cfg))"

definition spike_time :: "snn_ttfs_config_t \<Rightarrow> u32 \<Rightarrow> fp \<Rightarrow> ub + u32" where
  "spike_time cfg W v =
     (if flt (threshold cfg) v then
        map_sum id (\<lambda>t. if W \<le> t then W - 1 else t)
          (to_uint32 (fmul binary32 (fsub binary32 f_one (normalized cfg v))
                        (of_uint binary32 (unat W))))
      else Inr 0)"

function ttfs_loop ::
  "snn_ttfs_config_t \<Rightarrow> u32 \<Rightarrow> fp list \<Rightarrow> u32 \<Rightarrow> u32 \<Rightarrow> u32 \<Rightarrow> u32 list \<Rightarrow> ub + u32 \<times> u32 list" where
  "ttfs_loop cfg W vs n i windows out =
     (if i < n then
        (case fetch vs i of
           None \<Rightarrow> Inl OutOfBounds
         | Some v \<Rightarrow>
             (case spike_time cfg W v of
                Inl e \<Rightarrow> Inl e
              | Inr t \<Rightarrow>
                  (case put out i t of
                     None \<Rightarrow> Inl OutOfBounds
                   | Some out' \<Rightarrow> ttfs_loop cfg W vs n (i + 1) (windows + 1) out')))
      else Inr (windows, out))"
  by pat_completeness auto
termination
  by (relation "measure (\<lambda>(cfg, W, vs, n, i, windows, out). unat n - unat i)")
    (auto dest: u32_inc(2))

declare ttfs_loop.simps [simp del]

definition snn_encode_ttfs_continuous ::
  "u32 \<Rightarrow> fp list option \<Rightarrow> u32 \<Rightarrow> u32 list option \<Rightarrow> snn_state \<Rightarrow> ub + u32 \<times> u32 list option" where
  "snn_encode_ttfs_continuous mhz values n output s =
     (case (values, output) of
        (Some vs, Some out) \<Rightarrow>
          map_sum id (\<lambda>(k, o'). (k, Some o'))
            (ttfs_loop (ttfs_config s) (window_cycles mhz (ttfs_config s)) vs n 0 0 out)
      | _ \<Rightarrow> Inr (0, output))"

section \<open>The control words\<close>

lemma bits_FFFFF1FF: "k < 32 \<Longrightarrow> bit (0xFFFFF1FF :: u32) k \<longleftrightarrow> k < 9 \<or> 11 < k"
proof -
  have "\<forall>k \<in> set [0..<32]. bit (0xFFFFF1FF :: u32) k \<longleftrightarrow> k < 9 \<or> 11 < k" by code_simp
  then show "k < 32 \<Longrightarrow> ?thesis" by simp
qed
lemma bits_FFFF0FFF: "k < 32 \<Longrightarrow> bit (0xFFFF0FFF :: u32) k \<longleftrightarrow> k < 12 \<or> 15 < k"
proof -
  have "\<forall>k \<in> set [0..<32]. bit (0xFFFF0FFF :: u32) k \<longleftrightarrow> k < 12 \<or> 15 < k" by code_simp
  then show "k < 32 \<Longrightarrow> ?thesis" by simp
qed
lemma bits_7: "bit (7::u32) k \<longleftrightarrow> k < 3"
  using bit_mask_iff [where ?'a="32 word", of 3 k] by (auto simp: mask_eq_exp_minus_1 )
lemma bits_F: "bit (15::u32) k \<longleftrightarrow> k < 4"
  using bit_mask_iff [where ?'a="32 word", of 4 k] by (auto simp: mask_eq_exp_minus_1 )

lemma bit_ttfs_csr:
  assumes "k < 32" shows "bit (ttfs_csr window v) k \<longleftrightarrow>
     (if k = 7 then True
      else if 8 \<le> k \<and> k \<le> 10 then bit (window div 100) (k - 8) \<or> k = 8 \<and> bit v 8
      else if k = 11 then False else bit v k)"
  using assms unfolding ttfs_csr_def bit_or_iff bit_and_iff bits_FFFFF1FF [OF assms] bits_7 bit_one_shift bit_push_bit_iff possible_bit_def 
   by (cases "k = 8"; auto simp: bit_1_iff)

lemma bit_stdp_csr:
  assumes "k < 32" shows "bit (stdp_csr p v) k \<longleftrightarrow>
     (if 12 \<le> k \<and> k \<le> 15 then bit p (k - 12) else bit v k)"
  using assms unfolding stdp_csr_def bit_or_iff bit_and_iff bits_FFFF0FFF [OF assms] bits_F bit_push_bit_iff 
   by (auto simp: bit_simps)

section \<open>What the encoder computes\<close>

text \<open>
  By numbers of sample pairs and the list \<open>ps\<close> of the pairs that spike. A window begins at the start, after a
  spike, and \<open>W + 1\<close> pairs after the last beginning; \<open>rest\<close> is the end of the last refractory period.
  The potential is that of the pairs since the later of the two, from zero, and pair \<open>k\<close> spikes
  exactly when no refractory period is running, the window is open and that potential has reached the threshold.
\<close>

definition pair_magnitude :: "fp list \<Rightarrow> nat \<Rightarrow> fp" where
  "pair_magnitude iq k =
     (let I = iq ! (2 * k); Q = iq ! Suc (2 * k)
      in fsqrt binary32 (fadd binary32 (fmul binary32 I I) (fmul binary32 Q Q)))"

definition potential :: "snn_ttfs_config_t \<Rightarrow> fp list \<Rightarrow> fp" where
  "potential cfg xs =
     fold (\<lambda>x v. fadd binary32 (fmul binary32 v (fsub binary32 f_one (leak_rate cfg))) x) xs f_zero"

fun window_start :: "nat \<Rightarrow> nat list \<Rightarrow> nat \<Rightarrow> nat" where
  "window_start W ps 0 = 0"
| "window_start W ps (Suc k) = (if k \<in> set ps \<or> W \<le> k - window_start W ps k then Suc k else window_start W ps k)"

definition rest :: "nat \<Rightarrow> nat list \<Rightarrow> nat" where
  "rest R ps = foldr (\<lambda>p. max (p + R)) ps 0"

definition rise :: "nat \<Rightarrow> nat \<Rightarrow> nat list \<Rightarrow> nat \<Rightarrow> nat" where
  "rise R W ps k = max (window_start W ps k) (rest R (filter (\<lambda>p. p < k) ps))"

definition fires :: "snn_ttfs_config_t \<Rightarrow> nat \<Rightarrow> (nat \<Rightarrow> fp) \<Rightarrow> nat list \<Rightarrow> nat \<Rightarrow> bool" where
  "fires cfg W xs ps k \<longleftrightarrow>
     (let R = unat (refractory_cycles cfg) in
      rest R (filter (\<lambda>p. p < k) ps) \<le> k \<and> k - window_start W ps k < W \<and>
      fge (potential cfg (map xs [rise R W ps k..<Suc k])) (threshold cfg))"

lemma potential_simps: "potential cfg [] = f_zero" "potential cfg (xs @ [x]) = leak cfg (potential cfg xs) x"
  by (simp_all add: potential_def leak_def)

lemma window_start_le: "window_start W ps k \<le> k" "k - window_start W ps k \<le> W"
  by (induction k) auto

lemma window_start_snoc: "j \<le> k \<Longrightarrow> window_start W (ps @ [k]) j = window_start W ps j"
  by (induction j) auto

lemma rest_snoc: "rest R (ps @ [k]) = max (rest R ps) (k + R)"
  by (induction ps) (auto simp: rest_def)

lemma rest_le: "rest R ps \<le> b \<longleftrightarrow> (\<forall>p \<in> set ps. p + R \<le> b)"
  by (induction ps) (auto simp: rest_def)

lemma earlier: "\<forall>p \<in> set ps. p < k \<Longrightarrow> filter (\<lambda>p. p < k) ps = ps"
  by (simp add: filter_True)

lemma fires_snoc: "j \<le> k \<Longrightarrow> fires cfg W xs (ps @ [k]) j = fires cfg W xs ps j"
  by (simp add: fires_def rise_def window_start_snoc)

text \<open>
  \<open>enc_inv cfg W xs out k ps st\<close>: before pair \<open>k\<close> the encoder has spiked at the pairs \<open>ps\<close>, the ones that fire;
  the output holds their low bytes and is unchanged beyond; the timers and the potential are the ones above.
\<close>

definition enc_inv ::
  "snn_ttfs_config_t \<Rightarrow> nat \<Rightarrow> (nat \<Rightarrow> fp) \<Rightarrow> u8 list \<Rightarrow> nat \<Rightarrow> nat list \<Rightarrow> enc \<Rightarrow> bool" where
  "enc_inv cfg W xs out k ps st \<longleftrightarrow>
     (let R = unat (refractory_cycles cfg) in
      length ps = unat (spike_count st) \<and> length ps \<le> length out \<and>
      encoded_output st = map (\<lambda>p. of_nat (2 * p mod 256)) ps @ drop (length ps) out \<and>
      sorted_wrt (\<lambda>p q. p + max 1 R \<le> q) ps \<and> (\<forall>p \<in> set ps. p < k) \<and>
      (\<forall>j < k. j \<in> set ps \<longleftrightarrow> fires cfg W xs ps j) \<and>
      unat (refractory_timer st) = rest R ps - k \<and> unat (window_timer st) = k - window_start W ps k \<and>
      membrane_potential st = potential cfg (map xs [rise R W ps k..<k]))"

lemma enc_inv_init: "enc_inv cfg W xs out 0 [] (enc_init out)"
  by (simp add: enc_inv_def enc_init_def rest_def potential_simps Let_def)

lemma low_byte: "ucast (i mod 256 :: u32) = (of_nat (unat i mod 256) :: u8)"
  by (simp add: word_unat_eq_iff unsigned_ucast_eq unat_of_nat unat_mod take_bit_eq_mod)

text \<open>The timers after a pair.\<close>

lemma enc_timers_simps:
  "spike_count (enc_timers W st) = spike_count st" "encoded_output (enc_timers W st) = encoded_output st"
  "unat (refractory_timer (enc_timers W st)) = unat (refractory_timer st) - 1"
  "window_timer (enc_timers W st) = (if W \<le> window_timer st then 0 else window_timer st + 1)"
  "membrane_potential (enc_timers W st) = (if W \<le> window_timer st then f_zero else membrane_potential st)"
  by (cases "refractory_timer st = 0"; simp add: enc_timers_def Let_def unat_minus_one word_neq_0_conv)+

lemma window_tick: "unat t = k - w \<Longrightarrow> w \<le> k \<Longrightarrow> t < W \<Longrightarrow> unat (t + 1) = Suc k - w" for t W :: u32
  using u32_inc(1) [of t W] by simp

text \<open>A pair without a spike.\<close>

lemma enc_quiet_inv:
  assumes inv: "enc_inv cfg (unat W) xs out k ps st" and quiet: "\<not> fires cfg (unat W) xs ps k"
    and v: "v = (if refractory_timer st = 0 then leak cfg (membrane_potential st) (xs k) else membrane_potential st)"
  shows "enc_inv cfg (unat W) xs out (Suc k) ps (enc_timers W (st\<lparr>membrane_potential := v\<rparr>))"
proof -
  define R where "R = unat (refractory_cycles cfg)"
  note i = inv [unfolded enc_inv_def Let_def, folded R_def]
  have notin: "k \<notin> set ps" and e: "filter (\<lambda>p. p < k) ps = ps" "filter (\<lambda>p. p < Suc k) ps = ps"
    using i by (auto intro!: earlier simp: less_Suc_eq)
  have r: "rise R (unat W) ps j = max (window_start (unat W) ps j) (rest R ps)" if "j = k \<or> j = Suc k" for j
    using that e by (auto simp: rise_def)
  note le = window_start_le(1) [of "unat W" ps k]
  have w: "W \<le> window_timer st \<longleftrightarrow> unat W \<le> k - window_start (unat W) ps k"
    using i by (simp add: word_le_nat_alt)
  have "v = potential cfg (map xs [rise R (unat W) ps k..<Suc k])"
  proof (cases "rest R ps \<le> k")
    case True
    then have "refractory_timer st = 0"
      using i by (simp add: unat_eq_zero)
    then show ?thesis
      using True i le v by (simp add: r potential_simps)
  next
    case False
    then have "0 < unat (refractory_timer st)"
      using i by simp
    then show ?thesis
      using False i v by (auto simp: r potential_simps)
  qed
  moreover have "unat (window_timer st + 1) = Suc k - window_start (unat W) ps k" if "\<not> W \<le> window_timer st"
    by (rule window_tick [where W = W]) (use that i le in auto)
  ultimately show ?thesis
    using i notin w quiet unfolding enc_inv_def Let_def R_def [symmetric] enc_timers_simps
    by (auto simp: less_Suc_eq r potential_simps)
qed

text \<open>A pair with a spike.\<close>

lemma enc_spike_inv:
  assumes inv: "enc_inv cfg (unat W) xs out k ps st" and fires: "fires cfg (unat W) xs ps k"
    and i: "unat (i :: u32) = 2 * k"
    and room: "unat (spike_count st) < length out" "unat (spike_count st + 1) = Suc (unat (spike_count st))"
  defines "st' \<equiv> st\<lparr>encoded_output := (encoded_output st)[unat (spike_count st) := ucast (i mod 256)],
      spike_count := spike_count st + 1, membrane_potential := f_zero,
      refractory_timer := refractory_cycles cfg, window_timer := W\<rparr>"
  shows "enc_inv cfg (unat W) xs out (Suc k) (ps @ [k]) (enc_timers W st')"
proof -
  define R where "R = unat (refractory_cycles cfg)"
  note h = inv [unfolded enc_inv_def Let_def, folded R_def]
  have len: "length ps = unat (spike_count st)" "length ps < length out"
    using h room by simp_all
  have e: "filter (\<lambda>p. p < k) ps = ps" "filter (\<lambda>p. p < Suc k) ps = ps"
    using h by (auto intro!: earlier simp: less_Suc_eq)
  have rest: "rest R ps \<le> k"
    using fires e by (simp add: fires_def Let_def R_def)
  then have "\<forall>p \<in> set ps. p + max 1 R \<le> k"
    using h by (auto simp: rest_le nat_add_max_right Suc_le_eq)
  moreover have "(encoded_output st)[unat (spike_count st) := ucast (i mod 256)] =
      map (\<lambda>p. of_nat (2 * p mod 256)) (ps @ [k]) @ drop (Suc (length ps)) out"
    using h len i by (simp add: list_update_append low_byte Cons_nth_drop_Suc [symmetric])
  moreover have "\<forall>j < Suc k. j \<in> set (ps @ [k]) \<longleftrightarrow> fires cfg (unat W) xs (ps @ [k]) j"
    using h fires by (auto simp: less_Suc_eq fires_snoc)
  moreover have "window_start (unat W) (ps @ [k]) (Suc k) = Suc k"
    by simp
  moreover have "unat (refractory_cycles cfg) - 1 = rest R (ps @ [k]) - Suc k"
    using rest by (simp add: rest_snoc R_def)
  ultimately show ?thesis
    using h len room unfolding enc_inv_def Let_def R_def [symmetric] enc_timers_simps st'_def
    by (auto simp: sorted_wrt_append rise_def potential_simps less_Suc_eq R_def simp del: window_start.simps)
qed

lemma enc_pair:
  assumes inv: "enc_inv cfg (unat W) xs out k ps st" and i: "unat i = 2 * k"
    and room: "spike_count st < size_out" "unat size_out \<le> length out"
  obtains st' ps' where "enc_integrate cfg W i (xs k) st = Inr st'"
    "enc_inv cfg (unat W) xs out (Suc k) ps' (enc_timers W st')" "spike_count st' \<le> size_out"
proof -
  define v where "v = (if refractory_timer st = 0 then leak cfg (membrane_potential st) (xs k) else membrane_potential st)"
  define R where "R = unat (refractory_cycles cfg)"
  note h = inv [unfolded enc_inv_def Let_def, folded R_def]
  have e: "filter (\<lambda>p. p < k) ps = ps"
    using h by (auto intro!: earlier)
  have go: "refractory_timer st = 0 \<longleftrightarrow> rest R ps \<le> k"
    using h by (simp add: unat_eq_zero [symmetric])
  have w: "window_timer st < W \<longleftrightarrow> k - window_start (unat W) ps k < unat W"
    using h by (simp add: word_less_nat_alt)
  have "v = potential cfg (map xs [rise R (unat W) ps k..<Suc k])" if "rest R ps \<le> k"
    using that h go window_start_le(1) [of "unat W" ps k] e by (simp add: v_def potential_simps rise_def)
  then have f: "fires cfg (unat W) xs ps k \<longleftrightarrow> refractory_timer st = 0 \<and> window_timer st < W \<and> fge v (threshold cfg)"
    using go w e by (auto simp: fires_def Let_def R_def)
  show ?thesis
  proof (cases "fires cfg (unat W) xs ps k")
    case True
    have less: "unat (spike_count st) < length out"
      using room by (simp add: word_less_nat_alt)
    moreover have "length (encoded_output st) = length out"
      using h by simp
    ultimately have "put (encoded_output st) (spike_count st) (ucast (i mod 256)) =
        Some ((encoded_output st)[unat (spike_count st) := ucast (i mod 256)])"
      by (simp add: put_def)
    moreover have "refractory_timer st = 0" "window_timer st < W" "fge (leak cfg (membrane_potential st) (xs k)) (threshold cfg)"
      using f True by (auto simp: v_def)
    ultimately have "enc_integrate cfg W i (xs k) st = Inr (st\<lparr>encoded_output := (encoded_output st)[unat (spike_count st) := ucast (i mod 256)],
        spike_count := spike_count st + 1, membrane_potential := f_zero, refractory_timer := refractory_cycles cfg, window_timer := W\<rparr>)"
      by (simp add: enc_integrate_def Let_def)
    then show ?thesis
      by (rule that) (use enc_spike_inv [OF inv True i less] u32_inc(1) [OF room(1)] inc_le [OF room(1)] in simp_all)
  next
    case False
    then have "enc_integrate cfg W i (xs k) st = Inr (st\<lparr>membrane_potential := v\<rparr>)"
      using f v_def by (auto simp: enc_integrate_def Let_def)
    then show ?thesis
      using that enc_quiet_inv [OF inv False v_def] room(1) by simp
  qed
qed

text \<open>\<open>i += 2\<close> below an even bound.\<close>

lemma inc2:
  assumes "i < (n :: u32)" and "even (unat i)" and "even (unat n)"
  shows "unat (i + 1) = Suc (unat i)" "unat (i + 2) = Suc (Suc (unat i))" "Suc (unat i) < unat n" 
proof -
  show less: "Suc (unat i) < unat n"
    using assms by (metis Suc_lessI even_Suc word_less_nat_alt)
  moreover have n: "unat n < 2 ^ 32"
    using unsigned_less [of n, where ?'a = nat] by simp
  ultimately show "unat (i + 1) = Suc (unat i)" "unat (i + 2) = Suc (Suc (unat i))"
    using unat_add_small [of i 1] unat_add_small [of i 2] by simp_all
qed

lemma enc_loop_spikes:
  fixes iq
  defines "xs \<equiv> pair_magnitude iq"
  assumes n: "even (unat n)" "unat n \<le> length iq" and out: "unat size_out \<le> length out"
    and "enc_inv cfg (unat W) xs out k ps st" and "unat i = 2 * k" and "2 * k \<le> unat n" and "spike_count st \<le> size_out"
  shows "\<exists>st' ps' stop. enc_loop cfg W iq n size_out i st = Some (Inr st') \<and>
    enc_inv cfg (unat W) xs out stop ps' st' \<and> spike_count st' \<le> size_out \<and>
    2 * stop \<le> unat n \<and> (2 * stop = unat n \<or> spike_count st' = size_out)"
  using assms(5-)
proof (induction "unat n - unat i" arbitrary: i k ps st rule: less_induct)
  case less
  show ?case
  proof (cases "i < n \<and> \<not> size_out \<le> spike_count st")
    case False
    then have "enc_loop cfg W iq n size_out i st = Some (Inr st)"
      by (subst enc_loop.simps) auto
    moreover have "2 * k = unat n \<or> spike_count st = size_out"
      using False less.prems by (auto simp: word_less_nat_alt)
    ultimately show ?thesis
      using less.prems by blast
  next
    case True
    then have "even (unat i)"
      using less.prems(2) by simp
    note i = inc2 [OF conjunct1 [OF True] this n(1)]
    obtain st' ps' where st': "enc_integrate cfg W i (xs k) st = Inr st'"
        "enc_inv cfg (unat W) xs out (Suc k) ps' (enc_timers W st')" "spike_count st' \<le> size_out"
      using enc_pair [OF less.prems(1,2) _ out] True by (metis not_less)
    then have "enc_step cfg W iq i st = Inr (enc_timers W st')"
      using n i less.prems(2) by (simp add: enc_step_def fetch_def xs_def pair_magnitude_def magnitude_def Let_def)
    then have "enc_loop cfg W iq n size_out i st = enc_loop cfg W iq n size_out (i + 2) (enc_timers W st')"
      using True by (subst enc_loop.simps) simp
    moreover have "unat n - unat (i + 2) < unat n - unat i" "2 * Suc k \<le> unat n" "unat (i + 2) = 2 * Suc k"
      subgoal using i(2,3) by simp
      subgoal using i(3) less.prems(2) by simp
      subgoal using i(2) less.prems(2) by simp
      done
    ultimately show ?thesis
      using less.hyps [OF _ st'(2)] st'(3) by (simp add: enc_timers_simps)
  qed
qed

text \<open>Without a window there is no spike.\<close>

lemma enc_loop_no_window:
  assumes n: "even (unat n)" "unat n \<le> length iq"
    and "even (unat i)" and "spike_count st = 0"
  shows "\<exists>st'. enc_loop cfg 0 iq n size_out i st = Some (Inr st') \<and> spike_count st' = 0 \<and> encoded_output st' = encoded_output st"
  using assms(3-)
proof (induction "unat n - unat i" arbitrary: i st rule: less_induct)
  case less
  show ?case
  proof (cases "i < n \<and> \<not> size_out \<le> spike_count st")
    case False
    then have "enc_loop cfg 0 iq n size_out i st = Some (Inr st)"
      by (subst enc_loop.simps) auto
    then show ?thesis
      using less.prems by simp
  next
    case True
    note i = inc2 [OF conjunct1 [OF True] less.prems(1) n(1)]
    define st' where "st' = (case enc_integrate cfg 0 i (magnitude (iq ! unat i) (iq ! Suc (unat i))) st of Inr st' \<Rightarrow> enc_timers 0 st')"
    have st': "enc_step cfg 0 iq i st = Inr st'" "spike_count st' = 0" "encoded_output st' = encoded_output st"
      using n i less.prems(2) by (simp_all add: st'_def enc_step_def enc_integrate_def enc_timers_def Let_def fetch_def)
    then have loop: "enc_loop cfg 0 iq n size_out i st = enc_loop cfg 0 iq n size_out (i + 2) st'"
      using True by (subst enc_loop.simps) simp
    show ?thesis
      unfolding loop using less.hyps [of "i + 2" st'] st' i less.prems(1) by simp
  qed
qed

section \<open>Neurons\<close>

definition wf_snn :: "snn_state \<Rightarrow> bool" where
  "wf_snn s \<longleftrightarrow> length (membrane_potentials s) = 256 \<and> length (refractory_timers s) = 256 \<and>
     length (temporal_windows s) = 256 \<and> length (thresholds s) = 256"

text \<open>A sequence of calls, each with its neuron, and the outputs.\<close>

fun cycles :: "u32 \<Rightarrow> (fp \<times> u8) list \<Rightarrow> snn_state \<Rightarrow> (u8 \<times> u8) list \<times> snn_state" where
  "cycles mhz [] s = ([], s)"
| "cycles mhz ((x, n) # cs) s =
     (case snn_process_temporal_cycle mhz x n s of
        (out, s') \<Rightarrow> (case cycles mhz cs s' of (outs, s'') \<Rightarrow> ((n, out) # outs, s'')))"

lemma u8_index: "unat (n :: u8) < 256"
  using unsigned_less [of n, where ?'a = nat] by simp

lemma default_threshold_simps [simp]:
  "ttfs_config (default_threshold j s) = ttfs_config s"
  "membrane_potentials (default_threshold j s) = membrane_potentials s"
  "refractory_timers (default_threshold j s) = refractory_timers s"
  "temporal_windows (default_threshold j s) = temporal_windows s"
  "length (thresholds (default_threshold j s)) = length (thresholds s)"
  by (simp_all add: default_threshold_def)

lemma advance_window_simps [simp]:
  "ttfs_config (advance_window W j s) = ttfs_config s"
  "membrane_potentials (advance_window W j s) = membrane_potentials s"
  "refractory_timers (advance_window W j s) = refractory_timers s"
  "thresholds (advance_window W j s) = thresholds s"
  "length (temporal_windows (advance_window W j s)) = length (temporal_windows s)"
  by (simp_all add: advance_window_def Let_def)

lemma process_frame:
  assumes "snn_process_temporal_cycle mhz x n s = (out, s')"
  shows "ttfs_config s' = ttfs_config s" "wf_snn s \<Longrightarrow> wf_snn s'"
    "j \<noteq> unat n \<Longrightarrow> refractory_timers s' ! j = refractory_timers s ! j"
    "j \<noteq> unat n \<Longrightarrow> temporal_windows s' ! j = temporal_windows s ! j"
    "j \<noteq> unat n \<Longrightarrow> membrane_potentials s' ! j = membrane_potentials s ! j"
    "out = 0 \<or> out = 1"
  using assms
  by (auto simp: snn_process_temporal_cycle_def Let_def wf_snn_def advance_window_def split: if_splits)

lemma process_refractory:
  assumes "snn_process_temporal_cycle mhz x n s = (out, s')" and "wf_snn s"
    and "0 < refractory_timers s ! unat n"
  shows "out = 0" "refractory_timers s' ! unat n = refractory_timers s ! unat n - 1"
    "membrane_potentials s' ! unat n = f_zero"
  using assms u8_index [of n] by (auto simp: snn_process_temporal_cycle_def Let_def wf_snn_def)

lemma process_spike:
  assumes "snn_process_temporal_cycle mhz x n s = (1, s')" and "wf_snn s"
  shows "refractory_timers s' ! unat n = refractory_cycles (ttfs_config s)"
    "membrane_potentials s' ! unat n = f_zero" "0 < window_cycles mhz (ttfs_config s)"
  using assms u8_index [of n]
  by (auto simp: snn_process_temporal_cycle_def Let_def wf_snn_def split: if_splits
      dest: le_less_trans [OF word_zero_le])

lemma cycles_frame:
  "cycles mhz cs s = (outs, s') \<Longrightarrow> wf_snn s \<Longrightarrow> wf_snn s' \<and> ttfs_config s' = ttfs_config s"
proof (induction cs arbitrary: s outs)
  case (Cons c cs)
  then show ?case
    using process_frame(1,2) by (cases c) (fastforce split: prod.splits)
qed simp

lemma cycles_silent:
  assumes "cycles mhz cs s = (outs, s')" and "wf_snn s"
    and "length (filter (\<lambda>c. snd c = n) cs) \<le> unat (refractory_timers s ! unat n)"
  shows "\<forall>(m, out) \<in> set outs. m = n \<longrightarrow> out = 0"
  using assms
proof (induction cs arbitrary: s outs)
  case Nil
  then show ?case by simp
next
  case (Cons c cs)
  obtain x m where c: "c = (x, m)" by fastforce
  obtain out s1 where step: "snn_process_temporal_cycle mhz x m s = (out, s1)" by fastforce
  obtain outs' where rest: "cycles mhz cs s1 = (outs', s')" "outs = (m, out) # outs'"
    using Cons.prems(1) by (auto simp: c step split: prod.splits)
  note wf = process_frame(2) [OF step Cons.prems(2)]
  show ?case
  proof (cases "m = n")
    case True
    then have pos: "0 < refractory_timers s ! unat n"
      using Cons.prems(3) by (simp add: c word_less_nat_alt)
    then have "unat (refractory_timers s ! unat n - 1) = unat (refractory_timers s ! unat n) - 1"
      by (simp add: unat_minus_one word_neq_0_conv)
    then show ?thesis
      using process_refractory [OF step Cons.prems(2)] pos Cons.IH [OF rest(1) wf] Cons.prems(3) True rest(2)
      by (simp add: c)
  next
    case False
    then have "refractory_timers s1 ! unat n = refractory_timers s ! unat n"
      using process_frame(3) [OF step, of "unat n"] by (simp add: word_unat_eq_iff)
    then show ?thesis
      using Cons.IH [OF rest(1) wf] Cons.prems(3) False rest(2) by (simp add: c)
  qed
qed

lemma cycles_no_window:
  assumes "cycles mhz cs s = (outs, s')" and "wf_snn s" and "window_cycles mhz (ttfs_config s) = 0"
  shows "\<forall>(m, out) \<in> set outs. out = 0"
  using assms
proof (induction cs arbitrary: s outs)
  case Nil
  then show ?case by simp
next
  case (Cons c cs)
  obtain x m where c: "c = (x, m)" by fastforce
  obtain out s1 where step: "snn_process_temporal_cycle mhz x m s = (out, s1)" by fastforce
  obtain outs' where rest: "cycles mhz cs s1 = (outs', s')" "outs = (m, out) # outs'"
    using Cons.prems(1) by (auto simp: c step split: prod.splits)
  have "out = 0"
    using process_frame(6) [OF step] process_spike(3) [OF _ Cons.prems(2)] step Cons.prems(3) by fastforce
  then show ?case
    using Cons.IH [OF rest(1) process_frame(2) [OF step Cons.prems(2)]] Cons.prems(3) rest(2) process_frame(1) [OF step] by simp
qed

text \<open>A window counter is zero or within the window.\<close>

definition windows_ok :: "u32 \<Rightarrow> snn_state \<Rightarrow> bool" where
  "windows_ok mhz s \<longleftrightarrow> (\<forall>j < 256. temporal_windows s ! j = 0 \<or>
     temporal_windows s ! j < window_cycles mhz (ttfs_config s))"

lemma window_cycles_less: "unat (window_cycles mhz cfg) < 4295"
proof -
  have "unat (window_us cfg * mhz) < 2 ^ 32"
    using unsigned_less [of "window_us cfg * mhz", where ?'a = nat] by simp
  then have "unat (window_us cfg * mhz) div 1000000 < 4295"
    by (simp add: div_less_iff_less_mult)
  then show ?thesis
    by (simp add: window_cycles_def unat_div)
qed

lemma process_windows_ok:
  assumes step: "snn_process_temporal_cycle mhz x n s = (out, s')" and "wf_snn s" and "windows_ok mhz s"
  shows "windows_ok mhz s'"
proof -
  define W where "W = window_cycles mhz (ttfs_config s)"
  define t where "t = temporal_windows s ! unat n"
  have new: "temporal_windows s' ! unat n = t \<or> temporal_windows s' ! unat n = 0 \<or>
      temporal_windows s' ! unat n < W"
    using step assms(2) u8_index [of n]
    by (auto simp: snn_process_temporal_cycle_def Let_def wf_snn_def advance_window_def W_def t_def not_le split: if_splits)
  show ?thesis
    unfolding windows_ok_def process_frame(1) [OF step]
  proof (intro allI impI)
    fix j :: nat assume "j < 256"
    then show "temporal_windows s' ! j = 0 \<or> temporal_windows s' ! j < window_cycles mhz (ttfs_config s)"
      using new assms(3) process_frame(4) [OF step, of j] by (cases "j = unat n") (auto simp: windows_ok_def W_def t_def)
  qed
qed

lemma cycles_append:
  "cycles mhz (cs @ ds) s =
     (case cycles mhz cs s of (outs, s') \<Rightarrow> (case cycles mhz ds s' of (outs', s'') \<Rightarrow> (outs @ outs', s'')))"
  by (induction cs arbitrary: s) (auto split: prod.splits)

lemma cycles_answers: "cycles mhz cs s = (outs, s') \<Longrightarrow> map fst outs = map snd cs"
  by (induction cs arbitrary: s outs) (auto split: prod.splits)

lemma cycles_split:
  assumes "cycles mhz cs s = (outs1 @ outs2, s')"
  obtains cs1 cs2 s1 where "cs = cs1 @ cs2" "cycles mhz cs1 s = (outs1, s1)" "cycles mhz cs2 s1 = (outs2, s')"
proof -
  define cs1 cs2 where "cs1 = take (length outs1) cs" and "cs2 = drop (length outs1) cs"
  obtain o1 s1 where 1: "cycles mhz cs1 s = (o1, s1)"
    by fastforce
  obtain o2 s2 where 2: "cycles mhz cs2 s1 = (o2, s2)"
    by fastforce
  have "cs = cs1 @ cs2"
    by (simp add: cs1_def cs2_def)
  moreover from this have "o1 @ o2 = outs1 @ outs2" "s2 = s'"
    using assms cycles_append [of mhz cs1 cs2 s] 1 2 by simp_all
  moreover have "length o1 = length outs1"
    using arg_cong [OF cycles_answers [OF 1], of length] arg_cong [OF cycles_answers [OF assms], of length]
    by (simp add: cs1_def)
  ultimately show ?thesis
    using that 1 2 by (simp add: append_eq_append_conv)
qed

lemma cycles_invariant:
  assumes "cycles mhz cs s = (outs, s')" and "wf_snn s" and "windows_ok mhz s"
  shows "windows_ok mhz s' \<and> (\<forall>(m, spike) \<in> set outs. spike = 0 \<or> spike = 1) \<and>
    (\<forall>n. n \<notin> snd ` set cs \<longrightarrow> membrane_potentials s' ! unat n = membrane_potentials s ! unat n \<and>
       refractory_timers s' ! unat n = refractory_timers s ! unat n \<and> temporal_windows s' ! unat n = temporal_windows s ! unat n)"
  using assms
proof (induction cs arbitrary: s outs)
  case (Cons c cs)
  obtain x m where c: "c = (x, m)"
    by fastforce
  obtain spike s1 where step: "snn_process_temporal_cycle mhz x m s = (spike, s1)"
    by fastforce
  obtain outs' where rest: "cycles mhz cs s1 = (outs', s')" "outs = (m, spike) # outs'"
    using Cons.prems(1) by (auto simp: c step split: prod.splits)
  note IH = Cons.IH [OF rest(1) process_frame(2) [OF step Cons.prems(2)] process_windows_ok [OF step Cons.prems(2,3)]]
  have "n \<noteq> m \<Longrightarrow> membrane_potentials s1 ! unat n = membrane_potentials s ! unat n \<and>
      refractory_timers s1 ! unat n = refractory_timers s ! unat n \<and> temporal_windows s1 ! unat n = temporal_windows s ! unat n" for n
    using process_frame(3-5) [OF step, of "unat n"] by (simp add: word_unat_eq_iff)
  then show ?case
    using IH process_frame(6) [OF step] by (simp add: c rest(2))
qed simp

text \<open>A neuron that has spiked answers 0 to its next \<open>refractory_cycles\<close> calls.\<close>

lemma cycles_refractory:
  assumes "cycles mhz cs s = (os1 @ (n, 1) # mid @ os2, s')" and "wf_snn s"
    and "length (filter (\<lambda>a. fst a = n) mid) \<le> unat (refractory_cycles (ttfs_config s))"
  shows "(n, 1) \<notin> set mid"
proof -
  obtain cs1 cs2 s1 where 1: "cycles mhz cs1 s = (os1, s1)" "cycles mhz cs2 s1 = (((n, 1) # mid) @ os2, s')"
    by (rule cycles_split [of mhz cs s os1 "(n, 1) # mid @ os2" s']) (use assms(1) that in auto)
  obtain cs3 cs4 s2 where 2: "cycles mhz cs3 s1 = ((n, 1) # mid, s2)"
    by (rule cycles_split [OF 1(2)])
  note wf = cycles_frame [OF 1(1) assms(2)]
  from 2 obtain x m cs5 where c: "cs3 = (x, m) # cs5"
    by (cases cs3) auto
  obtain spike s3 where step: "snn_process_temporal_cycle mhz x m s1 = (spike, s3)"
    by fastforce
  have rest: "cycles mhz cs5 s3 = (mid, s2)" "m = n" "spike = 1"
    using 2 by (auto simp: c step split: prod.splits)
  have "length (filter (\<lambda>c. snd c = n) cs5) = length (filter (\<lambda>b. b = n) (map snd cs5))"
    by (simp add: filter_map o_def)
  also have "\<dots> = length (filter (\<lambda>a. fst a = n) mid)"
    unfolding cycles_answers [OF rest(1), symmetric] by (simp add: filter_map o_def)
  finally have "length (filter (\<lambda>c. snd c = n) cs5) \<le> unat (refractory_timers s3 ! unat n)"
    using assms(3) process_spike(1) [of mhz x n s1 s3] step rest wf by simp
  then have "\<forall>(m, spike) \<in> set mid. m = n \<longrightarrow> spike = 0"
    using cycles_silent [OF rest(1) process_frame(2) [OF step]] wf by blast
  then show ?thesis
    by auto
qed

section \<open>The STDP rule\<close>

text \<open>What the code relies on of \<open>expf\<close>: on a non-positive argument it returns a number
  between 0 and 1.\<close>

definition expf_ok :: "(fp \<Rightarrow> fp) \<Rightarrow> bool" where
  "expf_ok expf \<longleftrightarrow> (\<forall>x. fsign x = Some True \<longrightarrow>
     (\<exists>m e. expf x = FNum False m e \<and> real m * 2 powi e \<le> 1))"

text \<open>The clock frequency is a positive number.\<close>

fun pos_num :: "fp \<Rightarrow> bool" where
  "pos_num (FNum s m e) = (\<not> s \<and> 0 < m)"
| "pos_num x = False"

lemma stdp_consts:
  "A_PLUS = FNum False 10737418 (-30)" "A_MINUS = FNum True 10737418 (-30)"
  "TAU_PLUS = FNum False 10485760 (-19)" "TAU_MINUS = FNum False 10485760 (-19)"
  "flit binary32 1000000 1 = FNum False 16000000 (-4)"
  "flit binary32 127 1 = FNum False 16646144 (-17)"
  by (simp_all add: A_PLUS_def A_MINUS_def TAU_PLUS_def TAU_MINUS_def fp_eval)

lemma delta_us_sign:
  assumes "pos_num freq" and "0 \<le> sint delta"
  shows "fsign (delta_us freq delta) = Some False"
  using assms
  by (cases freq) (simp_all add: delta_us_def stdp_consts [unfolded One_nat_def] of_sint_def
      fsign_fmul fsign_fdiv)

lemma half_of_exp:
  assumes "real m * 2 powi e \<le> 1"
  obtains n k where "fmul binary32 (FNum s 10737418 (-30)) (FNum False m e) = FNum s n k"
    and "real n * 2 powi k \<le> 1 / 2"
proof (cases "m = 0")
  case True
  then show ?thesis
    using that by (simp add: rnd_def)
next
  case False
  define x where "x = real (10737418 * m) / real 1 * 2 powi (- 30 + e)"
  have "x = 10737418 * 2 powi (- 30) * (real m * 2 powi e)"
    unfolding x_def pow2_mult [symmetric] by simp
  also have "\<dots> \<le> 10737418 * 2 powi (- 30) * 1"
    by (intro mult_left_mono assms) simp
  finally have "x \<le> 1 / 2"
    by (simp add: power_int_minus)
  then obtain n k where "rnd binary32 s (10737418 * m) 1 (- 30 + e) = FNum s n k"
      "real n * 2 powi k \<le> real 1 * 2 powi (- 1)"
    using False
    by - (rule rnd_between [OF _ _ x_def, of 0 "- 1" 1 binary32 s],
      simp_all add: fmts power_int_minus x_def)
  then show ?thesis
    by (intro that) (simp_all add: power_int_minus)
qed

lemma stdp_value_small:
  assumes f: "expf_ok expf" "pos_num freq"
    and delta: "0 \<le> sint (if pre < post then post - pre else pre - post)"
  obtains m e where "stdp_value expf freq pre post = FNum (\<not> pre < post) m e"
    and "real m * 2 powi e \<le> 1 / 2"
proof -
  have arg: "fsign (fdiv binary32 (fneg (delta_us freq d)) TAU) = Some True"
    if "0 \<le> sint d" and "TAU = FNum False 10485760 (-19)" for d TAU
    using delta_us_sign [OF f(2) that(1)] by (simp add: that(2) fsign_fneg fsign_fdiv)
  show ?thesis
  proof (cases "pre < post")
    case True
    obtain m e where "expf (fdiv binary32 (fneg (delta_us freq (post - pre))) TAU_PLUS) = FNum False m e"
        "real m * 2 powi e \<le> 1"
      using f(1) arg [of "post - pre" TAU_PLUS] delta True by (auto simp: expf_ok_def stdp_consts)
    then show ?thesis
      using that True by (auto simp: stdp_value_def stdp_consts(1) elim!: half_of_exp [where s = False] simp del: fmul.simps)
  next
    case False
    obtain m e where "expf (fdiv binary32 (fneg (delta_us freq (pre - post))) TAU_MINUS) = FNum False m e"
        "real m * 2 powi e \<le> 1"
      using f(1) arg [of "pre - post" TAU_MINUS] delta False by (auto simp: expf_ok_def stdp_consts)
    then show ?thesis
      using that False by (auto simp: stdp_value_def stdp_consts(2) elim!: half_of_exp [where s = True] simp del: fmul.simps)
  qed
qed

text \<open>A weight is represented exactly.\<close>

lemma weight_exact:
  assumes "\<bar>w\<bar> \<le> 128"
  obtains s m e where "of_sint binary32 w = FNum s m e" and "fval (FNum s m e) = real_of_int w"
proof (cases "w = 0")
  case True
  then show ?thesis
    using that [of False 0 0] by (simp add: of_sint_def rnd_def sgn_int_def)
next
  case False
  define x where "x = real (nat \<bar>w\<bar>) / real 1 * 2 powi 0"
  have x: "x = real (nat \<bar>w\<bar>)" "x \<le> 128"
    using assms by (simp_all add: x_def)
  obtain m e where "rnd binary32 (w < 0) (nat \<bar>w\<bar>) 1 0 = FNum (w < 0) m e"
      "real m * 2 powi e = real (nat \<bar>w\<bar>)"
    using False x by - (rule rnd_between [OF _ _ x_def, of "nat \<bar>w\<bar>" 0 "nat \<bar>w\<bar>" binary32 "w < 0"],
      auto simp: fmts)
  then show ?thesis
    using that [of "w < 0" m e] by (auto simp: of_sint_def sgn_int_def)
qed

text \<open>The clamp and the cast: truncation towards zero, then at most 127 in size.\<close>

lemma fval_127: "fval (FNum False 16646144 (-17)) = 127" "fval (FNum True 16646144 (-17)) = - 127"
  by (simp_all add: sgn_int_def power_int_minus)

lemma clamp_weight_eq:
  "clamp_weight w =
     (if flt (FNum False 16646144 (-17)) w then FNum False 16646144 (-17)
      else if flt w (FNum True 16646144 (-17)) then FNum True 16646144 (-17) else w)"
  unfolding clamp_weight_def stdp_consts by simp

lemma clamp_int8:
  assumes "real j \<le> real a * 2 powi b" and "real a * 2 powi b < real j + 1"
  shows "to_int8 (clamp_weight (FNum u a b)) = Inr (word_of_int (sgn_int u (min 127 j)))"
proof -
  have big: "ftrunc (FNum s 16646144 (-17)) = Some (sgn_int s 127)" for s
    by (rule ftrunc_between) (simp_all add: power_int_minus)
  have v: "fval (FNum s a b) = (if s then - (real a * 2 powi b) else real a * 2 powi b)" for s
    by (simp add: sgn_int_def)
  have nonneg: "0 \<le> real a * 2 powi b"
    by simp
  show ?thesis
  proof (cases "127 < real a * 2 powi b")
    case True
    then have "127 \<le> j"
      using assms(2) by linarith
    then show ?thesis
      using True nonneg
      by (cases u) (simp_all add: clamp_weight_eq to_int8_def flt_fval fval_127 v big
          sgn_int_def [of _ 127] sgn_int_def [of _ "min 127 j"]
          del: fval.simps ftrunc.simps flt.simps)
  next
    case False
    then have j: "j \<le> 127"
      using assms(1) by linarith
    have "\<not> 127 < - (real a * 2 powi b)" "\<not> real a * 2 powi b < - 127"
      using nonneg by linarith+
    then have "clamp_weight (FNum u a b) = FNum u a b"
      using False
      by (cases u) (simp_all add: clamp_weight_eq flt_fval fval_127 v del: fval.simps flt.simps)
    then show ?thesis
      using ftrunc_between [OF assms, of u] j by (auto simp: to_int8_def sgn_int_def min_def)
  qed
qed

text \<open>The rounded sum of a weight and a change of at most one half.\<close>

lemma sum_away:
  assumes w: "\<bar>w\<bar> \<le> 128" and x: "real m * 2 powi e \<le> 1 / 2"
    and s: "w \<noteq> 0 \<Longrightarrow> s \<longleftrightarrow> w < 0"
  obtains u a b where "fadd binary32 (of_sint binary32 w) (FNum s m e) = FNum u a b"
    and "\<bar>real_of_int w\<bar> \<le> real a * 2 powi b" and "real a * 2 powi b \<le> \<bar>real_of_int w\<bar> + 1 / 2"
    and "w \<noteq> 0 \<Longrightarrow> u \<longleftrightarrow> w < 0"
proof -
  obtain ws wm we where wf: "of_sint binary32 w = FNum ws wm we" "fval (FNum ws wm we) = real_of_int w"
    using weight_exact [OF w] by blast
  define r where "r = fval (FNum ws wm we) + fval (FNum s m e)"
  have nonneg: "0 \<le> real m * 2 powi e"
    by simp
  have r: "r = real_of_int w + (if s then - (real m * 2 powi e) else real m * 2 powi e)"
    by (simp add: r_def wf(2) sgn_int_def del: fval.simps(1)) (simp add: sgn_int_def)
  have "\<bar>real_of_int w\<bar> \<le> \<bar>r\<bar>" "\<bar>r\<bar> \<le> \<bar>real_of_int w\<bar> + 1 / 2" "w \<noteq> 0 \<Longrightarrow> r \<noteq> 0 \<and> (r < 0 \<longleftrightarrow> w < 0)"
    using s x nonneg unfolding r by (cases "w = 0"; cases s; simp add: abs_if; linarith)+
  moreover from this w have "\<bar>r\<bar> \<le> 129"
    by linarith
  moreover have "real (2 * nat \<bar>w\<bar>) * 2 powi (- 1) = \<bar>real_of_int w\<bar>"
      "real (2 * nat \<bar>w\<bar> + 1) * 2 powi (- 1) = \<bar>real_of_int w\<bar> + 1 / 2"
    by (simp_all add: power_int_minus field_simps)
  ultimately show ?thesis
    using w that unfolding wf(1)
    by - (rule fadd_between [OF r_def, of "2 * nat \<bar>w\<bar>" "- 1" "2 * nat \<bar>w\<bar> + 1" binary32], simp_all add: fmts)
qed

lemma sum_toward:
  assumes w: "\<bar>w\<bar> \<le> 128" "w \<noteq> 0" and x: "real m * 2 powi e \<le> 1 / 2"
    and s: "s \<longleftrightarrow> 0 < w"
  obtains u a b where "fadd binary32 (of_sint binary32 w) (FNum s m e) = FNum u a b"
    and "\<bar>real_of_int w\<bar> - 1 / 2 \<le> real a * 2 powi b" and "real a * 2 powi b \<le> \<bar>real_of_int w\<bar>"
    and "u \<longleftrightarrow> w < 0"
proof -
  obtain ws wm we where wf: "of_sint binary32 w = FNum ws wm we" "fval (FNum ws wm we) = real_of_int w"
    using weight_exact [OF w(1)] by blast
  define r where "r = fval (FNum ws wm we) + fval (FNum s m e)"
  have nonneg: "0 \<le> real m * 2 powi e"
    by simp
  have r: "r = real_of_int w + (if s then - (real m * 2 powi e) else real m * 2 powi e)"
    by (simp add: r_def wf(2) sgn_int_def del: fval.simps(1)) (simp add: sgn_int_def)
  have "1 \<le> \<bar>real_of_int w\<bar>"
    using w(2) by linarith
  then have "\<bar>real_of_int w\<bar> - 1 / 2 \<le> \<bar>r\<bar>" "\<bar>r\<bar> \<le> \<bar>real_of_int w\<bar>" "r \<noteq> 0 \<and> (r < 0 \<longleftrightarrow> w < 0)"
    using s x nonneg w(2) unfolding r by (cases s; simp add: abs_if split: if_splits; linarith)+
  moreover from this w have "\<bar>r\<bar> \<le> 128"
    by linarith
  moreover have "real (2 * nat \<bar>w\<bar> - 1) * 2 powi (- 1) = \<bar>real_of_int w\<bar> - 1 / 2"
      "real (2 * nat \<bar>w\<bar>) * 2 powi (- 1) = \<bar>real_of_int w\<bar>"
    using w(2) by (simp_all add: power_int_minus field_simps of_nat_diff)
  ultimately show ?thesis
    using w that unfolding wf(1)
    by - (rule fadd_between [OF r_def, of "2 * nat \<bar>w\<bar> - 1" "- 1" "2 * nat \<bar>w\<bar>" binary32], simp_all add: fmts)
qed

text \<open>One update: the weight keeps its value up to the clamp, or moves one step towards zero.\<close>

lemma stdp_update_cases:
  assumes f: "expf_ok expf" "pos_num freq"
    and delta: "0 \<le> sint (if pre < post then post - pre else pre - post)"
  obtains k where "stdp_update expf freq pre post w = Inr (word_of_int k)"
    and "k = max (- 127) (sint w) \<or>
         k = sint w + (if pre < post then 1 else - 1) \<and> (if pre < post then sint w < 0 else 0 < sint w)"
proof -
  define i where "i = sint w"
  have i: "\<bar>i\<bar> \<le> 128" "i \<le> 127" "- 128 \<le> i"
    using sint_lt [of w] sint_ge [of w] by (simp_all add: i_def abs_le_iff)
  obtain m e where v: "stdp_value expf freq pre post = FNum (\<not> pre < post) m e"
    and x: "real m * 2 powi e \<le> 1 / 2"
    using stdp_value_small [OF f delta] .
  have upd: "stdp_update expf freq pre post w =
      to_int8 (clamp_weight (fadd binary32 (of_sint binary32 i) (FNum (\<not> pre < post) m e)))"
    by (simp add: stdp_update_def v i_def)
  show ?thesis
  proof (cases "if pre < post then i < 0 else 0 < i")
    case False
    then have "i \<noteq> 0 \<Longrightarrow> (\<not> pre < post) \<longleftrightarrow> i < 0"
      by (auto split: if_splits)
    then obtain u a b where "fadd binary32 (of_sint binary32 i) (FNum (\<not> pre < post) m e) = FNum u a b"
      and ab: "\<bar>real_of_int i\<bar> \<le> real a * 2 powi b" "real a * 2 powi b \<le> \<bar>real_of_int i\<bar> + 1 / 2"
        "i \<noteq> 0 \<Longrightarrow> u \<longleftrightarrow> i < 0"
      using sum_away [OF i(1) x] by metis
    then have "stdp_update expf freq pre post w = Inr (word_of_int (sgn_int u (min 127 (nat \<bar>i\<bar>))))"
      unfolding upd by simp (rule clamp_int8, simp_all)
    moreover have "sgn_int u (min 127 (nat \<bar>i\<bar>)) = max (- 127) i"
      using ab(3) i by (cases "i = 0") (auto simp: sgn_int_def)
    ultimately show ?thesis
      using that by (simp add: i_def)
  next
    case True
    then have ne: "i \<noteq> 0" and dir: "(\<not> pre < post) \<longleftrightarrow> 0 < i"
      by (auto split: if_splits)
    obtain u a b where sum: "fadd binary32 (of_sint binary32 i) (FNum (\<not> pre < post) m e) = FNum u a b"
      and ab: "\<bar>real_of_int i\<bar> - 1 / 2 \<le> real a * 2 powi b" "real a * 2 powi b \<le> \<bar>real_of_int i\<bar>"
        "u \<longleftrightarrow> i < 0"
      by (rule sum_toward [OF i(1) ne x dir])
    have "\<exists>j. (j = nat \<bar>i\<bar> \<or> j = nat \<bar>i\<bar> - 1) \<and> real j \<le> real a * 2 powi b \<and> real a * 2 powi b < real j + 1"
      using ab(1,2) ne by (cases "real a * 2 powi b < \<bar>real_of_int i\<bar>")
        (auto simp: of_nat_diff intro: exI [of _ "nat \<bar>i\<bar> - 1"] exI [of _ "nat \<bar>i\<bar>"])
    then obtain j where j: "j = nat \<bar>i\<bar> \<or> j = nat \<bar>i\<bar> - 1"
      "real j \<le> real a * 2 powi b" "real a * 2 powi b < real j + 1" by blast
    then have "stdp_update expf freq pre post w = Inr (word_of_int (sgn_int u (min 127 j)))"
      unfolding upd sum by (intro clamp_int8)
    moreover have "sgn_int u (min 127 j) = max (- 127) i \<or>
        sgn_int u (min 127 j) = i + (if pre < post then 1 else - 1)"
      using ab(3) i j(1) ne True by (auto simp: sgn_int_def split: if_splits)
    ultimately show ?thesis
      using that [of "sgn_int u (min 127 j)"] True unfolding i_def by blast
  qed
qed

section \<open>Whole arrays\<close>

lemma stdp_loop_updates:
  assumes len: "unat n \<le> length pre" "unat n \<le> length post" "unat n \<le> length ws" "unat i \<le> unat n"
    and total: "\<forall>j < unat n. 0 < pre ! j \<longrightarrow> 0 < post ! j \<longrightarrow>
       (\<forall>w. \<exists>w'. stdp_update expf freq (pre ! j) (post ! j) w = Inr w')"
  shows "\<exists>ws'. stdp_loop expf freq pre post n i ws = Inr ws' \<and> length ws' = length ws \<and>
    (\<forall>j. ws' ! j = ws ! j \<or> unat i \<le> j \<and> j < unat n \<and> 0 < pre ! j \<and> 0 < post ! j \<and>
        stdp_update expf freq (pre ! j) (post ! j) (ws ! j) = Inr (ws' ! j))"
  using len(3,4)
proof (induction "unat n - unat i" arbitrary: i ws rule: less_induct)
  case less
  show ?case
  proof (cases "i < n")
    case False
    then show ?thesis by (simp add: stdp_loop.simps)
  next
    case True
    note i = u32_inc [OF True]
    have in_n: "unat i < unat n"
      using True by (simp add: word_less_nat_alt)
    have fetches: "fetch pre i = Some (pre ! unat i)" "fetch post i = Some (post ! unat i)"
      "fetch ws i = Some (ws ! unat i)"
      using in_n len(1,2) less.prems(1) by (simp_all add: fetch_def)
    obtain ws1 where ws1: "stdp_at expf freq pre post i ws = Inr ws1" "length ws1 = length ws"
      "\<forall>j. ws1 ! j = ws ! j \<or> j = unat i \<and> 0 < pre ! j \<and> 0 < post ! j \<and>
         stdp_update expf freq (pre ! j) (post ! j) (ws ! j) = Inr (ws1 ! j)"
    proof (cases "0 < pre ! unat i \<and> 0 < post ! unat i")
      case False
      then show ?thesis
        using that [of ws] by (auto simp: stdp_at_def fetches)
    next
      case True
      then obtain w' where "stdp_update expf freq (pre ! unat i) (post ! unat i) (ws ! unat i) = Inr w'"
        using total in_n by blast
      then show ?thesis
        using True that [of "ws[unat i := w']"] in_n less.prems(1)
        by (simp add: stdp_at_def fetches nth_list_update)
    qed
    have loop: "stdp_loop expf freq pre post n i ws = stdp_loop expf freq pre post n (i + 1) ws1"
      using True ws1(1) by (subst stdp_loop.simps) simp
    obtain ws' where ws': "stdp_loop expf freq pre post n (i + 1) ws1 = Inr ws'" "length ws' = length ws1"
      "\<forall>j. ws' ! j = ws1 ! j \<or> unat (i + 1) \<le> j \<and> j < unat n \<and> 0 < pre ! j \<and> 0 < post ! j \<and>
        stdp_update expf freq (pre ! j) (post ! j) (ws1 ! j) = Inr (ws' ! j)"
      using less.hyps [of "i + 1" ws1] i in_n less.prems ws1(2) by auto
    have "ws' ! j = ws ! j \<or> unat i \<le> j \<and> j < unat n \<and> 0 < pre ! j \<and> 0 < post ! j \<and>
        stdp_update expf freq (pre ! j) (post ! j) (ws ! j) = Inr (ws' ! j)" for j
    proof (cases "j = unat i")
      case True
      then show ?thesis
        using ws'(3) [rule_format, of j] ws1(3) [rule_format, of j] i(1) in_n by auto
    next
      case False
      then show ?thesis
        using ws'(3) [rule_format, of j] ws1(3) [rule_format, of j] i(1) by auto
    qed
    then show ?thesis
      unfolding loop using ws1(2) ws'(1,2) by auto
  qed
qed

lemma spike_time_range:
  assumes "spike_time cfg W v = Inr t"
  shows "if \<not> flt (threshold cfg) v then t = 0 else if W = 0 then t = 0xFFFFFFFF else t < W"
proof -
  have "W - 1 < W" if "W \<noteq> 0"
    using that by unat_arith
  then show ?thesis
    using assms by (cases "to_uint32 (fmul binary32 (fsub binary32 f_one (normalized cfg v)) (of_uint binary32 (unat W)))")
      (auto simp: spike_time_def not_le split: if_splits)
qed

lemma ttfs_loop_times:
  assumes len: "unat n \<le> length vs" "unat n \<le> length out" "unat i \<le> unat n"
    and total: "\<forall>j < unat n. \<exists>t. spike_time cfg W (vs ! j) = Inr t"
  shows "\<exists>out'. ttfs_loop cfg W vs n i k out = Inr (k + (n - i), out') \<and> length out' = length out \<and>
    (\<forall>j. if unat i \<le> j \<and> j < unat n then spike_time cfg W (vs ! j) = Inr (out' ! j) else out' ! j = out ! j)"
  using len(2,3)
proof (induction "unat n - unat i" arbitrary: i k out rule: less_induct)
  case less
  show ?case
  proof (cases "i < n")
    case False
    then have "i = n"
      using less.prems(2) by (simp add: word_less_nat_alt word_unat_eq_iff)
    then show ?thesis by (auto simp: ttfs_loop.simps)
  next
    case True
    note i = u32_inc [OF True]
    have in_n: "unat i < unat n"
      using True by (simp add: word_less_nat_alt)
    then obtain t where t: "spike_time cfg W (vs ! unat i) = Inr t"
      using total by blast
    have loop: "ttfs_loop cfg W vs n i k out = ttfs_loop cfg W vs n (i + 1) (k + 1) (out[unat i := t])"
      using True in_n len(1) less.prems(1) t by (subst ttfs_loop.simps) (simp add: fetch_def put_def)
    obtain out' where out': "ttfs_loop cfg W vs n (i + 1) (k + 1) (out[unat i := t]) = Inr (k + 1 + (n - (i + 1)), out')"
      "length out' = length out"
      "\<forall>j. if unat (i + 1) \<le> j \<and> j < unat n then spike_time cfg W (vs ! j) = Inr (out' ! j)
           else out' ! j = out[unat i := t] ! j"
      using less.hyps [of "i + 1" "out[unat i := t]" "k + 1"] i in_n less.prems by auto
    have "if unat i \<le> j \<and> j < unat n then spike_time cfg W (vs ! j) = Inr (out' ! j) else out' ! j = out ! j" for j
      using out'(3) [rule_format, of j] i(1) in_n less.prems(1) t
      by (cases "j = unat i") (auto simp: nth_list_update split: if_splits)
    then show ?thesis
      unfolding loop using out'(1,2) by auto
  qed
qed

lemma sint_of_int8: "- 128 \<le> k \<Longrightarrow> k \<le> 127 \<Longrightarrow> sint (word_of_int k :: 8 word) = k"
  by (simp add: signed_of_int signed_take_bit_int_eq_self)

text \<open>The state of the witnesses: the window of 4 cycles that 1000 us are at 4000 MHz, a
  refractory period of two cycles, threshold 1, no leak.\<close>

definition demo_state :: snn_state where
  "demo_state = snn_boot\<lparr>ttfs_config := \<lparr>window_us = 1000, refractory_cycles = 2,
     threshold = f_one, leak_rate = f_zero, ttfs_enabled = False\<rparr>\<rparr>"

lemma process_fires:
  "refractory_timers s ! unat n = 0 \<Longrightarrow>
   temporal_windows s ! unat n < window_cycles mhz (ttfs_config s) \<Longrightarrow>
   fge (leak (ttfs_config s) (membrane_potentials s ! unat n) x)
     (thresholds (default_threshold (unat n) s) ! unat n) \<Longrightarrow>
   fst (snn_process_temporal_cycle mhz x n s) = 1"
  by (simp add: snn_process_temporal_cycle_def Let_def)

lemma demo_simps:
  "ttfs_config demo_state = \<lparr>window_us = 1000, refractory_cycles = 2, threshold = f_one,
     leak_rate = f_zero, ttfs_enabled = False\<rparr>"
  "j < 256 \<Longrightarrow> membrane_potentials demo_state ! j = f_zero"
  "j < 256 \<Longrightarrow> refractory_timers demo_state ! j = 0"
  "j < 256 \<Longrightarrow> temporal_windows demo_state ! j = 0"
  "j < 256 \<Longrightarrow> thresholds demo_state ! j = f_zero"
  "wf_snn demo_state"
  by (simp_all only: demo_state_def snn_boot_def wf_snn_def nth_replicate length_replicate
      snn_state.simps simp_thms)

lemma demo_leak: "leak (ttfs_config demo_state) f_zero f_one = FNum False 8388608 (-23)"
proof -
  have "fadd binary32 (FNum False 1 0) (FNum True 0 0) = rnd binary32 False 1 1 0"
    "fadd binary32 (FNum False 0 0) (FNum False 1 0) = rnd binary32 False 1 1 0"
    by (simp_all add: sgn_int_def)
  moreover have "rnd binary32 False 1 1 0 = FNum False 8388608 (-23)"
    by (simp add: fp_eval)
  ultimately show ?thesis
    by (simp add: demo_simps leak_def f_zero_def f_one_def fsub_def del: fadd.simps)
      (simp add: rnd_def del: fadd.simps)
qed

lemma demo_spike:
  "fst (snn_process_temporal_cycle 4000 f_one 3 demo_state) = 1"
proof (rule process_fires)
  have "length (thresholds demo_state) = 256"
    using demo_simps(6) by (simp add: wf_snn_def)
  then have "thresholds (default_threshold 3 demo_state) ! 3 = f_one"
    by (simp add: default_threshold_def demo_simps feq_def f_zero_def num_less_def sgn_int_def)
  then show "fge (leak (ttfs_config demo_state) (membrane_potentials demo_state ! unat (3 :: u8)) f_one)
     (thresholds (default_threshold (unat (3 :: u8)) demo_state) ! unat (3 :: u8))"
    by (simp add: demo_simps(2) demo_leak) (simp add: f_one_def num_less_def sgn_int_def Let_def)
qed (simp_all add: demo_simps window_cycles_def)

lemma enc_loop_odd:
  assumes n: "odd (unat n)" "unat n = length iq" and size: "0 < size_out"
    and "even (unat i)" and "spike_count st = 0" and "unat i < unat n"
  shows "enc_loop cfg 0 iq n size_out i st = Some (Inl OutOfBounds)"
  using assms(4-)
proof (induction "unat n - unat i" arbitrary: i st rule: less_induct)
  case less
  have "unat n < 2 ^ 32"
    using unsigned_less [of n, where ?'a = nat] by simp
  then have i1: "unat (i + 1) = Suc (unat i)"
    using less.prems(3) unat_add_small [of i 1] by simp
  have go: "i < n \<and> \<not> size_out \<le> spike_count st"
    using less.prems size by (simp add: not_le) (auto simp: word_less_nat_alt)
  show ?case
  proof (cases "Suc (unat i) < unat n")
    case False
    then have "enc_step cfg 0 iq i st = Inl OutOfBounds"
      using n(2) i1 by (simp add: enc_step_def fetch_def split: option.split)
    then show ?thesis
      using go by (subst enc_loop.simps) simp
  next
    case True
    then have less2: "Suc (Suc (unat i)) < unat n"
      using n(1) less.prems(1) by (metis Suc_lessI even_Suc)
    then have i2: "unat (i + 2) = Suc (Suc (unat i))"
      using \<open>unat n < 2 ^ 32\<close> unat_add_small [of i 2] by simp
    define st' where "st' = (case enc_integrate cfg 0 i (magnitude (iq ! unat i) (iq ! Suc (unat i))) st of Inr st' \<Rightarrow> enc_timers 0 st')"
    have st': "enc_step cfg 0 iq i st = Inr st'" "spike_count st' = 0"
      using n(2) i1 True less.prems(2)
      by (simp_all add: st'_def enc_step_def enc_integrate_def enc_timers_def Let_def fetch_def)
    then have "enc_loop cfg 0 iq n size_out i st = enc_loop cfg 0 iq n size_out (i + 2) st'"
      using go by (subst enc_loop.simps) simp
    then show ?thesis
      using less.hyps [of "i + 2" st'] st'(2) i2 less2 less.prems(1) by simp
  qed
qed

lemma wf_boot: "wf_snn snn_boot"
  by (simp_all only: snn_boot_def wf_snn_def length_replicate snn_state.simps simp_thms)

definition default_state :: snn_state where
  "default_state = fst (snn_init_temporal_coding (\<lambda>n h. (None, h)) (snn_boot, ()))"

lemma half: "flit binary32 5 10 = FNum False 8388608 (-24)"
  by (simp add: fp_eval)

lemma default_threshold_half:
  "threshold (ttfs_config default_state) = FNum False 8388608 (-24)"
  "window_us (ttfs_config default_state) = 1000"
  by (simp_all add: default_state_def snn_init_temporal_coding_def half)

lemma rnd_evals:
  "rnd binary32 False 8388608 1 (-24) = FNum False 8388608 (-24)"
  "rnd binary32 False 25165824 1 (-24) = FNum False 12582912 (-23)"
  "rnd binary32 False 8388608 8388608 0 = FNum False 8388608 (-23)"
  "rnd binary32 False 12582912 8388608 1 = FNum False 12582912 (-22)"
  "rnd binary32 True 16777216 1 (-23) = FNum True 8388608 (-22)"
  "rnd binary32 False 2 1 0 = FNum False 8388608 (-22)"
  "rnd binary32 True 8388608 1 (-22) = FNum True 8388608 (-22)"
  "rnd binary32 True 70368744177664 1 (-44) = FNum True 8388608 (-21)"
  "rnd binary32 False 0 1 (-22) = FNum False 0 0"
  by (simp_all add: fp_eval)

lemma spike_time_one: "spike_time (ttfs_config default_state) 2 f_one = Inr 0"
  by (simp add: spike_time_def normalized_def default_threshold_half f_one_def num_less_def fsub_def of_uint_def sgn_int_def rnd_evals [unfolded One_nat_def] Let_def
      to_uint32_def scale2_def)

lemma spike_time_two: "spike_time (ttfs_config default_state) 2 (FNum False 2 0) = Inl BadConversion"
  by (simp add: spike_time_def normalized_def default_threshold_half f_one_def num_less_def fsub_def of_uint_def sgn_int_def rnd_evals [unfolded One_nat_def] Let_def
      to_uint32_def scale2_def)

section \<open>Properties\<close>

text \<open>C27: \<open>snn_encode_rf_to_ttfs\<close> on an even number of samples within its arrays returns. It
  reports at most \<open>output_size\<close> spikes. They are at different sample pairs at least \<open>refractory_cycles\<close> apart, and they
  are exactly the pairs that fire: those outside a refractory period and with the window open, at which the leaky
  sum of the magnitudes since the last reset of the potential has reached the threshold; only when the output is full
  does it stop before the last pair. The low bytes of the sample positions are the encoded output; the
  output is unchanged beyond.\<close>

theorem encode_rf_spikes:
  assumes "even (unat n)" and "unat n \<le> length iq" and "unat size_out \<le> length out"
  shows "\<exists>c out' ps stop. snn_encode_rf_to_ttfs mhz (Some iq) n (Some out) size_out s = Some (Inr (c, Some out')) \<and>
    c \<le> size_out \<and> length ps = unat c \<and>
    out' = map (\<lambda>p. of_nat (2 * p mod 256)) ps @ drop (unat c) out \<and>
    sorted_wrt (\<lambda>p q. p + max 1 (unat (refractory_cycles (ttfs_config s))) \<le> q) ps \<and>
    2 * stop \<le> unat n \<and> (2 * stop = unat n \<or> c = size_out) \<and> (\<forall>p \<in> set ps. p < stop) \<and>
    (\<forall>k < stop. k \<in> set ps \<longleftrightarrow>
      fires (ttfs_config s) (unat (window_us (ttfs_config s) * mhz) div 1000000) (pair_magnitude iq) ps k)"
proof -
  define W where "W = window_cycles mhz (ttfs_config s)"
  have W: "unat (window_us (ttfs_config s) * mhz) div 1000000 = unat W"
    by (simp add: W_def window_cycles_def unat_div)
  obtain st' ps' stop where "enc_loop (ttfs_config s) W iq n size_out 0 (enc_init out) = Some (Inr st')"
    "enc_inv (ttfs_config s) (unat W) (pair_magnitude iq) out stop ps' st'" "spike_count st' \<le> size_out"
    "2 * stop \<le> unat n" "2 * stop = unat n \<or> spike_count st' = size_out"
    using enc_loop_spikes [OF assms enc_inv_init, of 0 "ttfs_config s" W] by (auto simp: enc_init_def [of out])
  then show ?thesis
    unfolding W snn_encode_rf_to_ttfs_def W_def [symmetric] enc_inv_def Let_def
    by (intro exI [of _ "spike_count st'"] exI [of _ "encoded_output st'"] exI [of _ ps'] exI [of _ stop]) simp
qed

theorem encode_rf_spikes_witness:
  "\<exists>c out' ps. snn_encode_rf_to_ttfs 4000 (Some [f_one, f_one]) 2 (Some [7, 7, 7]) 3 demo_state = Some (Inr (c, Some out')) \<and>
    c \<le> 3 \<and> length ps = unat c \<and>
    out' = map (\<lambda>p. of_nat (2 * p mod 256)) ps @ drop (unat c) [7, 7, 7]"
  using encode_rf_spikes [of 2 "[f_one, f_one]" 3 "[7, 7, 7]" 4000 demo_state]
  by (simp add: demo_simps) blast

text \<open>With the settings of \<open>snn_init_temporal_coding\<close> (a window of 1000 us) and any clock below
  1000 MHz the window is 0 cycles long, because microseconds times megahertz are divided by
  1000000: the encoder never spikes and leaves its output alone, and no neuron ever spikes.\<close>

lemma default_window_never_spikes:
  assumes "s = fst (snn_init_temporal_coding malloc (s0, h))" and "mhz < 1000" and "wf_snn s0"
  shows "window_cycles mhz (ttfs_config s) = 0 \<and>
    (even (unat n) \<longrightarrow> unat n \<le> length iq \<longrightarrow>
       snn_encode_rf_to_ttfs mhz (Some iq) n (Some out) size_out s = Some (Inr (0, Some out))) \<and>
    (\<forall>cs. \<forall>(m, spike) \<in> set (fst (cycles mhz cs s)). spike = 0)"
proof -
  have cfg: "window_us (ttfs_config s) = 1000" and wf: "wf_snn s"
    using assms(1,3) by (simp_all add: snn_init_temporal_coding_def wf_snn_def split: prod.split)
  have "unat mhz < 1000"
    using assms(2) by (simp add: word_less_nat_alt)
  then have "unat (1000 * mhz) div 1000000 = 0"
    by (simp add: unat_word_ariths)
  then have W: "window_cycles mhz (ttfs_config s) = 0"
    by (simp add: window_cycles_def cfg word_unat_eq_iff unat_div)
  then show ?thesis
    using enc_loop_no_window [of n iq 0 "enc_init out" "ttfs_config s" size_out]
      cycles_no_window [OF prod.collapse [symmetric] wf W]
    by (auto simp: snn_encode_rf_to_ttfs_def) (auto simp: enc_init_def)
qed

text \<open>After a neuron spikes, its next \<open>refractory_cycles\<close> cycles are silent, whatever their
  inputs and whatever calls for other neurons come between.\<close>

lemma refractory_period:
  assumes "wf_snn s" and "snn_process_temporal_cycle mhz x n s = (1, s')"
    and "length (filter (\<lambda>c. snd c = n) cs) \<le> unat (refractory_cycles (ttfs_config s))"
  shows "\<forall>(m, spike) \<in> set (fst (cycles mhz cs s')). m = n \<longrightarrow> spike = 0"
  using assms cycles_silent [OF prod.collapse [symmetric] process_frame(2) [OF assms(2,1)]]
    process_spike(1) [OF assms(2,1)] by simp


text \<open>The state in which the cycles start: initialised, then configured, where a refused configuration changes nothing.\<close>

definition ready_state :: "(u32 \<Rightarrow> 'h \<Rightarrow> u32 option \<times> 'h) \<Rightarrow> 'h \<Rightarrow> ('d \<Rightarrow> u32) \<Rightarrow> (u32 \<Rightarrow> 'd \<Rightarrow> 'd) \<Rightarrow> 'd \<Rightarrow> u32 \<Rightarrow> u32 \<Rightarrow> snn_state" where
  "ready_state malloc h get_csr set_csr d window refractory =
     fst (snd (snn_ttfs_config get_csr set_csr window refractory (fst (snn_init_temporal_coding malloc (snn_boot, h)), d)))"

lemma ready_state_tables:
  "membrane_potentials (ready_state malloc h get_csr set_csr d window refractory) = replicate 256 f_zero"
  "refractory_timers (ready_state malloc h get_csr set_csr d window refractory) = replicate 256 0"
  "temporal_windows (ready_state malloc h get_csr set_csr d window refractory) = replicate 256 0"
  "thresholds (ready_state malloc h get_csr set_csr d window refractory) = replicate 256 f_zero"
  by (simp_all only: ready_state_def snn_ttfs_config_def snn_init_temporal_coding_def snn_boot_def prod.case
      fst_conv snd_conv snn_state.simps if_distrib [where f = fst] if_distrib [where f = snd]
      if_distrib [where f = membrane_potentials] split: prod.split) auto

text \<open>C28: Every sequence of calls of \<open>snn_process_temporal_cycle\<close> after the initialisation and any
  configuration keeps the four tables at 256 entries and every window counter zero or inside the window. There is one
  answer per call, 0 or 1; a neuron that has answered 1 answers 0 to its next \<open>refractory_cycles\<close> calls, whatever is
  called for the others in between; and neurons that no call names keep their zero potential and timers.\<close>

theorem cycle_invariant:
  assumes "cycles mhz cs (ready_state malloc h get_csr set_csr d window refractory) = (outs, s')"
  shows "wf_snn s' \<and> windows_ok mhz s' \<and> map fst outs = map snd cs \<and> (\<forall>(n, spike) \<in> set outs. spike = 0 \<or> spike = 1) \<and>
    (\<forall>os1 n mid os2. outs = os1 @ (n, 1) # mid @ os2 \<and>
       length (filter (\<lambda>a. fst a = n) mid) \<le> unat (refractory_cycles (ttfs_config s')) \<longrightarrow> (n, 1) \<notin> set mid) \<and>
    (\<forall>n. n \<notin> snd ` set cs \<longrightarrow> membrane_potentials s' ! unat n = f_zero \<and> refractory_timers s' ! unat n = 0 \<and>
       temporal_windows s' ! unat n = 0)"
proof -
  define s where "s = ready_state malloc h get_csr set_csr d window refractory"
  have s: "wf_snn s" "windows_ok mhz s"
    unfolding s_def by (simp_all only: wf_snn_def windows_ok_def ready_state_tables length_replicate) simp
  note a = assms [folded s_def]
  note f = cycles_frame [OF a s(1)] and inv = cycles_invariant [OF a s]
  have "(n, 1) \<notin> set mid" if "outs = os1 @ (n, 1) # mid @ os2"
    "length (filter (\<lambda>a. fst a = n) mid) \<le> unat (refractory_cycles (ttfs_config s'))" for os1 n mid os2
    using cycles_refractory [of mhz cs s os1 n mid os2 s'] a s(1) that f by simp
  moreover have "\<forall>n. n \<notin> snd ` set cs \<longrightarrow> membrane_potentials s' ! unat n = f_zero \<and> refractory_timers s' ! unat n = 0 \<and>
      temporal_windows s' ! unat n = 0"
    using inv u8_index unfolding s_def ready_state_tables by simp
  ultimately show ?thesis
    using f inv cycles_answers [OF a] by blast
qed

theorem cycle_invariant_witness:
  "wf_snn (snd (cycles 4000 [(f_one, 3), (f_one, 3)] (ready_state (\<lambda>n h. (None, h)) () (\<lambda>_. 0) (\<lambda>_ d. d) () 1000 2)))"
  using cycle_invariant [of 4000 "[(f_one, 3), (f_one, 3)]" "\<lambda>n h. (None, h)" "()" "\<lambda>_. 0" "\<lambda>_ d. d" "()" 1000 2,
      OF prod.collapse [symmetric]] by simp

text \<open>C40: \<open>snn_apply_stdp_learning\<close> on spike times less than 2^31 cycles apart is defined, and
  because the new weight is truncated towards zero no weight ever grows: its size does not
  increase, and potentiation leaves a weight that is not negative as it was.\<close>

theorem stdp_never_strengthens:
  assumes "expf_ok expf" and "pos_num freq"
    and "unat n \<le> length pre" and "unat n \<le> length post" and "unat n \<le> length ws"
    and "\<forall>i < unat n. 0 \<le> sint (if pre ! i < post ! i then post ! i - pre ! i else pre ! i - post ! i)"
  shows "\<exists>ws'. snn_apply_stdp_learning expf freq (Some pre) (Some post) (Some ws) n = Inr (Some ws') \<and>
    length ws' = length ws \<and>
    (\<forall>i < length ws. \<bar>sint (ws' ! i)\<bar> \<le> \<bar>sint (ws ! i)\<bar> \<and> \<bar>sint (ws ! i)\<bar> - 1 \<le> \<bar>sint (ws' ! i)\<bar> \<and>
       (pre ! i < post ! i \<longrightarrow> 0 \<le> sint (ws ! i) \<longrightarrow> ws' ! i = ws ! i) \<and>
       (unat n \<le> i \<longrightarrow> ws' ! i = ws ! i))"
proof -
  have step: "\<exists>w'. stdp_update expf freq (pre ! i) (post ! i) w = Inr w' \<and>
      \<bar>sint w'\<bar> \<le> \<bar>sint w\<bar> \<and> \<bar>sint w\<bar> - 1 \<le> \<bar>sint w'\<bar> \<and> (pre ! i < post ! i \<longrightarrow> 0 \<le> sint w \<longrightarrow> w' = w)"
    if "i < unat n" for i and w :: "8 word"
  proof -
    have "- 128 \<le> sint w" "sint w \<le> 127"
      using sint_lt [of w] sint_ge [of w] by simp_all
    moreover obtain k where "stdp_update expf freq (pre ! i) (post ! i) w = Inr (word_of_int k)"
      "k = max (- 127) (sint w) \<or> k = sint w + (if pre ! i < post ! i then 1 else - 1) \<and>
        (if pre ! i < post ! i then sint w < 0 else 0 < sint w)"
      using stdp_update_cases [OF assms(1,2)] assms(6) \<open>i < unat n\<close> by metis
    moreover from this calculation have "sint (word_of_int k :: 8 word) = k"
      by (intro sint_of_int8) (auto split: if_splits)
    ultimately show ?thesis
      by (intro exI [of _ "word_of_int k :: 8 word"]) (auto simp: max_def split: if_splits)
  qed
  then obtain ws' where ws': "stdp_loop expf freq pre post n 0 ws = Inr ws'" "length ws' = length ws"
    "\<forall>j. ws' ! j = ws ! j \<or> j < unat n \<and>
        stdp_update expf freq (pre ! j) (post ! j) (ws ! j) = Inr (ws' ! j)"
    using stdp_loop_updates [OF assms(3-5), of 0 expf freq] by fastforce
  have "\<bar>sint (ws' ! i)\<bar> \<le> \<bar>sint (ws ! i)\<bar> \<and> \<bar>sint (ws ! i)\<bar> - 1 \<le> \<bar>sint (ws' ! i)\<bar> \<and>
      (pre ! i < post ! i \<longrightarrow> 0 \<le> sint (ws ! i) \<longrightarrow> ws' ! i = ws ! i) \<and>
      (unat n \<le> i \<longrightarrow> ws' ! i = ws ! i)" for i
  proof (cases "ws' ! i = ws ! i")
    case False
    then have "i < unat n" "stdp_update expf freq (pre ! i) (post ! i) (ws ! i) = Inr (ws' ! i)"
      using ws'(3) by blast+
    then show ?thesis
      using step [of i "ws ! i"] by auto
  qed simp
  then show ?thesis
    using ws'(1,2) by (simp add: snn_apply_stdp_learning_def)
qed

theorem stdp_never_strengthens_witness:
  "\<exists>ws'. snn_apply_stdp_learning (\<lambda>_. FNum False 1 (- 1)) (FNum False 1 27) (Some [1, 9])
     (Some [5, 2]) (Some [100, 3]) 2 = Inr (Some ws') \<and> length ws' = 2 \<and>
     \<bar>sint (ws' ! 1)\<bar> \<le> 3 \<and> ws' ! 0 = 100"
  using stdp_never_strengthens [of "\<lambda>_. FNum False 1 (- 1)" "FNum False 1 27" 2 "[1, 9]" "[5, 2]" "[100, 3]"]
  by (force simp: expf_ok_def power_int_minus less_2_cases_iff)

text \<open>\<open>snn_encode_ttfs_continuous\<close>, when no conversion is out of range, writes one time per
  value and reports as many windows: 0 for a value at or below the threshold, a time inside the
  window above it; with a window of 0 cycles the time above the threshold is 0xFFFFFFFF.\<close>

lemma continuous_times:
  assumes "unat n \<le> length vs" and "unat n \<le> length out"
    and "\<forall>j < unat n. \<exists>t. spike_time (ttfs_config s) (window_cycles mhz (ttfs_config s)) (vs ! j) = Inr t"
  shows "\<exists>ts. snn_encode_ttfs_continuous mhz (Some vs) n (Some out) s = Inr (n, Some ts) \<and>
    length ts = length out \<and> (\<forall>j. unat n \<le> j \<longrightarrow> ts ! j = out ! j) \<and>
    (\<forall>j < unat n.
       if \<not> flt (threshold (ttfs_config s)) (vs ! j) then ts ! j = 0
       else if window_cycles mhz (ttfs_config s) = 0 then ts ! j = 0xFFFFFFFF
       else ts ! j < window_cycles mhz (ttfs_config s))"
proof -
  obtain ts where "ttfs_loop (ttfs_config s) (window_cycles mhz (ttfs_config s)) vs n 0 0 out = Inr (n, ts)"
    "length ts = length out"
    "\<forall>j. if j < unat n then spike_time (ttfs_config s) (window_cycles mhz (ttfs_config s)) (vs ! j) = Inr (ts ! j)
         else ts ! j = out ! j"
    using ttfs_loop_times [OF assms(1,2) _ assms(3), of 0 0] by auto
  moreover from this(3) have "\<forall>j < unat n.
       if \<not> flt (threshold (ttfs_config s)) (vs ! j) then ts ! j = 0
       else if window_cycles mhz (ttfs_config s) = 0 then ts ! j = 0xFFFFFFFF
       else ts ! j < window_cycles mhz (ttfs_config s)"
    by (intro allI impI spike_time_range) (simp split: if_splits)
  ultimately show ?thesis
    by (intro exI [of _ ts]) (simp add: snn_encode_ttfs_continuous_def)
qed

text \<open>With an odd number of samples the encoder reads the sample after the last one, which is
  outside the caller's array; under the default window, where no spike ends the loop earlier, it
  always does.\<close>

lemma encode_rf_odd_overrun:
  assumes "odd (unat n)" and "unat n = length iq" and "0 < size_out"
    and "window_cycles mhz (ttfs_config s) = 0"
  shows "snn_encode_rf_to_ttfs mhz (Some iq) n (Some out) size_out s = Some (Inl OutOfBounds)"
  using enc_loop_odd [OF assms(1-3), of 0 "enc_init out" "ttfs_config s"] odd_pos [OF assms(1)] assms(4)
  by (simp add: snn_encode_rf_to_ttfs_def) (simp add: enc_init_def)

text \<open>An input above 1 makes \<open>snn_encode_ttfs_continuous\<close> convert a negative \<open>float\<close> to
  \<open>uint32_t\<close>: under the default settings at 2000 MHz the value 2 does, where 1 gives time 0.\<close>

lemma continuous_conversion:
  "snn_encode_ttfs_continuous 2000 (Some [f_one]) 1 (Some [9]) default_state = Inr (1, Some [0]) \<and>
   snn_encode_ttfs_continuous 2000 (Some [FNum False 2 0]) 1 (Some [9]) default_state = Inl BadConversion"
proof -
  have W: "window_cycles 2000 (ttfs_config default_state) = 2"
    by (simp add: window_cycles_def default_threshold_half)
  show ?thesis
    by (simp add: snn_encode_ttfs_continuous_def W ttfs_loop.simps fetch_def put_def spike_time_one spike_time_two)
qed

text \<open>\<open>snn_ttfs_config\<close> refuses a zero window or refractory period and then changes nothing;
  otherwise it sets TTFS_EN, writes the window to bits 8 to 10, keeps every bit outside 7 to 11
  and clears bit 11. Bit 8 of the old value survives, because the mask 0xFFFFF1FF clears bits 9
  to 11 in place of 8 to 10.\<close>

lemma ttfs_config_word:
  "case snn_ttfs_config (\<lambda>d. d) (\<lambda>v _. v) window refractory (s, v) of (ok, s', v') \<Rightarrow>
     (ok \<longleftrightarrow> window \<noteq> 0 \<and> refractory \<noteq> 0) \<and>
     (if ok
      then window_us (ttfs_config s') = window \<and> refractory_cycles (ttfs_config s') = refractory \<and>
           bit v' 7 \<and> \<not> bit v' 11 \<and> (bit v' 8 \<longleftrightarrow> bit (window div 100) 0 \<or> bit v 8) \<and>
           (bit v' 9 \<longleftrightarrow> bit (window div 100) 1) \<and> (bit v' 10 \<longleftrightarrow> bit (window div 100) 2) \<and>
           (\<forall>k \<in> {0..<7} \<union> {12..<32}. bit v' k = bit v k)
      else s' = s \<and> v' = v)"
  by (auto simp: snn_ttfs_config_def bit_ttfs_csr)

text \<open>\<open>snn_configure_stdp\<close> puts the low four bits of the policy in bits 12 to 15 of SNN_CTRL
  and keeps every other bit.\<close>

lemma configure_stdp_word:
  "\<forall>k < 32. bit (snd (snn_configure_stdp (\<lambda>d. d) (\<lambda>v _. v) policy v)) k \<longleftrightarrow>
     (if 12 \<le> k \<and> k \<le> 15 then bit policy (k - 12) else bit v k)"
  by (simp add: snn_configure_stdp_def bit_stdp_csr)

end
