(* ===== verification/Hw_Bus.thy ===== *)
theory Hw_Bus
  imports Azmuth_Prelude
begin

text \<open>
  The boundary between the C code and the chip. Every effect that libxcew or the firmware has on
  the hardware is one of six accesses, and \<open>'d bus\<close> holds their meaning on a device state \<open>'d\<close>:
  \<^item> \<open>csrr\<close> and \<open>csrw\<close>: the \<open>csrr\<close> / \<open>csrw\<close> instructions of the inline assembly
    (\<open>sdk/include/azmuth/csr.h\<close>, \<open>CSR_READ\<close> and \<open>CSR_WRITE\<close>);
  \<^item> \<open>insn\<close>: an R-type Xcew instruction (\<open>.insn r opcode, 0, 0, rd, rs1, rs2\<close>);
  \<^item> \<open>ld32\<close> and \<open>st32\<close>: a load or store through a \<open>volatile uint32_t *\<close>;
  \<^item> \<open>st8\<close>: a store through a \<open>volatile uint8_t *\<close>.
  An access takes the device one step further, so a read returns the next state as well.
  Two buses are used: \<open>trace_bus\<close> below logs the accesses of any code over any answers of
  the device, and theory \<open>Rtl_Soc\<close> gives the bus of the RTL.

  The locales are the contracts a client of the bus relies on: \<open>csr_reg\<close> is a CSR that
  keeps the legal part of what was written, \<open>csr_pair\<close> adds that an access to another CSR
  leaves it alone, and \<open>bus_memory\<close> is a memory that answers loads with fixed contents.
\<close>

record 'd bus =
  csrr :: "u12 \<Rightarrow> 'd \<Rightarrow> u32 \<times> 'd"
  csrw :: "u12 \<Rightarrow> u32 \<Rightarrow> 'd \<Rightarrow> 'd"
  insn :: "u7 \<Rightarrow> u32 \<Rightarrow> u32 \<Rightarrow> 'd \<Rightarrow> u32 \<times> 'd"
  ld32 :: "u32 \<Rightarrow> 'd \<Rightarrow> u32 \<times> 'd"
  st32 :: "u32 \<Rightarrow> u32 \<Rightarrow> 'd \<Rightarrow> 'd"
  st8 :: "u32 \<Rightarrow> u8 \<Rightarrow> 'd \<Rightarrow> 'd"

section \<open>The bus that logs\<close>

datatype access =
    CsrRead u12 u32
  | CsrWrite u12 u32
  | Insn u7 u32 u32 u32
  | Load u32 u32
  | Store u32 u32
  | StoreByte u32 u8

text \<open>
  The device of \<open>trace_bus\<close> is a log, newest access first, and the answers of the
  hardware are an arbitrary function of what has happened so far.
\<close>

record answers =
  ans_csr :: "access list \<Rightarrow> u12 \<Rightarrow> u32"
  ans_insn :: "access list \<Rightarrow> u7 \<Rightarrow> u32 \<Rightarrow> u32 \<Rightarrow> u32"
  ans_ld :: "access list \<Rightarrow> u32 \<Rightarrow> u32"

definition trace_bus :: "answers \<Rightarrow> access list bus" where
  "trace_bus h =
     \<lparr>csrr = (\<lambda>a l. (ans_csr h l a, CsrRead a (ans_csr h l a) # l)),
      csrw = (\<lambda>a v l. CsrWrite a v # l),
      insn = (\<lambda>op x y l. (ans_insn h l op x y, Insn op x y (ans_insn h l op x y) # l)),
      ld32 = (\<lambda>a l. (ans_ld h l a, Load a (ans_ld h l a) # l)),
      st32 = (\<lambda>a v l. Store a v # l),
      st8 = (\<lambda>a v l. StoreByte a v # l)\<rparr>"

lemma trace_bus_simps [bus_simps]:
  "csrr (trace_bus h) a l = (ans_csr h l a, CsrRead a (ans_csr h l a) # l)"
  "csrw (trace_bus h) a v l = CsrWrite a v # l"
  "insn (trace_bus h) op x y l = (ans_insn h l op x y, Insn op x y (ans_insn h l op x y) # l)"
  "ld32 (trace_bus h) p l = (ans_ld h l p, Load p (ans_ld h l p) # l)"
  "st32 (trace_bus h) p v l = Store p v # l"
  "st8 (trace_bus h) p b l = StoreByte p b # l"
  by (simp_all add: trace_bus_def)

text \<open>A device that answers every read with 0.\<close>

definition silent_bus :: "access list bus" where
  "silent_bus = trace_bus \<lparr>ans_csr = \<lambda>_ _. 0, ans_insn = \<lambda>_ _ _ _. 0, ans_ld = \<lambda>_ _. 0\<rparr>"

lemma silent_bus_simps [bus_simps]:
  "csrr silent_bus a l = (0, CsrRead a 0 # l)"
  "csrw silent_bus a v l = CsrWrite a v # l"
  "insn silent_bus op x y l = (0, Insn op x y 0 # l)"
  "ld32 silent_bus p l = (0, Load p 0 # l)"
  "st32 silent_bus p v l = Store p v # l"
  "st8 silent_bus p b l = StoreByte p b # l"
  by (simp_all add: silent_bus_def trace_bus_simps)

section \<open>Contracts of CSRs\<close>

locale csr_reg =
  fixes B :: "'d bus"
    and a :: u12
    and inv :: "'d \<Rightarrow> bool"
    and legal :: "u32 \<Rightarrow> u32"
  assumes inv_wr: "inv d \<Longrightarrow> inv (csrw B x v d)"
    and inv_rd: "inv d \<Longrightarrow> inv (snd (csrr B x d))"
    and rd_wr: "inv d \<Longrightarrow> fst (csrr B a (csrw B a v d)) = legal v"
begin

lemma rd_wr_wr: "inv d \<Longrightarrow> fst (csrr B a (csrw B a v (csrw B a u d))) = legal v"
  by (intro rd_wr inv_wr)

text \<open>A read-modify-write sequence, as every driver of the SDK has it.\<close>

lemma rmw:
  "inv d \<Longrightarrow> csrr B a d = (v, d') \<Longrightarrow> fst (csrr B a (csrw B a (f v) d')) = legal (f v)"
  using rd_wr [of d'] inv_rd [of d a] by simp

end

locale csr_pair = csr_reg +
  fixes b :: u12
  assumes other_wr: "inv d \<Longrightarrow> fst (csrr B a (csrw B b v d)) = fst (csrr B a d)"
begin

lemma rd_wr_other: "inv d \<Longrightarrow> fst (csrr B a (csrw B b u (csrw B a v d))) = legal v"
  by (simp add: other_wr rd_wr inv_wr)

end

section \<open>Contract of a memory\<close>

text \<open>Loads answer with the contents \<open>M\<close> while \<open>inv\<close> holds, and keep it.\<close>

locale bus_memory =
  fixes B :: "'d bus"
    and inv :: "'d \<Rightarrow> bool"
    and M :: "u32 \<Rightarrow> u32"
  assumes ld_value: "inv d \<Longrightarrow> fst (ld32 B p d) = M p"
    and ld_inv: "inv d \<Longrightarrow> inv (snd (ld32 B p d))"

end
