(* ===== verification/Fw_Main.thy ===== *)
theory Fw_Main
  imports Hw_Bus
begin

text \<open>
  \<open>firmware/main.c\<close>: the self-test of the v1.0 firmware over the bus. The body of \<open>eml_exec\<close> is
  the literal instruction word 0x00B00093, which names none of the registers the compiler chose
  for the operands and the result. That word is decoded here: it is \<open>addi x1, x0, 11\<close>. Its result
  is therefore whatever the output register held, a parameter \<open>out_reg\<close> of the model (indexed by
  the number of the call), and no custom instruction is issued.
\<close>

section \<open>The instruction word\<close>

record rv_itype =
  opcode :: u7
  rd :: "5 word"
  funct3 :: "3 word"
  rs1 :: "5 word"
  imm :: u12

definition decode_itype :: "u32 \<Rightarrow> rv_itype" where
  "decode_itype w =
     \<lparr>opcode = ucast (bitsel 6 0 w), rd = ucast (bitsel 11 7 w), funct3 = ucast (bitsel 14 12 w),
      rs1 = ucast (bitsel 19 15 w), imm = ucast (bitsel 31 20 w)\<rparr>"

definition eml_word :: u32 where "eml_word = 0x00B00093"

section \<open>Helpers\<close>

definition EML_CSR_ADDR :: u32 where "EML_CSR_ADDR = 0x00020000"
definition SNN_CTRL_ADDR :: u32 where "SNN_CTRL_ADDR = 0x00021000"
definition NVM_CTRL_ADDR :: u32 where "NVM_CTRL_ADDR = 0x00022000"
definition UART_WRITE_ADDR :: u32 where "UART_WRITE_ADDR = 0x00030000"
definition RF_BUFFER_ADDR :: u32 where "RF_BUFFER_ADDR = 0x00010000"
definition SRAM_START :: u32 where "SRAM_START = 0x00010000"

lemmas fw_addrs =
  EML_CSR_ADDR_def SNN_CTRL_ADDR_def NVM_CTRL_ADDR_def UART_WRITE_ADDR_def RF_BUFFER_ADDR_def
  SRAM_START_def

definition eml_exec :: "(nat \<Rightarrow> u32) \<Rightarrow> nat \<Rightarrow> u32 \<Rightarrow> u32 \<Rightarrow> u32" where
  "eml_exec out_reg n a b = out_reg n"

definition eml_cfg_write :: "'d bus \<Rightarrow> u32 \<Rightarrow> 'd \<Rightarrow> 'd" where
  "eml_cfg_write B v d = st32 B EML_CSR_ADDR v d"

definition eml_cfg_read :: "'d bus \<Rightarrow> 'd \<Rightarrow> u32 \<times> 'd" where
  "eml_cfg_read B d = ld32 B EML_CSR_ADDR d"

definition snn_ctrl_write :: "'d bus \<Rightarrow> u32 \<Rightarrow> 'd \<Rightarrow> 'd" where
  "snn_ctrl_write B v d = st32 B SNN_CTRL_ADDR v d"

definition snn_classify :: "'d bus \<Rightarrow> u32 \<Rightarrow> 'd \<Rightarrow> u32 \<times> 'd" where
  "snn_classify B buffer_addr d =
     ld32 B (SNN_CTRL_ADDR + 4) (st32 B SNN_CTRL_ADDR (buffer_addr OR 0x80000000) d)"

definition pol_update :: "'d bus \<Rightarrow> u32 \<Rightarrow> u32 \<Rightarrow> u32 \<Rightarrow> 'd \<Rightarrow> 'd" where
  "pol_update B addr val1 val2 d =
     st32 B (NVM_CTRL_ADDR + ((addr + 4) AND 0xFFF)) val2
       (st32 B (NVM_CTRL_ADDR + (addr AND 0xFFF)) val1 d)"

definition uart_write :: "'d bus \<Rightarrow> u32 \<Rightarrow> u8 \<Rightarrow> 'd \<Rightarrow> 'd" where
  "uart_write B addr v d = st8 B addr v d"

text \<open>\<open>while (count--);\<close> on a 32-bit \<open>int\<close>: the value left in \<open>count\<close>, or no value when the
  decrement leaves the type.\<close>

function delay :: "int \<Rightarrow> int option" where
  "delay count =
     (if count = 0 then Some (-1)
      else if count \<le> - (2 ^ 31) then None
      else delay (count - 1))"
  by pat_completeness auto
termination
  by (relation "measure (\<lambda>c. nat (c + 2 ^ 31))") auto

declare delay.simps [simp del]

section \<open>\<open>main\<close>\<close>

definition adjust_cfg :: "nat \<Rightarrow> u32 \<Rightarrow> u32" where
  "adjust_cfg iteration cfg = cfg XOR push_bit 4 (of_nat iteration)"

text \<open>One round of the feedback loop; \<open>eml_exec\<close> is call number \<open>iteration + 1\<close>.\<close>

definition feedback_round :: "'d bus \<Rightarrow> (nat \<Rightarrow> u32) \<Rightarrow> nat \<Rightarrow> 'd \<Rightarrow> 'd option" where
  "feedback_round B out_reg iteration d =
     (let (cfg, d1) = eml_cfg_read B d;
          d2 = eml_cfg_write B (adjust_cfg iteration cfg) d1;
          result = eml_exec out_reg (Suc iteration) 0x40000000 0x3F800000;
          d3 = st32 B (SRAM_START + of_nat (iteration * 4)) result d2
      in map_option (\<lambda>_. d3) (delay 1000))"

fun feedback :: "'d bus \<Rightarrow> (nat \<Rightarrow> u32) \<Rightarrow> nat list \<Rightarrow> 'd \<Rightarrow> 'd option" where
  "feedback B out_reg [] d = Some d"
| "feedback B out_reg (k # ks) d =
     (case feedback_round B out_reg k d of
        None \<Rightarrow> None
      | Some d' \<Rightarrow> feedback B out_reg ks d')"

definition eml_test :: "u32 \<Rightarrow> u8" where
  "eml_test result = (if result AND 0xFFFF0000 = 0x402D0000 then 0x01 else 0)"

definition snn_test :: "u32 \<Rightarrow> u8" where
  "snn_test result = (if result \<noteq> 0 then 0x02 else 0)"

definition main :: "'d bus \<Rightarrow> (nat \<Rightarrow> u32) \<Rightarrow> 'd \<Rightarrow> (int \<times> 'd) option" where
  "main B out_reg d =
     (let d1 = eml_cfg_write B 0x8000 d;
          eml = eml_exec out_reg 0 0x3F800000 0x3F800000;
          d2 = snn_ctrl_write B 0x01 d1;
          (cls, d3) = snn_classify B RF_BUFFER_ADDR d2;
          d4 = pol_update B 0x00022000 0x00000001 0x00000001 d3;
          d5 = uart_write B UART_WRITE_ADDR (eml_test eml OR snn_test cls) d4
      in map_option (\<lambda>d6. (0, uart_write B (UART_WRITE_ADDR + 1) 0xFF d6))
           (feedback B out_reg [0..<10] d5))"

lemmas main_defs =
  main_def eml_cfg_write_def eml_cfg_read_def snn_ctrl_write_def snn_classify_def pol_update_def
  uart_write_def eml_exec_def feedback_round_def fw_addrs

section \<open>Lemmas\<close>

text \<open>A wait of any non-negative length ends.\<close>

lemma delay_ends: "delay (int n) = Some (-1)"
proof (induction n)
  case (Suc n)
  then show ?case
    by (subst delay.simps) simp
qed (simp add: delay.simps)

lemma delay_1000 [simp]: "delay 1000 = Some (-1)"
  using delay_ends [of 1000] by simp

text \<open>The device after rounds \<open>ks\<close>; the loop always gets there.\<close>

definition round_effect :: "'d bus \<Rightarrow> (nat \<Rightarrow> u32) \<Rightarrow> nat \<Rightarrow> 'd \<Rightarrow> 'd" where
  "round_effect B out_reg k d =
     (let (cfg, d1) = ld32 B 0x20000 d
      in st32 B (0x10000 + of_nat (k * 4)) (out_reg (Suc k))
           (st32 B 0x20000 (adjust_cfg k cfg) d1))"

lemma feedback_total: "feedback B out_reg ks d = Some (fold (round_effect B out_reg) ks d)"
  by (induction ks arbitrary: d)
    (simp_all add: round_effect_def feedback_round_def main_defs Let_def split: prod.splits)

lemma main_total:
  "main B out_reg d =
     (let d2 = st32 B 0x21000 1 (st32 B 0x20000 0x8000 d);
          (cls, d3) = ld32 B 0x21004 (st32 B 0x21000 0x80010000 d2);
          d4 = st32 B 0x22004 1 (st32 B 0x22000 1 d3);
          d5 = st8 B 0x30000 (eml_test (out_reg 0) OR snn_test cls) d4
      in Some (0, st8 B 0x30001 0xFF (fold (round_effect B out_reg) [0..<10] d5)))"
  by (simp add: main_defs feedback_total Let_def split: prod.split)

section \<open>Properties\<close>

text \<open>The word in \<open>eml_exec\<close> is no Xcew instruction: it decodes to \<open>addi x1, x0, 11\<close>, opcode 0x13
  and not 0x0B, so it reads no operand and overwrites the return address register.\<close>

lemma eml_exec_is_addi_ra:
  "decode_itype eml_word = \<lparr>opcode = 0x13, rd = 1, funct3 = 0, rs1 = 0, imm = 11\<rparr> \<and>
    opcode (decode_itype eml_word) \<noteq> 0x0B"
  by (simp add: decode_itype_def eml_word_def bitsel_def mask_eq_exp_minus_1 drop_bit_eq_div)

text \<open>The feedback loop never changes the precision: for the ten values of \<open>iteration\<close> the
  exclusive or touches only bits 7 to 4 of the configuration, so COMPLEX, MAX_DEPTH and PRECISION
  (bits 15 to 8) are written back as they were read.\<close>

lemma feedback_keeps_precision:
  assumes "iteration < 10"
  shows "bitsel 15 8 (adjust_cfg iteration cfg) = bitsel 15 8 cfg \<and>
    bitsel 3 0 (adjust_cfg iteration cfg) = bitsel 3 0 cfg"
proof -
  have high: "\<not> bit iteration n" if "4 \<le> n" for n
  proof -
    have "iteration div 2 ^ n = 0"
      using assms that power_increasing [of 4 n "2 :: nat"] by (simp add: div_less)
    then show ?thesis
      by (simp add: bit_iff_odd)
  qed
  show ?thesis
    by (intro conjI; rule bit_word_eqI) (auto simp: adjust_cfg_def bit_simps high)
qed

text \<open>The accesses of one round when the configuration register answers \<open>c\<close>.\<close>

definition round_log :: "(nat \<Rightarrow> u32) \<Rightarrow> (nat \<Rightarrow> u32) \<Rightarrow> nat \<Rightarrow> access list" where
  "round_log out_reg c k =
     [Load 0x20000 (c k), Store 0x20000 (adjust_cfg k (c k)),
      Store (0x10000 + of_nat (k * 4)) (out_reg (Suc k))]"

lemma rounds_log:
  assumes "distinct ks"
  shows "\<exists>c. fold (round_effect (trace_bus h) out_reg) ks l =
    rev (concat (map (round_log out_reg c) ks)) @ l"
  using assms
proof (induction ks arbitrary: l)
  case (Cons k ks)
  define v where "v = ans_ld h l 0x20000"
  obtain c where c: "fold (round_effect (trace_bus h) out_reg) ks (round_effect (trace_bus h) out_reg k l) =
      rev (concat (map (round_log out_reg c) ks)) @ round_effect (trace_bus h) out_reg k l"
    using Cons by auto
  have eq: "map (round_log out_reg (c(k := v))) ks = map (round_log out_reg c) ks"
    using Cons.prems by (auto simp: round_log_def)
  have round: "round_effect (trace_bus h) out_reg k l = rev (round_log out_reg (c(k := v)) k) @ l"
    by (simp add: round_effect_def round_log_def v_def bus_simps)
  show ?case
    using c by (intro exI [of _ "c(k := v)"]) (simp add: eq round del: fun_upd_apply)
qed simp

text \<open>\<open>main\<close> returns 0 whatever the hardware answers, and its accesses are exactly: the
  configuration word 0x8000, the two SNN control words, the read of the class, the two NVM words,
  the result byte to the UART, ten rounds of read, write back and log entry, and the end marker.
  The EML bit of the result byte depends only on the register that the compiler chose for the
  output of \<open>eml_exec\<close>.\<close>

lemma main_accesses:
  "\<exists>cls c. main (trace_bus h) out_reg [] =
    Some (0, rev ([Store 0x20000 0x8000, Store 0x21000 1, Store 0x21000 0x80010000, Load 0x21004 cls,
                   Store 0x22000 1, Store 0x22004 1,
                   StoreByte 0x30000 (eml_test (out_reg 0) OR snn_test cls)] @
                  concat (map (round_log out_reg c) [0..<10]) @ [StoreByte 0x30001 0xFF]))"
proof -
  define l where "l = [Store 0x21000 0x80010000, Store 0x21000 1, Store 0x20000 0x8000]"
  define cls where "cls = ans_ld h l 0x21004"
  define l' where "l' = StoreByte 0x30000 (eml_test (out_reg 0) OR snn_test cls) #
    Store 0x22004 1 # Store 0x22000 1 # Load 0x21004 cls # l"
  have main: "main (trace_bus h) out_reg [] =
      Some (0, StoreByte 0x30001 0xFF # fold (round_effect (trace_bus h) out_reg) [0..<10] l')"
    by (simp add: main_total bus_simps cls_def l_def l'_def Let_def del: upt.simps)
  obtain c where "fold (round_effect (trace_bus h) out_reg) [0..<10] l' =
      rev (concat (map (round_log out_reg c) [0..<10])) @ l'"
    using rounds_log [OF distinct_upt] by blast
  then show ?thesis
    unfolding main by (intro exI [of _ cls] exI [of _ c]) (simp add: l_def l'_def del: upt.simps)
qed

end
