(* ===== verification/Sdk_Eml.thy ===== *)
theory Sdk_Eml
  imports Hw_Bus
begin

text \<open>
  \<open>sdk/include/azmuth/xcew.h\<close> (status codes, the EML context), \<open>csr.h\<close> (CSR numbers and
  the fields of \<open>xcew_cfg\<close>) and \<open>sdk/src/xcew_eml.c\<close>. A pointer argument is an option:
  \<open>None\<close> is \<open>NULL\<close>. A function returns its C result, the pointed-to objects after the
  call and the device after its accesses.
\<close>

section \<open>Status codes and CSR numbers\<close>

definition XCEW_OK :: int where "XCEW_OK = 0"
definition XCEW_ERR_INVALID :: int where "XCEW_ERR_INVALID = -1"
definition XCEW_ERR_BUSY :: int where "XCEW_ERR_BUSY = -2"
definition XCEW_ERR_TIMEOUT :: int where "XCEW_ERR_TIMEOUT = -3"
definition XCEW_ERR_ECC :: int where "XCEW_ERR_ECC = -4"
definition XCEW_ERR_FAULT :: int where "XCEW_ERR_FAULT = -5"
definition XCEW_ERR_NOSUPPORT :: int where "XCEW_ERR_NOSUPPORT = -6"

lemmas xcew_codes =
  XCEW_OK_def XCEW_ERR_INVALID_def XCEW_ERR_BUSY_def XCEW_ERR_TIMEOUT_def
  XCEW_ERR_ECC_def XCEW_ERR_FAULT_def XCEW_ERR_NOSUPPORT_def

definition CSR_XCEW_CFG :: u12 where "CSR_XCEW_CFG = 0x7C0"
definition CSR_XCEW_STATUS :: u12 where "CSR_XCEW_STATUS = 0x7C1"
definition CSR_SNN_CTRL_EXT :: u12 where "CSR_SNN_CTRL_EXT = 0x7C5"
definition CSR_EML_DAG_CTL :: u12 where "CSR_EML_DAG_CTL = 0x7C6"
definition CSR_PWR_CTRL :: u12 where "CSR_PWR_CTRL = 0x7C8"
definition CSR_BIAS_CTRL :: u12 where "CSR_BIAS_CTRL = 0x7C9"
definition CSR_SEC_CTRL :: u12 where "CSR_SEC_CTRL = 0x7CA"
definition CSR_POL_SEC :: u12 where "CSR_POL_SEC = 0x7CB"
definition CSR_FAULT_STATUS :: u12 where "CSR_FAULT_STATUS = 0x7CC"
definition CSR_WATCHDOG_TIMEOUT :: u12 where "CSR_WATCHDOG_TIMEOUT = 0x7CD"
definition CSR_ECC_SCRUB_COUNT :: u12 where "CSR_ECC_SCRUB_COUNT = 0x7CE"
definition CSR_ECC_CORRECTED :: u12 where "CSR_ECC_CORRECTED = 0x7CF"

lemmas csr_numbers =
  CSR_XCEW_CFG_def CSR_XCEW_STATUS_def CSR_SNN_CTRL_EXT_def CSR_EML_DAG_CTL_def
  CSR_PWR_CTRL_def CSR_BIAS_CTRL_def CSR_SEC_CTRL_def CSR_POL_SEC_def CSR_FAULT_STATUS_def
  CSR_WATCHDOG_TIMEOUT_def CSR_ECC_SCRUB_COUNT_def CSR_ECC_CORRECTED_def

text \<open>The standard machine CSRs of the header, and the two accessors that read, change and write
  back: \<open>csrs\<close> and \<open>csrc\<close> on a bus are a read followed by a write.\<close>

definition CSR_MSTATUS :: u12 where "CSR_MSTATUS = 0x300"
definition CSR_MISA :: u12 where "CSR_MISA = 0x301"
definition CSR_MIE :: u12 where "CSR_MIE = 0x304"
definition CSR_MTVEC :: u12 where "CSR_MTVEC = 0x305"
definition CSR_MSCRATCH :: u12 where "CSR_MSCRATCH = 0x340"
definition CSR_MEPC :: u12 where "CSR_MEPC = 0x341"
definition CSR_MCAUSE :: u12 where "CSR_MCAUSE = 0x342"
definition CSR_MTVAL :: u12 where "CSR_MTVAL = 0x343"
definition CSR_MIP :: u12 where "CSR_MIP = 0x344"
definition CSR_MHARTID :: u12 where "CSR_MHARTID = 0xF14"

lemmas machine_csr_numbers =
  CSR_MSTATUS_def CSR_MISA_def CSR_MIE_def CSR_MTVEC_def CSR_MSCRATCH_def CSR_MEPC_def
  CSR_MCAUSE_def CSR_MTVAL_def CSR_MIP_def CSR_MHARTID_def

definition CSR_READ :: "'d bus \<Rightarrow> u12 \<Rightarrow> 'd \<Rightarrow> u32 \<times> 'd" where
  "CSR_READ B csr d = csrr B csr d"

definition CSR_WRITE :: "'d bus \<Rightarrow> u12 \<Rightarrow> u32 \<Rightarrow> 'd \<Rightarrow> 'd" where
  "CSR_WRITE B csr v d = csrw B csr v d"

definition CSR_SET :: "'d bus \<Rightarrow> u12 \<Rightarrow> u32 \<Rightarrow> 'd \<Rightarrow> 'd" where
  "CSR_SET B csr v d = (case csrr B csr d of (x, d') \<Rightarrow> csrw B csr (x OR v) d')"

definition CSR_CLEAR :: "'d bus \<Rightarrow> u12 \<Rightarrow> u32 \<Rightarrow> 'd \<Rightarrow> 'd" where
  "CSR_CLEAR B csr v d = (case csrr B csr d of (x, d') \<Rightarrow> csrw B csr (x AND NOT v) d')"

context csr_reg
begin

lemma set_bits:
  "inv d \<Longrightarrow> fst (CSR_READ B a (CSR_SET B a v d)) = legal (fst (csrr B a d) OR v)"
  using rmw [of d "fst (csrr B a d)" "snd (csrr B a d)" "\<lambda>x. x OR v"]
  by (simp add: CSR_SET_def CSR_READ_def case_prod_beta)

lemma clear_bits:
  "inv d \<Longrightarrow> fst (CSR_READ B a (CSR_CLEAR B a v d)) = legal (fst (csrr B a d) AND NOT v)"
  using rmw [of d "fst (csrr B a d)" "snd (csrr B a d)" "\<lambda>x. x AND NOT v"]
  by (simp add: CSR_CLEAR_def CSR_READ_def case_prod_beta)

text \<open>Setting bits and clearing the same bits leaves the register with those bits clear, where
  the register keeps every bit pattern it is given.\<close>

lemma set_then_clear:
  assumes "inv d" "\<And>x. legal x = x"
  shows "fst (CSR_READ B a (CSR_CLEAR B a v (CSR_SET B a v d))) = fst (csrr B a d) AND NOT v"
proof -
  have i: "inv (CSR_SET B a v d)"
    using assms(1) by (simp add: CSR_SET_def case_prod_beta inv_wr inv_rd)
  have "fst (csrr B a (CSR_SET B a v d)) = fst (csrr B a d) OR v"
    using set_bits [OF assms(1)] assms(2) by (simp add: CSR_READ_def)
  then show ?thesis
    using clear_bits [OF i, of v] assms(2) by (simp add: bit.conj_disj_distrib2)
qed

end

text \<open>The field macros of \<open>xcew_cfg\<close>.\<close>

definition XCEW_CFG_COMPLEX_MODE :: u32 where "XCEW_CFG_COMPLEX_MODE = push_bit 15 1"
definition XCEW_CFG_MAX_DEPTH :: "u32 \<Rightarrow> u32" where
  "XCEW_CFG_MAX_DEPTH n = push_bit 12 (n AND 0x7)"
definition XCEW_CFG_PRECISION :: "u32 \<Rightarrow> u32" where
  "XCEW_CFG_PRECISION n = push_bit 8 (n AND 0xF)"
definition XCEW_CFG_BRANCH_CUT :: u32 where "XCEW_CFG_BRANCH_CUT = push_bit 7 1"

text \<open>The bits that \<open>csr.h\<close> gives to \<open>fault_status\<close>.\<close>

definition FAULT_WATCHDOG :: u32 where "FAULT_WATCHDOG = push_bit 0 1"
definition FAULT_ECC_SINGLE :: u32 where "FAULT_ECC_SINGLE = push_bit 1 1"
definition FAULT_ECC_DOUBLE :: u32 where "FAULT_ECC_DOUBLE = push_bit 2 1"
definition FAULT_SOFT_EML :: u32 where "FAULT_SOFT_EML = push_bit 3 1"
definition FAULT_SOFT_SNN :: u32 where "FAULT_SOFT_SNN = push_bit 4 1"
definition FAULT_HARD_NVM :: u32 where "FAULT_HARD_NVM = push_bit 5 1"
definition FAULT_CSR_VIOLATION :: u32 where "FAULT_CSR_VIOLATION = push_bit 6 1"
definition FAULT_INSTR_FAULT :: u32 where "FAULT_INSTR_FAULT = push_bit 7 1"
definition FAULT_CLEAR_BIT :: u32 where "FAULT_CLEAR_BIT = push_bit 31 1"

section \<open>\<open>xcew_eml.c\<close>\<close>

record xcew_eml =
  expr_id :: u32
  flags :: u32
  mode :: u32
  precision :: u32

text \<open>The file's own CSR accessors know four, respectively three, numbers.\<close>

definition eml_csr_read :: "'d bus \<Rightarrow> u32 \<Rightarrow> 'd \<Rightarrow> u32 \<times> 'd" where
  "eml_csr_read B addr d =
     (if addr = 0x7C0 then csrr B 0x7C0 d
      else if addr = 0x7C1 then csrr B 0x7C1 d
      else if addr = 0x7C6 then csrr B 0x7C6 d
      else if addr = 0x7CC then csrr B 0x7CC d
      else (0, d))"

definition eml_csr_write :: "'d bus \<Rightarrow> u32 \<Rightarrow> u32 \<Rightarrow> 'd \<Rightarrow> 'd" where
  "eml_csr_write B addr v d =
     (if addr = 0x7C0 then csrw B 0x7C0 v d
      else if addr = 0x7C6 then csrw B 0x7C6 v d
      else if addr = 0x7CC then csrw B 0x7CC v d
      else d)"

text \<open>The configuration word of \<open>xcew_eml_init\<close>: shifts of the three constants and of the
  context's precision field.\<close>

definition eml_init_cfg :: "u32 \<Rightarrow> u32" where
  "eml_init_cfg prec =
     ((push_bit 15 0 OR push_bit 12 3) OR push_bit 8 prec) OR push_bit 7 0"

definition xcew_eml_init ::
  "'d bus \<Rightarrow> xcew_eml option \<Rightarrow> u32 \<Rightarrow> 'd \<Rightarrow> int \<times> xcew_eml option \<times> 'd" where
  "xcew_eml_init B eml m d =
     (case eml of
        None \<Rightarrow> (XCEW_ERR_INVALID, None, d)
      | Some e \<Rightarrow>
          if 1 < m then (XCEW_ERR_INVALID, Some e, d)
          else
            let e' = e\<lparr>expr_id := 0, flags := 0, mode := m, precision := 2\<rparr>;
                d1 = eml_csr_write B 0x7C6 (m AND 0x1) d;
                d2 = eml_csr_write B 0x7C0 (eml_init_cfg (precision e')) d1
            in (XCEW_OK, Some e', d2))"

text \<open>\<open>xcew_eml_compute\<close>: the third component is \<open>*output\<close> after the call.\<close>

definition xcew_eml_compute ::
  "'d bus \<Rightarrow> xcew_eml option \<Rightarrow> u32 \<Rightarrow> u32 option \<Rightarrow> 'd \<Rightarrow> int \<times> u32 option \<times> 'd" where
  "xcew_eml_compute B eml inp outp d =
     (case (eml, outp) of
        (Some e, Some _) \<Rightarrow>
          let (result, d1) = insn B 0x0B (expr_id e) inp d;
              (fault, d2) = eml_csr_read B 0x7CC d1
          in if fault AND 0xFF \<noteq> 0 then (XCEW_ERR_FAULT, Some result, d2)
             else (XCEW_OK, Some result, d2)
      | _ \<Rightarrow> (XCEW_ERR_INVALID, outp, d))"

definition xcew_eml_close :: "xcew_eml option \<Rightarrow> xcew_eml option" where
  "xcew_eml_close eml = map_option (\<lambda>e. e\<lparr>expr_id := 0, flags := 0\<rparr>) eml"

lemmas [sdk_defs] =
  eml_csr_read_def eml_csr_write_def xcew_eml_init_def xcew_eml_compute_def xcew_eml_close_def

section \<open>Lemmas\<close>

lemma eml_init_cfg_default:
  "eml_init_cfg 2 = XCEW_CFG_MAX_DEPTH 3 OR XCEW_CFG_PRECISION 2"
  "eml_init_cfg 2 = 0x3200"
  by (simp_all add: eml_init_cfg_def XCEW_CFG_MAX_DEPTH_def XCEW_CFG_PRECISION_def)

lemma eml_init_NULL [simp]: "xcew_eml_init B None m d = (XCEW_ERR_INVALID, None, d)"
  by (simp add: sdk_defs)

lemma eml_init_bad_mode: "1 < m \<Longrightarrow> xcew_eml_init B (Some e) m d = (XCEW_ERR_INVALID, Some e, d)"
  by (simp add: sdk_defs)

lemma eml_init_ok:
  "m \<le> 1 \<Longrightarrow> xcew_eml_init B (Some e) m d =
     (XCEW_OK, Some (e\<lparr>expr_id := 0, flags := 0, mode := m, precision := 2\<rparr>),
      csrw B 0x7C0 0x3200 (csrw B 0x7C6 m d))"
proof -
  assume "m \<le> 1"
  then have "m = 0 \<or> m = 1"
    by (simp add: word_le_1_iff)
  then show ?thesis
    by (auto simp: sdk_defs eml_init_cfg_default(2) Let_def not_less)
qed

end
