(* ===== verification/Sdk_Snn.thy ===== *)
theory Sdk_Snn
  imports Sdk_Eml
begin

text \<open>
  \<open>sdk/src/xcew_snn.c\<close>: the SNN context, weight loading through the CSR window at
  \<open>0x3000\<close>, classification and the STDP switch. \<open>size_t\<close> is 32 bits wide (ilp32), so loop
  counters are \<open>32 word\<close> and wrap; a loop that need not end is a partial function, where
  \<open>None\<close> means that the call does not return.
\<close>

record xcew_snn =
  tile_id :: u32
  neuron_count :: u32
  ttfs_enabled :: u32
  stdp_policy :: u32

definition xcew_snn_init ::
  "'d bus \<Rightarrow> xcew_snn option \<Rightarrow> u32 \<Rightarrow> 'd \<Rightarrow> int \<times> xcew_snn option \<times> 'd" where
  "xcew_snn_init B snn nc d =
     (case snn of
        None \<Rightarrow> (XCEW_ERR_INVALID, None, d)
      | Some s \<Rightarrow>
          if nc = 0 \<or> 256 < nc then (XCEW_ERR_INVALID, Some s, d)
          else
            let s' = s\<lparr>tile_id := 0, neuron_count := nc, ttfs_enabled := 1, stdp_policy := 0\<rparr>;
                snn_ctrl = (nc AND 0xFF) OR push_bit 8 (ttfs_enabled s' AND 0x1)
            in (XCEW_OK, Some s', csrw B 0x7C5 snn_ctrl d))"

text \<open>
  The inner loop packs up to four weights, least significant byte first. A weight is an
  \<open>int8_t\<close>, kept as its 8 bits: the cast to \<open>uint8_t\<close> keeps them and the cast to
  \<open>uint32_t\<close> extends with zeros.
\<close>

function snn_pack :: "u8 list \<Rightarrow> u32 \<Rightarrow> u32 \<Rightarrow> u32 \<Rightarrow> u32 \<Rightarrow> ub + u32" where
  "snn_pack ws len i j word =
     (if j < 4 \<and> i + j < len then
        (if unat (i + j) < length ws
         then snn_pack ws len i (j + 1)
                (word OR push_bit (unat (j * 8)) (ucast (ws ! unat (i + j))))
         else Inl OutOfBounds)
      else Inr word)"
  by pat_completeness auto
termination
proof (relation "measure (\<lambda>(ws, len, i, j, word). unat (4 :: u32) - unat j)")
qed (simp_all only: in_measure split_conv u32_inc(2) wf_measure)

declare snn_pack.simps [simp del]

partial_function (option) snn_load_loop ::
  "'d bus \<Rightarrow> u8 list \<Rightarrow> u32 \<Rightarrow> u32 \<Rightarrow> 'd \<Rightarrow> (ub + 'd) option" where
  "snn_load_loop B ws len i d =
     (if i < len then
        (case snn_pack ws len i 0 0 of
           Inl e \<Rightarrow> Some (Inl e)
         | Inr w \<Rightarrow> snn_load_loop B ws len (i + 4) (st32 B (0x3000 + 4 * (i div 4)) w d))
      else Some (Inr d))"

definition xcew_snn_load_weights ::
  "'d bus \<Rightarrow> xcew_snn option \<Rightarrow> u8 list option \<Rightarrow> u32 \<Rightarrow> 'd \<Rightarrow> (ub + int \<times> 'd) option" where
  "xcew_snn_load_weights B snn weights len d =
     (case (snn, weights) of
        (Some s, Some ws) \<Rightarrow>
          if neuron_count s < len then Some (Inr (XCEW_ERR_INVALID, d))
          else map_option (map_sum id (\<lambda>d'. (XCEW_OK, d'))) (snn_load_loop B ws len 0 d)
      | _ \<Rightarrow> Some (Inr (XCEW_ERR_INVALID, d)))"

text \<open>The input vector is passed to the instruction as an address; only its being \<open>NULL\<close>
  matters to the C code.\<close>

definition xcew_snn_classify ::
  "'d bus \<Rightarrow> xcew_snn option \<Rightarrow> u32 option \<Rightarrow> u32 option \<Rightarrow> 'd \<Rightarrow> int \<times> u32 option \<times> 'd" where
  "xcew_snn_classify B snn inp class_id d =
     (case (snn, inp, class_id) of
        (Some s, Some p, Some _) \<Rightarrow>
          let (result, d1) = insn B 0x5B p 0 d
          in (XCEW_OK, Some (result AND 0xFF), d1)
      | _ \<Rightarrow> (XCEW_ERR_INVALID, class_id, d))"

definition xcew_snn_enable_stdp ::
  "'d bus \<Rightarrow> xcew_snn option \<Rightarrow> u32 \<Rightarrow> 'd \<Rightarrow> int \<times> xcew_snn option \<times> 'd" where
  "xcew_snn_enable_stdp B snn policy d =
     (case snn of
        None \<Rightarrow> (XCEW_ERR_INVALID, None, d)
      | Some s \<Rightarrow>
          if 5 < policy then (XCEW_ERR_INVALID, Some s, d)
          else
            let s' = s\<lparr>stdp_policy := policy\<rparr>;
                snn_ctrl = ((neuron_count s' AND 0xFF) OR push_bit 8 (ttfs_enabled s' AND 0x1))
                           OR push_bit 12 (policy AND 0x7)
            in (XCEW_OK, Some s', csrw B 0x7C5 snn_ctrl d))"

definition xcew_snn_close :: "xcew_snn option \<Rightarrow> xcew_snn option" where
  "xcew_snn_close snn = map_option (\<lambda>s. s\<lparr>neuron_count := 0, stdp_policy := 0\<rparr>) snn"

lemmas [sdk_defs] =
  xcew_snn_init_def xcew_snn_load_weights_def xcew_snn_classify_def
  xcew_snn_enable_stdp_def xcew_snn_close_def

section \<open>What a load of weights stores\<close>

text \<open>Word \<open>k\<close> of the window holds weights \<open>4k\<close> to \<open>4k + 3\<close>, zero beyond the length.\<close>

definition weight_byte :: "u8 list \<Rightarrow> nat \<Rightarrow> nat \<Rightarrow> u8" where
  "weight_byte ws n k = (if k < n then ws ! k else 0)"

definition weight_word :: "u8 list \<Rightarrow> nat \<Rightarrow> nat \<Rightarrow> u32" where
  "weight_word ws n k =
     u32_of_bytes (weight_byte ws n (4 * k)) (weight_byte ws n (4 * k + 1))
       (weight_byte ws n (4 * k + 2)) (weight_byte ws n (4 * k + 3))"

definition store_weights :: "'d bus \<Rightarrow> u8 list \<Rightarrow> nat \<Rightarrow> nat list \<Rightarrow> 'd \<Rightarrow> 'd" where
  "store_weights B ws n ks d =
     fold (\<lambda>k. st32 B (0x3000 + ctr k) (weight_word ws n k)) ks d"

lemma store_weights_simps [simp]:
  "store_weights B ws n [] d = d"
  "store_weights B ws n (k # ks) d =
     store_weights B ws n ks (st32 B (0x3000 + ctr k) (weight_word ws n k) d)"
  by (simp_all add: store_weights_def)

lemma snn_pack_word:
  assumes len: "unat len + 3 < 2 ^ 32" and ws: "unat len \<le> length ws" and i: "unat i < unat len"
    and k: "unat i = 4 * k"
  shows "snn_pack ws len i 0 0 = Inr (weight_word ws (unat len) k)"
proof -
  have u: "unat (i + 1) = unat i + 1" "unat (i + 2) = unat i + 2" "unat (i + 3) = unat i + 3"
    using len i unat_add_small [of i 1] unat_add_small [of i 2] unat_add_small [of i 3]
    by simp_all
  have less: "i < len" "i + 1 < len \<longleftrightarrow> unat i + 1 < unat len"
      "i + 2 < len \<longleftrightarrow> unat i + 2 < unat len" "i + 3 < len \<longleftrightarrow> unat i + 3 < unat len"
    using i by (simp_all add: word_less_nat_alt u)
  have word: "weight_word ws (unat len) k =
      u32_of_bytes (ws ! unat i) (if unat i + 1 < unat len then ws ! (unat i + 1) else 0)
        (if unat i + 2 < unat len then ws ! (unat i + 2) else 0)
        (if unat i + 3 < unat len then ws ! (unat i + 3) else 0)"
    using i by (simp add: weight_word_def weight_byte_def k)
  note unfold = snn_pack.simps [of ws len i 0] snn_pack.simps [of ws len i 1]
    snn_pack.simps [of ws len i 2] snn_pack.simps [of ws len i 3] snn_pack.simps [of ws len i 4]
  show ?thesis
    unfolding word using ws i
    by (simp add: unfold less u u32_of_bytes_def or.assoc)
qed

lemma snn_load_loop_stores:
  assumes len: "unat len + 3 < 2 ^ 32" and ws: "unat len \<le> length ws"
    and k: "k \<le> nwords (unat len)"
  shows "snn_load_loop B ws len (ctr k) d =
           Some (Inr (store_weights B ws (unat len) [k..<nwords (unat len)] d))"
  using k
proof (induction k arbitrary: d rule: inc_induct)
  case base
  show ?case
    using ctr_exit [OF len] by (simp add: snn_load_loop.simps)
next
  case (step k)
  note k = ctr_loop [OF step.hyps(2)]
  have "4 * k < unat len"
    using step by (simp add: less_nwords_iff)
  then have "snn_pack ws len (ctr k) 0 0 = Inr (weight_word ws (unat len) k)"
    using len ws k by (intro snn_pack_word) simp_all
  then have "snn_load_loop B ws len (ctr k) d =
      snn_load_loop B ws len (ctr (Suc k)) (st32 B (0x3000 + ctr k) (weight_word ws (unat len) k) d)"
    using k by (subst snn_load_loop.simps) simp
  then show ?case
    using step by (simp add: upt_conv_Cons)
qed

lemma byte_of_weight_word:
  assumes "i < n"
  shows "byte_of (i mod 4) (weight_word ws n (i div 4)) = ws ! i"
proof -
  have "i mod 4 < 4"
    by simp
  then consider "i mod 4 = 0" | "i mod 4 = 1" | "i mod 4 = 2" | "i mod 4 = 3"
    by linarith
  then show ?thesis
    using assms mult_div_mod_eq [of 4 i]
    by cases (simp_all add: weight_word_def weight_byte_def)
qed

lemma snn_init_ok:
  "nc \<noteq> 0 \<Longrightarrow> nc \<le> 256 \<Longrightarrow> xcew_snn_init B (Some s) nc d =
     (XCEW_OK, Some (s\<lparr>tile_id := 0, neuron_count := nc, ttfs_enabled := 1, stdp_policy := 0\<rparr>),
      csrw B 0x7C5 ((nc AND 0xFF) OR push_bit 8 1) d)"
  by (simp add: sdk_defs Let_def not_less [symmetric])

lemma snn_init_cases:
  assumes "xcew_snn_init B (Some s) nc d = (XCEW_OK, Some s', d')"
  shows "nc \<noteq> 0 \<and> nc \<le> 256 \<and> neuron_count s' = nc \<and> d' = csrw B 0x7C5 ((nc AND 0xFF) OR push_bit 8 1) d"
  using assms by (auto simp: sdk_defs xcew_codes Let_def split: if_splits)

section \<open>Properties\<close>

text \<open>C16: After a successful \<open>xcew_snn_init\<close> a load of at most \<open>neuron_count\<close> weights returns, with
  \<open>XCEW_OK\<close>, and what it does to any device is exactly one store per four weights, to the
  consecutive words of the window at 0x3000. Byte \<open>i mod 4\<close> of the word \<open>i div 4\<close> is weight \<open>i\<close>,
  so the whole vector can be read back from what was stored.\<close>

theorem load_weights_stores:
  assumes "xcew_snn_init B (Some s0) nc d0 = (XCEW_OK, Some s, d)"
    and "len \<le> nc" and "unat len \<le> length ws"
  shows "xcew_snn_load_weights B (Some s) (Some ws) len d =
      Some (Inr (XCEW_OK, store_weights B ws (unat len) [0..<nwords (unat len)] d)) \<and>
    (\<forall>i < unat len. i div 4 < nwords (unat len) \<and>
       byte_of (i mod 4) (weight_word ws (unat len) (i div 4)) = ws ! i)"
proof -
  have nc: "nc \<le> 256" "neuron_count s = nc"
    using snn_init_cases [OF assms(1)] by auto
  then have "len \<le> 256"
    using assms(2) by simp
  then have len: "unat len + 3 < 2 ^ 32"
    by (simp add: word_le_nat_alt)
  have "snn_load_loop B ws len 0 d =
      Some (Inr (store_weights B ws (unat len) [0..<nwords (unat len)] d))"
    using snn_load_loop_stores [OF len assms(3), of 0] by simp
  then show ?thesis
    using nc assms(2) byte_of_weight_word div_times_less_eq_dividend
    by (auto simp: xcew_snn_load_weights_def not_less [symmetric] less_nwords_iff mult.commute
        intro: le_less_trans)
qed

theorem load_weights_stores_witness:
  "xcew_snn_load_weights silent_bus (Some \<lparr>tile_id = 0, neuron_count = 5, ttfs_enabled = 1, stdp_policy = 0\<rparr>)
     (Some [1, 2, 3, 4, 0xFF]) 5 [CsrWrite 0x7C5 0x105] =
     Some (Inr (XCEW_OK, [Store 0x3004 0xFF, Store 0x3000 0x04030201, CsrWrite 0x7C5 0x105]))"
proof -
  have s: "xcew_snn_init silent_bus (Some \<lparr>tile_id = 7, neuron_count = 0, ttfs_enabled = 0,
      stdp_policy = 3\<rparr>) 5 [] = (XCEW_OK, Some \<lparr>tile_id = 0, neuron_count = 5, ttfs_enabled = 1,
      stdp_policy = 0\<rparr>, [CsrWrite 0x7C5 0x105])"
    by (simp add: snn_init_ok bus_simps)
  have n: "nwords 5 = 2" "[0..<2] = [0, Suc 0]" "ctr (Suc 0) = 4"
    by (simp_all add: nwords_def upt_rec ctr_def)
  have w: "weight_word [1, 2, 3, 4, 0xFF] 5 0 = 0x04030201" "weight_word [1, 2, 3, 4, 0xFF] 5 (Suc 0) = 0xFF"
    by (simp_all add: weight_word_def weight_byte_def u32_of_bytes_def)
  show ?thesis
    using load_weights_stores [OF s, of 5 "[1, 2, 3, 4, 0xFF]"]
    by (simp add: n w bus_simps)
qed

text \<open>The entry points of the SNN check their arguments before the hardware: a \<open>NULL\<close> pointer,
  a neuron count outside 1 to 256, more weights than neurons or a policy above 5 is answered with
  \<open>XCEW_ERR_INVALID\<close>, the context and the output as they were, and no access at all.\<close>

lemma snn_rejects:
  "(snn = None \<or> nc = 0 \<or> 256 < nc \<longrightarrow> xcew_snn_init B snn nc d = (XCEW_ERR_INVALID, snn, d)) \<and>
   (snn = None \<or> weights = None \<or> neuron_count (the snn) < len \<longrightarrow>
     xcew_snn_load_weights B snn weights len d = Some (Inr (XCEW_ERR_INVALID, d))) \<and>
   (snn = None \<or> inp = None \<or> cls = None \<longrightarrow>
     xcew_snn_classify B snn inp cls d = (XCEW_ERR_INVALID, cls, d)) \<and>
   (snn = None \<or> 5 < policy \<longrightarrow> xcew_snn_enable_stdp B snn policy d = (XCEW_ERR_INVALID, snn, d))"
  by (auto simp: sdk_defs split: option.split)

end
