(* ===== verification/Sdk_Sys.thy ===== *)
theory Sdk_Sys
  imports Sdk_Eml
begin

text \<open>
  \<open>sdk/src/xcew_sys.c\<close>: NVM access through the window at \<open>0x4000\<close>, the policy, power and
  fault entry points. A caller's buffer is a list of bytes (\<open>load32\<close>, \<open>store32\<close>); an access
  that leaves it is the error value \<open>OutOfBounds\<close>. Addresses and lengths are 32-bit words,
  so \<open>addr + len\<close> wraps as it does in C.
\<close>

section \<open>NVM\<close>

definition nvm_bad_range :: "u32 \<Rightarrow> u32 \<Rightarrow> bool" where
  "nvm_bad_range addr len \<longleftrightarrow> addr < 0x4000 \<or> 0x5000 < addr + len"

partial_function (option) nvm_read_loop ::
  "'d bus \<Rightarrow> u32 \<Rightarrow> u32 \<Rightarrow> u32 \<Rightarrow> u8 list \<Rightarrow> 'd \<Rightarrow> (ub + u8 list \<times> 'd) option" where
  "nvm_read_loop B addr len i dst d =
     (if i < len then
        (case ld32 B (addr + 4 * (i div 4)) d of
           (w, d') \<Rightarrow>
             (case store32 dst (unat (4 * (i div 4))) w of
                None \<Rightarrow> Some (Inl OutOfBounds)
              | Some dst' \<Rightarrow> nvm_read_loop B addr len (i + 4) dst' d'))
      else Some (Inr (dst, d)))"

definition nvm_read_status :: "'d bus \<Rightarrow> u8 list \<times> 'd \<Rightarrow> int \<times> u8 list option \<times> 'd" where
  "nvm_read_status B r =
     (case r of (dst, d) \<Rightarrow>
        let (fault, d') = csrr B 0x7CC d
        in (if fault AND 0x04 \<noteq> 0 then XCEW_ERR_ECC else XCEW_OK, Some dst, d'))"

definition xcew_nvm_read ::
  "'d bus \<Rightarrow> u32 \<Rightarrow> u8 list option \<Rightarrow> u32 \<Rightarrow> 'd \<Rightarrow> (ub + int \<times> u8 list option \<times> 'd) option" where
  "xcew_nvm_read B addr buf len d =
     (case buf of
        None \<Rightarrow> Some (Inr (XCEW_ERR_INVALID, None, d))
      | Some dst \<Rightarrow>
          if len = 0 \<or> nvm_bad_range addr len then Some (Inr (XCEW_ERR_INVALID, Some dst, d))
          else map_option (map_sum id (nvm_read_status B)) (nvm_read_loop B addr len 0 dst d))"

partial_function (option) nvm_write_loop ::
  "'d bus \<Rightarrow> u32 \<Rightarrow> u32 \<Rightarrow> u32 \<Rightarrow> u8 list \<Rightarrow> 'd \<Rightarrow> (ub + 'd) option" where
  "nvm_write_loop B addr len i src d =
     (if i < len then
        (case load32 src (unat (4 * (i div 4))) of
           None \<Rightarrow> Some (Inl OutOfBounds)
         | Some w \<Rightarrow> nvm_write_loop B addr len (i + 4) src (st32 B (addr + 4 * (i div 4)) w d))
      else Some (Inr d))"

definition xcew_nvm_write ::
  "'d bus \<Rightarrow> u32 \<Rightarrow> u8 list option \<Rightarrow> u32 \<Rightarrow> 'd \<Rightarrow> (ub + int \<times> 'd) option" where
  "xcew_nvm_write B addr buf len d =
     (case buf of
        None \<Rightarrow> Some (Inr (XCEW_ERR_INVALID, d))
      | Some src \<Rightarrow>
          if len = 0 \<or> nvm_bad_range addr len then Some (Inr (XCEW_ERR_INVALID, d))
          else map_option (map_sum id (\<lambda>d'. (XCEW_OK, d'))) (nvm_write_loop B addr len 0 src d))"

text \<open>\<open>xcew_nvm_get_stats\<close>: either out-pointer may be \<open>NULL\<close>.\<close>

definition read_if :: "'d bus \<Rightarrow> u12 \<Rightarrow> u32 option \<Rightarrow> 'd \<Rightarrow> u32 option \<times> 'd" where
  "read_if B a p d =
     (case p of None \<Rightarrow> (None, d) | Some _ \<Rightarrow> (case csrr B a d of (v, d') \<Rightarrow> (Some v, d')))"

definition xcew_nvm_get_stats ::
  "'d bus \<Rightarrow> u32 option \<Rightarrow> u32 option \<Rightarrow> 'd \<Rightarrow> int \<times> u32 option \<times> u32 option \<times> 'd" where
  "xcew_nvm_get_stats B scrub corrected d =
     (let (s, d1) = read_if B 0x7CE scrub d;
          (c, d2) = read_if B 0x7CF corrected d1
      in (XCEW_OK, s, c, d2))"

definition xcew_nvm_get_capacity :: "u32 option \<Rightarrow> int \<times> u32 option" where
  "xcew_nvm_get_capacity bytes =
     (case bytes of None \<Rightarrow> (XCEW_ERR_INVALID, None) | Some _ \<Rightarrow> (XCEW_OK, Some 4096))"

section \<open>Policy\<close>

definition policy_word :: "u32 \<Rightarrow> u32" where
  "policy_word max_cycles = push_bit 0 1 OR push_bit 16 (max_cycles AND 0xFFFF)"

definition xcew_policy_set_deterministic :: "'d bus \<Rightarrow> u32 \<Rightarrow> 'd \<Rightarrow> int \<times> 'd" where
  "xcew_policy_set_deterministic B max_cycles d =
     (XCEW_OK, csrw B 0x7CB (policy_word max_cycles) d)"

definition xcew_policy_update :: "'d bus \<Rightarrow> u32 \<Rightarrow> u32 \<Rightarrow> 'd \<Rightarrow> int \<times> 'd" where
  "xcew_policy_update B policy_id params d =
     (case insn B 0x2B policy_id params d of (_, d') \<Rightarrow> (XCEW_OK, d'))"

section \<open>Power\<close>

definition xcew_pwr_tile_sleep :: "'d bus \<Rightarrow> u32 \<Rightarrow> 'd \<Rightarrow> int \<times> 'd" where
  "xcew_pwr_tile_sleep B tile d =
     (if 3 < tile then (XCEW_ERR_INVALID, d)
      else (case csrr B 0x7C8 d of
              (pwr, d') \<Rightarrow> (XCEW_OK, csrw B 0x7C8 (pwr OR push_bit (unat tile) 1) d')))"

definition xcew_pwr_tile_wake :: "'d bus \<Rightarrow> u32 \<Rightarrow> 'd \<Rightarrow> int \<times> 'd" where
  "xcew_pwr_tile_wake B tile d =
     (if 3 < tile then (XCEW_ERR_INVALID, d)
      else (case csrr B 0x7C8 d of
              (pwr, d') \<Rightarrow> (XCEW_OK, csrw B 0x7C8 (pwr AND NOT (push_bit (unat tile) 1)) d')))"

text \<open>The bias code is an \<open>int8_t\<close>, cast to \<open>uint8_t\<close> and then widened with zeros.\<close>

definition xcew_pwr_set_bias :: "'d bus \<Rightarrow> u8 \<Rightarrow> 'd \<Rightarrow> int \<times> 'd" where
  "xcew_pwr_set_bias B bias_code d = (XCEW_OK, csrw B 0x7C9 (ucast bias_code) d)"

section \<open>Fault monitoring\<close>

definition xcew_fault_get_status :: "'d bus \<Rightarrow> u32 option \<Rightarrow> 'd \<Rightarrow> int \<times> u32 option \<times> 'd" where
  "xcew_fault_get_status B fault_code d =
     (case fault_code of
        None \<Rightarrow> (XCEW_ERR_INVALID, None, d)
      | Some _ \<Rightarrow> (case csrr B 0x7CC d of (v, d') \<Rightarrow> (XCEW_OK, Some v, d')))"

definition xcew_fault_clear :: "'d bus \<Rightarrow> u32 \<Rightarrow> 'd \<Rightarrow> int \<times> 'd" where
  "xcew_fault_clear B fault_mask d =
     (XCEW_OK, csrw B 0x7CC (fault_mask OR push_bit 31 1) d)"

lemmas [sdk_defs] =
  xcew_nvm_read_def nvm_read_status_def xcew_nvm_write_def xcew_nvm_get_stats_def read_if_def
  xcew_nvm_get_capacity_def policy_word_def xcew_policy_set_deterministic_def
  xcew_policy_update_def xcew_pwr_tile_sleep_def xcew_pwr_tile_wake_def xcew_pwr_set_bias_def
  xcew_fault_get_status_def xcew_fault_clear_def

section \<open>The write loop\<close>

text \<open>
  \<open>stores B addr src ks d\<close> is the device after storing the words of \<open>src\<close> with the
  indices \<open>ks\<close>.
\<close>

definition src_word :: "u8 list \<Rightarrow> nat \<Rightarrow> u32" where
  "src_word src k = the (load32 src (4 * k))"

definition stores :: "'d bus \<Rightarrow> u32 \<Rightarrow> u8 list \<Rightarrow> nat list \<Rightarrow> 'd \<Rightarrow> 'd" where
  "stores B addr src ks d = fold (\<lambda>k. st32 B (addr + ctr k) (src_word src k)) ks d"

lemma stores_simps [simp]:
  "stores B addr src [] d = d"
  "stores B addr src (k # ks) d =
     stores B addr src ks (st32 B (addr + ctr k) (src_word src k) d)"
  by (simp_all add: stores_def)

lemma nvm_write_loop_step:
  assumes "k < nwords (unat len)"
  shows "nvm_write_loop B addr len (ctr k) src d =
     (case load32 src (4 * k) of
        None \<Rightarrow> Some (Inl OutOfBounds)
      | Some w \<Rightarrow> nvm_write_loop B addr len (ctr (Suc k)) src (st32 B (addr + ctr k) w d))"
  using ctr_loop [OF assms] by (subst nvm_write_loop.simps) (simp split: option.split)

lemma nvm_write_loop_stores:
  assumes len: "unat len + 3 < 2 ^ 32" and src: "4 * nwords (unat len) \<le> length src"
    and k: "k \<le> nwords (unat len)"
  shows "nvm_write_loop B addr len (ctr k) src d =
           Some (Inr (stores B addr src [k..<nwords (unat len)] d))"
  using k
proof (induction k arbitrary: d rule: inc_induct)
  case base
  show ?case
    using ctr_exit [OF len] by (simp add: nvm_write_loop.simps)
next
  case (step k)
  then have "4 * k + 4 \<le> length src"
    using src by linarith
  then have "load32 src (4 * k) = Some (src_word src k)"
    by (simp add: src_word_def load32_def)
  then show ?case
    using step by (simp add: nvm_write_loop_step upt_conv_Cons)
qed

lemma nvm_write_loop_overrun:
  assumes "k \<le> length src div 4" and "length src div 4 < nwords (unat len)"
  shows "nvm_write_loop B addr len (ctr k) src d = Some (Inl OutOfBounds)"
  using assms(1)
proof (induction k arbitrary: d rule: inc_induct)
  case base
  have "\<not> 4 * (length src div 4) + 4 \<le> length src"
    by linarith
  then have "load32 src (4 * (length src div 4)) = None"
    by (simp add: load32_def)
  then show ?case
    using assms(2) by (simp add: nvm_write_loop_step)
next
  case (step k)
  then have "4 * k + 4 \<le> length src" and "k < nwords (unat len)"
    using assms(2) by linarith+
  then obtain w where "load32 src (4 * k) = Some w"
    using load32_Some_iff by blast
  with step.IH show ?case
    using \<open>k < nwords (unat len)\<close> by (simp add: nvm_write_loop_step)
qed

section \<open>The read loop\<close>

text \<open>The bytes and the device after the loads of the words with indices \<open>ks\<close>.\<close>

fun loads :: "'d bus \<Rightarrow> u32 \<Rightarrow> nat list \<Rightarrow> u8 list \<times> 'd \<Rightarrow> u8 list \<times> 'd" where
  "loads B addr [] s = s"
| "loads B addr (k # ks) (dst, d) =
     (case ld32 B (addr + ctr k) d of
        (w, d') \<Rightarrow> loads B addr ks (the (store32 dst (4 * k) w), d'))"

lemma nvm_read_loop_loads:
  assumes len: "unat len + 3 < 2 ^ 32" and dst: "4 * nwords (unat len) \<le> length dst"
    and k: "k \<le> nwords (unat len)"
  shows "nvm_read_loop B addr len (ctr k) dst d =
           Some (Inr (loads B addr [k..<nwords (unat len)] (dst, d)))"
  using k dst
proof (induction k arbitrary: d dst rule: inc_induct)
  case base
  show ?case
    using ctr_exit [OF len] by (simp add: nvm_read_loop.simps)
next
  case (step k)
  obtain w d' where ld: "ld32 B (addr + ctr k) d = (w, d')"
    by fastforce
  have "4 * k + 4 \<le> length dst"
    using step by linarith
  then obtain dst' where st: "store32 dst (4 * k) w = Some dst'"
    using store32_Some_iff by blast
  then have "4 * nwords (unat len) \<le> length dst'"
    using step.prems by (simp add: store32_length)
  then have "nvm_read_loop B addr len (ctr (Suc k)) dst' d' =
      Some (Inr (loads B addr [Suc k..<nwords (unat len)] (dst', d')))"
    by (rule step.IH)
  moreover have "nvm_read_loop B addr len (ctr k) dst d =
      nvm_read_loop B addr len (ctr (Suc k)) dst' d'"
    using ctr_loop [OF step.hyps(2)] by (subst nvm_read_loop.simps) (simp add: ld st)
  ultimately show ?case
    using step.hyps by (simp add: upt_conv_Cons ld st)
qed

lemma load32_take: "load32 (bs :: u8 list) (4 * k) = Some w \<Longrightarrow> 4 * k + 4 \<le> length bs"
  by (auto simp: load32_def split: if_splits)

lemma nvm_read_loop_overrun:
  assumes "k \<le> length dst div 4" and "length dst div 4 < nwords (unat len)"
  shows "nvm_read_loop B addr len (ctr k) dst d = Some (Inl OutOfBounds)"
  using assms
proof (induction "length dst div 4 - k" arbitrary: k dst d)
  case 0
  then have k: "k = length dst div 4" and "k < nwords (unat len)"
    by simp_all
  have "\<not> 4 * k + 4 \<le> length dst"
    unfolding k by linarith
  then have "store32 dst (4 * k) w = None" for w
    by (simp add: store32_def)
  then show ?case
    using ctr_loop [OF \<open>k < nwords (unat len)\<close>] by (subst nvm_read_loop.simps) (simp split: prod.split)
next
  case (Suc x)
  then have k: "k < length dst div 4" "k < nwords (unat len)"
    by linarith+
  obtain w d' where ld: "ld32 B (addr + ctr k) d = (w, d')"
    by fastforce
  have "4 * k + 4 \<le> length dst"
    using k by linarith
  then obtain dst' where st: "store32 dst (4 * k) w = Some dst'"
    using store32_Some_iff by blast
  then have len: "length dst' = length dst"
    by (rule store32_length)
  have "nvm_read_loop B addr len (ctr (Suc k)) dst' d' = Some (Inl OutOfBounds)"
    by (rule Suc.hyps(1)) (use Suc.hyps(2) Suc.prems k len in simp_all)
  then show ?case
    using ctr_loop [OF k(2)] by (subst nvm_read_loop.simps) (simp add: ld st)
qed

section \<open>The address window\<close>

text \<open>An access passes the check as it is meant when \<open>addr + len\<close> does not wrap.\<close>

definition in_window :: "u32 \<Rightarrow> u32 \<Rightarrow> bool" where
  "in_window addr len \<longleftrightarrow> len \<noteq> 0 \<and> 0x4000 \<le> unat addr \<and> unat addr + unat len \<le> 0x5000"

lemma in_window_accepted: "in_window addr len \<Longrightarrow> len \<noteq> 0 \<and> \<not> nvm_bad_range addr len"
  using unat_add_small [of addr len]
  by (simp add: in_window_def nvm_bad_range_def word_less_nat_alt word_le_nat_alt not_less)

lemma in_window_small: "in_window addr len \<Longrightarrow> unat len + 3 < 2 ^ 32"
  by (simp add: in_window_def)

lemma in_window_word:
  assumes "in_window addr len" and "k < nwords (unat len)"
  shows "0x4000 \<le> addr + ctr k" "addr + ctr k < 0x5000"
proof -
  have "4 * k < unat len"
    using assms(2) by (simp add: less_nwords_iff)
  moreover have "unat (addr + ctr k) = unat addr + 4 * k"
    using unat_add_small [of addr "ctr k"] assms calculation ctr_loop(3) [OF assms(2)]
    by (simp add: in_window_def)
  ultimately show "0x4000 \<le> addr + ctr k" "addr + ctr k < 0x5000"
    using assms(1) by (simp_all add: in_window_def word_le_nat_alt word_less_nat_alt)
qed

section \<open>Reading a memory\<close>

context bus_memory
begin

text \<open>What a run of loads leaves in the buffer when the memory holds \<open>M\<close>.\<close>

lemma loads_fill:
  assumes "inv d" and "\<forall>k \<in> set ks. 4 * k + 4 \<le> length dst" and "distinct ks"
  shows "length (fst (loads B addr ks (dst, d))) = length dst \<and>
    (\<forall>j. load32 (fst (loads B addr ks (dst, d))) (4 * j) =
       (if j \<in> set ks then Some (M (addr + ctr j)) else load32 dst (4 * j)))"
  using assms
proof (induction ks arbitrary: dst d)
  case (Cons k ks)
  obtain d' where ld: "ld32 B (addr + ctr k) d = (M (addr + ctr k), d')" and d': "inv d'"
    using ld_value ld_inv Cons.prems(1) by (metis prod.collapse)
  obtain dst' where st: "store32 dst (4 * k) (M (addr + ctr k)) = Some dst'"
    using Cons.prems(2) store32_Some_iff by (metis list.set_intros(1))
  have len: "length dst' = length dst"
    using st by (rule store32_length)
  then have IH: "length (fst (loads B addr ks (dst', d'))) = length dst \<and>
    (\<forall>j. load32 (fst (loads B addr ks (dst', d'))) (4 * j) =
       (if j \<in> set ks then Some (M (addr + ctr j)) else load32 dst' (4 * j)))"
    using Cons.IH [of d' dst'] Cons.prems d' by simp
  have "load32 dst' (4 * j) = (if j = k then Some (M (addr + ctr k)) else load32 dst (4 * j))" for j
  proof (cases "j = k")
    case False
    then have "4 * j + 4 \<le> 4 * k \<or> 4 * k + 4 \<le> 4 * j"
      by linarith
    then show ?thesis
      using load32_store32_other [OF st] False by simp
  qed (simp add: load32_store32 [OF st])
  then show ?case
    using IH by (auto simp: ld st)
qed simp

lemma loads_inv: "inv d \<Longrightarrow> inv (snd (loads B addr ks (dst, d)))"
proof (induction ks arbitrary: dst d)
  case (Cons k ks)
  obtain w d' where "ld32 B (addr + ctr k) d = (w, d')"
    by fastforce
  then show ?case
    using ld_inv [OF Cons.prems, of "addr + ctr k"] Cons.IH by simp
qed simp

lemma nvm_read_in_window:
  assumes "in_window addr len" and "4 * nwords (unat len) \<le> length dst" and "inv d"
  shows "\<exists>dst' d'. xcew_nvm_read B addr (Some dst) len d =
      Some (Inr (if bit (fst (csrr B 0x7CC d')) 2 then XCEW_ERR_ECC else XCEW_OK, Some dst',
                 snd (csrr B 0x7CC d'))) \<and>
    inv d' \<and> length dst' = length dst \<and>
    (\<forall>k. load32 dst' (4 * k) =
       (if k < nwords (unat len) then Some (M (addr + ctr k)) else load32 dst (4 * k)))"
proof -
  obtain dst' d' where r: "loads B addr [0..<nwords (unat len)] (dst, d) = (dst', d')"
    by fastforce
  have "\<forall>k \<in> set [0..<nwords (unat len)]. 4 * k + 4 \<le> length dst"
    using assms(2) by auto
  from loads_fill [OF assms(3) this distinct_upt, of addr]
  have fill: "length dst' = length dst" "\<forall>k. load32 dst' (4 * k) =
       (if k < nwords (unat len) then Some (M (addr + ctr k)) else load32 dst (4 * k))"
    by (simp_all add: r)
  have "inv d'"
    using loads_inv [OF assms(3), of addr "[0..<nwords (unat len)]" dst] by (simp add: r)
  have "(w AND 4 \<noteq> 0) = bit (w :: u32) 2" for w
    using and_exp_eq_0_iff_not_bit [of w 2] by simp
  then have "nvm_read_status B (dst', d') =
      (if bit (fst (csrr B 0x7CC d')) 2 then XCEW_ERR_ECC else XCEW_OK, Some dst', snd (csrr B 0x7CC d'))"
    by (simp add: nvm_read_status_def split: prod.split)
  moreover have "nvm_read_loop B addr len 0 dst d = Some (Inr (dst', d'))"
    using nvm_read_loop_loads [OF in_window_small [OF assms(1)] assms(2), of 0 B addr d] by (simp add: r)
  ultimately have "xcew_nvm_read B addr (Some dst) len d =
      Some (Inr (if bit (fst (csrr B 0x7CC d')) 2 then XCEW_ERR_ECC else XCEW_OK, Some dst',
                 snd (csrr B 0x7CC d')))"
    using in_window_accepted [OF assms(1)] by (simp add: xcew_nvm_read_def)
  then show ?thesis
    using fill \<open>inv d'\<close> by blast
qed

end

section \<open>Writing\<close>

lemma stores_trace:
  "stores (trace_bus h) addr src ks l =
     rev (map (\<lambda>k. Store (addr + ctr k) (the (load32 src (4 * k)))) ks) @ l"
  by (induction ks arbitrary: l) (simp_all add: src_word_def bus_simps)

section \<open>Properties\<close>

text \<open>C15: \<open>xcew_nvm_write\<close> of a range inside the window, from a buffer that holds whole words,
  returns \<open>XCEW_OK\<close>, and its whole effect on the hardware is one store per word, in ascending
  order, each to an address of the window and with the word of the buffer.\<close>

theorem nvm_write_stores:
  assumes "in_window addr len" and "4 * nwords (unat len) \<le> length src"
  shows "xcew_nvm_write (trace_bus h) addr (Some src) len l =
      Some (Inr (XCEW_OK, rev (map (\<lambda>k. Store (addr + ctr k) (the (load32 src (4 * k))))
                                   [0..<nwords (unat len)]) @ l)) \<and>
    (\<forall>k < nwords (unat len). 0x4000 \<le> addr + ctr k \<and> addr + ctr k < 0x5000)"
  using nvm_write_loop_stores [OF in_window_small [OF assms(1)] assms(2), of 0 "trace_bus h" addr l]
    in_window_accepted [OF assms(1)] in_window_word [OF assms(1)]
  by (simp add: xcew_nvm_write_def stores_trace)

theorem nvm_write_stores_witness:
  "xcew_nvm_write silent_bus 0x4FF8 (Some [1, 0, 0, 0, 2, 0, 0, 0]) 8 [] =
     Some (Inr (XCEW_OK, [Store 0x4FFC 2, Store 0x4FF8 1]))"
proof -
  have n: "nwords 8 = 2" "[0..<2] = [0, Suc 0]" "ctr (Suc 0) = 4"
    by (simp_all add: nwords_def upt_rec ctr_def)
  show ?thesis
    unfolding silent_bus_def
    by (subst nvm_write_stores [THEN conjunct1])
      (simp_all add: in_window_def n load32_def u32_of_bytes_def)
qed

text \<open>C14: \<open>xcew_nvm_read\<close> of a range inside the window, into a buffer that holds whole words,
  returns. On a device whose loads answer with the contents \<open>M\<close> of the window every word of the
  range ends up in the buffer, every other word of the buffer is as it was, and the result is
  \<open>XCEW_ERR_ECC\<close> exactly when bit 2 of the fault status read afterwards is set.\<close>

theorem nvm_read_fills:
  assumes "in_window addr len" and "4 * nwords (unat len) \<le> length dst"
    and "\<And>p d. fst (ld32 B p d) = M p"
  shows "\<exists>dst' d'. xcew_nvm_read B addr (Some dst) len d =
      Some (Inr (if bit (fst (csrr B 0x7CC d')) 2 then XCEW_ERR_ECC else XCEW_OK, Some dst',
                 snd (csrr B 0x7CC d'))) \<and>
    length dst' = length dst \<and>
    (\<forall>k. load32 dst' (4 * k) =
       (if k < nwords (unat len) then Some (M (addr + ctr k)) else load32 dst (4 * k)))"
  using bus_memory.nvm_read_in_window [of B "\<lambda>_. True" M, OF _ assms(1,2)]
  by (simp add: bus_memory_def assms(3))

theorem nvm_read_fills_witness:
  "\<exists>dst' d'. xcew_nvm_read silent_bus 0x4000 (Some [1, 2, 3, 4, 5, 6]) 3 [] =
     Some (Inr (XCEW_OK, Some dst', d')) \<and> load32 dst' 0 = Some 0"
  using nvm_read_fills [of "0x4000" 3 "[1, 2, 3, 4, 5, 6]" silent_bus "\<lambda>_. 0" "[]"]
  by (fastforce simp: in_window_def nwords_def bus_simps dest: spec [of _ 0])

text \<open>The copies go by words, not by bytes: with a buffer of exactly \<open>len\<close> bytes and a length
  that is not a multiple of 4, \<open>xcew_nvm_write\<close> reads and \<open>xcew_nvm_read\<close> writes beyond the end of
  the caller's object.\<close>

lemma nvm_odd_length_overruns:
  assumes "in_window addr len" and "\<not> 4 dvd unat len" and "length bs = unat len"
  shows "xcew_nvm_write B addr (Some bs) len d = Some (Inl OutOfBounds) \<and>
    xcew_nvm_read B addr (Some bs) len d = Some (Inl OutOfBounds)"
proof -
  have "length bs div 4 < nwords (unat len)"
    using assms(2,3) unfolding nwords_def by presburger
  then show ?thesis
    using nvm_write_loop_overrun [of 0 bs len B addr d] nvm_read_loop_overrun [of 0 bs len B addr d]
      in_window_accepted [OF assms(1)]
    by (simp add: xcew_nvm_write_def xcew_nvm_read_def)
qed

text \<open>The range check adds in 32 bits: a start address above the window passes it whenever
  \<open>addr + len\<close> wraps around to at most 0x5000, and the call then stores outside the window.\<close>

lemma nvm_range_check_wraps:
  assumes "0x5000 < addr" and "2 ^ 32 \<le> unat addr + unat len" and "unat len \<le> 0x5000"
    and "4 * nwords (unat len) \<le> length src"
  shows "\<exists>log. xcew_nvm_write (trace_bus h) addr (Some src) len l = Some (Inr (XCEW_OK, log @ l)) \<and>
    Store addr (the (load32 src 0)) \<in> set log"
proof -
  have "unat (addr + len) = unat addr + unat len - 2 ^ 32"
    using assms(2) unsigned_less [of addr, where ?'a = nat] unsigned_less [of len, where ?'a = nat]
    by (simp add: unat_word_ariths mod_if)
  then have ok: "\<not> nvm_bad_range addr len"
    using assms(1,3) unsigned_less [of addr, where ?'a = nat]
    by (simp add: nvm_bad_range_def word_less_nat_alt)
  have len: "unat len + 3 < 2 ^ 32" "0 < unat len"
    using assms(2,3) unsigned_less [of addr, where ?'a = nat] by simp_all
  then have "0 < nwords (unat len)" "len \<noteq> 0"
    by (auto simp: less_nwords_iff)
  then show ?thesis
    using nvm_write_loop_stores [OF len(1) assms(4), of 0 "trace_bus h" addr l] ok
    by (auto simp: xcew_nvm_write_def stores_trace upt_conv_Cons bus_simps src_word_def)
qed

text \<open>Every entry point of \<open>xcew_sys.c\<close> that has an illegal argument refuses it with
  \<open>XCEW_ERR_INVALID\<close> and touches neither the buffers nor the hardware.\<close>

lemma sys_rejects:
  "(buf = None \<or> len = 0 \<or> nvm_bad_range addr len \<longrightarrow>
      xcew_nvm_read B addr buf len d = Some (Inr (XCEW_ERR_INVALID, buf, d)) \<and>
      xcew_nvm_write B addr buf len d = Some (Inr (XCEW_ERR_INVALID, d))) \<and>
   (3 < tile \<longrightarrow> xcew_pwr_tile_sleep B tile d = (XCEW_ERR_INVALID, d) \<and>
      xcew_pwr_tile_wake B tile d = (XCEW_ERR_INVALID, d)) \<and>
   xcew_fault_get_status B None d = (XCEW_ERR_INVALID, None, d) \<and>
   xcew_nvm_get_capacity None = (XCEW_ERR_INVALID, None)"
  by (auto simp: sdk_defs split: option.split)

end
