(* ===== verification/Tc_Xcew_Opt.thy ===== *)
theory Tc_Xcew_Opt
  imports Azmuth_Prelude "HOL-Library.Sublist"
begin

text \<open>
  \<open>toolchain/XcewOptPass.cpp\<close>: the machine-function pass that eliminates repeated EML
  instructions, its cost model and its cache hash. A basic block is a list of instructions and
  the iterator of the loop is the rest of the list, so \<open>erase\<close> followed by the \<open>++MI\<close> of the
  loop head passes over the instruction after the erased one. What LLVM and the generated
  \<open>Xcew.h\<close> define is a parameter: the numbers of the opcodes and \<open>hash_combine\<close> (record
  \<open>target\<close>). \<open>std::unordered_map\<close> finds a key that \<open>operator==\<close> accepts; its hash is a function
  of the fields that \<open>==\<close> compares (\<open>equal_nodes_hash_alike\<close>), so the hash does not occur in the lookup.
\<close>

section \<open>Instructions and nodes\<close>

datatype xcew_op = XE_EXP | XE_LN | XE_SUB | XE_MUL | XE_ADD | XE_DIV | OtherOp u32

text \<open>A machine operand: a register with its use flag, an immediate, or another kind.\<close>

datatype mach_operand = Reg u32 bool | Imm "64 word" | OtherOperand

record mach_instr =
  mi_opcode :: xcew_op
  mi_operands :: "mach_operand list"

record target =
  op_number :: "xcew_op \<Rightarrow> u32"
  hash_combine :: "64 word \<Rightarrow> u32 \<Rightarrow> 64 word"

record dag_node =
  n_opcode :: xcew_op
  n_operands :: "u32 list"
  hash_value :: u32

definition dag_node_eq :: "dag_node \<Rightarrow> dag_node \<Rightarrow> bool" where
  "dag_node_eq a b \<longleftrightarrow> n_opcode a = n_opcode b \<and> n_operands a = n_operands b"

definition isEMLInstruction :: "xcew_op \<Rightarrow> bool" where
  "isEMLInstruction opc =
     (case opc of XE_EXP \<Rightarrow> True | XE_LN \<Rightarrow> True | XE_SUB \<Rightarrow> True | XE_MUL \<Rightarrow> True
      | XE_ADD \<Rightarrow> True | XE_DIV \<Rightarrow> True | OtherOp _ \<Rightarrow> False)"

text \<open>The operands of a node: used registers and immediates, both pushed as \<open>unsigned\<close>.\<close>

fun collect_operands :: "mach_operand list \<Rightarrow> u32 list" where
  "collect_operands [] = []"
| "collect_operands (Reg r use # os) = (if use then r # collect_operands os else collect_operands os)"
| "collect_operands (Imm v # os) = ucast v # collect_operands os"
| "collect_operands (OtherOperand # os) = collect_operands os"

definition node_hash :: "target \<Rightarrow> xcew_op \<Rightarrow> u32 list \<Rightarrow> 64 word" where
  "node_hash T opc ops = fold (\<lambda>x h. hash_combine T h x) ops (hash_combine T 0 (op_number T opc))"

definition make_node :: "target \<Rightarrow> mach_instr \<Rightarrow> dag_node" where
  "make_node T i =
     (let ops = collect_operands (mi_operands i)
      in \<lparr>n_opcode = mi_opcode i, n_operands = ops, hash_value = ucast (node_hash T (mi_opcode i) ops)\<rparr>)"

text \<open>The hash of \<open>std::unordered_map\<close> (\<open>DAGNodeHash\<close>) starts from the opcode itself, while the
  \<open>hash_value\<close> stored in a node combines the opcode with 0 first.\<close>

definition DAGNodeHash :: "target \<Rightarrow> dag_node \<Rightarrow> 64 word" where
  "DAGNodeHash T n = fold (\<lambda>x h. hash_combine T h x) (n_operands n) (ucast (op_number T (n_opcode n)))"

text \<open>The specialisation of \<open>DenseMapInfo\<close>. Its two reserved keys have the opcode numbers 0 and
  \<open>~0U\<close>, which are no EML instruction.\<close>

definition getEmptyKey :: dag_node where
  "getEmptyKey = \<lparr>n_opcode = OtherOp 0, n_operands = [], hash_value = 0\<rparr>"

definition getTombstoneKey :: dag_node where
  "getTombstoneKey = \<lparr>n_opcode = OtherOp (NOT 0), n_operands = [], hash_value = 0\<rparr>"

definition getHashValue :: "dag_node \<Rightarrow> u32" where
  "getHashValue n = hash_value n"

definition isEqual :: "dag_node \<Rightarrow> dag_node \<Rightarrow> bool" where
  "isEqual a b \<longleftrightarrow> dag_node_eq a b"

text \<open>What a hashed container needs of the two hashes: equal nodes have equal hashes. The
  one of the container has it for every pair; the stored one for nodes that the pass has built,
  whereas a reserved key may differ from an equal node in it.\<close>

lemma equal_nodes_hash_alike: "dag_node_eq a b \<Longrightarrow> DAGNodeHash T a = DAGNodeHash T b"
  by (simp add: dag_node_eq_def DAGNodeHash_def)

lemma equal_built_nodes_hash_alike:
  "isEqual (make_node T i) (make_node T j) \<Longrightarrow>
   getHashValue (make_node T i) = getHashValue (make_node T j)"
  by (simp add: isEqual_def getHashValue_def dag_node_eq_def make_node_def Let_def)

lemma reserved_keys_distinct:
  "isEMLInstruction (mi_opcode i) \<Longrightarrow>
   \<not> isEqual (make_node T i) getEmptyKey \<and> \<not> isEqual (make_node T i) getTombstoneKey"
  "\<not> isEqual getEmptyKey getTombstoneKey"
  by (auto simp: isEMLInstruction_def isEqual_def dag_node_eq_def make_node_def Let_def
      getEmptyKey_def getTombstoneKey_def)

section \<open>The elimination\<close>

record cse_state =
  cse_map :: "(dag_node \<times> nat) list"
  unique_nodes :: "dag_node list"
  node_to_reg :: "nat \<rightharpoonup> u32"

definition cse_clear :: cse_state where
  "cse_clear = \<lparr>cse_map = [], unique_nodes = [], node_to_reg = Map.empty\<rparr>"

definition cse_find :: "cse_state \<Rightarrow> dag_node \<Rightarrow> nat option" where
  "cse_find st n = map_option snd (List.find (\<lambda>e. dag_node_eq (fst e) n) (cse_map st))"

definition result_reg :: "mach_instr \<Rightarrow> u32 option" where
  "result_reg i = (case mi_operands i of Reg r _ # _ \<Rightarrow> Some r | _ \<Rightarrow> None)"

definition cse_insert :: "dag_node \<Rightarrow> mach_instr \<Rightarrow> cse_state \<Rightarrow> cse_state" where
  "cse_insert n i st =
     (let node_id = length (unique_nodes st)
      in st\<lparr>unique_nodes := unique_nodes st @ [n], cse_map := (n, node_id) # cse_map st,
            node_to_reg := (case result_reg i of None \<Rightarrow> node_to_reg st
                            | Some r \<Rightarrow> (node_to_reg st)(node_id \<mapsto> r))\<rparr>)"

text \<open>On a hit, \<open>node_to_reg[existing_node_id]\<close> is read when the erased instruction has a destination;
  \<open>operator[]\<close> of the \<open>DenseMap\<close> adds a missing entry with the value 0. The two registers are then
  not used.\<close>

definition cse_hit :: "nat \<Rightarrow> mach_instr \<Rightarrow> cse_state \<Rightarrow> cse_state" where
  "cse_hit k i st =
     (if result_reg i \<noteq> None \<and> node_to_reg st k = None
      then st\<lparr>node_to_reg := (node_to_reg st)(k \<mapsto> 0)\<rparr> else st)"

text \<open>The loop over one block: the state, the block after it and the value of \<open>Changed\<close>, which is
  set after the test for the end of the block.\<close>

fun cse_block :: "target \<Rightarrow> cse_state \<Rightarrow> mach_instr list \<Rightarrow> cse_state \<times> mach_instr list \<times> bool" where
  "cse_block T st [] = (st, [], False)"
| "cse_block T st (i # is) =
     (if isEMLInstruction (mi_opcode i) then
        (case cse_find st (make_node T i) of
           Some existing \<Rightarrow>
             (case is of
                [] \<Rightarrow> (cse_hit existing i st, [], False)
              | j # js \<Rightarrow>
                  (case cse_block T (cse_hit existing i st) js of (st', out, _) \<Rightarrow> (st', j # out, True)))
         | None \<Rightarrow>
             (case cse_block T (cse_insert (make_node T i) i st) is of
                (st', out, ch) \<Rightarrow> (st', i # out, ch)))
      else (case cse_block T st is of (st', out, ch) \<Rightarrow> (st', i # out, ch)))"

fun cse_blocks ::
  "target \<Rightarrow> cse_state \<Rightarrow> mach_instr list list \<Rightarrow> cse_state \<times> mach_instr list list \<times> bool" where
  "cse_blocks T st [] = (st, [], False)"
| "cse_blocks T st (b # bs) =
     (case cse_block T st b of (st1, b', ch) \<Rightarrow>
        (case cse_blocks T st1 bs of (st2, bs', ch') \<Rightarrow> (st2, b' # bs', ch \<or> ch')))"

section \<open>Hash, cost and the second pass\<close>

definition getEMLHash :: "target \<Rightarrow> dag_node \<Rightarrow> u32" where
  "getEMLHash T n =
     fold (\<lambda>x h. (push_bit 5 h + h) + x) (n_operands n)
       ((push_bit 5 5381 + 5381) + op_number T (n_opcode n)) AND 0xFF"

record cost_model =
  cycles :: u32
  energy :: u32
  code_size :: u32

definition base_cost :: "xcew_op \<Rightarrow> cost_model" where
  "base_cost opc =
     (case opc of
        XE_EXP \<Rightarrow> \<lparr>cycles = 30, energy = 120, code_size = 4\<rparr>
      | XE_LN \<Rightarrow> \<lparr>cycles = 25, energy = 100, code_size = 4\<rparr>
      | XE_SUB \<Rightarrow> \<lparr>cycles = 5, energy = 20, code_size = 4\<rparr>
      | XE_ADD \<Rightarrow> \<lparr>cycles = 5, energy = 20, code_size = 4\<rparr>
      | XE_MUL \<Rightarrow> \<lparr>cycles = 15, energy = 60, code_size = 4\<rparr>
      | XE_DIV \<Rightarrow> \<lparr>cycles = 40, energy = 160, code_size = 4\<rparr>
      | OtherOp _ \<Rightarrow> \<lparr>cycles = 1, energy = 5, code_size = 4\<rparr>)"

definition estimateCost :: "dag_node \<Rightarrow> cost_model" where
  "estimateCost n =
     (let c = base_cost (n_opcode n); k = of_nat (1 + length (n_operands n) div 2)
      in c\<lparr>cycles := cycles c * k, energy := energy c * k\<rparr>)"

text \<open>The second pass computes a node with the cache hash for every EML instruction and leaves the
  instruction as it is.\<close>

definition rebuild_instr :: "target \<Rightarrow> mach_instr \<Rightarrow> mach_instr" where
  "rebuild_instr T i =
     (if isEMLInstruction (mi_opcode i)
      then (let node = make_node T i; node' = node\<lparr>hash_value := getEMLHash T node\<rparr> in i)
      else i)"

definition rebuildDAGWithCSE :: "target \<Rightarrow> mach_instr list list \<Rightarrow> mach_instr list list" where
  "rebuildDAGWithCSE T bs = map (map (rebuild_instr T)) bs"

definition runOnMachineFunction :: "target \<Rightarrow> mach_instr list list \<Rightarrow> mach_instr list list \<times> bool" where
  "runOnMachineFunction T bs =
     (case cse_blocks T cse_clear bs of (_, bs', changed) \<Rightarrow> (rebuildDAGWithCSE T bs', changed))"

section \<open>Lemmas\<close>

lemma rebuild_id [simp]: "rebuildDAGWithCSE T bs = bs"
proof -
  have "rebuild_instr T = id"
    by (simp add: rebuild_instr_def fun_eq_iff Let_def)
  then show ?thesis
    by (simp add: rebuildDAGWithCSE_def)
qed

text \<open>Only the opcode and the collected operands of an instruction count in a lookup.\<close>

definition eml_key :: "mach_instr \<Rightarrow> xcew_op \<times> u32 list" where
  "eml_key i = (mi_opcode i, collect_operands (mi_operands i))"

definition keys_of :: "cse_state \<Rightarrow> (xcew_op \<times> u32 list) set" where
  "keys_of st = (\<lambda>e. (n_opcode (fst e), n_operands (fst e))) ` set (cse_map st)"

lemma cse_find_key: "(\<exists>k. cse_find st (make_node T i) = Some k) \<longleftrightarrow> eml_key i \<in> keys_of st"
proof -
  have "cse_find st (make_node T i) = None \<longleftrightarrow> eml_key i \<notin> keys_of st"
    by (force simp: cse_find_def find_None_iff dag_node_eq_def make_node_def Let_def eml_key_def keys_of_def)
  then show ?thesis
    by auto
qed

lemma keys_insert [simp]: "keys_of (cse_insert (make_node T i) i st) = insert (eml_key i) (keys_of st)"
  by (simp add: keys_of_def cse_insert_def make_node_def eml_key_def Let_def)

lemma keys_hit [simp]: "keys_of (cse_hit k i st) = keys_of st"
  by (simp add: keys_of_def cse_hit_def)

lemma keys_clear [simp]: "keys_of cse_clear = {}"
  by (simp add: keys_of_def cse_clear_def)

text \<open>The loop by the set of keys seen so far.\<close>

definition is_eml :: "mach_instr \<Rightarrow> bool" where
  "is_eml i \<longleftrightarrow> isEMLInstruction (mi_opcode i)"

fun elim_block :: "(xcew_op \<times> u32 list) set \<Rightarrow> mach_instr list \<Rightarrow> (xcew_op \<times> u32 list) set \<times> mach_instr list \<times> bool" where
  "elim_block ks [] = (ks, [], False)"
| "elim_block ks (i # is) =
     (if is_eml i \<and> eml_key i \<in> ks then
        (case is of [] \<Rightarrow> (ks, [], False)
         | j # js \<Rightarrow> (case elim_block ks js of (ks', out, _) \<Rightarrow> (ks', j # out, True)))
      else (case elim_block (if is_eml i then insert (eml_key i) ks else ks) is of
              (ks', out, ch) \<Rightarrow> (ks', i # out, ch)))"

text \<open>Induction over what the loop does with the next instruction.\<close>

lemma elim_block_induct [consumes 1, case_names Nil Last Skip Keep]:
  assumes "elim_block ks b = (ks', out, ch)"
    and nil: "\<And>ks. P ks [] ks [] False"
    and last: "\<And>ks i. is_eml i \<Longrightarrow> eml_key i \<in> ks \<Longrightarrow> P ks [i] ks [] False"
    and skip: "\<And>ks i j js ks' out ch. is_eml i \<Longrightarrow> eml_key i \<in> ks \<Longrightarrow> P ks js ks' out ch
                 \<Longrightarrow> P ks (i # j # js) ks' (j # out) True"
    and keep: "\<And>ks i is ks' out ch. \<not> (is_eml i \<and> eml_key i \<in> ks)
                 \<Longrightarrow> P (if is_eml i then insert (eml_key i) ks else ks) is ks' out ch
                 \<Longrightarrow> P ks (i # is) ks' (i # out) ch"
  shows "P ks b ks' out ch"
  using assms(1)
proof (induction ks b arbitrary: ks' out ch rule: elim_block.induct)
  case (2 ks i "is")
  show ?case
  proof (cases "is_eml i \<and> eml_key i \<in> ks")
    case hit: True
    show ?thesis
    proof (cases "is")
      case Nil
      then show ?thesis
        using 2(3) hit last by simp
    next
      case (Cons j js)
      then show ?thesis
        using 2(1) [OF hit Cons] 2(3) hit skip by (auto split: prod.splits)
    qed
  next
    case False
    obtain ks1 out1 ch1 where t: "elim_block (if is_eml i then insert (eml_key i) ks else ks) is = (ks1, out1, ch1)"
      by (metis prod_cases3)
    then have "ks' = ks1" "out = i # out1" "ch = ch1"
      using 2(3) False by auto
    then show ?thesis
      using keep [OF False 2(2) [OF False t]] by simp
  qed
qed (use nil in auto)

lemma cse_block_elim_block:
  "cse_block T st b = (st', out, ch) \<Longrightarrow> elim_block (keys_of st) b = (keys_of st', out, ch)"
proof (induction T st b arbitrary: st' out ch rule: cse_block.induct)
  case (2 T st i "is")
  consider (keep) "\<not> is_eml i" | (new) "is_eml i" "cse_find st (make_node T i) = None"
    | (hit) k where "is_eml i" "cse_find st (make_node T i) = Some k"
    by (cases "cse_find st (make_node T i)") auto
  then show ?case
  proof cases
    case keep
    then show ?thesis
      using 2(3,4) by (auto simp: is_eml_def split: prod.splits)
  next
    case new
    then have "eml_key i \<notin> keys_of st"
      using cse_find_key [of st T i] by simp
    then show ?thesis
      using new 2(1,4) by (auto simp: is_eml_def split: prod.splits)
  next
    case (hit k)
    then have "eml_key i \<in> keys_of st"
      using cse_find_key [of st T i] by auto
    then show ?thesis
      using hit 2(2,4) by (cases "is") (auto simp: is_eml_def split: prod.splits)
  qed
qed simp

fun elim_blocks ::
  "(xcew_op \<times> u32 list) set \<Rightarrow> mach_instr list list \<Rightarrow> (xcew_op \<times> u32 list) set \<times> mach_instr list list \<times> bool" where
  "elim_blocks ks [] = (ks, [], False)"
| "elim_blocks ks (b # bs) =
     (case elim_block ks b of (ks1, b', ch) \<Rightarrow>
        (case elim_blocks ks1 bs of (ks2, bs', ch') \<Rightarrow> (ks2, b' # bs', ch \<or> ch')))"

lemma cse_blocks_elim_blocks:
  "cse_blocks T st bs = (st', out, ch) \<Longrightarrow> elim_blocks (keys_of st) bs = (keys_of st', out, ch)"
  by (induction bs arbitrary: st st' out ch) (auto split: prod.splits dest!: cse_block_elim_block)

lemma run_elim_blocks: "runOnMachineFunction T bs = (bs', ch) \<Longrightarrow> \<exists>ks. elim_blocks {} bs = (ks, bs', ch)"
  using cse_blocks_elim_blocks [of T cse_clear bs]
  by (auto simp: runOnMachineFunction_def split: prod.splits)

text \<open>What the loop does to a block.\<close>

lemma elim_block_subseq: "elim_block ks b = (ks', out, ch) \<Longrightarrow> subseq out b"
  by (induction rule: elim_block_induct) auto

lemma elim_block_other: "elim_block ks b = (ks', out, ch) \<Longrightarrow> filter (\<lambda>i. \<not> is_eml i) out = filter (\<lambda>i. \<not> is_eml i) b"
  by (induction rule: elim_block_induct) auto

definition eml_keys :: "mach_instr list \<Rightarrow> (xcew_op \<times> u32 list) set" where
  "eml_keys b = eml_key ` {i \<in> set b. is_eml i}"

lemma eml_keys_simps [simp]:
  "eml_keys [] = {}"
  "eml_keys (i # b) = (if is_eml i then insert (eml_key i) (eml_keys b) else eml_keys b)"
  "eml_keys (b @ c) = eml_keys b \<union> eml_keys c"
  by (auto simp: eml_keys_def)

lemma elim_block_keys:
  "elim_block ks b = (ks', out, ch) \<Longrightarrow> ks \<subseteq> ks' \<and> ks' \<subseteq> ks \<union> eml_keys out \<and> eml_keys out \<subseteq> eml_keys b
     \<and> eml_keys b \<subseteq> ks \<union> eml_keys out"
  apply (induction rule: elim_block_induct)
  subgoal by auto
  subgoal by auto
  subgoal by auto
  subgoal by (auto split: if_splits)
  done

lemma elim_blocks_blocks:
  "elim_blocks ks bs = (ks', out, ch) \<Longrightarrow>
     list_all2 subseq out bs \<and> filter (\<lambda>i. \<not> is_eml i) (concat out) = filter (\<lambda>i. \<not> is_eml i) (concat bs)"
  by (induction bs arbitrary: ks ks' out ch)
    (auto split: prod.splits dest: elim_block_subseq elim_block_other)

lemma elim_blocks_keys:
  "elim_blocks ks bs = (ks', out, ch) \<Longrightarrow>
     eml_keys (concat out) \<subseteq> eml_keys (concat bs) \<and> eml_keys (concat bs) \<subseteq> ks \<union> eml_keys (concat out)"
proof (induction bs arbitrary: ks out ch)
  case (Cons b bs)
  obtain ks1 b' c out1 ch1 where
    b: "elim_block ks b = (ks1, b', c)" and bs: "elim_blocks ks1 bs = (ks', out1, ch1)" and out: "out = b' # out1"
    using Cons.prems by (auto split: prod.splits)
  show ?case
    unfolding out concat.simps eml_keys_simps
    using Cons.IH [OF bs] elim_block_keys [OF b] by blast
qed simp

text \<open>
  The computation of an instruction is its opcode with its operands other than definitions, not what the pass collects
  of them; the two agree on instructions with registers only, which the EML ones are in the instruction set.
\<close>

definition is_source :: "mach_operand \<Rightarrow> bool" where
  "is_source opd \<longleftrightarrow> (\<forall>r. opd \<noteq> Reg r False)"

definition computation :: "mach_instr \<Rightarrow> xcew_op \<times> mach_operand list" where
  "computation i = (mi_opcode i, filter is_source (mi_operands i))"

definition computations :: "mach_instr list \<Rightarrow> (xcew_op \<times> mach_operand list) set" where
  "computations b = computation ` {i \<in> set b. is_eml i}"

definition registers_only :: "mach_instr \<Rightarrow> bool" where
  "registers_only i \<longleftrightarrow> list_all (\<lambda>opd. case opd of Reg _ _ \<Rightarrow> True | _ \<Rightarrow> False) (mi_operands i)"

lemma filter_is_source:
  "list_all (\<lambda>opd. case opd of Reg _ _ \<Rightarrow> True | _ \<Rightarrow> False) opds \<Longrightarrow>
     filter is_source opds = map (\<lambda>r. Reg r True) (collect_operands opds)"
  by (induction opds rule: collect_operands.induct) (auto simp: is_source_def)

lemma registers_only_sources:
  "registers_only i \<Longrightarrow> filter is_source (mi_operands i) = map (\<lambda>r. Reg r True) (collect_operands (mi_operands i))"
  unfolding registers_only_def by (rule filter_is_source)

lemma same_key_same_computation:
  "registers_only i \<Longrightarrow> registers_only j \<Longrightarrow> eml_key i = eml_key j \<Longrightarrow> computation i = computation j"
  by (simp add: computation_def eml_key_def registers_only_sources)

lemma collect_sources: "collect_operands (filter is_source opds) = collect_operands opds"
  by (induction opds rule: collect_operands.induct) (auto simp: is_source_def)

lemma same_computation_same_key: "computation i = computation j \<Longrightarrow> eml_key i = eml_key j"
  using collect_sources [of "mi_operands i"] collect_sources [of "mi_operands j"]
  by (simp add: computation_def eml_key_def)

lemma computations_simps:
  "computations [] = {}"
  "computations (i # b) = (if is_eml i then insert (computation i) (computations b) else computations b)"
  by (auto simp: computations_def)

lemma computations_kept:
  assumes "set b' \<subseteq> set b" and "eml_keys b' = eml_keys b" and "\<forall>i \<in> set b. is_eml i \<longrightarrow> registers_only i"
  shows "computations b' = computations b"
proof
  show "computations b' \<subseteq> computations b"
    using assms(1) by (auto simp: computations_def)
  show "computations b \<subseteq> computations b'"
  proof
    fix c
    assume "c \<in> computations b"
    then obtain i where i: "i \<in> set b" "is_eml i" "c = computation i"
      by (auto simp: computations_def)
    then have "eml_key i \<in> eml_keys b'"
      unfolding assms(2) by (auto simp: eml_keys_def)
    then obtain j where j: "j \<in> set b'" "is_eml j" "eml_key j = eml_key i"
      by (auto simp: eml_keys_def)
    have "registers_only i" "registers_only j"
      using assms(1,3) i(1,2) j(1,2) by blast+
    then have "computation j = c"
      unfolding i(3) using j(3) by (intro same_key_same_computation)
    then show "c \<in> computations b'"
      using j by (auto simp: computations_def)
  qed
qed

lemma subseq_set: "subseq xs ys \<Longrightarrow> set xs \<subseteq> set ys"
  by (induction rule: list_emb.induct) auto

lemma list_all2_subseq_set: "list_all2 subseq bs' bs \<Longrightarrow> set (concat bs') \<subseteq> set (concat bs)"
  by (induction rule: list_all2_induct) (auto dest: subseq_set)

text \<open>C33: What the pass deletes, for every function and every numbering of the opcodes: each block of
  the result is a subsequence of the block it came from, and every instruction that is not an EML
  instruction is kept in its place. When the EML instructions have register operands only, every EML computation (opcode
  and source registers, in their order) that occurs in the function still occurs in it.\<close>

theorem pass_deletes_duplicates:
  "case runOnMachineFunction T bs of (bs', changed) \<Rightarrow>
     list_all2 subseq bs' bs
     \<and> filter (\<lambda>i. \<not> is_eml i) (concat bs') = filter (\<lambda>i. \<not> is_eml i) (concat bs)
     \<and> ((\<forall>i \<in> set (concat bs). is_eml i \<longrightarrow> registers_only i) \<longrightarrow> computations (concat bs') = computations (concat bs))"
proof (cases "runOnMachineFunction T bs")
  case (Pair bs' changed)
  then obtain ks where "elim_blocks {} bs = (ks, bs', changed)"
    using run_elim_blocks by blast
  note facts = elim_blocks_blocks [OF this] elim_blocks_keys [OF this]
  have "eml_keys (concat bs') = eml_keys (concat bs)"
    using facts(2) by (intro subset_antisym) simp_all
  with facts(1) show ?thesis
    unfolding Pair prod.case using computations_kept [OF list_all2_subseq_set [of bs' bs]] by blast
qed

text \<open>\<open>exp x5, x6; exp x7, x8\<close> and, in the next block, \<open>exp x9, x6\<close>: two computations, which both stay.\<close>

definition exp_instr :: "u32 \<Rightarrow> u32 \<Rightarrow> mach_instr" where
  "exp_instr d r = \<lparr>mi_opcode = XE_EXP, mi_operands = [Reg d False, Reg r True]\<rparr>"

lemma exp_instr_simps:
  "is_eml (exp_instr d r)" "registers_only (exp_instr d r)" "computation (exp_instr d r) = (XE_EXP, [Reg r True])"
  by (simp_all add: exp_instr_def is_eml_def isEMLInstruction_def registers_only_def computation_def is_source_def)

lemma pass_deletes_duplicates_witness:
  "computations (concat (fst (runOnMachineFunction \<lparr>op_number = \<lambda>_. 0, hash_combine = \<lambda>h _. h\<rparr>
     [[exp_instr 5 6, exp_instr 7 8], [exp_instr 9 6]]))) = {(XE_EXP, [Reg 6 True]), (XE_EXP, [Reg 8 True])}"
proof -
  define T where "T = \<lparr>op_number = \<lambda>_. 0, hash_combine = \<lambda>h _. h\<rparr>"
  have "computations (concat [[exp_instr 5 6, exp_instr 7 8], [exp_instr 9 6]]) = {(XE_EXP, [Reg 6 True]), (XE_EXP, [Reg 8 True])}"
    by (auto simp: computations_simps exp_instr_simps)
  then show ?thesis
    unfolding T_def [symmetric]
    using pass_deletes_duplicates [where T = T and bs = "[[exp_instr 5 6, exp_instr 7 8], [exp_instr 9 6]]"]
    by (cases "runOnMachineFunction T [[exp_instr 5 6, exp_instr 7 8], [exp_instr 9 6]]") (simp add: exp_instr_simps)
qed

lemma elim_block_same: "elim_block {eml_key i} (replicate n i) = ({eml_key i}, replicate (n div 2) i, 2 \<le> n)" if "is_eml i"
proof (induction n rule: nat_less_induct)
  case (1 n)
  consider "n = 0" | "n = 1" | m where "n = Suc (Suc m)"
    by (cases n; cases "n - 1") auto
  then show ?case
    using 1 that by cases auto
qed

lemma run_block: "elim_block {} b = (ks, out, ch) \<Longrightarrow> runOnMachineFunction T [b] = ([out], ch)"
  using run_elim_blocks [of T "[b]"] by (cases "runOnMachineFunction T [b]") auto

text \<open>The pass is not idempotent and misses every second duplicate: of \<open>n\<close> copies after the first
  one it keeps \<open>n div 2\<close>, because \<open>erase\<close> already advances the iterator and \<open>++MI\<close> advances it
  again; and a single duplicate at the end of the block is erased while the pass returns that it
  changed nothing.\<close>

lemma half_of_duplicates_stay:
  assumes "is_eml i"
  shows "runOnMachineFunction T [replicate (Suc n) i] = ([replicate (Suc (n div 2)) i], 2 \<le> n)"
  by (rule run_block) (use assms elim_block_same [of i n] in simp)

section \<open>What the erased instruction computed\<close>

text \<open>The meaning of a block on a register file: an instruction writes its destination, the first
  operand, with a function of its opcode and the values of its sources.\<close>

fun source_values :: "(u32 \<Rightarrow> u32) \<Rightarrow> mach_operand list \<Rightarrow> u32 list" where
  "source_values rf [] = []"
| "source_values rf (Reg r use # os) = (if use then rf r # source_values rf os else source_values rf os)"
| "source_values rf (Imm v # os) = ucast v # source_values rf os"
| "source_values rf (OtherOperand # os) = source_values rf os"

definition exec_instr :: "(xcew_op \<Rightarrow> u32 list \<Rightarrow> u32) \<Rightarrow> mach_instr \<Rightarrow> (u32 \<Rightarrow> u32) \<Rightarrow> u32 \<Rightarrow> u32" where
  "exec_instr ev i rf =
     (case result_reg i of None \<Rightarrow> rf
      | Some d \<Rightarrow> rf(d := ev (mi_opcode i) (source_values rf (mi_operands i))))"

definition exec_block :: "(xcew_op \<Rightarrow> u32 list \<Rightarrow> u32) \<Rightarrow> mach_instr list \<Rightarrow> (u32 \<Rightarrow> u32) \<Rightarrow> u32 \<Rightarrow> u32" where
  "exec_block ev b rf = fold (exec_instr ev) b rf"

lemma exec_block_other:
  "(\<And>m. m \<in> set b \<Longrightarrow> result_reg m \<noteq> Some d) \<Longrightarrow> exec_block ev b rf d = rf d"
  unfolding exec_block_def
  by (induction b arbitrary: rf) (auto simp: exec_instr_def split: option.splits)

lemma elim_block_prefix:
  "(\<And>m. m \<in> set ms \<Longrightarrow> \<not> is_eml m) \<Longrightarrow>
     elim_block ks (ms @ b) = (case elim_block ks b of (ks', out, ch) \<Rightarrow> (ks', ms @ out, ch))"
  by (induction ms) (auto split: prod.splits)

lemma exec_block_append: "exec_block ev (a @ b) rf = exec_block ev b (exec_block ev a rf)"
  by (simp add: exec_block_def)

lemma exec_block_Cons: "exec_block ev [] rf = rf" "exec_block ev (i # b) rf = exec_block ev b (exec_instr ev i rf)"
  by (simp_all add: exec_block_def)

text \<open>The pass on a block with the duplicate \<open>j\<close> of \<open>i\<close>.\<close>

lemma duplicate_erased:
  assumes "is_eml i" and "eml_key j = eml_key i" and "eml_key k \<noteq> eml_key i"
    and other: "\<And>m. m \<in> set (ps @ ms @ ns) \<Longrightarrow> \<not> is_eml m"
  shows "\<exists>out outs. runOnMachineFunction T ((ps @ i # ms @ j # ns @ k # b) # bs) = ((ps @ i # ms @ ns @ k # out) # outs, True)"
proof -
  have j: "is_eml j"
    using assms(1,2) by (auto simp: eml_key_def is_eml_def)
  have ms: "elim_block ks (ps @ c) = (case elim_block ks c of (ks', out, ch) \<Rightarrow> (ks', ps @ out, ch))"
    "elim_block ks (ms @ c) = (case elim_block ks c of (ks', out, ch) \<Rightarrow> (ks', ms @ out, ch))" for ks c
    using other by (auto intro!: elim_block_prefix)
  have "\<exists>ks' out. elim_block {eml_key i} (j # ns @ k # b) = (ks', ns @ k # out, True)"
  proof (cases ns)
    case Nil
    then show ?thesis
      using j assms(2) by (auto split: prod.split)
  next
    case (Cons n ns')
    then have "elim_block {eml_key i} (ns' @ k # b) = (case elim_block {eml_key i} (k # b) of (ks', out, ch) \<Rightarrow> (ks', ns' @ out, ch))"
      using other by (intro elim_block_prefix) auto
    then show ?thesis
      using Cons j assms(2,3) by (auto split: prod.split)
  qed
  then obtain ks' out where "elim_block {} (ps @ i # ms @ j # ns @ k # b) = (ks', ps @ i # ms @ ns @ k # out, True)"
    using assms(1) by (auto simp: ms)
  moreover obtain ks'' outs ch where "elim_blocks ks' bs = (ks'', outs, ch)"
    by (metis prod_cases3)
  ultimately show ?thesis
    using run_elim_blocks [of T "(ps @ i # ms @ j # ns @ k # b) # bs"]
    by (cases "runOnMachineFunction T ((ps @ i # ms @ j # ns @ k # b) # bs)") auto
qed

text \<open>C34: The destination of an erased instruction loses its definition, and its uses are not rewritten to the
  earlier result. Take a block in which \<open>j\<close> repeats the EML instruction \<open>i\<close> on registers and a later \<open>k\<close> uses its destination \<open>d\<close>, with any instructions
  that are not EML before, between and after them, and anything behind \<open>k\<close>. The pass erases \<open>j\<close> and keeps \<open>k\<close> as it
  is. In the function \<open>k\<close> worked on the result of \<open>j\<close>; after the pass it works on what \<open>d\<close> held before \<open>i\<close>.\<close>

theorem erased_definition_lost:
  assumes "is_eml i" and "registers_only i" and "computation j = computation i" and "computation k \<noteq> computation i"
    and other: "\<And>m. m \<in> set (ps @ ms @ ns) \<Longrightarrow> \<not> is_eml m"
    and d: "result_reg j = Some d" and use: "mi_operands k = [Reg e False, Reg d True]"
    and once: "\<And>m. m \<in> set (i # ms @ ns) \<Longrightarrow> result_reg m \<noteq> Some d"
  shows "(\<exists>out outs. runOnMachineFunction T ((ps @ i # ms @ j # ns @ k # b) # bs) = ((ps @ i # ms @ ns @ k # out) # outs, True))
         \<and> exec_block ev (ps @ i # ms @ j # ns @ [k]) rf e =
              ev (mi_opcode k) [ev (mi_opcode i) (source_values (exec_block ev (ps @ i # ms) rf) (mi_operands j))]
         \<and> exec_block ev (ps @ i # ms @ ns @ [k]) rf e = ev (mi_opcode k) [exec_block ev ps rf d]"
proof (intro conjI)
  have op: "mi_opcode j = mi_opcode i"
    using assms(3) by (simp add: computation_def)
  have "registers_only k"
    by (simp add: registers_only_def use)
  then have keys: "eml_key j = eml_key i" "eml_key k \<noteq> eml_key i"
    using same_computation_same_key [OF assms(3)] same_key_same_computation [of k i] assms(2,4) by auto
  have k: "exec_instr ev k rf' e = ev (mi_opcode k) [rf' d]"
    "exec_instr ev j rf' d = ev (mi_opcode i) (source_values rf' (mi_operands j))" for rf'
    by (simp_all add: exec_instr_def result_reg_def use) (simp add: d [unfolded result_reg_def] op)
  have keep: "exec_block ev (i # ms) rf' d = rf' d" "exec_block ev ns rf' d = rf' d" for rf'
    using once by (auto intro!: exec_block_other)
  show "\<exists>out outs. runOnMachineFunction T ((ps @ i # ms @ j # ns @ k # b) # bs) = ((ps @ i # ms @ ns @ k # out) # outs, True)"
    by (rule duplicate_erased [OF assms(1) keys other])
  show "exec_block ev (ps @ i # ms @ j # ns @ [k]) rf e =
      ev (mi_opcode k) [ev (mi_opcode i) (source_values (exec_block ev (ps @ i # ms) rf) (mi_operands j))]"
    using keep(2) by (simp add: exec_block_append exec_block_Cons k)
  show "exec_block ev (ps @ i # ms @ ns @ [k]) rf e = ev (mi_opcode k) [exec_block ev ps rf d]"
    using keep(1) [of "exec_block ev ps rf"] keep(2) by (simp add: exec_block_append exec_block_Cons k)
qed

text \<open>\<open>exp x5, x6; li x6, 1; exp x7, x6; ln x8, x7\<close>, with functions that return their argument and registers that
  hold their numbers: after the pass \<open>ln\<close> works on the old \<open>x7\<close>.\<close>

lemma erased_definition_lost_witness:
  "exec_block (\<lambda>_. hd) [exp_instr 5 6, \<lparr>mi_opcode = OtherOp 9, mi_operands = [Reg 6 False, Imm 1]\<rparr>,
     \<lparr>mi_opcode = XE_LN, mi_operands = [Reg 8 False, Reg 7 True]\<rparr>] (\<lambda>r. r) 8 = 7"
proof -
  have "exec_block (\<lambda>_. hd) ([] @ exp_instr 5 6 # [\<lparr>mi_opcode = OtherOp 9, mi_operands = [Reg 6 False, Imm 1]\<rparr>] @
      [] @ [\<lparr>mi_opcode = XE_LN, mi_operands = [Reg 8 False, Reg 7 True]\<rparr>]) (\<lambda>r. r) 8 =
      (\<lambda>_. hd) (mi_opcode \<lparr>mi_opcode = XE_LN, mi_operands = [Reg 8 False, Reg 7 True]\<rparr>) [exec_block (\<lambda>_. hd) [] (\<lambda>r. r) 7]"
    by (rule erased_definition_lost [where j = "exp_instr 7 6" and d = 7, THEN conjunct2, THEN conjunct2])
      (auto simp: exp_instr_def is_eml_def isEMLInstruction_def computation_def is_source_def registers_only_def result_reg_def)
  then show ?thesis
    by (simp add: exec_block_Cons(1))
qed

text \<open>A duplicate that is the last instruction of its block is erased too, and then the pass reports that it has
  changed nothing.\<close>

lemma last_duplicate_unreported:
  assumes "is_eml i" and "eml_key j = eml_key i" and "\<And>m. m \<in> set ms \<Longrightarrow> \<not> is_eml m"
  shows "runOnMachineFunction T [i # ms @ [j]] = ([i # ms], False)"
proof -
  have "is_eml j"
    using assms(1,2) by (auto simp: eml_key_def is_eml_def)
  then have "elim_block {} (i # ms @ [j]) = ({eml_key i}, i # ms, False)"
    using assms(1,2) elim_block_prefix [of ms "{eml_key i}" "[j]"] assms(3) by simp
  then show ?thesis
    by (rule run_block)
qed

section \<open>Hash and cost\<close>

lemma getEMLHash_is_tag: "getEMLHash T n < 256"
proof -
  have "getEMLHash T n \<le> 0xFF"
    unfolding getEMLHash_def by (rule word_and_le1)
  then show ?thesis
    by (simp add: word_le_nat_alt word_less_nat_alt)
qed

text \<open>An immediate and a register with the same number are the same operand, and an immediate
  counts with its low 32 bits.\<close>

lemma operands_conflated:
  "collect_operands [Reg d False, Imm 7] = collect_operands [Reg d False, Reg 7 True]"
  "collect_operands [Reg d False, Imm 0x100000007] = collect_operands [Reg d False, Imm 7]"
  by simp_all

lemma estimateCost_two_operands:
  "length (n_operands n) = 2 \<Longrightarrow>
     estimateCost n = (base_cost (n_opcode n))\<lparr>
       cycles := 2 * cycles (base_cost (n_opcode n)), energy := 2 * energy (base_cost (n_opcode n))\<rparr>"
  by (simp add: estimateCost_def Let_def mult.commute)

end
