(* ===== verification/Rtl_Secded.thy ===== *)
theory Rtl_Secded
  imports Azmuth_Prelude
begin

text \<open>
  The SECDED code of the NVM words: the functions \<open>calc_ecc\<close> and \<open>correct_data\<close> and the
  continuous assignments around them in \<open>rtl/nvm/nvm_ctrl.v\<close>, with the lemmas that every
  error pattern of one or two bits rests on. The check bits are linear in the data, so a
  received word is the sent one plus an error pattern, and only the pattern matters.
\<close>

section \<open>The code\<close>

text \<open>Verilog's reduction operator \<open>^w\<close>.\<close>

definition red_xor :: "'a::len word \<Rightarrow> bool" where
  "red_xor w = fold (\<lambda>k b. b \<noteq> bit w k) [0..<LENGTH('a)] False"

definition check_pos :: "nat \<Rightarrow> bool" where
  "check_pos p \<longleftrightarrow> p = 1 \<or> p = 2 \<or> p = 4 \<or> p = 8 \<or> p = 16 \<or> p = 32"

text \<open>One round of the loop over positions in \<open>calc_ecc\<close>: its state is the index of the next
  data bit, the check bits and the parity of the data bits.\<close>

definition ecc_bit_step :: "u32 \<Rightarrow> nat \<Rightarrow> nat \<Rightarrow> nat \<Rightarrow> 6 word \<Rightarrow> 6 word" where
  "ecc_bit_step data pos d k ecc =
     (if bit pos k \<and> d < 32 then ecc XOR (if bit data d then push_bit k 1 else 0) else ecc)"

definition ecc_pos_step :: "u32 \<Rightarrow> nat \<Rightarrow> nat \<times> 6 word \<times> bool \<Rightarrow> nat \<times> 6 word \<times> bool" where
  "ecc_pos_step data pos acc =
     (case acc of (d, ecc, par) \<Rightarrow>
        if check_pos pos then acc
        else (d + 1, fold (ecc_bit_step data pos d) [0..<6] ecc,
              if d < 32 then par \<noteq> bit data d else par))"

definition calc_ecc :: "u32 \<Rightarrow> u7" where
  "calc_ecc data =
     (case fold (ecc_pos_step data) [1..<39] (0, 0, False) of
        (_, ecc, par) \<Rightarrow> (if par \<noteq> red_xor ecc then push_bit 6 1 else 0) OR ucast ecc)"

definition codeword_parity :: "u32 \<Rightarrow> u7 \<Rightarrow> bool" where
  "codeword_parity data ecc = ((red_xor data \<noteq> red_xor (ucast ecc :: 6 word)) \<noteq> bit ecc 6)"

definition syndrome :: "u7 \<Rightarrow> u7 \<Rightarrow> 6 word" where
  "syndrome stored calculated = ucast stored XOR ucast calculated"

definition single_bit_err :: "u32 \<Rightarrow> u7 \<Rightarrow> bool" where
  "single_bit_err data ecc \<longleftrightarrow> syndrome ecc (calc_ecc data) \<noteq> 0 \<and> codeword_parity data ecc"

definition double_bit_err :: "u32 \<Rightarrow> u7 \<Rightarrow> bool" where
  "double_bit_err data ecc \<longleftrightarrow> syndrome ecc (calc_ecc data) \<noteq> 0 \<and> \<not> codeword_parity data ecc"

text \<open>The search of \<open>correct_data\<close> for the data bit at a position: \<open>None\<close> is \<open>err_pos = -1\<close>.\<close>

definition err_pos_step :: "6 word \<Rightarrow> nat \<Rightarrow> nat \<times> nat option \<Rightarrow> nat \<times> nat option" where
  "err_pos_step syn pos acc =
     (case acc of (d, err) \<Rightarrow>
        if check_pos pos then acc else (d + 1, if pos = unat syn then Some d else err))"

definition err_pos :: "6 word \<Rightarrow> nat option" where
  "err_pos syn = snd (fold (err_pos_step syn) [1..<39] (0, None))"

definition correct_data :: "u32 \<Rightarrow> u7 \<Rightarrow> u7 \<Rightarrow> bool \<Rightarrow> u32" where
  "correct_data data stored calc_val single =
     (let syn = syndrome stored calc_val
      in if single \<and> syn \<noteq> 0 \<and> codeword_parity data stored \<and> \<not> check_pos (unat syn)
         then (case err_pos syn of
                 Some i \<Rightarrow> if i < 32 then data XOR push_bit i 1 else data
               | None \<Rightarrow> data)
         else data)"

section \<open>Parities\<close>

lemma red_xor_fold:
  "fold (\<lambda>k b. b \<noteq> bit (v XOR w) k) ks (p \<noteq> q) =
     (fold (\<lambda>k b. b \<noteq> bit v k) ks p \<noteq> fold (\<lambda>k b. b \<noteq> bit w k) ks q)"
proof (induction ks arbitrary: p q)
  case Nil
  show ?case by simp
next
  case (Cons k ks)
  have "((p \<noteq> q) \<noteq> bit (v XOR w) k) = ((p \<noteq> bit v k) \<noteq> (q \<noteq> bit w k))"
    by (auto simp: bit_xor_iff)
  then show ?case
    by (simp only: fold_simps Cons)
qed

lemma red_xor_xor: "red_xor (v XOR w) = (red_xor v \<noteq> red_xor w)"
  using red_xor_fold [of v w "[0..<LENGTH('a)]" False False] by (simp add: red_xor_def)

section \<open>The check bits are linear\<close>

text \<open>Data bit \<open>d\<close> sits at position \<open>data_pos ! d\<close>; the check bits of a word are the
  exclusive or of the positions of its set bits.\<close>

definition data_pos :: "nat list" where
  "data_pos = filter (\<lambda>p. \<not> check_pos p) [1..<39]"

definition syn_term :: "u32 \<Rightarrow> nat \<times> nat \<Rightarrow> 6 word" where
  "syn_term data dp = (if bit data (fst dp) then of_nat (snd dp) else 0)"

definition syn_sum :: "u32 \<Rightarrow> (nat \<times> nat) list \<Rightarrow> 6 word" where
  "syn_sum data dps = fold (\<lambda>dp e. e XOR syn_term data dp) dps 0"

lemma fold_xor_start:
  "fold (\<lambda>dp e. e XOR f dp) dps a = a XOR fold (\<lambda>dp e. e XOR f dp) dps (0 :: 'a::len word)"
proof (induction dps arbitrary: a)
  case Nil
  show ?case by simp
next
  case (Cons x dps)
  show ?case
    using Cons [of "a XOR f x"] Cons [of "0 XOR f x"] by (simp add: xor.assoc)
qed

lemma syn_sum_Cons: "syn_sum data (dp # dps) = syn_term data dp XOR syn_sum data dps"
  using fold_xor_start [of "syn_term data" dps "syn_term data dp"] by (simp add: syn_sum_def)

lemma syn_term_xor: "syn_term (v XOR w) dp = syn_term v dp XOR syn_term w dp"
  by (simp add: syn_term_def bit_xor_iff)

lemma syn_sum_xor: "syn_sum (v XOR w) dps = syn_sum v dps XOR syn_sum w dps"
proof (induction dps)
  case Nil
  show ?case by (simp add: syn_sum_def)
next
  case (Cons x dps)
  then show ?case
    by (simp add: syn_sum_Cons syn_term_xor xor.assoc xor.left_commute)
qed

lemma pos_bits:
  "p < 64 \<Longrightarrow> fold (\<lambda>k w. w XOR (if bit p k then push_bit k 1 else 0)) [0..<6] 0 = (of_nat p :: 6 word)"
proof -
  have "\<forall>p \<in> set [0..<64].
      fold (\<lambda>k w. w XOR (if bit p k then push_bit k 1 else 0)) [0..<6] 0 = (of_nat p :: 6 word)"
    by code_simp
  then show "p < 64 \<Longrightarrow> ?thesis" by simp
qed

lemma fold_ident [simp]: "fold (\<lambda>k w. w) ks e = e"
  by (induction ks) simp_all

lemma ecc_bits_pos:
  assumes "p < 64" and "d < 32"
  shows "fold (ecc_bit_step data p d) [0..<6] e = e XOR syn_term data (d, p)"
proof (cases "bit data d")
  case True
  then have "ecc_bit_step data p d = (\<lambda>k w. w XOR (if bit p k then push_bit k 1 else 0))"
    using assms(2) by (auto simp: ecc_bit_step_def fun_eq_iff)
  then show ?thesis
    using fold_xor_start [of "\<lambda>k. if bit p k then push_bit k 1 else 0" "[0..<6]" e]
      pos_bits [OF assms(1)] True
    by (simp add: syn_term_def)
next
  case False
  then have "ecc_bit_step data p d = (\<lambda>k w. w)"
    by (auto simp: ecc_bit_step_def fun_eq_iff)
  then show ?thesis
    using False by (simp add: syn_term_def)
qed

text \<open>The loop over positions, for any part of it.\<close>

lemma ecc_pos_fold:
  assumes "\<forall>p \<in> set ps. p < 64" and "d + length (filter (\<lambda>p. \<not> check_pos p) ps) \<le> 32"
  shows "fold (ecc_pos_step data) ps (d, e, b) =
    (d + length (filter (\<lambda>p. \<not> check_pos p) ps),
     e XOR syn_sum data (enumerate d (filter (\<lambda>p. \<not> check_pos p) ps)),
     fold (\<lambda>k b. b \<noteq> bit data k) [d..<d + length (filter (\<lambda>p. \<not> check_pos p) ps)] b)"
  using assms
proof (induction ps arbitrary: d e b)
  case Nil
  show ?case by (simp add: syn_sum_def)
next
  case (Cons p ps)
  show ?case
  proof (cases "check_pos p")
    case True
    then have "ecc_pos_step data p (d, e, b) = (d, e, b)"
      by (simp add: ecc_pos_step_def)
    with True Cons show ?thesis by simp
  next
    case False
    with Cons.prems have "ecc_pos_step data p (d, e, b) =
        (Suc d, e XOR syn_term data (d, p), b \<noteq> bit data d)"
      by (simp add: ecc_pos_step_def ecc_bits_pos)
    with False Cons.prems Cons.IH [of "Suc d" "e XOR syn_term data (d, p)" "b \<noteq> bit data d"]
    show ?thesis
      by (simp add: syn_sum_Cons xor.assoc upt_conv_Cons del: upt_Suc)
  qed
qed

lemma data_pos_eq:
  "data_pos = [3, 5, 6, 7, 9, 10, 11, 12, 13, 14, 15, 17, 18, 19, 20, 21, 22, 23, 24, 25, 26, 27,
               28, 29, 30, 31, 33, 34, 35, 36, 37, 38]"
  by code_simp

definition syn :: "u32 \<Rightarrow> 6 word" where
  "syn data = syn_sum data (enumerate 0 data_pos)"

lemma syn_xor: "syn (v XOR w) = syn v XOR syn w"
  by (simp add: syn_def syn_sum_xor)

lemma calc_ecc_syn:
  "calc_ecc data = (if red_xor data \<noteq> red_xor (syn data) then push_bit 6 1 else 0) OR ucast (syn data)"
proof -
  have len: "length data_pos = 32"
    by (simp add: data_pos_eq)
  have "fold (ecc_pos_step data) [1..<39] (0, 0, False) =
      (0 + length data_pos, 0 XOR syn_sum data (enumerate 0 data_pos),
       fold (\<lambda>k b. b \<noteq> bit data k) [0..<0 + length data_pos] False)"
    unfolding data_pos_def
    by (rule ecc_pos_fold) (use len in \<open>simp_all add: data_pos_def\<close>)
  then have "fold (ecc_pos_step data) [1..<39] (0, 0, False) = (32, syn data, red_xor data)"
    by (simp add: len syn_def red_xor_def)
  then show ?thesis
    by (simp add: calc_ecc_def)
qed

section \<open>Error patterns\<close>

lemma bit_calc_ecc:
  "bit (calc_ecc data) n \<longleftrightarrow>
     (if n < 6 then bit (syn data) n else n = 6 \<and> red_xor data \<noteq> red_xor (syn data))"
proof -
  have "bit (push_bit 6 1 :: u7) n \<longleftrightarrow> n = 6"
    by (auto simp: bit_simps simp del: push_bit_of_1)
  moreover have "\<not> bit (syn data) n" if "6 \<le> n"
    using that bit_imp_le_length [of "syn data" n] by auto
  ultimately show ?thesis
    by (auto simp: calc_ecc_syn bit_simps simp del: push_bit_of_1)
qed

lemma calc_ecc_low: "(ucast (calc_ecc data) :: 6 word) = syn data"
  by (rule bit_word_eqI) (auto simp: bit_calc_ecc bit_simps)

lemma calc_ecc_top: "bit (calc_ecc data) 6 \<longleftrightarrow> red_xor data \<noteq> red_xor (syn data)"
  by (simp add: bit_calc_ecc)

lemma ucast_xor7: "(ucast (v XOR w :: u7) :: 6 word) = ucast v XOR ucast w"
  by (rule bit_word_eqI) (auto simp: bit_simps)

text \<open>What the decoder computes from a corrupted code word depends on the error alone.\<close>

lemma syndrome_error:
  "syndrome (calc_ecc data XOR ec) (calc_ecc (data XOR ed)) = ucast ec XOR syn ed"
  by (simp add: syndrome_def ucast_xor7 calc_ecc_low syn_xor xor.assoc xor.left_commute)

lemma parity_error:
  "codeword_parity (data XOR ed) (calc_ecc data XOR ec) \<longleftrightarrow> codeword_parity ed ec"
  by (auto simp: codeword_parity_def red_xor_xor ucast_xor7 calc_ecc_low calc_ecc_top bit_xor_iff)

definition repair :: "u32 \<Rightarrow> u7 \<Rightarrow> u32" where
  "repair ed ec =
     (let e = ucast ec XOR syn ed
      in if e \<noteq> 0 \<and> codeword_parity ed ec \<and> \<not> check_pos (unat e)
         then (case err_pos e of Some i \<Rightarrow> if i < 32 then push_bit i 1 else 0 | None \<Rightarrow> 0)
         else 0)"

lemma single_error:
  "single_bit_err (data XOR ed) (calc_ecc data XOR ec) \<longleftrightarrow>
     ucast ec XOR syn ed \<noteq> 0 \<and> codeword_parity ed ec"
  by (simp add: single_bit_err_def syndrome_error parity_error)

lemma double_error:
  "double_bit_err (data XOR ed) (calc_ecc data XOR ec) \<longleftrightarrow>
     ucast ec XOR syn ed \<noteq> 0 \<and> \<not> codeword_parity ed ec"
  by (simp add: double_bit_err_def syndrome_error parity_error)

lemma correct_error:
  "correct_data (data XOR ed) (calc_ecc data XOR ec) (calc_ecc (data XOR ed))
     (single_bit_err (data XOR ed) (calc_ecc data XOR ec)) = data XOR ed XOR repair ed ec"
  by (simp add: correct_data_def repair_def single_error syndrome_error parity_error Let_def
      xor.assoc split: option.split)

text \<open>Bit \<open>i\<close> of the 39-bit code word: 32 data bits, then the 7 check bits.\<close>

definition err_data :: "nat \<Rightarrow> u32" where
  "err_data i = (if i < 32 then push_bit i 1 else 0)"

definition err_check :: "nat \<Rightarrow> u7" where
  "err_check i = (if i < 32 then 0 else push_bit (i - 32) 1)"

text \<open>The Hamming position of each bit; the overall parity bit has none.\<close>

definition pos_of :: "nat \<Rightarrow> nat" where
  "pos_of i = (data_pos @ [1, 2, 4, 8, 16, 32, 0]) ! i"

lemma pos_list: "length (data_pos @ [1, 2, 4, 8, 16, 32, 0]) = 39"
  "distinct (data_pos @ [1, 2, 4, 8, 16, 32, 0 :: nat])"
  "\<forall>p \<in> set (data_pos @ [1, 2, 4, 8, 16, 32, 0]). p < 64"
  by (simp_all add: data_pos_eq)

lemma pos_of_less: "i < 39 \<Longrightarrow> pos_of i < 64"
  unfolding pos_of_def by (rule bspec [OF pos_list(3) nth_mem]) (simp only: pos_list(1))

lemma pos_of_inj: "i < 39 \<Longrightarrow> j < 39 \<Longrightarrow> pos_of i = pos_of j \<longleftrightarrow> i = j"
  unfolding pos_of_def by (rule nth_eq_iff_index_eq) (use pos_list in simp_all)

lemma of_nat_pos_inj:
  "i < 39 \<Longrightarrow> j < 39 \<Longrightarrow> (of_nat (pos_of i) :: 6 word) = of_nat (pos_of j) \<longleftrightarrow> i = j"
  using pos_of_less [of i] pos_of_less [of j]
  by (simp add: word_unat_eq_iff unat_of_nat take_bit_nat_eq_self pos_of_inj)

lemma red_xor_one:
  assumes "j < LENGTH('a)"
  shows "red_xor (push_bit j 1 :: 'a::len word)"
proof -
  have "fold (\<lambda>k b. b \<noteq> bit (push_bit j 1 :: 'a word) k) [0..<n] False \<longleftrightarrow> j < n"
    if "n \<le> LENGTH('a)" for n
    using that by (induction n) (auto simp: bit_one_shift less_Suc_eq simp del: push_bit_of_1)
  then show ?thesis
    using assms by (simp add: red_xor_def del: push_bit_of_1)
qed

lemma red_xor_0 [simp]: "red_xor 0 = False"
proof -
  have "fold (\<lambda>k b. b \<noteq> bit 0 k) ks False = False" for ks
    by (induction ks) simp_all
  then show ?thesis by (simp add: red_xor_def)
qed

lemma syn_sum_one:
  assumes "j < 32"
  shows "syn_sum (push_bit j 1) (enumerate d ps) =
    (if d \<le> j \<and> j < d + length ps then of_nat (ps ! (j - d)) else 0)"
proof (induction ps arbitrary: d)
  case Nil
  show ?case by (auto simp: syn_sum_def)
next
  case (Cons p ps)
  show ?case
    using assms Cons [of "Suc d"]
    by (auto simp: syn_sum_Cons syn_term_def bit_one_shift nth_Cons' simp del: push_bit_of_1)
qed

lemma syn_0 [simp]: "syn 0 = 0"
proof -
  have "syn_sum 0 dps = 0" for dps
    by (induction dps) (simp_all add: syn_sum_Cons syn_term_def, simp add: syn_sum_def)
  then show ?thesis by (simp add: syn_def)
qed

lemma error_syndrome:
  assumes "i < 39"
  shows "ucast (err_check i) XOR syn (err_data i) = of_nat (pos_of i)"
proof (cases "i < 32")
  case True
  then show ?thesis
    using pos_list(1)
    by (simp add: err_check_def err_data_def syn_def syn_sum_one pos_of_def nth_append
        del: push_bit_of_1)
next
  case False
  with assms have "i \<in> {32, 33, 34, 35, 36, 37, 38}"
    by auto
  then show ?thesis
    by (auto simp: err_check_def err_data_def pos_of_def data_pos_eq)
qed

lemma error_parity:
  assumes "i < 39"
  shows "codeword_parity (err_data i) (err_check i)"
proof (cases "i < 32")
  case True
  then show ?thesis
    by (simp add: codeword_parity_def err_data_def err_check_def red_xor_one del: push_bit_of_1)
next
  case False
  have "\<forall>i \<in> set [32..<39]. codeword_parity (err_data i) (err_check i)"
    by code_simp
  moreover have "i \<in> set [32..<39]"
    using assms False unfolding set_upt by simp
  ultimately show ?thesis
    by (rule bspec)
qed

text \<open>The search of \<open>correct_data\<close> inverts the position table.\<close>

lemma err_pos_fold:
  "fold (err_pos_step e) ps (d, x) =
     (d + length (filter (\<lambda>p. \<not> check_pos p) ps),
      fold (\<lambda>dp y. if snd dp = unat e then Some (fst dp) else y)
        (enumerate d (filter (\<lambda>p. \<not> check_pos p) ps)) x)"
  by (induction ps arbitrary: d x) (simp_all add: err_pos_step_def)

lemma last_hit:
  assumes "distinct ps" and "j < length ps"
  shows "fold (\<lambda>dp y. if snd dp = ps ! j then Some (fst dp) else y) (enumerate d ps) x = Some (d + j)"
proof -
  have other: "p \<notin> set qs \<Longrightarrow>
      fold (\<lambda>dp y. if snd dp = p then Some (fst dp) else y) (enumerate d qs) x = x"
    for p d x and qs :: "'a list"
    by (induction qs arbitrary: d x) auto
  show ?thesis
    using assms
  proof (induction ps arbitrary: d x j)
    case Nil
    then show ?case by simp
  next
    case (Cons p ps)
    then show ?case
      using other [of p ps "Suc d" "Some d"] by (cases j) auto
  qed
qed

lemma err_pos_data:
  assumes "i < 32"
  shows "err_pos (of_nat (pos_of i)) = Some i" "\<not> check_pos (pos_of i)"
proof -
  have p: "pos_of i = data_pos ! i" "i < length data_pos"
    using assms pos_list(1) by (simp_all add: pos_of_def nth_append)
  have u: "unat (of_nat (pos_of i) :: 6 word) = pos_of i"
    using pos_of_less [of i] assms by (simp add: unat_of_nat take_bit_nat_eq_self)
  have "err_pos e = fold (\<lambda>dp y. if snd dp = unat e then Some (fst dp) else y) (enumerate 0 data_pos) None" for e
    by (simp only: err_pos_def err_pos_fold data_pos_def snd_conv)
  then show "err_pos (of_nat (pos_of i)) = Some i"
    using last_hit [of data_pos i 0 None] p(2) pos_list(2) u
    by (simp add: p(1) [symmetric])
  show "\<not> check_pos (pos_of i)"
    using nth_mem [OF p(2)] by (simp add: p(1)) (simp add: data_pos_def)
qed

lemma repair_single:
  assumes "i < 39"
  shows "repair (err_data i) (err_check i) = err_data i"
proof -
  have u: "unat (of_nat (pos_of i) :: 6 word) = pos_of i"
    using pos_of_less [OF assms] by (simp add: unat_of_nat take_bit_nat_eq_self)
  show ?thesis
  proof (cases "i < 32")
    case True
    have "(of_nat (pos_of i) :: 6 word) \<noteq> of_nat (pos_of 38)"
      using of_nat_pos_inj [of i 38] True by simp
    then have "(of_nat (pos_of i) :: 6 word) \<noteq> 0"
      by (simp add: pos_of_def data_pos_eq)
    then show ?thesis
      using True err_pos_data [OF True] error_parity [OF assms]
      unfolding repair_def error_syndrome [OF assms] Let_def u by (simp add: err_data_def)
  next
    case False
    then have "i \<in> {32, 33, 34, 35, 36, 37, 38}"
      using assms by auto
    then have "check_pos (pos_of i) \<or> i = 38"
      by (auto simp: pos_of_def data_pos_eq check_pos_def)
    then show ?thesis
      using False
      unfolding repair_def error_syndrome [OF assms] Let_def u
      by (auto simp: err_data_def pos_of_def data_pos_eq)
  qed
qed

lemma xor_left_cancel: "a XOR b = a XOR c \<longleftrightarrow> b = (c :: 'a::len word)"
  by (metis xor.assoc xor_self_eq xor.left_neutral)

text \<open>Two errors at once.\<close>

lemma parity_two:
  "codeword_parity (d1 XOR d2) (c1 XOR c2) \<longleftrightarrow> codeword_parity d1 c1 \<noteq> codeword_parity d2 c2"
proof -
  have "(ucast (c1 XOR c2) :: 6 word) = ucast c1 XOR ucast c2"
    by (rule bit_word_eqI) (simp add: bit_simps)
  then show ?thesis
    by (auto simp: codeword_parity_def red_xor_xor bit_xor_iff)
qed

lemma syndrome_two:
  "ucast (c1 XOR c2) XOR syn (d1 XOR d2) = (ucast c1 XOR syn d1) XOR (ucast c2 XOR syn d2)"
proof -
  have "(ucast (c1 XOR c2) :: 6 word) = ucast c1 XOR ucast c2"
    by (rule bit_word_eqI) (simp add: bit_simps)
  then show ?thesis
    by (simp add: syn_xor xor.assoc xor.left_commute)
qed

lemma syndrome_zero_iff: "i < 39 \<Longrightarrow> ucast (err_check i) XOR syn (err_data i) = 0 \<longleftrightarrow> i = 38"
  using of_nat_pos_inj [of i 38] by (simp add: error_syndrome) (simp add: pos_of_def data_pos_eq)

lemma xor_eq_0_iff: "a XOR b = 0 \<longleftrightarrow> a = (b :: 'a::len word)"
  using xor_left_cancel [of a b a] by auto

lemma two_errors:
  assumes "i < 39" "j < 39" "i \<noteq> j"
  shows "double_bit_err (w XOR (err_data i XOR err_data j)) (calc_ecc w XOR (err_check i XOR err_check j))"
    "\<not> single_bit_err (w XOR (err_data i XOR err_data j)) (calc_ecc w XOR (err_check i XOR err_check j))"
  unfolding double_error single_error parity_two syndrome_two xor_eq_0_iff
  using assms of_nat_pos_inj [of i j] by (simp_all add: error_syndrome error_parity)

end
