(* ===== verification/Rtl_Nvm.thy ===== *)
theory Rtl_Nvm
  imports Rtl_Secded
begin

text \<open>
  The clocked part of \<open>rtl/nvm/nvm_ctrl.v\<close>: the array with its check bits, the read pipeline
  and the wear-levelling pointer. A clocked block is a function from its inputs and state before
  the edge to the state after it; non-blocking assignments read the old state and the last
  assignment to a register in program order wins.
\<close>

section \<open>The controller\<close>

record nvm_in =
  i_addr :: u16
  i_wr_en :: bool
  i_wr_data :: u32
  i_rd_en :: bool

record nvm_state =
  mem_array :: "u16 \<Rightarrow> u32"
  ecc_meta :: "u16 \<Rightarrow> u7"
  wear_ptr :: u10
  read_data :: u32
  read_ecc :: u7
  read_valid :: bool
  o_rd_data :: u32
  o_busy :: bool
  o_ecc_err :: bool
  o_ecc_double_err :: bool
  o_ecc_single_err :: bool

text \<open>\<open>synth\<close> is the macro \<open>SYNTHESIS\<close>: the array then has 16 words instead of 65536.\<close>

definition effective_addr :: "u16 \<Rightarrow> u10 \<Rightarrow> u16" where
  "effective_addr a w = a XOR push_bit 6 (ucast w)"

definition index_addr :: "bool \<Rightarrow> u16 \<Rightarrow> u10 \<Rightarrow> u16" where
  "index_addr synth a w =
     (if synth then bitsel 3 0 (effective_addr a w) else effective_addr a w)"

definition nvm_reset :: nvm_state where
  "nvm_reset = \<lparr>mem_array = (\<lambda>_. 0), ecc_meta = (\<lambda>_. 0), wear_ptr = 0, read_data = 0,
     read_ecc = 0, read_valid = False, o_rd_data = 0, o_busy = False, o_ecc_err = False,
     o_ecc_double_err = False, o_ecc_single_err = False\<rparr>"

definition nvm_edge :: "bool \<Rightarrow> nvm_in \<Rightarrow> nvm_state \<Rightarrow> nvm_state" where
  "nvm_edge synth inp s =
     (let idx = index_addr synth (i_addr inp) (wear_ptr s);
          single = single_bit_err (read_data s) (read_ecc s);
          double = double_bit_err (read_data s) (read_ecc s);
          s1 = (if i_rd_en inp \<and> \<not> o_busy s
                then s\<lparr>read_data := mem_array s idx, read_ecc := ecc_meta s idx, read_valid := True\<rparr>
                else s);
          s2 = (if read_valid s
                then s1\<lparr>o_ecc_err := double, o_ecc_double_err := double,
                        o_ecc_single_err := single,
                        o_rd_data := correct_data (read_data s) (read_ecc s)
                                       (calc_ecc (read_data s)) single,
                        read_valid := False\<rparr>
                else s1)
      in if i_wr_en inp
         then s2\<lparr>mem_array := (mem_array s)(idx := i_wr_data inp),
                 ecc_meta := (ecc_meta s)(idx := calc_ecc (i_wr_data inp)),
                 wear_ptr := wear_ptr s + 1, o_busy := True\<rparr>
         else s2\<lparr>o_busy := False\<rparr>)"

text \<open>Bus transactions on the controller: a write is one edge with the write enable and one
  edge on which the busy flag falls; a read is the edge that captures the word and the edge
  that presents the corrected data.\<close>

definition idle_in :: nvm_in where
  "idle_in = \<lparr>i_addr = 0, i_wr_en = False, i_wr_data = 0, i_rd_en = False\<rparr>"

definition nvm_write :: "bool \<Rightarrow> u16 \<Rightarrow> u32 \<Rightarrow> nvm_state \<Rightarrow> nvm_state" where
  "nvm_write synth a v s =
     nvm_edge synth idle_in
       (nvm_edge synth \<lparr>i_addr = a, i_wr_en = True, i_wr_data = v, i_rd_en = False\<rparr> s)"

definition nvm_read :: "bool \<Rightarrow> u16 \<Rightarrow> nvm_state \<Rightarrow> nvm_state" where
  "nvm_read synth a s =
     nvm_edge synth idle_in
       (nvm_edge synth \<lparr>i_addr = a, i_wr_en = False, i_wr_data = 0, i_rd_en = True\<rparr> s)"

section \<open>Transactions\<close>

definition quiet :: "nvm_state \<Rightarrow> bool" where
  "quiet s \<longleftrightarrow> \<not> read_valid s \<and> \<not> o_busy s"

text \<open>Every stored word carries its own check bits.\<close>

definition coherent :: "nvm_state \<Rightarrow> bool" where
  "coherent s \<longleftrightarrow> (\<forall>i. ecc_meta s i = calc_ecc (mem_array s i))"

lemma calc_ecc_0 [simp]: "calc_ecc 0 = 0"
  by (simp add: calc_ecc_syn)

lemma nvm_reset_ok: "quiet nvm_reset" "coherent nvm_reset"
  by (simp_all add: quiet_def coherent_def nvm_reset_def)

lemma nvm_edge_coherent: "coherent s \<Longrightarrow> coherent (nvm_edge synth inp s)"
  by (simp add: coherent_def nvm_edge_def Let_def)

lemma clean_word:
  "\<not> single_bit_err w (calc_ecc w)" "\<not> double_bit_err w (calc_ecc w)"
  "correct_data w (calc_ecc w) (calc_ecc w) b = w"
  using single_error [of w 0 0] double_error [of w 0 0]
  by (simp_all add: correct_data_def syndrome_def)

lemma nvm_write_eq:
  "\<not> read_valid s \<Longrightarrow> nvm_write synth a v s =
     s\<lparr>mem_array := (mem_array s)(index_addr synth a (wear_ptr s) := v),
       ecc_meta := (ecc_meta s)(index_addr synth a (wear_ptr s) := calc_ecc v),
       wear_ptr := wear_ptr s + 1, o_busy := False\<rparr>"
  by (simp add: nvm_write_def nvm_edge_def idle_in_def Let_def)

lemma nvm_write_ok: "quiet s \<Longrightarrow> coherent s \<Longrightarrow> quiet (nvm_write synth a v s) \<and> coherent (nvm_write synth a v s)"
  by (simp add: nvm_write_eq quiet_def coherent_def)

lemma nvm_read_out:
  assumes "quiet s" and "coherent s"
  shows "o_rd_data (nvm_read synth a s) = mem_array s (index_addr synth a (wear_ptr s))"
    "\<not> o_ecc_single_err (nvm_read synth a s)" "\<not> o_ecc_double_err (nvm_read synth a s)"
    "mem_array (nvm_read synth a s) = mem_array s" "ecc_meta (nvm_read synth a s) = ecc_meta s"
    "wear_ptr (nvm_read synth a s) = wear_ptr s" "quiet (nvm_read synth a s)"
  using assms
  by (simp_all add: nvm_read_def nvm_edge_def idle_in_def Let_def quiet_def coherent_def clean_word)

text \<open>With 16 words the wear pointer never reaches the index; with 65536 it always does.\<close>

lemma index_addr_synth [simp]: "index_addr True a w = bitsel 3 0 a"
  by (rule bit_word_eqI) (auto simp: index_addr_def effective_addr_def bit_simps)

lemma push6_inj: "push_bit 6 (ucast (v :: u10) :: u16) = push_bit 6 (ucast w) \<longleftrightarrow> v = w"
proof
  assume eq: "push_bit 6 (ucast v :: u16) = push_bit 6 (ucast w)"
  show "v = w"
  proof (rule bit_word_eqI)
    fix n assume "n < LENGTH(10)"
    then show "bit v n \<longleftrightarrow> bit w n"
      using arg_cong [OF eq, of "\<lambda>u. bit u (n + 6)"] by (simp add: bit_simps)
  qed
qed simp

lemma effective_addr_wear: "effective_addr a v = effective_addr a w \<longleftrightarrow> v = w"
  unfolding effective_addr_def xor_left_cancel by (rule push6_inj)

section \<open>A word memory\<close>

text \<open>The contract of a memory of words: a read returns the last value written at the same
  place and writes elsewhere do not change it.\<close>

locale word_memory =
  fixes rd :: "'a \<Rightarrow> 's \<Rightarrow> 'v" and wr :: "'a \<Rightarrow> 'v \<Rightarrow> 's \<Rightarrow> 's"
    and place :: "'a \<Rightarrow> 'p" and inv :: "'s \<Rightarrow> bool"
  assumes rd_wr: "inv s \<Longrightarrow> rd b (wr a v s) = (if place b = place a then v else rd b s)"
    and inv_wr: "inv s \<Longrightarrow> inv (wr a v s)"
begin

text \<open>A block of writes at distinct places is read back whole.\<close>

lemma inv_block: "inv s \<Longrightarrow> inv (fold (\<lambda>(a, v). wr a v) avs s)"
  by (induction avs arbitrary: s) (auto simp: inv_wr)

lemma block_other:
  "inv s \<Longrightarrow> place b \<notin> place ` fst ` set avs \<Longrightarrow> rd b (fold (\<lambda>(a, v). wr a v) avs s) = rd b s"
  by (induction avs arbitrary: s) (auto simp: inv_wr rd_wr)

lemma block_read:
  "inv s \<Longrightarrow> distinct (map (place \<circ> fst) avs) \<Longrightarrow> (a, v) \<in> set avs \<Longrightarrow>
     rd a (fold (\<lambda>(a, v). wr a v) avs s) = v"
proof (induction avs arbitrary: s)
  case Nil
  then show ?case by simp
next
  case (Cons av avs)
  show ?case
  proof (cases "(a, v) \<in> set avs")
    case True
    with Cons show ?thesis by (cases av) (auto simp: inv_wr)
  next
    case False
    with Cons.prems have av: "av = (a, v)"
      by auto
    with Cons.prems have "place a \<notin> set (map (place \<circ> fst) avs)"
      by simp
    then have "place a \<notin> place ` fst ` set avs"
      by (simp add: image_image)
    then show ?thesis
      using Cons.prems(1) by (simp add: av block_other inv_wr rd_wr)
  qed
qed

end

lemma rd_wr16:
  assumes "quiet s" and "coherent s"
  shows "o_rd_data (nvm_read True b (nvm_write True a v s)) =
    (if bitsel 3 0 b = bitsel 3 0 a then v else o_rd_data (nvm_read True b s))"
proof -
  have "\<not> read_valid s"
    using assms(1) by (simp add: quiet_def)
  then show ?thesis
    using nvm_write_ok [OF assms, of True a v] nvm_read_out(1) [OF assms, of True b]
    by (simp add: nvm_read_out(1) nvm_write_eq)
qed

interpretation nvm16: word_memory "\<lambda>a s. o_rd_data (nvm_read True a s)" "nvm_write True"
    "bitsel 3 0" "\<lambda>s. quiet s \<and> coherent s"
  by unfold_locales (simp_all only: rd_wr16 nvm_write_ok)

section \<open>Upsets\<close>

text \<open>Bit \<open>i\<close> of the stored code word at an index flips.\<close>

definition upset :: "u16 \<Rightarrow> nat \<Rightarrow> nvm_state \<Rightarrow> nvm_state" where
  "upset idx i s =
     s\<lparr>mem_array := (mem_array s)(idx := mem_array s idx XOR err_data i),
       ecc_meta := (ecc_meta s)(idx := ecc_meta s idx XOR err_check i)\<rparr>"

text \<open>What a read presents: the flags and the corrected word of the code word at the index.\<close>

lemma nvm_read_presents:
  assumes "quiet s"
  shows "o_rd_data (nvm_read synth a s) =
      correct_data (mem_array s (index_addr synth a (wear_ptr s))) (ecc_meta s (index_addr synth a (wear_ptr s)))
        (calc_ecc (mem_array s (index_addr synth a (wear_ptr s))))
        (single_bit_err (mem_array s (index_addr synth a (wear_ptr s))) (ecc_meta s (index_addr synth a (wear_ptr s))))"
    "o_ecc_single_err (nvm_read synth a s) =
      single_bit_err (mem_array s (index_addr synth a (wear_ptr s))) (ecc_meta s (index_addr synth a (wear_ptr s)))"
    "o_ecc_double_err (nvm_read synth a s) =
      double_bit_err (mem_array s (index_addr synth a (wear_ptr s))) (ecc_meta s (index_addr synth a (wear_ptr s)))"
  using assms by (simp_all add: nvm_read_def nvm_edge_def idle_in_def Let_def quiet_def)

lemma upset_simps [simp]:
  "quiet (upset idx i s) = quiet s" "wear_ptr (upset idx i s) = wear_ptr s"
  "mem_array (upset idx i s) idx = mem_array s idx XOR err_data i"
  "ecc_meta (upset idx i s) idx = ecc_meta s idx XOR err_check i"
  by (simp_all add: upset_def quiet_def)

section \<open>Properties\<close>

text \<open>C25: A single flipped bit of a stored code word, data or check, is invisible to a read: the
  word that the code word was stored for comes back, without the double-error flag. The single-error flag is
  raised unless the bit is the overall parity bit.\<close>

theorem read_corrects_upset:
  assumes "quiet s" and "coherent s" and "i < 39"
  shows "let idx = index_addr synth a (wear_ptr s); r = nvm_read synth a (upset idx i s)
    in o_rd_data r = mem_array s idx \<and> \<not> o_ecc_double_err r \<and> (o_ecc_single_err r \<longleftrightarrow> i \<noteq> 38)"
proof -
  have "correct_data (w XOR err_data i) (calc_ecc w XOR err_check i) (calc_ecc (w XOR err_data i))
      (single_bit_err (w XOR err_data i) (calc_ecc w XOR err_check i)) = w"
    and "\<not> double_bit_err (w XOR err_data i) (calc_ecc w XOR err_check i)"
    and "single_bit_err (w XOR err_data i) (calc_ecc w XOR err_check i) \<longleftrightarrow> i \<noteq> 38" for w
    by (simp add: correct_error repair_single [OF assms(3)] xor.assoc)
      (simp_all add: single_error double_error error_parity syndrome_zero_iff assms(3))
  then show ?thesis
    using assms(1,2) by (simp add: nvm_read_presents coherent_def Let_def)
qed

theorem read_corrects_upset_witness:
  "o_rd_data (nvm_read True 3 (upset 3 7 nvm_reset)) = 0"
  using read_corrects_upset [OF nvm_reset_ok, of 7 True 3]
  by (simp add: nvm_reset_def bitsel_def Let_def mask_eq_exp_minus_1)

text \<open>C26: Two flipped bits of one code word are always reported as an uncorrectable error.\<close>

theorem read_reports_two_upsets:
  assumes "quiet s" and "coherent s" and "i < 39" and "j < 39" and "i \<noteq> j"
  shows "let idx = index_addr synth a (wear_ptr s);
      r = nvm_read synth a (upset idx i (upset idx j s))
    in o_ecc_double_err r \<and> \<not> o_ecc_single_err r"
  using assms two_errors [OF assms(4,3)] by (simp add: nvm_read_presents coherent_def Let_def xor.assoc)

theorem read_reports_two_upsets_witness:
  "o_ecc_double_err (nvm_read True 3 (upset 3 7 (upset 3 38 nvm_reset)))"
  using read_reports_two_upsets [OF nvm_reset_ok, of 7 38 True 3]
  by (simp add: nvm_reset_def bitsel_def Let_def mask_eq_exp_minus_1)

text \<open>In the synthesised array of 16 words any block of writes whose addresses differ in their
  low four bits is read back whole.\<close>

lemma nvm16_block:
  assumes "quiet s" and "coherent s" and "distinct (map (bitsel 3 0 \<circ> fst) avs)" and "(a, v) \<in> set avs"
  shows "o_rd_data (nvm_read True a (fold (\<lambda>(a, v). nvm_write True a v) avs s)) = v"
  using nvm16.block_read assms by blast

text \<open>In the full array the wear pointer moves with every write and is part of the index of a
  read, so a word is not found again where it was written: the read that follows a write
  presents another cell of the array as it was before. After reset it presents 0.\<close>

lemma wear_levelling_loses_writes:
  assumes "quiet s" and "coherent s"
  shows "o_rd_data (nvm_read False a (nvm_write False a v s)) =
      mem_array s (effective_addr a (wear_ptr s + 1)) \<and>
    effective_addr a (wear_ptr s + 1) \<noteq> effective_addr a (wear_ptr s) \<and>
    o_rd_data (nvm_read False a (nvm_write False a v nvm_reset)) = 0"
proof -
  have read: "o_rd_data (nvm_read False a (nvm_write False a v s)) =
      mem_array s (effective_addr a (wear_ptr s + 1))" if "quiet s" "coherent s" for s
  proof -
    have "\<not> read_valid s"
      using that by (simp add: quiet_def)
    then show ?thesis
      using nvm_write_ok [OF that, of False a v] that
      by (simp add: nvm_read_out nvm_write_eq index_addr_def effective_addr_wear)
  qed
  show ?thesis
    using read [OF assms] read [OF nvm_reset_ok] by (simp add: effective_addr_wear) (simp add: nvm_reset_def)
qed

end
