(* ===== verification/Rtl_Axi.thy ===== *)
theory Rtl_Axi
  imports Azmuth_Prelude
begin

text \<open>
  The memory side of the core in \<open>rtl/xcew_top_v1_1.v\<close> and
  \<open>rtl/soc/axi_lite_interconnect_v1_1.v\<close>: the truncation of the address to 16 bits, the decoder
  of master 0, the response multiplexer, the boot ROM and SRAM slaves and the routing of read
  data back to the core. Masters 1 to 4 are tied to 0 in the top level, so this theory has master 0
  only (\<open>Rtl_Axi_Masters\<close> has the others); \<open>ar_grant_master\<close> is then either \<open>4'b0001\<close> or still 0 and is kept as a truth
  value. The core does not wait for \<open>awready\<close>, \<open>arready\<close> or \<open>rvalid\<close>, so neither does the model.
  The EML and SNN slaves hold nothing (\<open>s2_rdata\<close> and \<open>s3_rdata\<close> are 0) and the NVM controller
  behind slave 4 is theory \<open>Rtl_Nvm\<close>.
\<close>

section \<open>The decoder of master 0\<close>

datatype slave = SLAVE_ROM | SLAVE_SRAM | SLAVE_EML | SLAVE_SNN | SLAVE_NVM

definition m0_slave :: "u16 \<Rightarrow> slave option" where
  "m0_slave a =
     (if a \<le> 0x0FFF then Some SLAVE_ROM
      else if 0x1000 \<le> a \<and> a \<le> 0x1FFF then Some SLAVE_SRAM
      else if 0x2000 \<le> a \<and> a \<le> 0x20FF then Some SLAVE_EML
      else if 0x2100 \<le> a \<and> a \<le> 0x21FF then Some SLAVE_SNN
      else if 0x2200 \<le> a \<and> a \<le> 0x22FF then Some SLAVE_NVM
      else None)"

definition core_mem_addr_16 :: "u32 \<Rightarrow> u16" where
  "core_mem_addr_16 a = ucast a"

definition core_addr_fault :: "u32 \<Rightarrow> bool" where
  "core_addr_fault a \<longleftrightarrow> drop_bit 16 a \<noteq> 0"

section \<open>Boot ROM and SRAM\<close>

text \<open>The contents that the \<open>initial\<close> block gives the ROM, and the slave's read port: address bits
  12 to 2 are compared with 1024, bits 11 to 2 index.\<close>

definition instr_rom :: "u10 \<Rightarrow> u32" where
  "instr_rom i =
     (if i = 0 then 0x00000093 else if i = 1 then 0x00A00093 else if i = 2 then 0x00B000B3
      else 0x00000013)"

definition s0_rdata :: "u16 \<Rightarrow> u32" where
  "s0_rdata a = (if bitsel 12 2 a < 1024 then instr_rom (ucast (bitsel 11 2 a)) else 0)"

definition byte_lanes :: "u4 \<Rightarrow> u32 \<Rightarrow> u32 \<Rightarrow> u32" where
  "byte_lanes strb new old =
     (let b = (\<lambda>k. byte_of k (if bit strb k then new else old))
      in u32_of_bytes (b 0) (b 1) (b 2) (b 3))"

definition sram_index :: "u16 \<Rightarrow> u12" where
  "sram_index a = ucast (bitsel 13 2 a)"

section \<open>One edge\<close>

record mem_req =
  core_mem_addr :: u32
  core_mem_we :: bool
  core_mem_wdata :: u32
  core_mem_wstrb :: u4

record mem_state =
  sram_memory :: "u12 \<Rightarrow> u32"
  ar_grant_master :: bool

text \<open>The SRAM content is not initialised by the RTL; a state after reset has any \<open>m\<close>.\<close>

definition mem_reset :: "(u12 \<Rightarrow> u32) \<Rightarrow> mem_state" where
  "mem_reset m = \<lparr>sram_memory = m, ar_grant_master = False\<rparr>"

definition mem_edge :: "mem_req \<Rightarrow> mem_state \<Rightarrow> mem_state" where
  "mem_edge q s =
     (let a = core_mem_addr_16 (core_mem_addr q)
      in s\<lparr>sram_memory :=
             (if core_mem_we q \<and> m0_slave a = Some SLAVE_SRAM
              then (sram_memory s)(sram_index a :=
                byte_lanes (core_mem_wstrb q) (core_mem_wdata q) (sram_memory s (sram_index a)))
              else sram_memory s),
           ar_grant_master := (\<not> core_mem_we q \<or> ar_grant_master s)\<rparr>)"

text \<open>What a load of the core sees: the response multiplexer gives master 0 the data of slave 0,
  whichever slave the address selects.\<close>

definition m0_rdata :: "u32 \<Rightarrow> mem_state \<Rightarrow> u32" where
  "m0_rdata a s = (if ar_grant_master s then s0_rdata (core_mem_addr_16 a) else 0)"

definition core_mem_rdata :: "u32 \<Rightarrow> mem_state \<Rightarrow> u32" where
  "core_mem_rdata a s =
     (if bitsel 31 28 a = 0 \<or> bitsel 31 28 a = 1 \<or> bitsel 31 20 a = 0x200 \<or>
         bitsel 31 20 a = 0x210 \<or> bitsel 31 20 a = 0x220
      then m0_rdata a s else 0)"

definition load_req :: "u32 \<Rightarrow> mem_req" where
  "load_req a = \<lparr>core_mem_addr = a, core_mem_we = False, core_mem_wdata = 0, core_mem_wstrb = 0\<rparr>"

definition store_req :: "u32 \<Rightarrow> u32 \<Rightarrow> mem_req" where
  "store_req a v = \<lparr>core_mem_addr = a, core_mem_we = True, core_mem_wdata = v, core_mem_wstrb = 0xF\<rparr>"

text \<open>A byte store shifts the byte to its lane.\<close>

definition store8_req :: "u32 \<Rightarrow> u8 \<Rightarrow> mem_req" where
  "store8_req a b =
     (let k = unat (a AND 3)
      in \<lparr>core_mem_addr = a, core_mem_we = True, core_mem_wdata = push_bit (8 * k) (ucast b),
          core_mem_wstrb = push_bit k 1\<rparr>)"

lemma req_simps [simp]:
  "core_mem_addr (load_req a) = a" "\<not> core_mem_we (load_req a)"
  "core_mem_addr (store_req a v) = a" "core_mem_we (store_req a v)"
  "core_mem_wdata (store_req a v) = v" "core_mem_wstrb (store_req a v) = 0xF"
  "core_mem_addr (store8_req a b) = a" "core_mem_we (store8_req a b)"
  by (simp_all add: load_req_def store_req_def store8_req_def Let_def)

section \<open>Lemmas\<close>

lemma mem_edge_grant [simp]:
  "ar_grant_master (mem_edge q s) \<longleftrightarrow> \<not> core_mem_we q \<or> ar_grant_master s"
  by (simp add: mem_edge_def Let_def)

lemma mem_edge_sram:
  "m0_slave (core_mem_addr_16 (core_mem_addr q)) \<noteq> Some SLAVE_SRAM \<or> \<not> core_mem_we q \<Longrightarrow>
     sram_memory (mem_edge q s) = sram_memory s"
  by (auto simp: mem_edge_def Let_def)

lemma grant_run: "ar_grant_master s \<Longrightarrow> ar_grant_master (fold mem_edge qs s)"
  by (induction qs arbitrary: s) simp_all

lemma grant_after: "\<exists>q \<in> set qs. \<not> core_mem_we q \<Longrightarrow> ar_grant_master (fold mem_edge qs s)"
  by (induction qs arbitrary: s) (auto intro: grant_run)

text \<open>The word a load gets once the core has been granted: no state is left in it.\<close>

definition rom_word :: "u32 \<Rightarrow> u32" where
  "rom_word a = core_mem_rdata a \<lparr>sram_memory = \<lambda>_. 0, ar_grant_master = True\<rparr>"

lemma granted_load: "ar_grant_master s \<Longrightarrow> core_mem_rdata a s = rom_word a"
  by (simp add: rom_word_def core_mem_rdata_def m0_rdata_def)

lemma bitsel_high_0: "w < 2 ^ lo \<Longrightarrow> bitsel hi lo (w :: u32) = 0"
  by (simp add: bitsel_def drop_bit_eq_div div_word_less)

lemma below_1024: "bitsel 12 2 (a :: u16) < 1024 \<longleftrightarrow> \<not> bit a 12"
proof -
  define x where "x = bitsel 12 2 a"
  have "x < 2048"
    using bitsel_less [of 12 2 a] by (simp add: x_def)
  then have "unat x div 1024 < 2"
    by (simp add: word_less_nat_alt div_less_iff_less_mult)
  then have "x < 1024 \<longleftrightarrow> even (unat x div 1024)"
    by (auto simp: word_less_nat_alt less_2_cases_iff div_eq_0_iff)
  also have "\<dots> \<longleftrightarrow> \<not> bit x 10"
    using bit_unsigned_iff [of x 10, where ?'a = nat] by (simp add: bit_iff_odd)
  finally show ?thesis
    by (simp add: x_def)
qed

lemma bitsel_ucast_addr: "ucast (bitsel 11 2 (core_mem_addr_16 a)) = (ucast (drop_bit 2 a) :: u10)"
  by (rule bit_word_eqI) (auto simp: core_mem_addr_16_def bit_unsigned_iff bit_drop_bit_eq ac_simps)

text \<open>In the low 256 MB a load sees word \<open>a[11:2]\<close> of the boot ROM, or 0 where address bit 12 is set.\<close>

lemma rom_word_low:
  "a < 0x10000000 \<Longrightarrow> rom_word a = (if bit a 12 then 0 else instr_rom (ucast (drop_bit 2 a)))"
  using bitsel_high_0 [of a 28 31]
  by (simp add: rom_word_def core_mem_rdata_def m0_rdata_def s0_rdata_def below_1024 bitsel_ucast_addr)
    (simp add: core_mem_addr_16_def bit_unsigned_iff)

text \<open>A full-width store keeps nothing of the old word.\<close>

lemma byte_lanes_full: "byte_lanes 0xF v old = v"
proof -
  have "bit (0xF :: u4) 0" "bit (0xF :: u4) (Suc 0)" "bit (0xF :: u4) 2" "bit (0xF :: u4) 3"
    by code_simp+
  then show ?thesis
    using u32_of_bytes_of [of v] by (simp add: byte_lanes_def Let_def)
qed

section \<open>The documented windows\<close>

text \<open>\<open>README.md\<close> and the SDK place the SNN at 0x3000 and the NVM at 0x4000; the decoder has no
  slave there.\<close>

lemma no_slave: "0x2300 \<le> a \<Longrightarrow> m0_slave a = None"
  by (auto simp: m0_slave_def word_le_nat_alt)

lemma sram_hit:
  assumes "0x1000 \<le> a" and "a \<le> 0x1FFF"
  shows "m0_slave (core_mem_addr_16 a) = Some SLAVE_SRAM"
    "sram_index (core_mem_addr_16 a) = ucast (drop_bit 2 a)" "bit a 12"
proof -
  have u: "unat (core_mem_addr_16 a) = unat a"
    using assms by (simp add: core_mem_addr_16_def unsigned_ucast_eq take_bit_nat_eq_self word_le_nat_alt)
  show "m0_slave (core_mem_addr_16 a) = Some SLAVE_SRAM"
    using assms by (simp add: m0_slave_def word_le_nat_alt u)
  show "sram_index (core_mem_addr_16 a) = ucast (drop_bit 2 a)"
    by (rule bit_word_eqI)
      (auto simp: sram_index_def core_mem_addr_16_def bit_unsigned_iff bit_drop_bit_eq ac_simps)
  have "unat a div 4096 = 1"
    using assms by (simp add: word_le_nat_alt div_nat_eqI)
  then have "odd (unat a div 2 ^ 12)"
    by simp
  then show "bit a 12"
    using bit_unsigned_iff [of a 12, where ?'a = nat] by (simp add: bit_iff_odd)
qed

section \<open>Properties\<close>

text \<open>C37: The core never reads what it or anybody else stored. After any sequence of edges with at
  least one that is not a store, from any initial SRAM, a load below 0x10000000 returns the boot
  ROM word its address bits 11 to 2 select, or 0 where bit 12 is set: the response multiplexer
  returns the data of slave 0 to the core whichever slave was addressed.\<close>

theorem loads_see_only_rom:
  assumes "\<exists>q \<in> set qs. \<not> core_mem_we q" and "a < 0x10000000"
  shows "core_mem_rdata a (fold mem_edge qs (mem_reset m)) =
    (if bit a 12 then 0 else instr_rom (ucast (drop_bit 2 a)))"
  using granted_load [OF grant_after [OF assms(1)]] rom_word_low [OF assms(2)] by simp

theorem loads_see_only_rom_witness:
  "core_mem_rdata 0x4004 (fold mem_edge [load_req 0, store_req 0x4004 7] (mem_reset (\<lambda>_. 0))) = 0x00A00093"
proof -
  have "\<not> bit (0x4004 :: u32) 12" "ucast (drop_bit 2 (0x4004 :: u32)) = (1 :: u10)"
    by code_simp+
  then show ?thesis
    using loads_see_only_rom [of "[load_req 0, store_req 0x4004 7]" "0x4004" "\<lambda>_. 0"]
    by (simp add: instr_rom_def)
qed

text \<open>The SRAM is write-only to the core: a word stored to 0x1000-0x1FFF is in the memory array
  afterwards, and a load from the same address reads 0 all the same.\<close>

lemma sram_is_write_only:
  assumes "0x1000 \<le> a" and "a \<le> 0x1FFF"
  shows "sram_memory (mem_edge (store_req a v) s) (ucast (drop_bit 2 a)) = v \<and>
    core_mem_rdata a (mem_edge (load_req b) (mem_edge (store_req a v) s)) = 0"
proof -
  have "a < 0x10000000"
    using assms(2) by (simp add: word_le_nat_alt word_less_nat_alt)
  then have "rom_word a = 0"
    using rom_word_low sram_hit(3) [OF assms] by simp
  then show ?thesis
    using granted_load [of "mem_edge (load_req b) (mem_edge (store_req a v) s)" a] sram_hit(1,2) [OF assms]
    by (simp add: mem_edge_def byte_lanes_full)
qed

end
