(* ===== verification/Rtl_Power.thy ===== *)
theory Rtl_Power
  imports Azmuth_Prelude
begin

text \<open>
  \<open>rtl/power/orchestrator.v\<close>, module \<open>orchestrator\<close>: the sleep state machine of the four tiles
  (0 core, 1 EML, 2 SNN, 3 NVM) and its CSRs. The ports \<open>tile_state_req\<close> and \<open>idle_timeout\<close>
  are not used by the module, \<open>prev_activity_count\<close> is never written, and of the four encoded
  states only \<open>STATE_RUN\<close> and \<open>STATE_SLEEP\<close> are ever entered.
\<close>

section \<open>The clocked block\<close>

datatype tile_mode = STATE_RUN | STATE_SLEEP

record tile =
  current_tile_state :: tile_mode
  idle_counter :: u32
  tile_sleep :: bool
  tile_iso_en :: bool
  tile_ret_en :: bool

record pwr_in =
  wake_irq_mask :: bool
  activity_count :: u4
  tile_wake_req :: u4
  irq_trigger :: bool
  axi_activity :: bool
  p_csr_addr :: u12
  p_csr_wr_en :: bool
  p_csr_wr_data :: u32

record pwr_state =
  tiles :: "tile list"
  pwr_ctrl_reg :: u32
  bias_ctrl_reg :: u32

definition tile_reset :: tile where
  "tile_reset = \<lparr>current_tile_state = STATE_RUN, idle_counter = 0, tile_sleep = False,
     tile_iso_en = False, tile_ret_en = False\<rparr>"

definition pwr_reset :: pwr_state where
  "pwr_reset = \<lparr>tiles = replicate 4 tile_reset, pwr_ctrl_reg = 0, bias_ctrl_reg = 0\<rparr>"

text \<open>One tile; \<open>timeout\<close> is \<open>pwr_ctrl_reg[7:4]\<close> before the edge.\<close>

definition tile_edge :: "pwr_in \<Rightarrow> u32 \<Rightarrow> nat \<Rightarrow> tile \<Rightarrow> tile" where
  "tile_edge inp timeout k t =
     (case current_tile_state t of
        STATE_RUN \<Rightarrow>
          if \<not> bit (activity_count inp) k then
            (let t1 = t\<lparr>idle_counter := idle_counter t + 1\<rparr>
             in if timeout \<le> idle_counter t
                then t1\<lparr>current_tile_state := STATE_SLEEP, tile_sleep := True,
                        tile_iso_en := True, tile_ret_en := True\<rparr>
                else t1)
          else t\<lparr>idle_counter := 0\<rparr>
      | STATE_SLEEP \<Rightarrow>
          if bit (tile_wake_req inp) k \<or> (wake_irq_mask inp \<and> irq_trigger inp) \<or>
             (k \<noteq> 0 \<and> axi_activity inp \<and> idle_counter t < 5)
          then t\<lparr>current_tile_state := STATE_RUN, tile_sleep := False, tile_iso_en := False,
                 tile_ret_en := False, idle_counter := 0\<rparr>
          else t\<lparr>idle_counter := idle_counter t + 1\<rparr>)"

definition pwr_edge :: "pwr_in \<Rightarrow> pwr_state \<Rightarrow> pwr_state" where
  "pwr_edge inp s =
     s\<lparr>tiles := map (\<lambda>k. tile_edge inp (bitsel 7 4 (pwr_ctrl_reg s)) k (tiles s ! k)) [0..<4],
       pwr_ctrl_reg := (if p_csr_wr_en inp \<and> p_csr_addr inp = 0x7C8
                        then p_csr_wr_data inp else pwr_ctrl_reg s),
       bias_ctrl_reg := (if p_csr_wr_en inp \<and> p_csr_addr inp = 0x7C9
                         then p_csr_wr_data inp else bias_ctrl_reg s)\<rparr>"

text \<open>The read port: \<open>{3'h0, NVM, SNN, EML, CORE, pwr[15:8], pwr[7:4], pwr[8]}\<close>.\<close>

definition state_code :: "tile_mode \<Rightarrow> u32" where
  "state_code m = (case m of STATE_RUN \<Rightarrow> 1 | STATE_SLEEP \<Rightarrow> 2)"

definition tile_code :: "pwr_state \<Rightarrow> nat \<Rightarrow> u32" where
  "tile_code s k = state_code (current_tile_state (tiles s ! k))"

definition pwr_fields :: "u32 \<Rightarrow> u32" where
  "pwr_fields w = (push_bit 5 (bitsel 15 8 w) OR push_bit 1 (bitsel 7 4 w)) OR bitsel 8 8 w"

definition pwr_csr_read :: "pwr_state \<Rightarrow> u12 \<Rightarrow> u32" where
  "pwr_csr_read s a =
     (if a = 0x7C8 then
        ((push_bit 25 (tile_code s 3) OR push_bit 21 (tile_code s 2)) OR
         (push_bit 17 (tile_code s 1) OR push_bit 13 (tile_code s 0))) OR
        pwr_fields (pwr_ctrl_reg s)
      else if a = 0x7C9 then bias_ctrl_reg s
      else 0)"

section \<open>The tiles\<close>

definition wf_pwr :: "pwr_state \<Rightarrow> bool" where
  "wf_pwr s \<longleftrightarrow> length (tiles s) = 4"

text \<open>The three outputs of a tile follow its state.\<close>

definition tile_ok :: "tile \<Rightarrow> bool" where
  "tile_ok t \<longleftrightarrow> (tile_sleep t \<longleftrightarrow> current_tile_state t = STATE_SLEEP) \<and>
     tile_iso_en t = tile_sleep t \<and> tile_ret_en t = tile_sleep t"

lemma tile_edge_ok: "tile_ok t \<Longrightarrow> tile_ok (tile_edge inp timeout k t)"
  by (auto simp: tile_ok_def tile_edge_def Let_def split: tile_mode.split)

lemma wf_pwr_edge [simp]: "wf_pwr (pwr_edge inp s)"
  by (simp add: wf_pwr_def pwr_edge_def)

lemma tile_pwr_edge:
  "k < 4 \<Longrightarrow> tiles (pwr_edge inp s) ! k = tile_edge inp (bitsel 7 4 (pwr_ctrl_reg s)) k (tiles s ! k)"
  by (simp add: pwr_edge_def)

lemma bit_tile_code: "bit (tile_code s k) n \<Longrightarrow> n < 2"
  by (auto simp: tile_code_def state_code_def bit_1_iff bit_2_iff split: tile_mode.splits)

lemma bit_pwr_fields:
  "bit (pwr_fields w) n \<longleftrightarrow>
     (if n = 0 then bit w 8 else if n \<le> 4 then bit w (n + 3) else n \<le> 12 \<and> bit w (n + 3))"
proof -
  have shift: "5 \<le> n \<Longrightarrow> 8 + (n - 5) = n + 3" "1 \<le> n \<Longrightarrow> 4 + (n - 1) = n + 3"
    by simp_all
  have "bit (pwr_fields w) n \<longleftrightarrow>
      (n < 32 \<and> 5 \<le> n \<and> n - 5 < 8 \<and> bit w (8 + (n - 5))) \<or>
      (n < 32 \<and> 1 \<le> n \<and> n - 1 < 4 \<and> bit w (4 + (n - 1))) \<or> (n < 1 \<and> bit w (8 + n))"
    unfolding pwr_fields_def bit_or_iff bit_push_bit_iff bit_bitsel possible_bit_word by auto
  then show ?thesis
    using bit_imp_le_length [of w "n + 3"] by (cases "n = 0") (auto simp: shift add.commute [of 3])
qed

text \<open>Below bit 13 a read shows the fields of the register one place lower than they were
  written, and bit 8 twice.\<close>

lemma bit_pwr_csr_read:
  assumes "n < 13"
  shows "bit (pwr_csr_read s 0x7C8) n \<longleftrightarrow> bit (pwr_fields (pwr_ctrl_reg s)) n"
  using assms by (auto simp: pwr_csr_read_def bit_or_iff bit_push_bit_iff)

section \<open>Properties\<close>

text \<open>In every state that edges reach from reset the sleep, isolation and retention outputs of
  a tile are all on exactly while its state machine sleeps.\<close>

lemma tile_outputs_agree:
  "list_all tile_ok (tiles (fold pwr_edge inps pwr_reset))"
proof -
  have "list_all tile_ok (tiles s) \<Longrightarrow> wf_pwr s \<Longrightarrow> list_all tile_ok (tiles (fold pwr_edge inps s))" for s
  proof (induction inps arbitrary: s)
    case (Cons inp inps)
    have "list_all tile_ok (tiles (pwr_edge inp s))"
      using Cons.prems by (auto simp: list_all_length wf_pwr_def pwr_edge_def intro: tile_edge_ok)
    then show ?case
      using Cons.IH by simp
  qed simp
  then show ?thesis
    by (simp add: pwr_reset_def wf_pwr_def tile_ok_def tile_reset_def list_all_length)
qed

text \<open>The state that software requests for the tiles, bits 3 to 0 of \<open>pwr_ctrl\<close>, has no effect:
  two controllers that differ in it alone keep their tiles in step for any inputs that do not
  write the register.\<close>

lemma state_request_ignored:
  assumes "bitsel 7 4 (pwr_ctrl_reg s) = bitsel 7 4 (pwr_ctrl_reg s')" and "tiles s = tiles s'"
    and "\<forall>inp \<in> set inps. \<not> p_csr_wr_en inp"
  shows "tiles (fold pwr_edge inps s) = tiles (fold pwr_edge inps s')"
  using assms
proof (induction inps arbitrary: s s')
  case (Cons inp inps)
  then show ?case
    by (simp add: Cons.IH [of "pwr_edge inp s" "pwr_edge inp s'"] pwr_edge_def)
qed simp

text \<open>A driver that reads \<open>pwr_ctrl\<close>, changes some of bits 3 to 0 and writes the word back, as
  \<open>xcew_pwr_tile_sleep\<close> and \<open>xcew_pwr_tile_wake\<close> do, replaces the idle timeout in bits 7 to 4 by
  bits 10 to 7 of the register: the fields come back one place lower.\<close>

lemma read_modify_write_shifts:
  assumes "\<And>n. 4 \<le> n \<Longrightarrow> bit (f w) n = bit w n" and "w = pwr_csr_read s 0x7C8"
    and "p_csr_wr_en inp" and "p_csr_addr inp = 0x7C8" and "p_csr_wr_data inp = f w"
  shows "bitsel 7 4 (pwr_ctrl_reg (pwr_edge inp s)) = bitsel 10 7 (pwr_ctrl_reg s)"
proof (rule bit_word_eqI)
  fix n assume "n < LENGTH(32)"
  show "bit (bitsel 7 4 (pwr_ctrl_reg (pwr_edge inp s))) n \<longleftrightarrow> bit (bitsel 10 7 (pwr_ctrl_reg s)) n"
    using assms(2-5) assms(1) [of "4 + n"]
    by (cases "n = 0"; auto simp: pwr_edge_def bit_pwr_csr_read bit_pwr_fields ac_simps)
qed

end
