(* ===== verification/Rtl_Bias.thy ===== *)
theory Rtl_Bias
  imports Azmuth_Prelude
begin

text \<open>
  \<open>rtl/power/body_bias_ctrl.v\<close>, module \<open>body_bias_ctrl\<close>. Every register is written by non-blocking
  assignments, so right-hand sides read the state \<open>s\<close> before the edge and the last assignment
  counts. Reset leaves \<open>cal_state\<close> and \<open>next_cal_state\<close>; \<open>next_cal_state\<close> is itself a register, so a
  change of state takes two edges. \<open>leakage_count_reg\<close> and \<open>cal_active\<close> are written by the reset
  only and left out, as are the inputs \<open>bias_code\<close> and \<open>cal_en\<close>, which nothing reads.
\<close>

definition CAL_IDLE :: u3 where "CAL_IDLE = 0"
definition CAL_MEASURE :: u3 where "CAL_MEASURE = 1"
definition CAL_ADJUST :: u3 where "CAL_ADJUST = 2"
definition CAL_VERIFY :: u3 where "CAL_VERIFY = 3"
definition CAL_CALIBRATE_COMPLETE :: u3 where "CAL_CALIBRATE_COMPLETE = 4"

lemmas cal_states =
  CAL_IDLE_def CAL_MEASURE_def CAL_ADJUST_def CAL_VERIFY_def CAL_CALIBRATE_COMPLETE_def

record bias_in =
  leakage_counter :: bool
  measure_en :: bool
  b_csr_addr :: u12
  b_csr_wr_en :: bool
  b_csr_wr_data :: u32

record bias_state =
  bias_code_reg :: u8
  dac_output :: u8
  cal_en_reg :: bool
  target_bias_code :: u8
  leakage_ready_reg :: bool
  min_leakage_code :: u8
  min_leakage_value :: u32
  current_leakage :: u32
  measurement_timer :: u32
  pb_bias_out :: u8
  nb_bias_out :: u8
  cal_state :: u3
  next_cal_state :: u3

definition bias_reset :: "bias_state \<Rightarrow> bias_state" where
  "bias_reset s =
     s\<lparr>bias_code_reg := 0x80, dac_output := 0x80, cal_en_reg := False, target_bias_code := 0x80,
       leakage_ready_reg := False, min_leakage_code := 0x80, min_leakage_value := 0xFFFFFFFF,
       current_leakage := 0, measurement_timer := 0, pb_bias_out := 0x80, nb_bias_out := 0x80\<rparr>"

definition bias_csr_write :: "bias_in \<Rightarrow> bias_state \<Rightarrow> bias_state" where
  "bias_csr_write i s =
     (if b_csr_wr_en i \<and> b_csr_addr i = 0x7C9
      then s\<lparr>bias_code_reg := ucast (b_csr_wr_data i), cal_en_reg := bit (b_csr_wr_data i) 8\<rparr>
      else s)"

text \<open>The branch \<open>CAL_MEASURE\<close> with \<open>measure_en\<close>: \<open>r\<close> is the state being built, \<open>s\<close> the old one.\<close>

definition cal_measure :: "bias_in \<Rightarrow> bias_state \<Rightarrow> bias_state \<Rightarrow> bias_state" where
  "cal_measure i s r =
     (let r1 = r\<lparr>current_leakage := (if leakage_counter i then 1 else 0),
                 measurement_timer := measurement_timer s + 1\<rparr>;
          r2 = (if current_leakage s < min_leakage_value s
                then r1\<lparr>min_leakage_value := current_leakage s, min_leakage_code := bias_code_reg s\<rparr>
                else r1)
      in if 1000 < measurement_timer s
         then (let r3 = r2\<lparr>measurement_timer := 0\<rparr>
               in if bias_code_reg s < 0xFF then r3\<lparr>bias_code_reg := bias_code_reg s + 1\<rparr>
                  else r3\<lparr>target_bias_code := min_leakage_code s,
                          next_cal_state := CAL_CALIBRATE_COMPLETE\<rparr>)
         else r2\<lparr>next_cal_state := CAL_MEASURE\<rparr>)"

definition cal_step :: "bias_in \<Rightarrow> bias_state \<Rightarrow> bias_state \<Rightarrow> bias_state" where
  "cal_step i s r =
     (if cal_state s = CAL_IDLE then
        (let r1 = r\<lparr>leakage_ready_reg := False, measurement_timer := 0\<rparr>
         in if cal_en_reg s
            then r1\<lparr>next_cal_state := CAL_MEASURE, min_leakage_value := 0xFFFFFFFF,
                    min_leakage_code := bias_code_reg s\<rparr>
            else r1\<lparr>next_cal_state := CAL_IDLE\<rparr>)
      else if cal_state s = CAL_MEASURE then
        (if measure_en i then cal_measure i s r else r\<lparr>next_cal_state := CAL_MEASURE\<rparr>)
      else if cal_state s = CAL_ADJUST then
        (let r1 = (if bias_code_reg s < target_bias_code s then r\<lparr>bias_code_reg := bias_code_reg s + 1\<rparr>
                   else if bias_code_reg s \<noteq> target_bias_code s
                        then r\<lparr>bias_code_reg := bias_code_reg s - 1\<rparr>
                   else r)
         in r1\<lparr>next_cal_state := CAL_VERIFY\<rparr>)
      else if cal_state s = CAL_VERIFY then
        (if current_leakage s < 1000
         then r\<lparr>leakage_ready_reg := True, next_cal_state := CAL_CALIBRATE_COMPLETE\<rparr>
         else r\<lparr>next_cal_state := CAL_ADJUST\<rparr>)
      else if cal_state s = CAL_CALIBRATE_COMPLETE then
        (if \<not> cal_en_reg s then r\<lparr>next_cal_state := CAL_IDLE\<rparr>
         else r\<lparr>next_cal_state := CAL_CALIBRATE_COMPLETE\<rparr>)
      else r\<lparr>next_cal_state := CAL_IDLE\<rparr>)"

definition bias_edge :: "bias_in \<Rightarrow> bias_state \<Rightarrow> bias_state" where
  "bias_edge i s =
     cal_step i s ((bias_csr_write i s)\<lparr>dac_output := bias_code_reg s, pb_bias_out := dac_output s,
                      nb_bias_out := NOT (dac_output s), cal_state := next_cal_state s\<rparr>)"

definition bias_csr_read :: "u12 \<Rightarrow> bias_state \<Rightarrow> u32" where
  "bias_csr_read a s =
     (if a = 0x7C9
      then (push_bit 9 (if leakage_ready_reg s then 1 else 0) OR
            push_bit 8 (if cal_en_reg s then 1 else 0)) OR ucast (bias_code_reg s)
      else 0)"

section \<open>Lemmas\<close>

text \<open>No calibration runs: idle or waiting for a measurement that is never enabled.\<close>

definition no_sweep :: "bias_state \<Rightarrow> bool" where
  "no_sweep s \<longleftrightarrow> cal_state s \<in> {CAL_IDLE, CAL_MEASURE} \<and> next_cal_state s \<in> {CAL_IDLE, CAL_MEASURE}"

lemma no_sweep_edge: "no_sweep s \<Longrightarrow> \<not> measure_en i \<Longrightarrow> no_sweep (bias_edge i s)"
  by (auto simp: no_sweep_def bias_edge_def cal_step_def Let_def bias_csr_write_def)

lemma bias_edge_regs:
  assumes "no_sweep s" and "\<not> measure_en i"
  shows "bias_code_reg (bias_edge i s) =
      (if b_csr_wr_en i \<and> b_csr_addr i = 0x7C9 then ucast (b_csr_wr_data i) else bias_code_reg s)"
    and "cal_en_reg (bias_edge i s) =
      (if b_csr_wr_en i \<and> b_csr_addr i = 0x7C9 then bit (b_csr_wr_data i) 8 else cal_en_reg s)"
    and "dac_output (bias_edge i s) = bias_code_reg s"
    and "pb_bias_out (bias_edge i s) = dac_output s"
    and "nb_bias_out (bias_edge i s) = NOT (dac_output s)"
  using assms by (auto simp: no_sweep_def bias_edge_def cal_step_def Let_def bias_csr_write_def)

text \<open>The wells are complementary after the first edge, whatever the calibration does.\<close>

lemma wells_complementary: "nb_bias_out (bias_edge i s) = NOT (pb_bias_out (bias_edge i s))"
  by (simp add: bias_edge_def cal_step_def cal_measure_def Let_def)

text \<open>With the measurement tied off a calibration never ends: it stays in \<open>CAL_MEASURE\<close> and never
  reports a leakage value.\<close>

lemma calibration_never_ready:
  assumes "no_sweep s" and "\<not> leakage_ready_reg s" and "\<And>i. i \<in> set is \<Longrightarrow> \<not> measure_en i"
  shows "no_sweep (fold bias_edge is s) \<and> \<not> leakage_ready_reg (fold bias_edge is s)"
  using assms
proof (induction "is" arbitrary: s)
  case (Cons i "is")
  have "\<not> leakage_ready_reg (bias_edge i s)"
    using Cons.prems by (auto simp: no_sweep_def bias_edge_def cal_step_def Let_def bias_csr_write_def)
  then show ?case
    using Cons no_sweep_edge by simp
qed simp

text \<open>What a read of the register shows.\<close>

lemma read_bias:
  "ucast (bias_csr_read 0x7C9 s) = bias_code_reg s" "bit (bias_csr_read 0x7C9 s) 8 \<longleftrightarrow> cal_en_reg s"
proof -
  have b: "bit (push_bit k (if P then 1 else 0) :: u32) n \<longleftrightarrow> P \<and> n = k \<and> n < 32" for k n P
    using bit_one_shift [where ?'a = 32, of k n] by simp
  have r: "bit (bias_csr_read 0x7C9 s) n \<longleftrightarrow>
      (leakage_ready_reg s \<and> n = 9 \<or> cal_en_reg s \<and> n = 8) \<or> bit (bias_code_reg s) n" if "n < 32" for n
  proof -
    have "possible_bit TYPE(32 word) n"
      using that by simp
    then show ?thesis
      using that unfolding bias_csr_read_def if_P [OF refl] bit_or_iff b bit_unsigned_iff by blast
  qed
  show "ucast (bias_csr_read 0x7C9 s) = bias_code_reg s"
    by (rule u8_eqI) (simp add: bit_unsigned_iff r)
  show "bit (bias_csr_read 0x7C9 s) 8 \<longleftrightarrow> cal_en_reg s"
    using r [of 8] by (auto dest: bit_imp_le_length)
qed

end
