(* ===== verification/Rtl_Fault.thy ===== *)
theory Rtl_Fault
  imports Azmuth_Prelude
begin

text \<open>
  \<open>rtl/security/fault_monitor.v\<close>, module \<open>fault_monitor\<close>: the watchdog, the priority encoder
  of the fault sources, the latched error code, the interrupt state machine and the four CSRs.
  Left out are the registers that only record or that nothing reads: \<open>cycle_counter\<close> with
  \<open>fault_timestamp\<close>, \<open>last_csr_access\<close>, \<open>last_instr_fetch\<close> and the parity helper of
  \<open>ecc_data_reg\<close>, which is never written. The state \<open>MON_MONITOR\<close> is never entered and behaves
  as \<open>default\<close>.
\<close>

section \<open>The clocked block\<close>

record fault_in =
  eml_pipe_active :: bool
  snn_pipe_active :: bool
  nvm_pipe_active :: bool
  csr_access_active :: bool
  instr_fetch_active :: bool
  soft_error :: "4 word"
  hard_error :: "4 word"
  ecc_error :: bool
  watchdog_trip :: bool
  fault_detected :: bool
  fault_clr :: bool
  irq_enable :: bool
  f_csr_addr :: u12
  f_csr_wr_en :: bool
  f_csr_wr_data :: u32

datatype mon = MON_IDLE | MON_IRQ_ASSERT | MON_PIPELINE_HALT

record fault_state =
  fault_status_reg :: u32
  watchdog_timeout_reg :: u32
  ecc_scrub_count_reg :: u32
  ecc_corrected_count_reg :: u32
  fault_latch :: bool
  latched_error_code :: u4
  watchdog_counter :: u32
  watchdog_limit :: u32
  watchdog_enabled :: bool
  watchdog_internal_trip :: bool
  monitor :: mon
  irq_fault :: bool
  pipeline_halt :: bool
  error_code :: u4

definition fault_reset :: fault_state where
  "fault_reset = \<lparr>fault_status_reg = 0, watchdog_timeout_reg = 0, ecc_scrub_count_reg = 0,
     ecc_corrected_count_reg = 0, fault_latch = False, latched_error_code = 0,
     watchdog_counter = 0, watchdog_limit = 0x00FFFFFF, watchdog_enabled = False,
     watchdog_internal_trip = False, monitor = MON_IDLE, irq_fault = False,
     pipeline_halt = False, error_code = 0\<rparr>"

definition ERR_NONE :: u4 where "ERR_NONE = 0"
definition ERR_WATCHDOG :: u4 where "ERR_WATCHDOG = 1"
definition ERR_ECC_SINGLE :: u4 where "ERR_ECC_SINGLE = 2"
definition ERR_ECC_DOUBLE :: u4 where "ERR_ECC_DOUBLE = 3"
definition ERR_SOFT_EML :: u4 where "ERR_SOFT_EML = 4"
definition ERR_SOFT_SNN :: u4 where "ERR_SOFT_SNN = 5"
definition ERR_HARD_NVM :: u4 where "ERR_HARD_NVM = 6"
definition ERR_CSR_VIOLATION :: u4 where "ERR_CSR_VIOLATION = 7"
definition ERR_INSTR_FAULT :: u4 where "ERR_INSTR_FAULT = 8"

lemmas err_codes =
  ERR_NONE_def ERR_WATCHDOG_def ERR_ECC_SINGLE_def ERR_ECC_DOUBLE_def ERR_SOFT_EML_def
  ERR_SOFT_SNN_def ERR_HARD_NVM_def ERR_CSR_VIOLATION_def ERR_INSTR_FAULT_def

text \<open>The parts of one edge, in the order of the block. \<open>s\<close> is the state before the edge, which
  every condition reads; \<open>r\<close> is the state being built.\<close>

definition fm_csr_write :: "fault_in \<Rightarrow> fault_state \<Rightarrow> fault_state" where
  "fm_csr_write i r =
     (if f_csr_wr_en i then
        (if f_csr_addr i = 0x7CC then r\<lparr>fault_status_reg := f_csr_wr_data i\<rparr>
         else if f_csr_addr i = 0x7CD then
           r\<lparr>watchdog_limit := f_csr_wr_data i, watchdog_timeout_reg := f_csr_wr_data i,
             watchdog_enabled := (f_csr_wr_data i \<noteq> 0), watchdog_counter := 0,
             watchdog_internal_trip := False\<rparr>
         else if f_csr_addr i = 0x7CE then r\<lparr>ecc_scrub_count_reg := f_csr_wr_data i\<rparr>
         else if f_csr_addr i = 0x7CF then r\<lparr>ecc_corrected_count_reg := f_csr_wr_data i\<rparr>
         else r)
      else r)"

definition fm_watchdog :: "fault_in \<Rightarrow> fault_state \<Rightarrow> fault_state \<Rightarrow> fault_state" where
  "fm_watchdog i s r =
     (if watchdog_enabled s then
        (if eml_pipe_active i \<or> snn_pipe_active i \<or> nvm_pipe_active i
         then r\<lparr>watchdog_counter := 0\<rparr>
         else (let r1 = r\<lparr>watchdog_counter := watchdog_counter s + 1\<rparr>
               in if watchdog_limit s \<le> watchdog_counter s
                  then r1\<lparr>watchdog_internal_trip := True\<rparr> else r1))
      else r\<lparr>watchdog_counter := 0, watchdog_internal_trip := False\<rparr>)"

definition fault_event :: "fault_in \<Rightarrow> fault_state \<Rightarrow> bool" where
  "fault_event i s \<longleftrightarrow> soft_error i \<noteq> 0 \<or> hard_error i \<noteq> 0 \<or> ecc_error i \<or> watchdog_trip i \<or>
     watchdog_internal_trip s \<or> fault_detected i"

definition soft_or_hard :: "fault_in \<Rightarrow> nat \<Rightarrow> bool" where
  "soft_or_hard i k \<longleftrightarrow> bit (soft_error i) k \<or> bit (hard_error i) k"

definition fault_code :: "fault_in \<Rightarrow> fault_state \<Rightarrow> u4" where
  "fault_code i s =
     (if watchdog_trip i \<or> watchdog_internal_trip s then ERR_WATCHDOG
      else if ecc_error i \<and> soft_or_hard i 0 then ERR_ECC_SINGLE
      else if ecc_error i \<and> soft_or_hard i 1 then ERR_ECC_DOUBLE
      else if bit (soft_error i) 0 then ERR_SOFT_EML
      else if bit (soft_error i) 1 then ERR_SOFT_SNN
      else if bit (hard_error i) 2 then ERR_HARD_NVM
      else if csr_access_active i \<and> fault_detected i then ERR_CSR_VIOLATION
      else if instr_fetch_active i \<and> fault_detected i then ERR_INSTR_FAULT
      else ERR_NONE)"

text \<open>The writes to \<open>fault_status_reg[5:0]\<close> in this part are overridden by \<open>fm_status\<close>.\<close>

definition fm_detect :: "fault_in \<Rightarrow> fault_state \<Rightarrow> fault_state \<Rightarrow> fault_state" where
  "fm_detect i s r =
     (if fault_event i s then
        (let r1 = r\<lparr>latched_error_code := fault_code i s, fault_latch := True\<rparr>
         in if fault_code i s = ERR_ECC_SINGLE
            then r1\<lparr>ecc_corrected_count_reg := ecc_corrected_count_reg s + 1\<rparr> else r1)
      else r)"

definition fm_monitor :: "fault_in \<Rightarrow> fault_state \<Rightarrow> fault_state \<Rightarrow> fault_state" where
  "fm_monitor i s r =
     (case monitor s of
        MON_IDLE \<Rightarrow> if fault_latch s \<and> irq_enable i then r\<lparr>monitor := MON_IRQ_ASSERT\<rparr> else r
      | MON_IRQ_ASSERT \<Rightarrow>
          (let r1 = r\<lparr>irq_fault := True\<rparr>
           in if fault_clr i \<or> pipeline_halt s then r1\<lparr>monitor := MON_PIPELINE_HALT\<rparr> else r1)
      | MON_PIPELINE_HALT \<Rightarrow>
          (if fault_clr i
           then r\<lparr>fault_latch := False, irq_fault := False, pipeline_halt := False,
                  monitor := MON_IDLE\<rparr>
           else r\<lparr>pipeline_halt := True\<rparr>))"

text \<open>\<open>fault_status_reg[3:0] <= latched_error_code\<close>, bit 4 and bit 5.\<close>

definition status_bits :: "fault_in \<Rightarrow> fault_state \<Rightarrow> u32" where
  "status_bits i s =
     (ucast (latched_error_code s) OR (if watchdog_trip i then push_bit 4 1 else 0)) OR
     (if ecc_error i then push_bit 5 1 else 0)"

definition fm_status :: "fault_in \<Rightarrow> fault_state \<Rightarrow> fault_state \<Rightarrow> fault_state" where
  "fm_status i s r =
     r\<lparr>error_code := latched_error_code s,
       fault_status_reg := (fault_status_reg r AND NOT (mask 6)) OR status_bits i s\<rparr>"

definition fm_clear :: "fault_in \<Rightarrow> fault_state \<Rightarrow> fault_state" where
  "fm_clear i r =
     (if f_csr_wr_en i \<and> f_csr_addr i = 0x7CC \<and> bit (f_csr_wr_data i) 31
      then r\<lparr>fault_latch := False, irq_fault := False, pipeline_halt := False, monitor := MON_IDLE\<rparr>
      else r)"

definition fault_edge :: "fault_in \<Rightarrow> fault_state \<Rightarrow> fault_state" where
  "fault_edge i s =
     fm_clear i (fm_status i s (fm_monitor i s (fm_detect i s (fm_watchdog i s (fm_csr_write i s)))))"

text \<open>The read port; \<open>watchdog_trip\<close> and \<open>ecc_error\<close> are the live inputs.\<close>

definition fault_csr_read :: "fault_in \<Rightarrow> fault_state \<Rightarrow> u32" where
  "fault_csr_read i s =
     (if f_csr_addr i = 0x7CC then
        ((if watchdog_trip i then push_bit 7 1 else 0) OR (if ecc_error i then push_bit 6 1 else 0)) OR
        (fault_status_reg s AND mask 6)
      else if f_csr_addr i = 0x7CD then watchdog_timeout_reg s
      else if f_csr_addr i = 0x7CE then ecc_scrub_count_reg s
      else if f_csr_addr i = 0x7CF then ecc_corrected_count_reg s
      else 0)"

lemmas fault_edge_defs =
  fault_edge_def fm_clear_def fm_status_def fm_monitor_def fm_detect_def fm_watchdog_def
  fm_csr_write_def

section \<open>The latched code\<close>

lemma edge_code:
  "latched_error_code (fault_edge i s) =
     (if fault_event i s then fault_code i s else latched_error_code s)"
  by (simp add: fault_edge_defs Let_def split: mon.split)

lemma edge_status:
  "fault_status_reg (fault_edge i s) AND mask 6 = status_bits i s"
proof -
  have "status_bits i s AND mask 6 = status_bits i s"
    by (rule bit_word_eqI)
      (auto simp: status_bits_def bit_or_iff bit_and_iff bit_mask_iff bit_one_shift bit_unsigned_iff
        simp del: push_bit_of_1 dest: bit_imp_le_length)
  then have "((w AND NOT (mask 6)) OR status_bits i s) AND mask 6 = status_bits i s" for w
    by (simp add: bit.conj_disj_distrib2 and.assoc)
  then show ?thesis
    by (simp add: fault_edge_def fm_clear_def fm_status_def)
qed

text \<open>An input without a fault source; \<open>calm\<close> also rules out a write of the watchdog limit.\<close>

definition no_source :: "fault_in \<Rightarrow> bool" where
  "no_source i \<longleftrightarrow> soft_error i = 0 \<and> hard_error i = 0 \<and> \<not> ecc_error i \<and> \<not> watchdog_trip i \<and>
     \<not> fault_detected i"

definition calm :: "fault_in \<Rightarrow> bool" where
  "calm i \<longleftrightarrow> no_source i \<and> \<not> (f_csr_wr_en i \<and> f_csr_addr i = 0x7CD)"

definition watchdog_off :: "fault_state \<Rightarrow> bool" where
  "watchdog_off s \<longleftrightarrow> \<not> watchdog_enabled s \<and> \<not> watchdog_internal_trip s"

lemma stage_frames [rtl_defs]:
  "watchdog_enabled (fm_clear i r) = watchdog_enabled r"
  "watchdog_internal_trip (fm_clear i r) = watchdog_internal_trip r"
  "watchdog_enabled (fm_status i s r) = watchdog_enabled r"
  "watchdog_internal_trip (fm_status i s r) = watchdog_internal_trip r"
  "watchdog_enabled (fm_monitor i s r) = watchdog_enabled r"
  "watchdog_internal_trip (fm_monitor i s r) = watchdog_internal_trip r"
  "watchdog_enabled (fm_detect i s r) = watchdog_enabled r"
  "watchdog_internal_trip (fm_detect i s r) = watchdog_internal_trip r"
  "watchdog_enabled (fm_watchdog i s r) = watchdog_enabled r"
  by (simp_all add: fm_clear_def fm_status_def fm_monitor_def fm_detect_def fm_watchdog_def Let_def
      split: mon.split)

lemma watchdog_off_edge:
  assumes "\<not> (f_csr_wr_en i \<and> f_csr_addr i = 0x7CD)" and "watchdog_off s"
  shows "watchdog_off (fault_edge i s)"
proof -
  have "\<not> watchdog_enabled (fm_csr_write i s)"
    using assms by (auto simp: fm_csr_write_def watchdog_off_def)
  moreover have "\<not> watchdog_internal_trip (fm_watchdog i s r)" for r
    using assms by (simp add: fm_watchdog_def watchdog_off_def)
  ultimately show ?thesis
    by (simp add: watchdog_off_def fault_edge_def rtl_defs)
qed

lemma calm_edge:
  assumes "calm i" and "watchdog_off s"
  shows "watchdog_off (fault_edge i s)" "latched_error_code (fault_edge i s) = latched_error_code s"
  using assms watchdog_off_edge [of i s]
  by (simp_all add: edge_code calm_def no_source_def watchdog_off_def fault_event_def)

lemma calm_run:
  assumes "\<forall>i \<in> set inps. calm i" and "watchdog_off s"
  shows "watchdog_off (fold fault_edge inps s) \<and>
    latched_error_code (fold fault_edge inps s) = latched_error_code s"
  using assms by (induction inps arbitrary: s) (simp_all add: calm_edge)

lemma no_source_status: "no_source i \<Longrightarrow> status_bits i s = ucast (latched_error_code s)"
  by (simp add: no_source_def status_bits_def)

lemma no_source_read:
  "no_source i \<Longrightarrow> f_csr_addr i = 0x7CC \<Longrightarrow> fault_csr_read i s = fault_status_reg s AND mask 6"
  by (simp add: no_source_def fault_csr_read_def)

section \<open>Properties\<close>

text \<open>The latched error code survives software. With the watchdog off and no new fault, any
  sequence of edges, writes to \<open>fault_status\<close> with the clear bit included, ends with a status
  that reads as the code of the last fault.\<close>

lemma code_survives_clear:
  assumes "\<forall>i \<in> set inps. calm i" and "calm j" and "watchdog_off s"
    and "no_source rd" and "f_csr_addr rd = 0x7CC"
  shows "fault_csr_read rd (fault_edge j (fold fault_edge inps s)) = ucast (latched_error_code s)"
  using assms calm_run [OF assms(1,3)]
  by (simp add: no_source_read edge_status calm_def no_source_status)

definition quiet_fault :: fault_in where
  "quiet_fault = \<lparr>eml_pipe_active = False, snn_pipe_active = False, nvm_pipe_active = False,
     csr_access_active = False, instr_fetch_active = True, soft_error = 0, hard_error = 0,
     ecc_error = False, watchdog_trip = False, fault_detected = False, fault_clr = False,
     irq_enable = True, f_csr_addr = 0, f_csr_wr_en = False, f_csr_wr_data = 0\<rparr>"

text \<open>A write to \<open>fault_status\<close> with bit 31 set drops the interrupt, the fault latch and the
  halt and returns the monitor to idle, whatever faults arrive on the same edge.\<close>

lemma clear_drops_interrupt:
  assumes "f_csr_wr_en i" and "f_csr_addr i = 0x7CC" and "bit (f_csr_wr_data i) 31"
  shows "\<not> irq_fault (fault_edge i s) \<and> \<not> fault_latch (fault_edge i s) \<and>
    \<not> pipeline_halt (fault_edge i s) \<and> monitor (fault_edge i s) = MON_IDLE"
  using assms by (simp add: fault_edge_def fm_clear_def)

text \<open>The pipeline is never halted on a fault: with \<open>fault_clr\<close> tied low, as the top level has
  it, no sequence of edges from reset enters the halt state.\<close>

lemma never_halts:
  assumes "\<forall>i \<in> set inps. \<not> fault_clr i"
  shows "\<not> pipeline_halt (fold fault_edge inps fault_reset) \<and>
    monitor (fold fault_edge inps fault_reset) \<noteq> MON_PIPELINE_HALT"
proof -
  have "\<not> pipeline_halt s \<and> monitor s \<noteq> MON_PIPELINE_HALT \<Longrightarrow> \<not> fault_clr i \<Longrightarrow>
      \<not> pipeline_halt (fault_edge i s) \<and> monitor (fault_edge i s) \<noteq> MON_PIPELINE_HALT" for i s
    by (cases "monitor s") (auto simp: fault_edge_defs Let_def)
  then have "\<forall>i \<in> set inps. \<not> fault_clr i \<Longrightarrow> \<not> pipeline_halt s \<and> monitor s \<noteq> MON_PIPELINE_HALT \<Longrightarrow>
      \<not> pipeline_halt (fold fault_edge inps s) \<and> monitor (fold fault_edge inps s) \<noteq> MON_PIPELINE_HALT" for s
    by (induction inps arbitrary: s) simp_all
  then show ?thesis
    using assms by (simp add: fault_reset_def)
qed

end
