(* ===== verification/Rtl_Policy.thy ===== *)
theory Rtl_Policy
  imports Azmuth_Prelude
begin

text \<open>
  \<open>rtl/core/policy_determinism.v\<close>, module \<open>policy_determinism\<close>: the state machine that runs a
  policy for a fixed number of cycles or times out. The ports \<open>policy_valid\<close> and \<open>max_cycles\<close>
  are not used by the module and have no part in the model; \<open>next_state\<close> is never assigned. The
  bits that \<open>pol_sec_reg\<close> keeps are read by nothing.
\<close>

section \<open>The clocked block\<close>

datatype pol_phase = IDLE | START_EXEC | EXECUTE | FINALIZE | TIMEOUT | DONE

record pol_in =
  policy_exec_start :: bool
  policy_data :: u32
  det_en :: bool
  pol_csr_addr :: u12
  pol_csr_wr_en :: bool
  pol_csr_wr_data :: u32

record pol_state =
  phase :: pol_phase
  internal_policy_data :: u32
  temp_result :: u32
  cycle_counter :: u16
  max_cycle_setting :: u16
  target_cycles :: u16
  timeout_wait_cnt :: u4
  timeout_occurred :: bool
  policy_done :: bool
  policy_result :: u32
  timeout_irq :: bool

definition pol_reset :: pol_state where
  "pol_reset = \<lparr>phase = IDLE, internal_policy_data = 0, temp_result = 0, cycle_counter = 0,
     max_cycle_setting = 12, target_cycles = 12, timeout_wait_cnt = 0, timeout_occurred = False,
     policy_done = False, policy_result = 0, timeout_irq = False\<rparr>"

definition min16 :: "u16 \<Rightarrow> u16 \<Rightarrow> u16" where
  "min16 a b = (if a < b then a else b)"

text \<open>The target of \<open>START_EXEC\<close> by the low byte of the policy word.\<close>

definition policy_target :: "u32 \<Rightarrow> u16 \<Rightarrow> u16" where
  "policy_target data m =
     (let t = data AND 0xFF
      in if t = 1 then min16 12 m else if t = 2 then min16 24 m
         else if t = 3 then min16 18 m else m)"

definition accumulate :: "pol_state \<Rightarrow> u32" where
  "accumulate s = temp_result s + ucast (cycle_counter s) + (internal_policy_data s AND 0xFFFF)"

text \<open>One edge. The setting that a CSR write changes is the old one in the rest of the block.\<close>

definition pol_csr_write :: "pol_in \<Rightarrow> pol_state \<Rightarrow> pol_state" where
  "pol_csr_write i s =
     (if pol_csr_wr_en i \<and> pol_csr_addr i = 0x7CB
      then s\<lparr>max_cycle_setting := ucast (drop_bit 1 (pol_csr_wr_data i) AND 0xF)\<rparr> else s)"

definition pol_step :: "pol_in \<Rightarrow> u16 \<Rightarrow> pol_state \<Rightarrow> pol_state" where
  "pol_step i m s =
     (case phase s of
        IDLE \<Rightarrow>
          (let s1 = s\<lparr>policy_done := False, timeout_irq := False, timeout_occurred := False\<rparr>
           in if policy_exec_start i
              then s1\<lparr>internal_policy_data := policy_data i, cycle_counter := 1,
                      phase := (if det_en i then START_EXEC else EXECUTE)\<rparr>
              else s1)
      | START_EXEC \<Rightarrow>
          s\<lparr>temp_result := 0, cycle_counter := 1, target_cycles := policy_target (policy_data i) m,
            phase := EXECUTE\<rparr>
      | EXECUTE \<Rightarrow>
          (let s1 = s\<lparr>cycle_counter := cycle_counter s + 1, temp_result := accumulate s\<rparr>
           in if det_en i then
                (if m \<le> cycle_counter s
                 then s1\<lparr>timeout_occurred := True, timeout_irq := True, phase := TIMEOUT\<rparr>
                 else if target_cycles s \<le> cycle_counter s then s1\<lparr>phase := FINALIZE\<rparr>
                 else s1)
              else if 20 \<le> cycle_counter s then s1\<lparr>phase := FINALIZE\<rparr> else s1)
      | FINALIZE \<Rightarrow>
          s\<lparr>temp_result := accumulate s,
            policy_result := temp_result s XOR ucast (cycle_counter s), policy_done := True,
            phase := DONE\<rparr>
      | DONE \<Rightarrow> s\<lparr>policy_done := False, phase := IDLE\<rparr>
      | TIMEOUT \<Rightarrow>
          (let s1 = s\<lparr>policy_result := 0xDEADBEEF, policy_done := True, timeout_irq := True,
                      timeout_wait_cnt := timeout_wait_cnt s + 1\<rparr>
           in if 2 \<le> timeout_wait_cnt s
              then s1\<lparr>phase := DONE, timeout_irq := False, timeout_wait_cnt := 0\<rparr> else s1))"

definition pol_edge :: "pol_in \<Rightarrow> pol_state \<Rightarrow> pol_state" where
  "pol_edge i s = pol_step i (max_cycle_setting s) (pol_csr_write i s)"

text \<open>The read port: \<open>{16'h0, 1'b0, timeout_occurred, 1'b0, det_en, 8'h0, max_cycle_setting[4:1]}\<close>.\<close>

definition pol_csr_read :: "pol_in \<Rightarrow> pol_state \<Rightarrow> u32" where
  "pol_csr_read i s =
     (if pol_csr_addr i = 0x7CB
      then (if timeout_occurred s then push_bit 14 1 else 0) OR
           (if det_en i then push_bit 12 1 else 0) OR
           (drop_bit 1 (ucast (max_cycle_setting s)) AND 0xF)
      else 0)"

section \<open>A run of one policy\<close>

text \<open>The setting comes from four bits, so it never exceeds 15.\<close>

lemma nibble_le: "ucast (w AND 0xF :: u32) \<le> (15 :: u16)"
proof -
  have "unat (w AND 0xF) \<le> 15"
    using word_and_le1 [of w 15] by (simp add: word_le_nat_alt)
  then show ?thesis
    by (simp add: word_le_nat_alt unsigned_ucast_eq take_bit_nat_eq_self)
qed

lemma pol_edge_setting:
  "max_cycle_setting s \<le> 15 \<Longrightarrow> max_cycle_setting (pol_edge i s) \<le> 15"
  by (simp add: pol_edge_def pol_step_def pol_csr_write_def nibble_le Let_def split: pol_phase.split)

text \<open>No CSR write happens while a policy runs in deterministic mode.\<close>

definition runs :: "pol_in \<Rightarrow> bool" where
  "runs i \<longleftrightarrow> det_en i \<and> \<not> pol_csr_wr_en i"

lemma run_edge: "runs i \<Longrightarrow> pol_edge i s = pol_step i (max_cycle_setting s) s"
  by (simp add: runs_def pol_edge_def pol_csr_write_def)

lemma execute_steps:
  assumes "runs i" and "phase s = EXECUTE"
    and "unat (cycle_counter s) + n \<le> unat (max_cycle_setting s)"
    and "unat (cycle_counter s) + n \<le> unat (target_cycles s)"
  shows "phase ((pol_edge i ^^ n) s) = EXECUTE \<and>
    unat (cycle_counter ((pol_edge i ^^ n) s)) = unat (cycle_counter s) + n \<and>
    max_cycle_setting ((pol_edge i ^^ n) s) = max_cycle_setting s \<and>
    target_cycles ((pol_edge i ^^ n) s) = target_cycles s \<and>
    timeout_irq ((pol_edge i ^^ n) s) = timeout_irq s \<and>
    timeout_wait_cnt ((pol_edge i ^^ n) s) = timeout_wait_cnt s"
  using assms(3,4)
proof (induction n)
  case 0
  then show ?case using assms(2) by simp
next
  case (Suc n)
  define t where "t = (pol_edge i ^^ n) s"
  have t: "phase t = EXECUTE" "unat (cycle_counter t) = unat (cycle_counter s) + n"
    "max_cycle_setting t = max_cycle_setting s" "target_cycles t = target_cycles s"
    "timeout_irq t = timeout_irq s" "timeout_wait_cnt t = timeout_wait_cnt s"
    using Suc by (simp_all add: t_def)
  have "unat (cycle_counter t) + 1 < 2 ^ 16"
    using t(2) Suc.prems(1) unsigned_less [of "max_cycle_setting s", where ?'a = nat] by simp
  then have "unat (cycle_counter t + 1) = Suc (unat (cycle_counter t))"
    using unat_add_small [of "cycle_counter t" 1] by simp
  moreover have "\<not> max_cycle_setting t \<le> cycle_counter t" "\<not> target_cycles t \<le> cycle_counter t"
    using t Suc.prems by (simp_all add: word_le_nat_alt)
  moreover have "(pol_edge i ^^ Suc n) s = pol_edge i t"
    by (simp add: t_def)
  ultimately show ?case
    unfolding run_edge [OF assms(1)] using assms(1) t by (simp add: pol_step_def runs_def)
qed

text \<open>The decision at the end of \<open>EXECUTE\<close> and the edge after it.\<close>

lemma execute_done:
  assumes "runs i" and "phase s = EXECUTE" and "max_cycle_setting s \<le> cycle_counter s"
    and "timeout_wait_cnt s = 0"
  shows "policy_done ((pol_edge i ^^ 2) s) \<and> policy_result ((pol_edge i ^^ 2) s) = 0xDEADBEEF \<and>
    timeout_irq ((pol_edge i ^^ 2) s)"
  using assms by (simp add: numeral_2_eq_2 run_edge pol_step_def runs_def Let_def)

lemma execute_final:
  assumes "runs i" and "phase s = EXECUTE" and "\<not> max_cycle_setting s \<le> cycle_counter s"
    and "target_cycles s \<le> cycle_counter s"
  shows "policy_done ((pol_edge i ^^ 2) s) \<and> phase ((pol_edge i ^^ 2) s) = DONE \<and>
    timeout_irq ((pol_edge i ^^ 2) s) = timeout_irq s"
  using assms by (simp add: numeral_2_eq_2 run_edge pol_step_def runs_def Let_def)

definition ready :: "pol_state \<Rightarrow> bool" where
  "ready s \<longleftrightarrow> phase s = IDLE \<and> timeout_wait_cnt s = 0"

lemma start_edges:
  assumes "runs i" and "ready s" and "policy_exec_start i"
  shows "phase ((pol_edge i ^^ 2) s) = EXECUTE" "cycle_counter ((pol_edge i ^^ 2) s) = 1"
    "max_cycle_setting ((pol_edge i ^^ 2) s) = max_cycle_setting s"
    "target_cycles ((pol_edge i ^^ 2) s) = policy_target (policy_data i) (max_cycle_setting s)"
    "timeout_wait_cnt ((pol_edge i ^^ 2) s) = 0" "\<not> timeout_irq ((pol_edge i ^^ 2) s)"
  using assms by (simp_all add: numeral_2_eq_2 run_edge pol_step_def runs_def ready_def Let_def)

text \<open>With a setting of at most 15 the target is the setting itself, or 12 for type 1.\<close>

lemma policy_target_cases:
  assumes "m \<le> 15"
  shows "policy_target data m = (if data AND 0xFF = 1 \<and> 12 < m then 12 else m)"
proof -
  have "\<not> 24 < m" "\<not> 18 < m"
    using assms by (simp_all add: word_less_nat_alt word_le_nat_alt)
  then show ?thesis
    by (auto simp: policy_target_def min16_def Let_def)
qed

text \<open>In deterministic mode a policy is done within 20 cycles of its start. It completes only when
  its type is 1 and the configured maximum is 13, 14 or 15; in every other case, whatever the
  type, it ends in the timeout result 0xDEADBEEF with the timeout interrupt raised, because the
  comparison with the maximum comes before the one with the target.\<close>

lemma run_outcome:
  assumes "runs i" and "ready s" and "policy_exec_start i" and "max_cycle_setting s \<le> 15"
  shows "\<exists>n \<le> 20. let s' = (pol_edge i ^^ n) s in policy_done s' \<and>
    (if policy_data i AND 0xFF = 1 \<and> 12 < max_cycle_setting s
     then phase s' = DONE \<and> \<not> timeout_irq s'
     else policy_result s' = 0xDEADBEEF \<and> timeout_irq s')"
proof -
  define m t where "m = max_cycle_setting s" and "t = policy_target (policy_data i) m"
  define s1 where "s1 = (pol_edge i ^^ 2) s"
  note s1 = start_edges [OF assms(1-3), folded s1_def, folded m_def, folded t_def]
  have t: "t = (if policy_data i AND 0xFF = 1 \<and> 12 < m then 12 else m)"
    using policy_target_cases assms(4) by (simp add: t_def m_def)
  then have tm: "unat t \<le> unat m" "unat m \<le> 15"
    using assms(4) by (auto simp: m_def word_less_nat_alt word_le_nat_alt)
  define k where "k = unat t - 1"
  define s2 where "s2 = (pol_edge i ^^ k) s1"
  have run: "phase s2 = EXECUTE \<and> unat (cycle_counter s2) = Suc k \<and> max_cycle_setting s2 = m \<and>
    target_cycles s2 = t \<and> \<not> timeout_irq s2 \<and> timeout_wait_cnt s2 = 0"
  proof (cases "unat t = 0")
    case True
    then show ?thesis
      using s1 by (simp add: s2_def k_def)
  next
    case False
    then show ?thesis
      using execute_steps [OF assms(1) s1(1), of k] s1 tm by (simp add: s2_def k_def)
  qed
  have steps: "(pol_edge i ^^ (2 + k + 2)) s = (pol_edge i ^^ 2) s2"
    by (simp add: s2_def s1_def funpow_add numeral_2_eq_2 funpow_swap1)
  have n: "2 + k + 2 \<le> 20"
    using tm by (simp add: k_def)
  have at: "target_cycles s2 \<le> cycle_counter s2"
    using run by (simp add: word_le_nat_alt k_def)
  show ?thesis
  proof (cases "policy_data i AND 0xFF = 1 \<and> 12 < m")
    case True
    then have "\<not> max_cycle_setting s2 \<le> cycle_counter s2"
      using run t by (simp add: word_le_nat_alt word_less_nat_alt k_def)
    then show ?thesis
      using execute_final [OF assms(1) conjunct1 [OF run] _ at] run True n
      by (intro exI [of _ "2 + k + 2"]) (simp only: steps m_def Let_def if_True simp_thms)
  next
    case False
    then have "t = m"
      using t by auto
    then have "max_cycle_setting s2 \<le> cycle_counter s2"
      using run by (auto simp: word_le_nat_alt k_def)
    then show ?thesis
      using execute_done [OF assms(1) conjunct1 [OF run]] run False n
      by (intro exI [of _ "2 + k + 2"]) (simp only: steps m_def Let_def if_False simp_thms)
  qed
qed

end
