(* ===== verification/Rtl_Soc.thy ===== *)
theory Rtl_Soc
  imports Hw_Bus Rtl_Axi Rtl_Power Rtl_Bias Rtl_Fault Rtl_Policy
begin

text \<open>
  \<open>rtl/xcew_top_v1_1.v\<close> around the core: the CSR block with its v1.1 gate, the CSR read
  multiplexer, the status register, the four controllers and the memory path of theory
  \<open>Rtl_Axi\<close>, clocked together. An access of the core is one clock edge with its address and data
  on the CSR or memory port; a read takes the multiplexer's value before the edge. What the
  blocks outside this model drive (the EML and SNN units, the NVM flags, the nets that nothing drives) is the environment, a function of the edge number. \<open>v1_1_mode\<close>
  is tied to 1; the gate \<open>v1_1_en\<close> is part of the state. An Xcew instruction takes one edge
  without a CSR write and its answer is the environment's, so nothing is claimed of its timing,
  and the edges of the instructions between two accesses are left out. The accesses are those of
  a core that is awake: \<open>clk_core_gated\<close> clocks the core too.
\<close>

section \<open>State and environment\<close>

record env_in =
  nvm_single_err :: bool
  nvm_double_err :: bool
  eml_exc :: bool
  fault_undriven :: bool
  eml_active :: bool
  snn_active :: bool
  nvm_active :: bool
  e_activity :: u4
  e_wake :: u4
  eml_stage :: "3 word"
  nvm_busy :: bool
  unit_result :: "u7 \<Rightarrow> u32 \<Rightarrow> u32 \<Rightarrow> u32"

record soc =
  edges :: nat
  v1_1_en :: bool
  csr_xcew_cfg :: u32
  csr_xcew_status :: u32
  csr_snn_ctrl_ext :: u32
  csr_eml_dag_ctl :: u32
  csr_pwr_ctrl_shadow :: u32
  csr_bias_ctrl_shadow :: u32
  csr_sec_ctrl :: u32
  csr_pol_sec :: u32
  csr_fault_status_shadow :: u32
  csr_watchdog_shadow :: u32
  csr_ecc_scrub_shadow :: u32
  csr_ecc_corrected_shadow :: u32
  orch :: pwr_state
  bias :: bias_state
  fmon :: fault_state
  poldet :: pol_state
  dmem :: mem_state

definition soc_reset :: "(u12 \<Rightarrow> u32) \<Rightarrow> bias_state \<Rightarrow> soc" where
  "soc_reset m b = \<lparr>edges = 0, v1_1_en = True, csr_xcew_cfg = 0, csr_xcew_status = 0,
     csr_snn_ctrl_ext = 0, csr_eml_dag_ctl = 0, csr_pwr_ctrl_shadow = 0, csr_bias_ctrl_shadow = 0,
     csr_sec_ctrl = 0, csr_pol_sec = 0, csr_fault_status_shadow = 0, csr_watchdog_shadow = 0xFFFF,
     csr_ecc_scrub_shadow = 0, csr_ecc_corrected_shadow = 0,
     orch = pwr_reset, bias = bias_reset b, fmon = fault_reset, poldet = pol_reset, dmem = mem_reset m\<rparr>"

text \<open>The CSR and memory ports of the core.\<close>

record core_port =
  core_csr_addr :: u12
  core_csr_wr_en :: bool
  core_csr_wr_data :: u32
  core_mem :: mem_req

definition rd_port :: "u12 \<Rightarrow> core_port" where
  "rd_port a = \<lparr>core_csr_addr = a, core_csr_wr_en = False, core_csr_wr_data = 0,
     core_mem = load_req 0\<rparr>"

definition wr_port :: "u12 \<Rightarrow> u32 \<Rightarrow> core_port" where
  "wr_port a v = \<lparr>core_csr_addr = a, core_csr_wr_en = True, core_csr_wr_data = v,
     core_mem = load_req 0\<rparr>"

definition mem_port :: "mem_req \<Rightarrow> core_port" where
  "mem_port q = \<lparr>core_csr_addr = 0, core_csr_wr_en = False, core_csr_wr_data = 0, core_mem = q\<rparr>"

section \<open>The register block\<close>

definition cfg_legal :: "u32 \<Rightarrow> u32" where
  "cfg_legal v = v AND 0xFF80"

definition csr_block_write :: "core_port \<Rightarrow> soc \<Rightarrow> soc" where
  "csr_block_write p s =
     (let a = core_csr_addr p; v = core_csr_wr_data p
      in if \<not> core_csr_wr_en p then s
         else if a = 0x7C0 then s\<lparr>csr_xcew_cfg := cfg_legal v\<rparr>
         else if \<not> v1_1_en s then s
         else if a = 0x7C5 then s\<lparr>csr_snn_ctrl_ext := v\<rparr>
         else if a = 0x7C6 then s\<lparr>csr_eml_dag_ctl := v\<rparr>
         else if a = 0x7C8 then s\<lparr>csr_pwr_ctrl_shadow := v\<rparr>
         else if a = 0x7C9 then s\<lparr>csr_bias_ctrl_shadow := v\<rparr>
         else if a = 0x7CA then s\<lparr>csr_sec_ctrl := v\<rparr>
         else if a = 0x7CB then s\<lparr>csr_pol_sec := v\<rparr>
         else if a = 0x7CC then
           s\<lparr>csr_fault_status_shadow := csr_fault_status_shadow s AND NOT v\<rparr>
         else if a = 0x7CD then s\<lparr>csr_watchdog_shadow := v\<rparr>
         else if a = 0x7CE then s\<lparr>csr_ecc_scrub_shadow := v\<rparr>
         else if a = 0x7CF then s\<lparr>csr_ecc_corrected_shadow := v\<rparr>
         else s)"

section \<open>Inputs of the controllers\<close>

text \<open>\<open>soft_error_int\<close>, \<open>hard_error_int\<close> and \<open>ecc_error_int\<close>; nothing drives
  \<open>fault_detected_int\<close>.\<close>

definition fault_port :: "env_in \<Rightarrow> core_port \<Rightarrow> soc \<Rightarrow> fault_in" where
  "fault_port e p s =
     (let ecc = nvm_single_err e \<or> nvm_double_err e
      in \<lparr>eml_pipe_active = eml_active e, snn_pipe_active = snn_active e,
          nvm_pipe_active = nvm_active e,
          csr_access_active = core_csr_wr_en p, instr_fetch_active = True,
          soft_error = (if (if ecc then nvm_single_err e else eml_exc e) then 1 else 0),
          hard_error = (if nvm_double_err e then 6 else 0),
          ecc_error = ecc, watchdog_trip = False, fault_detected = fault_undriven e,
          fault_clr = False, irq_enable = True,
          f_csr_addr = core_csr_addr p, f_csr_wr_en = core_csr_wr_en p \<and> v1_1_en s,
          f_csr_wr_data = core_csr_wr_data p\<rparr>)"

text \<open>\<open>csr_pwr_ctrl\<close> is the controller's read port while the core addresses it, else the shadow.
  The interrupts that make \<open>wake_irq_trigger\<close> are tied to 0.\<close>

definition csr_pwr_ctrl :: "core_port \<Rightarrow> soc \<Rightarrow> u32" where
  "csr_pwr_ctrl p s =
     (if core_csr_addr p = 0x7C8 then pwr_csr_read (orch s) 0x7C8 else csr_pwr_ctrl_shadow s)"

definition pwr_port :: "env_in \<Rightarrow> core_port \<Rightarrow> soc \<Rightarrow> pwr_in" where
  "pwr_port e p s =
     \<lparr>wake_irq_mask = bit (csr_pwr_ctrl p s) 8, activity_count = e_activity e,
      tile_wake_req = e_wake e, irq_trigger = False,
      axi_activity = core_mem_we (core_mem p) \<or> core_csr_wr_en p,
      p_csr_addr = core_csr_addr p, p_csr_wr_en = core_csr_wr_en p,
      p_csr_wr_data = core_csr_wr_data p\<rparr>"

text \<open>The measurement inputs of the body-bias controller are tied to 0.\<close>

definition bias_port :: "core_port \<Rightarrow> bias_in" where
  "bias_port p =
     \<lparr>leakage_counter = False, measure_en = False, b_csr_addr = core_csr_addr p,
      b_csr_wr_en = core_csr_wr_en p, b_csr_wr_data = core_csr_wr_data p\<rparr>"

text \<open>A policy starts on a POL_UPD instruction, which is not a CSR access.\<close>

definition pol_port :: "core_port \<Rightarrow> soc \<Rightarrow> pol_in" where
  "pol_port p s =
     \<lparr>policy_exec_start = False, policy_data = 0, det_en = v1_1_en s \<and> bit (csr_pol_sec s) 0,
      pol_csr_addr = core_csr_addr p, pol_csr_wr_en = core_csr_wr_en p,
      pol_csr_wr_data = core_csr_wr_data p\<rparr>"

section \<open>One edge\<close>

text \<open>\<open>clk_core_gated\<close>, which clocks the controllers, stops while the core tile sleeps.\<close>

definition core_asleep :: "soc \<Rightarrow> bool" where
  "core_asleep s \<longleftrightarrow> tile_sleep (tiles (orch s) ! 0)"

definition controllers_edge :: "env_in \<Rightarrow> core_port \<Rightarrow> soc \<Rightarrow> soc \<Rightarrow> soc" where
  "controllers_edge e p s r =
     (if core_asleep s then r
      else r\<lparr>orch := pwr_edge (pwr_port e p s) (orch s),
             bias := bias_edge (bias_port p) (bias s),
             fmon := fault_edge (fault_port e p s) (fmon s),
             poldet := pol_edge (pol_port p s) (poldet s),
             dmem := mem_edge (core_mem p) (dmem s)\<rparr>)"

definition status_word :: "env_in \<Rightarrow> soc \<Rightarrow> u32" where
  "status_word e s =
     ((push_bit 4 (ucast (eml_stage e)) OR (if irq_fault (fmon s) then push_bit 3 1 else 0)) OR
      ((if nvm_busy e then push_bit 2 1 else 0) OR (if eml_exc e then push_bit 1 1 else 0)))"

definition soc_edge :: "env_in \<Rightarrow> core_port \<Rightarrow> soc \<Rightarrow> soc" where
  "soc_edge e p s =
     (let r = controllers_edge e p s (csr_block_write p s)
      in r\<lparr>edges := edges s + 1, v1_1_en := True, csr_xcew_status := status_word e s\<rparr>)"

text \<open>The read multiplexer.\<close>

definition soc_csr_read :: "env_in \<Rightarrow> u12 \<Rightarrow> soc \<Rightarrow> u32" where
  "soc_csr_read e a s =
     (if a = 0x7C0 then csr_xcew_cfg s
      else if a = 0x7C1 then csr_xcew_status s
      else if a = 0x7C5 then csr_snn_ctrl_ext s
      else if a = 0x7C6 then csr_eml_dag_ctl s
      else if a = 0x7C8 then pwr_csr_read (orch s) 0x7C8
      else if a = 0x7C9 then bias_csr_read 0x7C9 (bias s)
      else if a = 0x7CA then csr_sec_ctrl s
      else if a = 0x7CB then csr_pol_sec s
      else if a = 0x7CC \<or> a = 0x7CD \<or> a = 0x7CE \<or> a = 0x7CF then
        fault_csr_read (fault_port e (rd_port a) s) (fmon s)
      else 0)"

section \<open>The bus of the RTL\<close>

definition soc_bus :: "(nat \<Rightarrow> env_in) \<Rightarrow> soc bus" where
  "soc_bus env =
     \<lparr>csrr = (\<lambda>a s. (soc_csr_read (env (edges s)) a s, soc_edge (env (edges s)) (rd_port a) s)),
      csrw = (\<lambda>a v s. soc_edge (env (edges s)) (wr_port a v) s),
      insn = (\<lambda>op x y s. (unit_result (env (edges s)) op x y, soc_edge (env (edges s)) (rd_port 0) s)),
      ld32 = (\<lambda>a s. (core_mem_rdata a (dmem s),
                     soc_edge (env (edges s)) (mem_port (load_req a)) s)),
      st32 = (\<lambda>a v s. soc_edge (env (edges s)) (mem_port (store_req a v)) s),
      st8 = (\<lambda>a v s. soc_edge (env (edges s)) (mem_port (store8_req a v)) s)\<rparr>"

lemma soc_bus_simps [bus_simps]:
  "csrr (soc_bus env) a s = (soc_csr_read (env (edges s)) a s, soc_edge (env (edges s)) (rd_port a) s)"
  "csrw (soc_bus env) a v s = soc_edge (env (edges s)) (wr_port a v) s"
  "insn (soc_bus env) op x y s =
     (unit_result (env (edges s)) op x y, soc_edge (env (edges s)) (rd_port 0) s)"
  "ld32 (soc_bus env) m s =
     (core_mem_rdata m (dmem s), soc_edge (env (edges s)) (mem_port (load_req m)) s)"
  "st32 (soc_bus env) m v s = soc_edge (env (edges s)) (mem_port (store_req m v)) s"
  "st8 (soc_bus env) m b s = soc_edge (env (edges s)) (mem_port (store8_req m b)) s"
  by (simp_all add: soc_bus_def)

lemma port_simps [simp]:
  "core_csr_addr (rd_port a) = a" "\<not> core_csr_wr_en (rd_port a)" "core_csr_wr_data (rd_port a) = 0"
  "core_csr_addr (wr_port a v) = a" "core_csr_wr_en (wr_port a v)" "core_csr_wr_data (wr_port a v) = v"
  "core_mem (rd_port a) = load_req 0" "core_mem (wr_port a v) = load_req 0"
  "core_csr_addr (mem_port q) = 0" "\<not> core_csr_wr_en (mem_port q)"
  "core_csr_wr_data (mem_port q) = 0" "core_mem (mem_port q) = q"
  by (simp_all add: rd_port_def wr_port_def mem_port_def)

section \<open>The registers of the block\<close>

lemma soc_edge_en [simp]: "v1_1_en (soc_edge e p s)" "edges (soc_edge e p s) = edges s + 1"
  by (simp_all add: soc_edge_def Let_def)

lemma soc_edge_block [simp]:
  "csr_xcew_cfg (soc_edge e p s) = csr_xcew_cfg (csr_block_write p s)"
  "csr_snn_ctrl_ext (soc_edge e p s) = csr_snn_ctrl_ext (csr_block_write p s)"
  "csr_eml_dag_ctl (soc_edge e p s) = csr_eml_dag_ctl (csr_block_write p s)"
  "csr_sec_ctrl (soc_edge e p s) = csr_sec_ctrl (csr_block_write p s)"
  "csr_pol_sec (soc_edge e p s) = csr_pol_sec (csr_block_write p s)"
  by (simp_all add: soc_edge_def controllers_edge_def Let_def)

lemma csr_block_idle [simp]: "csr_block_write (rd_port a) s = s" "csr_block_write (mem_port q) s = s"
  by (simp_all add: csr_block_write_def)

lemma block_write_cfg:
  "csr_xcew_cfg (csr_block_write (wr_port a v) s) = (if a = 0x7C0 then cfg_legal v else csr_xcew_cfg s)"
  by (simp add: csr_block_write_def Let_def)

lemma block_write_v11:
  "v1_1_en s \<Longrightarrow>
   csr_snn_ctrl_ext (csr_block_write (wr_port a v) s) = (if a = 0x7C5 then v else csr_snn_ctrl_ext s)"
  "v1_1_en s \<Longrightarrow>
   csr_eml_dag_ctl (csr_block_write (wr_port a v) s) = (if a = 0x7C6 then v else csr_eml_dag_ctl s)"
  "v1_1_en s \<Longrightarrow>
   csr_sec_ctrl (csr_block_write (wr_port a v) s) = (if a = 0x7CA then v else csr_sec_ctrl s)"
  "v1_1_en s \<Longrightarrow>
   csr_pol_sec (csr_block_write (wr_port a v) s) = (if a = 0x7CB then v else csr_pol_sec s)"
  by (simp_all add: csr_block_write_def Let_def)

lemmas soc_reg_simps = soc_csr_read_def block_write_cfg block_write_v11

text \<open>The contracts of the registers that hold what is written, and the pairs that drivers write
  one after the other.\<close>

interpretation cfg: csr_reg "soc_bus env" "0x7C0" v1_1_en cfg_legal for env
  by unfold_locales (simp_all add: bus_simps soc_reg_simps)

interpretation snn_ctrl: csr_reg "soc_bus env" "0x7C5" v1_1_en "\<lambda>v. v" for env
  by unfold_locales (simp_all add: bus_simps soc_reg_simps)

interpretation dag_cfg: csr_pair "soc_bus env" "0x7C6" v1_1_en "\<lambda>v. v" "0x7C0" for env
  by unfold_locales (simp_all add: bus_simps soc_reg_simps)

interpretation sec_ctrl: csr_reg "soc_bus env" "0x7CA" v1_1_en "\<lambda>v. v" for env
  by unfold_locales (simp_all add: bus_simps soc_reg_simps)

text \<open>Once the interconnect has granted the core a read, its loads answer from the boot ROM.\<close>

lemma soc_edge_grant:
  "ar_grant_master (dmem s) \<Longrightarrow> ar_grant_master (dmem (soc_edge e p s))"
  by (simp add: soc_edge_def controllers_edge_def csr_block_write_def Let_def)

interpretation rom: bus_memory "soc_bus env" "\<lambda>s. ar_grant_master (dmem s)" rom_word for env
  by unfold_locales (simp_all add: bus_simps granted_load soc_edge_grant)

interpretation pol_sec: csr_reg "soc_bus env" "0x7CB" v1_1_en "\<lambda>v. v" for env
  by unfold_locales (simp_all add: bus_simps soc_reg_simps)

section \<open>Runs without a fault\<close>

definition quiet_env :: "env_in \<Rightarrow> bool" where
  "quiet_env e \<longleftrightarrow> \<not> nvm_single_err e \<and> \<not> nvm_double_err e \<and> \<not> eml_exc e \<and> \<not> fault_undriven e"

text \<open>The monitor shows code \<open>c\<close>: it is latched and in the status register, and the watchdog
  rests.\<close>

definition shows_code :: "u4 \<Rightarrow> soc \<Rightarrow> bool" where
  "shows_code c s \<longleftrightarrow> watchdog_off (fmon s) \<and> latched_error_code (fmon s) = c \<and>
     fault_status_reg (fmon s) AND mask 6 = ucast c"

lemma quiet_no_source: "quiet_env e \<Longrightarrow> no_source (fault_port e p s)"
  by (simp add: quiet_env_def fault_port_def no_source_def Let_def)

lemma quiet_calm:
  "quiet_env e \<Longrightarrow> \<not> (core_csr_wr_en p \<and> core_csr_addr p = 0x7CD) \<Longrightarrow> calm (fault_port e p s)"
  using quiet_no_source [of e p s] by (auto simp: calm_def fault_port_def Let_def)

lemma fmon_edge:
  "fmon (soc_edge e p s) =
     (if core_asleep s then fmon s else fault_edge (fault_port e p s) (fmon s))"
  by (simp add: soc_edge_def controllers_edge_def csr_block_write_def Let_def)

lemma shows_code_edge:
  assumes "quiet_env e" and "\<not> (core_csr_wr_en p \<and> core_csr_addr p = 0x7CD)" and "shows_code c s"
  shows "shows_code c (soc_edge e p s)"
proof -
  note calm = quiet_calm [OF assms(1,2), of s]
  have off: "watchdog_off (fmon s)" and code: "latched_error_code (fmon s) = c"
    using assms(3) by (simp_all add: shows_code_def)
  show ?thesis
    using calm_edge [OF calm off] edge_status [of "fault_port e p s" "fmon s"] assms(3) code
      no_source_status [OF quiet_no_source [OF assms(1)], of p s "fmon s"]
    by (simp add: shows_code_def fmon_edge)
qed

lemma shows_code_read:
  assumes "quiet_env e" and "shows_code c s"
  shows "soc_csr_read e 0x7CC s = ucast c"
proof -
  have "f_csr_addr (fault_port e (rd_port 0x7CC) s) = 0x7CC"
    by (simp add: fault_port_def Let_def)
  then show ?thesis
    using no_source_read [OF quiet_no_source [OF assms(1)]] assms(2)
    by (simp add: soc_csr_read_def shows_code_def)
qed

text \<open>The boot ROM as the memory of a chip that shows a code: the contract for \<open>xcew_nvm_read\<close>.\<close>

lemma rom_shows_code:
  assumes "\<And>n. quiet_env (env n)"
  shows "bus_memory (soc_bus env) (\<lambda>s. ar_grant_master (dmem s) \<and> shows_code c s) rom_word"
  by unfold_locales (simp_all add: bus_simps granted_load soc_edge_grant shows_code_edge assms)

section \<open>A core that stays awake\<close>

definition busy_env :: "env_in \<Rightarrow> bool" where
  "busy_env e \<longleftrightarrow> bit (e_activity e) 0"

definition awake :: "soc \<Rightarrow> bool" where
  "awake s \<longleftrightarrow> current_tile_state (tiles (orch s) ! 0) = STATE_RUN \<and> \<not> core_asleep s"

lemma orch_edge:
  "orch (soc_edge e p s) = (if core_asleep s then orch s else pwr_edge (pwr_port e p s) (orch s))"
  by (simp add: soc_edge_def controllers_edge_def csr_block_write_def Let_def)

lemma awake_edge: "busy_env e \<Longrightarrow> awake s \<Longrightarrow> awake (soc_edge e p s)"
  by (simp add: awake_def core_asleep_def orch_edge tile_pwr_edge tile_edge_def busy_env_def pwr_port_def
      split: if_splits)

lemma asleep_edge: "core_asleep s \<Longrightarrow> core_asleep (soc_edge e p s)"
  by (simp add: core_asleep_def orch_edge)

lemma dmem_edge:
  "dmem (soc_edge e p s) = (if core_asleep s then dmem s else mem_edge (core_mem p) (dmem s))"
  by (simp add: soc_edge_def controllers_edge_def csr_block_write_def Let_def)

lemma poldet_edge:
  "poldet (soc_edge e p s) = (if core_asleep s then poldet s else pol_edge (pol_port p s) (poldet s))"
  by (simp add: soc_edge_def controllers_edge_def csr_block_write_def Let_def)

lemma bias_edge_soc:
  "bias (soc_edge e p s) = (if core_asleep s then bias s else bias_edge (bias_port p) (bias s))"
  by (simp add: soc_edge_def controllers_edge_def csr_block_write_def Let_def)

section \<open>The SNN fields of \<open>snn_ctrl_ext\<close>\<close>

definition snn_ttfs_enable_int :: "soc \<Rightarrow> bool" where
  "snn_ttfs_enable_int s \<longleftrightarrow> v1_1_en s \<and> bit (csr_snn_ctrl_ext s) 7"
definition snn_t_window_int :: "soc \<Rightarrow> u32" where
  "snn_t_window_int s = bitsel 10 8 (csr_snn_ctrl_ext s)"
definition snn_refractory_cycles_int :: "soc \<Rightarrow> u32" where
  "snn_refractory_cycles_int s = bitsel 14 12 (csr_snn_ctrl_ext s)"
definition snn_stdp_policy_int :: "soc \<Rightarrow> u32" where
  "snn_stdp_policy_int s = bitsel 19 16 (csr_snn_ctrl_ext s)"
definition snn_stdp_enable_int :: "soc \<Rightarrow> bool" where
  "snn_stdp_enable_int s \<longleftrightarrow> v1_1_en s \<and> bit (csr_snn_ctrl_ext s) 20"
definition snn_learning_enable_int :: "soc \<Rightarrow> bool" where
  "snn_learning_enable_int s \<longleftrightarrow> v1_1_en s \<and> bit (csr_snn_ctrl_ext s) 21"

lemmas snn_fields =
  snn_ttfs_enable_int_def snn_t_window_int_def snn_refractory_cycles_int_def
  snn_stdp_policy_int_def snn_stdp_enable_int_def snn_learning_enable_int_def

section \<open>Properties\<close>

text \<open>The fault code of each source. On an edge of an awake core with the watchdog at rest a
  corrected NVM error latches ECC_SINGLE, an uncorrected one ECC_DOUBLE and an EML exception
  SOFT_EML, in this order of precedence; without any of them the code stays.\<close>

lemma fault_codes_of_sources:
  assumes "\<not> core_asleep s" and "watchdog_off (fmon s)" and "\<not> fault_undriven e"
  shows "latched_error_code (fmon (soc_edge e p s)) =
    (if nvm_single_err e then ERR_ECC_SINGLE
     else if nvm_double_err e then ERR_ECC_DOUBLE
     else if eml_exc e then ERR_SOFT_EML else latched_error_code (fmon s))"
proof -
  have b: "bit (6 :: 4 word) 1"
    by code_simp
  show ?thesis
    using assms b
    by (simp add: fmon_edge edge_code fault_event_def fault_code_def fault_port_def soft_or_hard_def
        watchdog_off_def Let_def)
qed

text \<open>A core that has gone to sleep never wakes. \<open>clk_core_gated\<close> stops with the core tile, and
  it clocks the power controller too, so from then on no interrupt, wake request or access
  changes the tiles, the fault monitor, the policy unit or the memory.\<close>

lemma core_sleep_is_final:
  assumes "core_asleep s"
  shows "let s' = fold (\<lambda>(e, p). soc_edge e p) eps s
    in core_asleep s' \<and> orch s' = orch s \<and> fmon s' = fmon s \<and> poldet s' = poldet s \<and> dmem s' = dmem s"
proof -
  have "core_asleep s \<Longrightarrow> (let s' = fold (\<lambda>(e, p). soc_edge e p) eps s
    in core_asleep s' \<and> orch s' = orch s \<and> fmon s' = fmon s \<and> poldet s' = poldet s \<and> dmem s' = dmem s)" for s
  proof (induction eps arbitrary: s)
    case (Cons ep eps)
    obtain e p where "ep = (e, p)"
      by fastforce
    then show ?case
      using Cons.IH [of "soc_edge e p s"] Cons.prems asleep_edge [of s e p]
      by (simp add: orch_edge fmon_edge poldet_edge dmem_edge)
  qed simp
  then show ?thesis
    using assms .
qed

text \<open>An environment for examples: nothing is active and no error is raised.\<close>

definition idle_env :: env_in where
  "idle_env = \<lparr>nvm_single_err = False, nvm_double_err = False, eml_exc = False,
     fault_undriven = False, eml_active = False, snn_active = False, nvm_active = False,
     e_activity = 0, e_wake = 0, eml_stage = 0, nvm_busy = False,
     unit_result = (\<lambda>_ _ _. 0)\<rparr>"

definition off_bias :: bias_state where
  "off_bias = \<lparr>bias_code_reg = 0, dac_output = 0, cal_en_reg = False, target_bias_code = 0,
     leakage_ready_reg = False, min_leakage_code = 0, min_leakage_value = 0, current_leakage = 0,
     measurement_timer = 0, pb_bias_out = 0, nb_bias_out = 0, cal_state = CAL_IDLE,
     next_cal_state = CAL_IDLE\<rparr>"

definition idle_soc :: soc where
  "idle_soc = soc_reset (\<lambda>_. 0) off_bias"

lemma idle_soc_simps [simp]:
  "v1_1_en idle_soc" "csr_xcew_cfg idle_soc = 0" "\<not> core_asleep idle_soc" "edges idle_soc = 0"
  "watchdog_off (fmon idle_soc)" "shows_code 0 idle_soc" "poldet idle_soc = pol_reset"
  "dmem idle_soc = mem_reset (\<lambda>_. 0)" "awake idle_soc"
  by (simp_all add: idle_soc_def soc_reset_def core_asleep_def pwr_reset_def tile_reset_def
      fault_reset_def watchdog_off_def shows_code_def awake_def)

lemma idle_env_simps [simp]: "quiet_env idle_env" "quiet_env (idle_env\<lparr>e_activity := a\<rparr>)"
  by (simp_all add: quiet_env_def idle_env_def)

end
