(* ===== verification/Rtl_Eml_Cache.thy ===== *)
theory Rtl_Eml_Cache
  imports Azmuth_Prelude
begin

text \<open>
  \<open>rtl/eml/eml_dag_cache.v\<close>: the cache of EML results, 64 sets of 4 ways, and its list of pending
  subexpressions. The arrays are functions of the index; \<open>cache_tags\<close> and \<open>cache_data\<close> are not
  reset, so they are an argument of the state after reset. In the clocked block \<open>lru_counters\<close> is
  written by blocking assignments of the task \<open>update_lru\<close> (the new value is seen by the rest of the
  edge) and every other register by non-blocking ones (the old value is, and the last one counts).
\<close>

record cache_in =
  c_enable :: bool
  dag_mode :: bool
  expr_hash_in :: u32
  expr_result_in :: u32
  expr_valid_in :: bool
  expr_compute_done :: bool
  subexpr_hash :: u32
  subexpr_valid :: bool

record cache_state =
  cache_tags :: "nat \<Rightarrow> u8"
  cache_data :: "nat \<Rightarrow> u32"
  lru_counters :: "u6 \<Rightarrow> u2"
  cache_hit :: bool
  cache_miss :: bool
  cached_result :: u32
  alloc_addr :: u32
  pending_subexpr :: "nat \<Rightarrow> u32"
  pending_age :: "nat \<Rightarrow> u4"
  pending_count :: u4
  subexpr_cached :: bool
  subexpr_result :: u32

definition rtl_compress_hash :: "u32 \<Rightarrow> u8" where
  "rtl_compress_hash h =
     ucast (bitsel 7 0 h) XOR ucast (bitsel 15 8 h) XOR ucast (bitsel 23 16 h) XOR ucast (bitsel 31 24 h)"

definition set_of :: "u32 \<Rightarrow> u6" where
  "set_of h = ucast (bitsel 5 0 h)"

definition slot :: "u6 \<Rightarrow> nat \<Rightarrow> nat" where
  "slot idx way = unat idx * 4 + way"

definition update_lru :: "u6 \<Rightarrow> nat \<Rightarrow> (u6 \<Rightarrow> u2) \<Rightarrow> u6 \<Rightarrow> u2" where
  "update_lru idx way lru =
     lru(idx := (if way = 0 then 1 else if way = 1 then 0 else if way = 2 then 3 else 2))"

definition way_matches :: "cache_state \<Rightarrow> u32 \<Rightarrow> nat \<Rightarrow> bool" where
  "way_matches s h i \<longleftrightarrow>
     cache_tags s (slot (set_of h) i) = rtl_compress_hash h \<and> cache_data s (slot (set_of h) i) \<noteq> 0"

text \<open>The loop with \<open>hit_found\<close>: the first way that matches.\<close>

definition find_way :: "cache_state \<Rightarrow> u32 \<Rightarrow> nat option" where
  "find_way s h = List.find (way_matches s h) [0, 1, 2, 3]"

definition cache_lookup :: "cache_in \<Rightarrow> cache_state \<Rightarrow> cache_state" where
  "cache_lookup c s =
     (let h = expr_hash_in c; idx = set_of h
      in case find_way s h of
           Some w \<Rightarrow>
             s\<lparr>cache_hit := True, cache_miss := False, cached_result := cache_data s (slot idx w),
               lru_counters := update_lru idx w (lru_counters s)\<rparr>
         | None \<Rightarrow>
             let way = unat (lru_counters s idx);
                 s1 = s\<lparr>cache_hit := False, cache_miss := True,
                        alloc_addr := (push_bit 2 (ucast idx) OR ucast (lru_counters s idx))\<rparr>
             in if expr_valid_in c \<and> expr_compute_done c
                then s1\<lparr>cache_tags := (cache_tags s)(slot idx way := rtl_compress_hash h),
                        cache_data := (cache_data s)(slot idx way := expr_result_in c),
                        lru_counters := update_lru idx way (lru_counters s)\<rparr>
                else s1)"

text \<open>The subexpression: every matching way is visited unless the flag was set before the edge, and
  the last one gives the result.\<close>

definition subexpr_ways :: "cache_in \<Rightarrow> cache_state \<Rightarrow> nat list" where
  "subexpr_ways c s =
     (if subexpr_valid c \<and> \<not> subexpr_cached s
      then filter (way_matches s (subexpr_hash c)) [0, 1, 2, 3] else [])"

definition adds_pending :: "cache_in \<Rightarrow> cache_state \<Rightarrow> bool" where
  "adds_pending c s \<longleftrightarrow> subexpr_valid c \<and> \<not> subexpr_cached s"

text \<open>Ages: the increment of the aging loop comes after the reset of a new entry and wins. \<open>4'hF\<close> is
  the greatest age, and the count is below 16 because it has 4 bits.\<close>

definition next_age :: "cache_in \<Rightarrow> cache_state \<Rightarrow> nat \<Rightarrow> u4" where
  "next_age c s i =
     (if pending_age s i < 0xF then pending_age s i + 1
      else if adds_pending c s \<and> i = unat (pending_count s) then 0 else pending_age s i)"

definition next_count :: "cache_in \<Rightarrow> cache_state \<Rightarrow> u4" where
  "next_count c s =
     (if \<exists>i \<in> set [0..<16]. \<not> pending_age s i < 0xF \<and> i < unat (pending_count s)
      then pending_count s - 1
      else if adds_pending c s then pending_count s + 1 else pending_count s)"

definition cache_edge :: "cache_in \<Rightarrow> cache_state \<Rightarrow> cache_state" where
  "cache_edge c s =
     (if c_enable c \<and> dag_mode c then
        let s1 = cache_lookup c s; ways = subexpr_ways c s
        in s1\<lparr>subexpr_cached := (ways \<noteq> []),
              subexpr_result :=
                (if ways = [] then subexpr_result s
                 else cache_data s (slot (set_of (subexpr_hash c)) (last ways))),
              lru_counters := fold (update_lru (set_of (subexpr_hash c))) ways (lru_counters s1),
              pending_subexpr :=
                (if adds_pending c s then (pending_subexpr s)(unat (pending_count s) := subexpr_hash c)
                 else pending_subexpr s),
              pending_age := next_age c s,
              pending_count := next_count c s\<rparr>
      else s\<lparr>cache_hit := False, cache_miss := False, subexpr_cached := False\<rparr>)"

text \<open>Reset: the arrays \<open>t\<close> and \<open>d\<close> stay, as do the two subexpression outputs.\<close>

definition cache_reset :: "cache_state \<Rightarrow> cache_state" where
  "cache_reset s =
     s\<lparr>lru_counters := \<lambda>_. 0, cache_hit := False, cache_miss := False, cached_result := 0,
       alloc_addr := 0, pending_subexpr := \<lambda>_. 0, pending_age := \<lambda>_. 0, pending_count := 0\<rparr>"

section \<open>Lemmas\<close>

lemma slot_inject: "i < 4 \<Longrightarrow> j < 4 \<Longrightarrow> slot a i = slot b j \<longleftrightarrow> a = b \<and> i = j"
proof -
  assume "i < 4" "j < 4"
  then have "slot a i div 4 = unat a" "slot a i mod 4 = i" "slot b j div 4 = unat b" "slot b j mod 4 = j"
    by (simp_all add: slot_def)
  then show ?thesis
    by (metis word_unat_eq_iff)
qed

lemma find_way_Some:
  assumes "find_way s h = Some w"
  shows "w < 4 \<and> way_matches s h w"
proof -
  have "way_matches s h w" "w \<in> set [0, 1, 2, 3]"
    using assms unfolding find_way_def find_Some_iff by (metis nth_mem)+
  then show ?thesis
    by auto
qed

lemma find_way_None: "find_way s h = None \<longleftrightarrow> (\<forall>i < 4. \<not> way_matches s h i)"
  by (auto simp: find_way_def find_None_iff less_Suc_eq numeral_eq_Suc)

lemma way_less [simp]: "unat (w :: u2) < 4"
  using unsigned_less [of w, where ?'a = nat] by simp

lemma cache_edge_active [simp]:
  assumes "c_enable c" and "dag_mode c"
  shows "cache_hit (cache_edge c s) = cache_hit (cache_lookup c s)"
    and "cached_result (cache_edge c s) = cached_result (cache_lookup c s)"
    and "cache_tags (cache_edge c s) = cache_tags (cache_lookup c s)"
    and "cache_data (cache_edge c s) = cache_data (cache_lookup c s)"
  using assms by (simp_all add: cache_edge_def Let_def)

lemma cache_hit_lookup:
  "cache_hit (cache_lookup c s) \<longleftrightarrow> find_way s (expr_hash_in c) \<noteq> None"
  by (auto simp: cache_lookup_def Let_def split: option.split)

text \<open>A miss that stores: the way it takes holds the new entry, and no other way of any set changes.\<close>

lemma lookup_store:
  assumes "find_way s (expr_hash_in c) = None" and "expr_valid_in c" and "expr_compute_done c"
  shows "cache_tags (cache_lookup c s) =
      (cache_tags s)(slot (set_of (expr_hash_in c)) (unat (lru_counters s (set_of (expr_hash_in c)))) :=
         rtl_compress_hash (expr_hash_in c))"
    and "cache_data (cache_lookup c s) =
      (cache_data s)(slot (set_of (expr_hash_in c)) (unat (lru_counters s (set_of (expr_hash_in c)))) :=
         expr_result_in c)"
  using assms by (simp_all add: cache_lookup_def Let_def)

lemma find_after_store:
  assumes miss: "find_way s h = None" and r: "r \<noteq> 0"
    and t: "cache_tags s' = (cache_tags s)(slot (set_of h) w := rtl_compress_hash h)"
    and d: "cache_data s' = (cache_data s)(slot (set_of h) w := r)"
    and w: "w < 4" and same: "set_of h' = set_of h" "rtl_compress_hash h' = rtl_compress_hash h"
  shows "find_way s' h' = Some w"
proof -
  have m: "way_matches s' h' i \<longleftrightarrow> i = w" if "i < 4" for i
    using miss that w r by (auto simp: find_way_None way_matches_def t d same slot_inject)
  then have "find_way s' h' \<noteq> None"
    using w by (auto simp: find_way_None)
  then obtain v where "find_way s' h' = Some v"
    by blast
  then show ?thesis
    using m find_way_Some by blast
qed

lemma confused:
  "set_of (h XOR 0x01010000) = set_of h" "rtl_compress_hash (h XOR 0x01010000) = rtl_compress_hash h"
proof -
  have m: "(0x01010000 :: u32) = push_bit 16 1 OR push_bit 24 1"
    by simp
  have b: "bit (0x01010000 :: u32) n \<longleftrightarrow> n = 16 \<or> n = 24" for n
    unfolding m bit_or_iff bit_one_shift by auto
  show "set_of (h XOR 0x01010000) = set_of h"
  proof (rule bit_word_eqI)
    fix n assume "n < LENGTH(6)"
    then show "bit (set_of (h XOR 0x01010000)) n \<longleftrightarrow> bit (set_of h) n"
      unfolding set_of_def bit_unsigned_iff bit_bitsel bit_xor_iff b by auto
  qed
  show "rtl_compress_hash (h XOR 0x01010000) = rtl_compress_hash h"
  proof (rule u8_eqI)
    fix n :: nat assume "n < 8"
    then show "bit (rtl_compress_hash (h XOR 0x01010000)) n \<longleftrightarrow> bit (rtl_compress_hash h) n"
      unfolding rtl_compress_hash_def bit_xor_iff bit_unsigned_iff bit_bitsel b by auto
  qed
qed

text \<open>Ways 2 and 3 of every set are empty and the counters never choose them.\<close>

definition lower_ways :: "cache_state \<Rightarrow> bool" where
  "lower_ways s \<longleftrightarrow> (\<forall>idx. (lru_counters s idx = 0 \<or> lru_counters s idx = 1) \<and>
     cache_data s (slot idx 2) = 0 \<and> cache_data s (slot idx 3) = 0)"

lemma lower_ways_match: "lower_ways s \<Longrightarrow> i < 4 \<Longrightarrow> way_matches s h i \<Longrightarrow> i = 0 \<or> i = 1"
proof -
  assume s: "lower_ways s" and "i < 4" and "way_matches s h i"
  then have "cache_data s (slot (set_of h) i) \<noteq> 0" "i = 0 \<or> i = 1 \<or> i = 2 \<or> i = 3"
    by (auto simp: way_matches_def)
  then show ?thesis
    using s unfolding lower_ways_def by metis
qed

lemma update_lru_lower:
  "\<forall>k. lru k = 0 \<or> lru k = 1 \<Longrightarrow> w = 0 \<or> w = 1 \<Longrightarrow> \<forall>k. update_lru idx w lru k = 0 \<or> update_lru idx w lru k = 1"
  by (auto simp: update_lru_def)

lemma lower_ways_lookup:
  assumes "lower_ways s"
  shows "lower_ways (cache_lookup c s)"
proof (cases "find_way s (expr_hash_in c)")
  case None
  define idx where "idx = set_of (expr_hash_in c)"
  have "lru_counters s idx = 0 \<or> lru_counters s idx = 1"
    using assms unfolding lower_ways_def by blast
  then have "unat (lru_counters s idx) = 0 \<or> unat (lru_counters s idx) = 1"
    by auto
  then show ?thesis
    using assms None update_lru_lower [of "lru_counters s" "unat (lru_counters s idx)" idx]
    by (auto simp: lower_ways_def cache_lookup_def Let_def idx_def [symmetric] slot_inject)
next
  case (Some w)
  then have "w = 0 \<or> w = 1"
    using find_way_Some lower_ways_match [OF assms] by blast
  then show ?thesis
    using assms Some update_lru_lower [of "lru_counters s" w "set_of (expr_hash_in c)"]
    by (auto simp: lower_ways_def cache_lookup_def Let_def)
qed

lemma lower_ways_edge:
  assumes s: "lower_ways s"
  shows "lower_ways (cache_edge c s)"
proof (cases "c_enable c \<and> dag_mode c")
  case True
  define s1 where "s1 = cache_lookup c s"
  have s1: "lower_ways s1"
    using s lower_ways_lookup by (simp add: s1_def)
  have ways: "w = 0 \<or> w = 1" if "w \<in> set (subexpr_ways c s)" for w
    using that lower_ways_match [OF s, of w] by (auto simp: subexpr_ways_def split: if_splits)
  have "\<forall>k. fold (update_lru idx) ws lru k = 0 \<or> fold (update_lru idx) ws lru k = 1"
    if "\<forall>k. lru k = 0 \<or> lru k = 1" "\<forall>w \<in> set ws. w = 0 \<or> w = 1" for ws lru and idx :: u6
    using that by (induction ws arbitrary: lru) (simp_all add: update_lru_lower)
  then have "\<forall>k. lru_counters (cache_edge c s) k = 0 \<or> lru_counters (cache_edge c s) k = 1"
    using True s1 ways by (simp add: cache_edge_def Let_def s1_def [symmetric] lower_ways_def)
  then show ?thesis
    using True s1 by (simp add: lower_ways_def s1_def)
next
  case False
  then have "cache_edge c s = s\<lparr>cache_hit := False, cache_miss := False, subexpr_cached := False\<rparr>"
    by (simp only: cache_edge_def if_False)
  then show ?thesis
    using s by (simp add: lower_ways_def)
qed

text \<open>An empty cache, for examples.\<close>

definition empty_cache :: cache_state where
  "empty_cache = \<lparr>cache_tags = \<lambda>_. 0, cache_data = \<lambda>_. 0, lru_counters = \<lambda>_. 0, cache_hit = False,
     cache_miss = False, cached_result = 0, alloc_addr = 0, pending_subexpr = \<lambda>_. 0,
     pending_age = \<lambda>_. 0, pending_count = 0, subexpr_cached = False, subexpr_result = 0\<rparr>"

section \<open>Properties\<close>

text \<open>C39: What a miss stores is found again, by more than its own hash. After an edge on which the
  cache misses \<open>h\<close> and stores the result \<open>r\<close>, not 0, a lookup of any hash with the same low six bits
  and the same folded tag hits and returns \<open>r\<close>: so \<open>h\<close> itself is found, and also the hash that differs
  from \<open>h\<close> in bits 16 and 24, although it belongs to another expression.\<close>

theorem cache_finds_and_confuses:
  assumes "c_enable c" and "dag_mode c" and "find_way s (expr_hash_in c) = None"
    and "expr_valid_in c" and "expr_compute_done c" and "expr_result_in c \<noteq> 0"
    and "c_enable c'" and "dag_mode c'"
    and "expr_hash_in c' = expr_hash_in c \<or> expr_hash_in c' = expr_hash_in c XOR 0x01010000"
  shows "cache_hit (cache_edge c' (cache_edge c s)) \<and>
    cached_result (cache_edge c' (cache_edge c s)) = expr_result_in c"
proof -
  define w where "w = unat (lru_counters s (set_of (expr_hash_in c)))"
  have same: "set_of (expr_hash_in c') = set_of (expr_hash_in c)"
    "rtl_compress_hash (expr_hash_in c') = rtl_compress_hash (expr_hash_in c)"
    using assms(9) confused by auto
  have d: "cache_data (cache_edge c s) = (cache_data s)(slot (set_of (expr_hash_in c)) w := expr_result_in c)"
    using assms(1-5) lookup_store by (simp add: w_def)
  have "find_way (cache_edge c s) (expr_hash_in c') = Some w"
    by (rule find_after_store [OF assms(3,6)])
      (use assms(1-5) lookup_store d same in \<open>simp_all add: w_def\<close>)
  then show ?thesis
    using assms(7,8) same d by (simp add: cache_lookup_def Let_def)
qed

theorem cache_finds_and_confuses_witness:
  "cached_result (cache_edge
      \<lparr>c_enable = True, dag_mode = True, expr_hash_in = 0x01010005, expr_result_in = 0,
       expr_valid_in = False, expr_compute_done = False, subexpr_hash = 0, subexpr_valid = False\<rparr>
     (cache_edge
      \<lparr>c_enable = True, dag_mode = True, expr_hash_in = 5, expr_result_in = 42,
       expr_valid_in = True, expr_compute_done = True, subexpr_hash = 0, subexpr_valid = False\<rparr>
      empty_cache)) = 42"
  using cache_finds_and_confuses
    [of "\<lparr>c_enable = True, dag_mode = True, expr_hash_in = 5, expr_result_in = 42,
       expr_valid_in = True, expr_compute_done = True, subexpr_hash = 0, subexpr_valid = False\<rparr>"
       empty_cache
       "\<lparr>c_enable = True, dag_mode = True, expr_hash_in = 0x01010005, expr_result_in = 0,
       expr_valid_in = False, expr_compute_done = False, subexpr_hash = 0, subexpr_valid = False\<rparr>"]
  by (simp add: find_way_None way_matches_def empty_cache_def)

text \<open>Half of the cache is never used. When the entries of ways 2 and 3 hold 0 after reset, every
  sequence of edges keeps it so: the replacement counter of a set only alternates between ways 0
  and 1, so the 4-way cache of 256 entries holds at most 128 results.\<close>

lemma upper_ways_unused:
  assumes "\<And>idx. cache_data s (slot idx 2) = 0 \<and> cache_data s (slot idx 3) = 0"
  shows "let s' = fold cache_edge cs (cache_reset s)
    in (lru_counters s' idx = 0 \<or> lru_counters s' idx = 1) \<and>
      cache_data s' (slot idx 2) = 0 \<and> cache_data s' (slot idx 3) = 0"
proof -
  have "lower_ways (cache_reset s)"
    using assms by (simp add: lower_ways_def cache_reset_def)
  then have "lower_ways (fold cache_edge cs (cache_reset s))"
    by (induction cs arbitrary: s rule: rev_induct) (simp_all add: lower_ways_edge)
  then show ?thesis
    by (simp add: lower_ways_def Let_def)
qed

text \<open>The reset keeps tags and data, so results survive it; and a result of 0 is never found.\<close>

lemma reset_keeps_results:
  "cache_tags (cache_reset s) = cache_tags s \<and> cache_data (cache_reset s) = cache_data s \<and>
   find_way (cache_reset s) h = find_way s h"
  by (simp add: cache_reset_def find_way_def way_matches_def [abs_def])

lemma zero_result_misses: "(\<And>w. cache_data s (slot (set_of h) w) = 0) \<Longrightarrow> find_way s h = None"
  by (simp add: find_way_None way_matches_def)

text \<open>A subexpression that the cache holds is put on the pending list all the same.\<close>

lemma cached_subexpr_is_pending:
  assumes "c_enable c" and "dag_mode c" and "subexpr_valid c" and "\<not> subexpr_cached s"
    and "way_matches s (subexpr_hash c) 0"
  shows "subexpr_cached (cache_edge c s) \<and>
    pending_subexpr (cache_edge c s) (unat (pending_count s)) = subexpr_hash c"
  using assms by (simp add: cache_edge_def Let_def subexpr_ways_def adds_pending_def)

end
