(* ===== verification/Rtl_Eml_Ct.thy ===== *)
theory Rtl_Eml_Ct
  imports Azmuth_Prelude
begin

text \<open>
  The constant-time EML unit, module \<open>eml_constant_time\<close> of \<open>rtl/eml/eml_constant_time.v\<close>. The
  registers \<open>valid_in_reg\<close>, \<open>op_count_reg\<close> and \<open>next_state\<close>, which nothing reads, and the input
  \<open>timing_var_en\<close> are left out, as is the module \<open>ct_mux\<close>, which nothing instantiates.
\<close>

datatype ct_phase = CT_IDLE | CT_EXECUTE | CT_PAD | CT_FINALIZE | CT_STALL_BRANCH

record ct_in =
  ct_rs1 :: u32
  ct_rs2 :: u32
  ct_cfg :: u32
  ct_valid_in :: bool
  ct_csr_addr :: u12
  ct_csr_wr_en :: bool
  ct_csr_wr_data :: u32
  const_time_en :: bool

record ct_state =
  ct_phase :: ct_phase
  rs1_reg :: u32
  rs2_reg :: u32
  cfg_reg :: u32
  operation :: u8
  result_reg :: u32
  ct_cycle_counter :: u16
  target_cycles :: u16
  current_op_cycles :: u16
  padding_cycles :: u16
  intermediate_result :: u32
  sec_ctrl_reg :: u32
  ready_out :: bool
  valid_out :: bool
  ready_in :: bool
  exc :: bool
  stall_pipeline :: bool

definition OP_NOP :: u8 where "OP_NOP = 0"
definition OP_EXP :: u8 where "OP_EXP = 1"
definition OP_LN :: u8 where "OP_LN = 2"
definition OP_SUB :: u8 where "OP_SUB = 3"
definition OP_MUL :: u8 where "OP_MUL = 4"
definition OP_ADD :: u8 where "OP_ADD = 5"
definition OP_DIV :: u8 where "OP_DIV = 6"

lemmas ct_ops = OP_NOP_def OP_EXP_def OP_LN_def OP_SUB_def OP_MUL_def OP_ADD_def OP_DIV_def

definition fixed_cycles :: "u8 \<Rightarrow> u16" where
  "fixed_cycles op =
     (if op = OP_EXP then 30 else if op = OP_LN then 25 else if op = OP_MUL then 15
      else if op = OP_DIV then 40 else 5)"

definition approximate_exp :: "u32 \<Rightarrow> u32" where
  "approximate_exp x = 0x3F800000 + x"

definition approximate_ln :: "u32 \<Rightarrow> u32" where
  "approximate_ln x = (if x \<le> 0 then 0x80000000 else x - 0x3F800000)"

definition detect_branch_cut :: "u32 \<Rightarrow> u32 \<Rightarrow> u32 \<Rightarrow> bool" where
  "detect_branch_cut op1 op2 cfg \<longleftrightarrow> bit cfg 0 \<and> bit op1 31 \<noteq> bit op2 31"

definition ct_result :: "u8 \<Rightarrow> u32 \<Rightarrow> u32 \<Rightarrow> u32" where
  "ct_result op a b =
     (if op = OP_NOP then 0 else if op = OP_EXP then approximate_exp a
      else if op = OP_LN then approximate_ln a else if op = OP_SUB then a - b
      else if op = OP_MUL then a * b else if op = OP_ADD then a + b
      else if op = OP_DIV then (if b \<noteq> 0 then a div b else 0xFFFFFFFF) else a)"

definition op_cycles :: "u8 \<Rightarrow> u16" where
  "op_cycles op = (if op = OP_NOP then 1 else fixed_cycles op)"

definition ct_execute :: "ct_in \<Rightarrow> ct_state \<Rightarrow> ct_state \<Rightarrow> ct_state" where
  "ct_execute i s r =
     (let r1 = r\<lparr>result_reg := ct_result (operation s) (rs1_reg s) (rs2_reg s),
                 current_op_cycles := op_cycles (operation s),
                 exc := (if operation s = OP_DIV \<and> rs2_reg s = 0 then True else exc s)\<rparr>
      in if const_time_en i
         then r1\<lparr>padding_cycles := (if 3 < target_cycles s then target_cycles s - 3 else 0), ct_phase := CT_PAD\<rparr>
         else r1\<lparr>ct_phase := CT_FINALIZE\<rparr>)"

definition ct_idle :: "ct_in \<Rightarrow> ct_state \<Rightarrow> ct_state \<Rightarrow> ct_state" where
  "ct_idle i s r =
     (let r1 = r\<lparr>ready_out := True\<rparr>
      in if ct_valid_in i \<and> const_time_en i
         then r1\<lparr>rs1_reg := ct_rs1 i, rs2_reg := ct_rs2 i, cfg_reg := ct_cfg i, ready_out := False,
                 operation := ucast (ct_cfg i), target_cycles := fixed_cycles (ucast (ct_cfg i)),
                 ct_cycle_counter := 1, ct_phase := CT_EXECUTE\<rparr>
         else if ct_valid_in i then r1\<lparr>ct_phase := CT_EXECUTE\<rparr> else r1)"

definition ct_step :: "ct_in \<Rightarrow> ct_state \<Rightarrow> ct_state" where
  "ct_step i s =
     (let r = (if ct_csr_wr_en i \<and> ct_csr_addr i = 0x7CA then s\<lparr>sec_ctrl_reg := ct_csr_wr_data i\<rparr> else s)
      in case ct_phase s of
           CT_IDLE \<Rightarrow> ct_idle i s r
         | CT_EXECUTE \<Rightarrow> ct_execute i s r
         | CT_PAD \<Rightarrow>
             (let r1 = r\<lparr>ct_cycle_counter := ct_cycle_counter s + 1,
                         intermediate_result := intermediate_result s + ucast (ct_cycle_counter s)\<rparr>
              in if padding_cycles s \<le> ct_cycle_counter s then r1\<lparr>ct_phase := CT_FINALIZE\<rparr> else r1)
         | CT_FINALIZE \<Rightarrow>
             (let r1 = r\<lparr>valid_out := True, stall_pipeline := False\<rparr>
              in if valid_out s \<and> ready_in s
                 then r1\<lparr>valid_out := False, ready_out := True, ct_phase := CT_IDLE, exc := False\<rparr>
                 else r1)
         | CT_STALL_BRANCH \<Rightarrow>
             (let r1 = r\<lparr>stall_pipeline := True, ct_cycle_counter := ct_cycle_counter s + 1\<rparr>
              in if 12 \<le> ct_cycle_counter s then r1\<lparr>stall_pipeline := False, ct_phase := CT_IDLE\<rparr> else r1))"

definition ct_edge :: "ct_in \<Rightarrow> ct_state \<Rightarrow> ct_state" where
  "ct_edge i s =
     (if const_time_en i \<and> detect_branch_cut (rs1_reg s) (rs2_reg s) (cfg_reg s)
      then (ct_step i s)\<lparr>ct_phase := CT_STALL_BRANCH, ct_cycle_counter := 0\<rparr>
      else ct_step i s)"

text \<open>The reset leaves the operation code.\<close>

definition ct_reset :: "ct_state \<Rightarrow> ct_state" where
  "ct_reset s =
     s\<lparr>ct_phase := CT_IDLE, rs1_reg := 0, rs2_reg := 0, cfg_reg := 0, result_reg := 0, ct_cycle_counter := 0,
       target_cycles := 5, current_op_cycles := 0, padding_cycles := 0, intermediate_result := 0,
       sec_ctrl_reg := 0, ready_out := True, valid_out := False, ready_in := True, exc := False,
       stall_pipeline := False\<rparr>"

section \<open>Timing does not depend on the operands\<close>

text \<open>What an observer of the timing sees of an input and of a state.\<close>

definition public_in :: "ct_in \<Rightarrow> u32 \<times> bool \<times> bool" where
  "public_in i = (ct_cfg i, ct_valid_in i, const_time_en i)"

definition public_out :: "ct_state \<Rightarrow> ct_phase \<times> bool \<times> bool \<times> bool" where
  "public_out s = (ct_phase s, ready_out s, valid_out s, stall_pipeline s)"

definition same_timing :: "ct_state \<Rightarrow> ct_state \<Rightarrow> bool" where
  "same_timing s t \<longleftrightarrow> public_out s = public_out t \<and> cfg_reg s = cfg_reg t \<and> \<not> bit (cfg_reg s) 0 \<and>
     operation s = operation t \<and> ct_cycle_counter s = ct_cycle_counter t \<and> target_cycles s = target_cycles t \<and>
     padding_cycles s = padding_cycles t \<and> ready_in s = ready_in t"

lemma same_timing_edge:
  assumes "same_timing s t" and "public_in i = public_in j" and "\<not> bit (ct_cfg i) 0"
  shows "same_timing (ct_edge i s) (ct_edge j t)"
proof -
  have "ct_edge i s = ct_step i s" "ct_edge j t = ct_step j t"
    using assms(1) by (auto simp: ct_edge_def same_timing_def detect_branch_cut_def)
  moreover have i: "ct_cfg j = ct_cfg i" "ct_valid_in j = ct_valid_in i" "const_time_en j = const_time_en i"
    using assms(2) by (simp_all add: public_in_def)
  moreover have t: "ct_phase t = ct_phase s" "ready_out t = ready_out s" "valid_out t = valid_out s"
    "stall_pipeline t = stall_pipeline s" "cfg_reg t = cfg_reg s" "operation t = operation s"
    "ct_cycle_counter t = ct_cycle_counter s" "target_cycles t = target_cycles s"
    "padding_cycles t = padding_cycles s" "ready_in t = ready_in s" "\<not> bit (cfg_reg s) 0"
    using assms(1) by (auto simp: same_timing_def public_out_def)
  ultimately show ?thesis
    using assms(3) by (cases "ct_phase s")
      (simp_all add: same_timing_def public_out_def ct_step_def ct_idle_def ct_execute_def Let_def)
qed

lemma same_timing_run:
  assumes "same_timing s t" and "map public_in is = map public_in js" and "\<forall>i \<in> set is. \<not> bit (ct_cfg i) 0"
  shows "same_timing (fold ct_edge is s) (fold ct_edge js t)"
  using assms
proof (induction "is" arbitrary: s t js)
  case (Cons i "is")
  then obtain j js' where "js = j # js'" "public_in i = public_in j" "map public_in is = map public_in js'"
    by (auto simp: map_eq_Cons_conv eq_commute)
  then show ?case
    using Cons same_timing_edge by simp
qed simp

text \<open>C30: Constant time. For configuration words whose bit 0 is clear, what an observer sees of the
  unit from reset on - its state, when it is ready, when a result is valid, when the pipeline is
  stalled - does not depend on the operands: two runs with the same configuration, requests and
  mode agree on it, whatever their operands.\<close>

theorem timing_independent_of_operands:
  assumes "map public_in is = map public_in js" and "\<forall>i \<in> set is. \<not> bit (ct_cfg i) 0"
    and "operation s = operation t"
  shows "public_out (fold ct_edge is (ct_reset s)) = public_out (fold ct_edge js (ct_reset t))"
proof -
  have "same_timing (ct_reset s) (ct_reset t)"
    using assms(3) by (simp add: same_timing_def public_out_def ct_reset_def)
  then show ?thesis
    using same_timing_run assms(1,2) unfolding same_timing_def by blast
qed

text \<open>A request to a unit at rest.\<close>

definition request :: "u32 \<Rightarrow> u32 \<Rightarrow> u32 \<Rightarrow> ct_in" where
  "request cfg a b = \<lparr>ct_rs1 = a, ct_rs2 = b, ct_cfg = cfg, ct_valid_in = True, ct_csr_addr = 0,
     ct_csr_wr_en = False, ct_csr_wr_data = 0, const_time_en = True\<rparr>"

definition ct_zero :: ct_state where
  "ct_zero = ct_reset \<lparr>ct_phase = CT_IDLE, rs1_reg = 0, rs2_reg = 0, cfg_reg = 0, operation = 0, result_reg = 0,
     ct_cycle_counter = 0, target_cycles = 0, current_op_cycles = 0, padding_cycles = 0,
     intermediate_result = 0, sec_ctrl_reg = 0, ready_out = True, valid_out = False, ready_in = True,
     exc = False, stall_pipeline = False\<rparr>"

theorem timing_independent_of_operands_witness:
  "public_out (fold ct_edge (replicate 16 (request 4 0 0)) (ct_reset ct_zero)) =
   public_out (fold ct_edge (replicate 16 (request 4 0x80000000 7)) (ct_reset ct_zero))"
  by (rule timing_independent_of_operands) (simp_all add: public_in_def request_def)

section \<open>Latency and result\<close>

lemma pad_run:
  assumes "ct_phase s = CT_PAD" and "\<not> bit (cfg_reg s) 0" and "unat (ct_cycle_counter s) + n = unat (padding_cycles s)"
    and "length is = Suc n"
  shows "ct_phase (fold ct_edge is s) = CT_FINALIZE \<and> valid_out (fold ct_edge is s) = valid_out s \<and>
    result_reg (fold ct_edge is s) = result_reg s \<and> ready_in (fold ct_edge is s) = ready_in s \<and>
    cfg_reg (fold ct_edge is s) = cfg_reg s"
  using assms
proof (induction n arbitrary: s "is")
  case 0
  then show ?case
    by (auto simp: length_Suc_conv ct_edge_def ct_step_def detect_branch_cut_def Let_def word_le_nat_alt
        split: if_splits)
next
  case (Suc n)
  then obtain i js where "is": "is = i # js" "length js = Suc n"
    by (auto simp: length_Suc_conv)
  define r where "r = ct_edge i s"
  have "unat (ct_cycle_counter s + 1) = Suc (unat (ct_cycle_counter s))"
    using Suc.prems(3) unsigned_less [of "padding_cycles s", where ?'a = nat]
    by (simp add: unat_add_lem [THEN iffD1])
  then have "ct_phase r = CT_PAD" "cfg_reg r = cfg_reg s" "padding_cycles r = padding_cycles s"
    "unat (ct_cycle_counter r) + n = unat (padding_cycles r)" "valid_out r = valid_out s"
    "result_reg r = result_reg s" "ready_in r = ready_in s"
    using Suc.prems(1-3) by (auto simp: r_def ct_edge_def ct_step_def detect_branch_cut_def Let_def word_le_nat_alt
        split: if_splits)
  then show ?case
    using Suc.IH [of r js] Suc.prems(2) "is" by (simp add: r_def)
qed

text \<open>The latency of a request by its operation code.\<close>

lemma fixed_cycles_bounds: "5 \<le> unat (fixed_cycles op)" "unat (fixed_cycles op) \<le> 40"
  by (simp_all add: fixed_cycles_def)

text \<open>A result after a fixed time. A unit that is ready and gets a request whose configuration has
  bit 0 clear shows, after exactly \<open>fixed_cycles\<close> edges, whatever comes in meanwhile, a valid result:
  the operation of the low byte of the configuration on the operands.\<close>

lemma fixed_time_result:
  assumes "ct_phase s = CT_IDLE" and "\<not> bit (cfg_reg s) 0" and "ready_in s" and "\<not> valid_out s"
    and "ct_valid_in i" and "const_time_en i" and "\<not> bit (ct_cfg i) 0"
    and "\<forall>j \<in> set is. const_time_en j" and "Suc (length is) = unat (fixed_cycles (ucast (ct_cfg i)))"
  shows "valid_out (fold ct_edge (i # is) s) \<and>
    result_reg (fold ct_edge (i # is) s) = ct_result (ucast (ct_cfg i)) (ct_rs1 i) (ct_rs2 i)"
proof -
  define f where "f = fixed_cycles (ucast (ct_cfg i))"
  have f: "5 \<le> unat f" "unat f \<le> 40" "unat (f - 3) = unat f - 3" "3 < f"
    using fixed_cycles_bounds [of "ucast (ct_cfg i)", folded f_def]
    by (simp_all add: unat_sub_if' word_le_nat_alt word_less_nat_alt)
  define s1 where "s1 = ct_edge i s"
  have s1: "ct_phase s1 = CT_EXECUTE" "\<not> bit (cfg_reg s1) 0" "rs1_reg s1 = ct_rs1 i" "rs2_reg s1 = ct_rs2 i"
    "operation s1 = ucast (ct_cfg i)" "target_cycles s1 = f" "ct_cycle_counter s1 = 1" "ready_in s1" "\<not> valid_out s1"
    using assms(1-7) by (auto simp: s1_def f_def ct_edge_def ct_step_def ct_idle_def detect_branch_cut_def Let_def)
  obtain j js k where "is": "is = j # js @ [k]" "length js = unat f - 3"
  proof -
    obtain j qs where q: "is = j # qs" "length qs = Suc (unat f - 3)"
      using assms(9) f(1) by (cases "is") (auto simp: f_def)
    then have "qs = butlast qs @ [last qs]" "length (butlast qs) = unat f - 3"
      by (cases "qs = []", simp_all)
    with q(1) show ?thesis
      by (intro that [of j "butlast qs" "last qs"]) simp_all
  qed
  define s2 where "s2 = ct_edge j s1"
  have s2: "ct_phase s2 = CT_PAD" "\<not> bit (cfg_reg s2) 0" "padding_cycles s2 = f - 3" "ct_cycle_counter s2 = 1"
    "result_reg s2 = ct_result (ucast (ct_cfg i)) (ct_rs1 i) (ct_rs2 i)" "ready_in s2" "\<not> valid_out s2"
    using s1 f(4) assms(8) "is"
    by (auto simp: s2_def ct_edge_def ct_step_def ct_execute_def detect_branch_cut_def Let_def)
  define s3 where "s3 = fold ct_edge js s2"
  have "ct_phase s3 = CT_FINALIZE" "\<not> bit (cfg_reg s3) 0" "\<not> valid_out s3"
    "result_reg s3 = ct_result (ucast (ct_cfg i)) (ct_rs1 i) (ct_rs2 i)"
    using pad_run [of s2 "unat f - 4" js] s2 f "is" by (simp_all add: s3_def)
  then have "valid_out (ct_edge k s3) \<and> result_reg (ct_edge k s3) = ct_result (ucast (ct_cfg i)) (ct_rs1 i) (ct_rs2 i)"
    by (auto simp: ct_edge_def ct_step_def detect_branch_cut_def Let_def)
  then show ?thesis
    by (simp add: "is" s3_def s2_def s1_def)
qed

section \<open>Branch cuts\<close>

definition stuck :: "ct_state \<Rightarrow> bool" where
  "stuck s \<longleftrightarrow> (ct_phase s = CT_EXECUTE \<or> ct_phase s = CT_STALL_BRANCH) \<and> \<not> valid_out s \<and>
     detect_branch_cut (rs1_reg s) (rs2_reg s) (cfg_reg s)"

lemma stuck_edge: "stuck s \<Longrightarrow> const_time_en i \<Longrightarrow> stuck (ct_edge i s)"
  by (auto simp: stuck_def ct_edge_def ct_step_def ct_execute_def Let_def split: if_splits)

lemma stuck_run: "stuck s \<Longrightarrow> \<forall>i \<in> set is. const_time_en i \<Longrightarrow> stuck (fold ct_edge is s)"
  by (induction "is" arbitrary: s) (simp_all add: stuck_edge)

text \<open>Operands of different sign hang the unit. When bit 0 of the configuration is set, as in the
  codes of EXP, SUB and ADD, a request whose operands differ in sign never gets a result as long as
  constant-time execution is on: the detected branch cut sets the stall counter back on every edge.\<close>

lemma branch_cut_hangs:
  assumes "ct_phase s = CT_IDLE" and "\<not> valid_out s" and "ct_valid_in i" and "const_time_en i"
    and "bit (ct_cfg i) 0" and "bit (ct_rs1 i) 31 \<noteq> bit (ct_rs2 i) 31" and "\<forall>j \<in> set is. const_time_en j"
  shows "\<not> valid_out (fold ct_edge (i # is) s)"
proof -
  have "stuck (ct_edge i s)"
    using assms(1-6) by (auto simp: stuck_def ct_edge_def ct_step_def ct_idle_def detect_branch_cut_def Let_def)
  then have "stuck (fold ct_edge (i # is) s)"
    using stuck_run assms(7) by simp
  then show ?thesis
    by (simp add: stuck_def)
qed

text \<open>Without constant-time execution a request does not store its operands: the unit computes again
  what it computed last.\<close>

lemma plain_mode_uses_old_operands:
  assumes "ct_phase s = CT_IDLE" and "ct_valid_in i" and "\<not> const_time_en i" and "\<not> const_time_en j"
  shows "result_reg (ct_edge j (ct_edge i s)) = ct_result (operation s) (rs1_reg s) (rs2_reg s)"
  using assms by (auto simp: ct_edge_def ct_step_def ct_idle_def ct_execute_def Let_def)

end
