(* ===== verification/Rtl_Stdp.thy ===== *)
theory Rtl_Stdp
  imports Azmuth_Prelude
begin

text \<open>
  The learning engine \<open>stdp_engine_v1_1\<close> of \<open>rtl/snn/stdp_engine_v1_1.v\<close>. The next state is a
  register, so every state lasts two edges. The 3-bit state register only holds the codes of
  \<open>stdp_phase\<close>: both registers are reset and written with these codes only.
\<close>

datatype stdp_phase = ST_IDLE | ST_WAIT_PAIR | ST_COMPUTE | ST_SATURATE | ST_DONE

record stdp_in =
  st_policy :: u4
  st_enable :: bool
  pre_spike :: bool
  post_spike :: bool
  pre_spike_time :: u32
  post_spike_time :: u32
  current_weight :: u8
  A_plus :: u32
  A_minus :: u32
  tau_plus :: u32
  tau_minus :: u32
  learning_enable :: bool

record stdp_state =
  st_state :: stdp_phase
  st_next :: stdp_phase
  delta_t :: u32
  st_value :: u32
  ltp_mode :: bool
  spike_detected :: bool
  weight_delta :: u8
  weight_updated :: bool
  updated_weight :: u8
  last_pre_time :: u32
  last_post_time :: u32

definition stdp_reset :: stdp_state where
  "stdp_reset = \<lparr>st_state = ST_IDLE, st_next = ST_IDLE, delta_t = 0, st_value = 0, ltp_mode = False,
     spike_detected = False, weight_delta = 0, weight_updated = False, updated_weight = 0,
     last_pre_time = 0, last_post_time = 0\<rparr>"

text \<open>\<open>STATE_IDLE\<close>: the assignment of \<open>STATE_WAIT_PAIR\<close> to \<open>next_state\<close> is overwritten by the one at
  the end of the branch.\<close>

definition stdp_idle :: "stdp_in \<Rightarrow> stdp_state \<Rightarrow> stdp_state \<Rightarrow> stdp_state" where
  "stdp_idle i s r =
     (let r0 = r\<lparr>weight_delta := 0\<rparr>;
          r1 = r0\<lparr>spike_detected := True, st_next := ST_COMPUTE\<rparr>
      in if pre_spike i \<and> post_spike i then
           (if last_post_time s \<le> pre_spike_time i
            then r1\<lparr>delta_t := pre_spike_time i - last_post_time s, ltp_mode := True\<rparr>
            else r1\<lparr>delta_t := last_post_time s - pre_spike_time i, ltp_mode := False\<rparr>)
         else if pre_spike i then
           (let r2 = r1\<lparr>last_pre_time := pre_spike_time i\<rparr>
            in if 0 < last_post_time s
               then r2\<lparr>delta_t := pre_spike_time i - last_post_time s, ltp_mode := True\<rparr> else r2)
         else if post_spike i then
           (let r2 = r1\<lparr>last_post_time := post_spike_time i\<rparr>
            in if 0 < last_pre_time s
               then r2\<lparr>delta_t := post_spike_time i - last_pre_time s, ltp_mode := False\<rparr> else r2)
         else r0)"

definition stdp_wait :: "stdp_in \<Rightarrow> stdp_state \<Rightarrow> stdp_state \<Rightarrow> stdp_state" where
  "stdp_wait i s r =
     (if pre_spike i \<and> spike_detected s then
        (let r1 = r\<lparr>last_pre_time := pre_spike_time i\<rparr>
         in if 0 < last_post_time s
            then r1\<lparr>delta_t := pre_spike_time i - last_post_time s, ltp_mode := True, st_next := ST_COMPUTE\<rparr>
            else r1)
      else if post_spike i \<and> spike_detected s then
        (let r1 = r\<lparr>last_post_time := post_spike_time i\<rparr>
         in if 0 < last_pre_time s
            then r1\<lparr>delta_t := post_spike_time i - last_pre_time s, ltp_mode := False, st_next := ST_COMPUTE\<rparr>
            else r1)
      else r)"

definition stdp_curve :: "u32 \<Rightarrow> u32 \<Rightarrow> u32 \<Rightarrow> u32" where
  "stdp_curve amp tau dt = (if 0 < tau \<and> 0 < dt then drop_bit (unat (bitsel 7 4 dt)) amp else amp)"

text \<open>The change of the weight by policy, from the low byte \<open>v\<close> of the curve; \<open>- v\<close> is \<open>~v + 1\<close>.\<close>

definition policy_delta :: "u4 \<Rightarrow> bool \<Rightarrow> u8 \<Rightarrow> u8" where
  "policy_delta p ltp v =
     (if p = 0 then 0
      else if p = 1 then (if ltp then v else NOT v + 1)
      else if p = 2 then (if ltp then NOT v + 1 else v)
      else if p = 3 then (if ltp then v else 0)
      else if p = 4 then (if ltp then 0 else NOT v + 1)
      else if p = 5 then drop_bit 1 v
      else (if ltp then v else NOT v + 1))"

text \<open>\<open>STATE_DONE\<close>. The unsized 0 makes the comparison of the negative case 32 bits wide.\<close>

definition apply_delta :: "u8 \<Rightarrow> u8 \<Rightarrow> u8" where
  "apply_delta cw wd =
     (if bit wd 7
      then (if (ucast cw :: u32) < 0 - ucast wd then 129 else cw - (wd AND 0x7F))
      else (if 127 - cw < wd then 127 else cw + wd))"

definition stdp_edge :: "stdp_in \<Rightarrow> stdp_state \<Rightarrow> stdp_state" where
  "stdp_edge i s =
     (let r = s\<lparr>weight_updated := False, spike_detected := False, st_state := st_next s\<rparr>
      in case st_state s of
           ST_IDLE \<Rightarrow> stdp_idle i s r
         | ST_WAIT_PAIR \<Rightarrow> stdp_wait i s r
         | ST_COMPUTE \<Rightarrow>
             if learning_enable i \<and> st_enable i
             then r\<lparr>st_value := (if ltp_mode s then stdp_curve (A_plus i) (tau_plus i) (delta_t s)
                                 else stdp_curve (A_minus i) (tau_minus i) (delta_t s)),
                    st_next := ST_SATURATE\<rparr>
             else r\<lparr>st_next := ST_IDLE\<rparr>
         | ST_SATURATE \<Rightarrow>
             r\<lparr>weight_delta := policy_delta (st_policy i) (ltp_mode s) (ucast (st_value s)), st_next := ST_DONE\<rparr>
         | ST_DONE \<Rightarrow>
             r\<lparr>updated_weight := apply_delta (current_weight i) (weight_delta s), weight_updated := True,
               st_next := ST_IDLE\<rparr>)"

section \<open>The new weight\<close>

text \<open>Signed and unsigned reading of a byte.\<close>

lemma u8_less: "unat (w :: u8) < 256"
  using unsigned_less [of w, where ?'a = nat] by simp

lemma sint_u8: "sint (w :: u8) = (if unat w < 128 then int (unat w) else int (unat w) - 256)"
proof -
  define n where "n = unat w"
  have "uint w = int n"
    by (simp add: n_def)
  then have "sint w = (int n + 128) mod 256 - 128"
    by (simp add: sint_uint signed_take_bit_eq_take_bit_shift take_bit_eq_mod)
  moreover have "n < 256"
    using u8_less [of w] by (simp add: n_def)
  moreover have "(int n + 128) mod 256 = (if n < 128 then int n + 128 else int n - 128)" if "n < 256"
    using that mod_add_self2 [of "int n - 128" 256] by (auto simp: add.commute)
  ultimately show ?thesis
    unfolding n_def [symmetric] by auto
qed

lemma bit7_u8: "bit (w :: u8) 7 \<longleftrightarrow> 128 \<le> unat w"
proof -
  have "bit w 7 \<longleftrightarrow> odd (unat w div 128)"
    using bit_unsigned_iff [of w 7, where ?'a = nat] by (simp add: bit_iff_odd possible_bit_nat)
  moreover have "unat w div 128 = (if unat w < 128 then 0 else 1)"
    using u8_less [of w] by (auto simp: div_if)
  ultimately show ?thesis
    by auto
qed

text \<open>What a learning step does to a weight. As signed bytes, a positive change is added and the
  sum limited to 127; a negative change, however small, sets the weight to -127.\<close>

lemma weight_step:
  "sint (apply_delta cw wd) = (if 0 \<le> sint wd then min 127 (sint cw + sint wd) else -127)"
proof (cases "bit wd 7")
  case True
  define n where "n = unat wd"
  have n: "128 \<le> n" "n < 256" "uint wd = int n"
    using True u8_less [of wd] by (simp_all add: bit7_u8 n_def)
  have "uint (0 - ucast wd :: u32) = (- uint wd) mod 2 ^ 32"
    by (simp add: uint_word_ariths unsigned_ucast_eq take_bit_eq_mod) (metis mod_minus_eq mod_mod_trivial)
  moreover have "(- uint wd) mod 2 ^ 32 = 2 ^ 32 - int n"
    using n by (simp add: zmod_zminus1_eq_if)
  moreover have "uint (ucast cw :: u32) < 256"
    using unsigned_less [of cw, where ?'a = int] by (simp add: unsigned_ucast_eq take_bit_eq_mod)
  ultimately have "(ucast cw :: u32) < 0 - ucast wd"
    using n by (simp add: word_less_def)
  then show ?thesis
    using True n by (simp add: apply_delta_def sint_u8 bit7_u8)
next
  case False
  then have wd: "unat wd < 128"
    by (simp add: bit7_u8)
  have d: "unat (127 - cw) = (if unat cw < 128 then 127 - unat cw else 383 - unat cw)"
    using u8_less [of cw] by (simp add: unat_sub_if' word_le_nat_alt)
  have a: "unat (cw + wd) = (if unat cw + unat wd < 256 then unat cw + unat wd else unat cw + unat wd - 256)"
    using u8_less [of cw] wd by (simp add: unat_word_ariths mod_if)
  show ?thesis
    using False wd u8_less [of cw] unfolding apply_delta_def sint_u8 word_less_nat_alt d
    by (auto simp: a sint_u8 min_def simp del: of_nat_unat)
qed

section \<open>A pair of spikes\<close>

definition quiet :: "stdp_in \<Rightarrow> bool" where
  "quiet i \<longleftrightarrow> \<not> pre_spike i \<and> \<not> post_spike i"

definition learns :: "stdp_in \<Rightarrow> bool" where
  "learns i \<longleftrightarrow> learning_enable i \<and> st_enable i"

text \<open>What the edge of a single spike leaves for the rest of the update.\<close>

lemma stdp_pre:
  assumes "st_state s = ST_IDLE" and "pre_spike i" and "\<not> post_spike i" and "0 < last_post_time s"
  shows "delta_t (stdp_edge i s) = pre_spike_time i - last_post_time s \<and> ltp_mode (stdp_edge i s)"
  using assms by (simp add: stdp_edge_def stdp_idle_def Let_def)

lemma stdp_post:
  assumes "st_state s = ST_IDLE" and "\<not> pre_spike i" and "post_spike i" and "0 < last_pre_time s"
  shows "delta_t (stdp_edge i s) = post_spike_time i - last_pre_time s \<and> \<not> ltp_mode (stdp_edge i s)"
  using assms by (simp add: stdp_edge_def stdp_idle_def Let_def)

lemma stdp_spike:
  assumes "st_state s = ST_IDLE" and "st_next s = ST_IDLE" and "\<not> quiet i"
  shows "st_state (stdp_edge i s) = ST_IDLE \<and> st_next (stdp_edge i s) = ST_COMPUTE"
  using assms by (auto simp: stdp_edge_def stdp_idle_def quiet_def Let_def)

lemma stdp_rest:
  assumes "st_state s = ST_IDLE" and "st_next s = ST_COMPUTE"
    and "quiet i1" and "learns i2" and "learns i3"
    and "amp = (if ltp_mode s then stdp_curve (A_plus i3) (tau_plus i3) (delta_t s)
      else stdp_curve (A_minus i3) (tau_minus i3) (delta_t s))"
    and "d = policy_delta (st_policy i5) (ltp_mode s) (ucast amp)"
  shows "let r = fold stdp_edge [i1, i2, i3, i4, i5, i6] s
    in weight_updated r \<and> updated_weight r = apply_delta (current_weight i6) d \<and>
      weight_updated (stdp_edge i7 r) \<and> updated_weight (stdp_edge i7 r) = apply_delta (current_weight i7) d"
  using assms by (simp add: stdp_edge_def stdp_idle_def quiet_def learns_def Let_def)

text \<open>Every pair of spikes changes a weight twice. In learning mode the engine reports the new
  weight on the seventh edge after the edge of the spike and again on the eighth, because each
  state of the machine lasts two edges: a synapse that stores what is reported on the first
  gets the change once more on the second. The change depends on the distance of the spikes in
  steps of 16 cycles and on the policy; the time constants are not used.\<close>

lemma pair_changes_weight_twice:
  assumes "st_state s = ST_IDLE" and "st_next s = ST_IDLE" and "\<not> quiet i0" and "quiet i1"
    and "learns i2" and "learns i3"
    and "d = policy_delta (st_policy i5) (ltp_mode (stdp_edge i0 s))
      (ucast (if ltp_mode (stdp_edge i0 s) then stdp_curve (A_plus i3) (tau_plus i3) (delta_t (stdp_edge i0 s))
              else stdp_curve (A_minus i3) (tau_minus i3) (delta_t (stdp_edge i0 s))))"
    and "current_weight i6 = w" and "current_weight i7 = updated_weight (fold stdp_edge [i0, i1, i2, i3, i4, i5, i6] s)"
  shows "weight_updated (fold stdp_edge [i0, i1, i2, i3, i4, i5, i6] s) \<and>
    updated_weight (fold stdp_edge [i0, i1, i2, i3, i4, i5, i6] s) = apply_delta w d \<and>
    weight_updated (fold stdp_edge [i0, i1, i2, i3, i4, i5, i6, i7] s) \<and>
    updated_weight (fold stdp_edge [i0, i1, i2, i3, i4, i5, i6, i7] s) = apply_delta (apply_delta w d) d"
proof -
  have s: "st_state (stdp_edge i0 s) = ST_IDLE" "st_next (stdp_edge i0 s) = ST_COMPUTE"
    using stdp_spike assms(1-3) by auto
  have f: "fold stdp_edge [i0, i1, i2, i3, i4, i5, i6] s = fold stdp_edge [i1, i2, i3, i4, i5, i6] (stdp_edge i0 s)"
    "fold stdp_edge [i0, i1, i2, i3, i4, i5, i6, i7] s = stdp_edge i7 (fold stdp_edge [i1, i2, i3, i4, i5, i6] (stdp_edge i0 s))"
    by simp_all
  show ?thesis
    using stdp_rest [OF s assms(4-6) refl assms(7), where ?i4.0 = i4 and ?i6.0 = i6 and ?i7.0 = i7] assms(8,9)
    unfolding f Let_def by metis
qed

section \<open>The engine of the chip\<close>

text \<open>The top level ties the inputs that code times, weight and curve: the spike times are 0, the
  weight is 0x40 and both amplitudes are 0x02000000, whose low byte is 0.\<close>

definition chip_stdp :: "u4 \<Rightarrow> bool \<Rightarrow> bool \<Rightarrow> bool \<Rightarrow> bool \<Rightarrow> stdp_in" where
  "chip_stdp p en learn pre post =
     \<lparr>st_policy = p, st_enable = en, pre_spike = pre, post_spike = post, pre_spike_time = 0,
      post_spike_time = 0, current_weight = 0x40, A_plus = 0x02000000, A_minus = 0x02000000,
      tau_plus = 20, tau_minus = 20, learning_enable = learn\<rparr>"

definition flat :: "stdp_state \<Rightarrow> bool" where
  "flat s \<longleftrightarrow> delta_t s = 0 \<and> last_pre_time s = 0 \<and> last_post_time s = 0 \<and>
     (st_value s = 0 \<or> st_value s = 0x02000000) \<and> weight_delta s = 0 \<and>
     (updated_weight s = 0x40 \<or> updated_weight s = 0 \<and> \<not> weight_updated s)"

lemma flat_edge: "flat s \<Longrightarrow> flat (stdp_edge (chip_stdp p en learn pre post) s)"
  by (cases "st_state s")
    (auto simp: flat_def stdp_edge_def stdp_idle_def stdp_wait_def stdp_curve_def policy_delta_def apply_delta_def
      chip_stdp_def Let_def)

text \<open>The chip never learns. As the top level wires the engine, no policy and no sequence of
  spikes makes it report anything but the weight 0x40 that it is given.\<close>

lemma chip_never_learns:
  assumes "weight_updated (fold (\<lambda>(p, en, learn, pre, post). stdp_edge (chip_stdp p en learn pre post)) is stdp_reset)"
  shows "updated_weight (fold (\<lambda>(p, en, learn, pre, post). stdp_edge (chip_stdp p en learn pre post)) is stdp_reset) = 0x40"
proof -
  have "flat (fold (\<lambda>(p, en, learn, pre, post). stdp_edge (chip_stdp p en learn pre post)) is stdp_reset)"
    by (induction "is" rule: rev_induct) (auto simp: flat_edge, simp add: flat_def stdp_reset_def)
  then show ?thesis
    using assms by (auto simp: flat_def)
qed

end
