(* ===== verification/Rtl_Spare.thy ===== *)
theory Rtl_Spare
  imports Rtl_Secded
begin

text \<open>
  Modules that the top level does not instantiate, from the files of those it does:
  \<open>fixed_cycle_arith\<close> (\<open>rtl/core/policy_determinism.v\<close>), \<open>ecc_memory\<close> and \<open>watchdog_timer\<close>
  (\<open>rtl/security/fault_monitor.v\<close>), \<open>retention_reg\<close> and \<open>power_state_manager\<close>
  (\<open>rtl/power/orchestrator.v\<close>), \<open>bias_dac\<close> and \<open>leakage_sensor\<close> (\<open>rtl/power/body_bias_ctrl.v\<close>).
\<close>

section \<open>\<open>fixed_cycle_arith\<close>\<close>

record fca_state =
  accumulator :: u32
  temp_a :: u32
  temp_b :: u32
  fca_counter :: "5 word"
  internal_start :: bool
  fca_result :: u32
  fca_done :: bool

record fca_in =
  fca_start :: bool
  op_a :: u32
  op_b :: u32
  op_type :: u4

text \<open>\<open>OPERATION_CYCLES\<close> has its default value 12.\<close>

definition fca_op :: "u4 \<Rightarrow> fca_state \<Rightarrow> u32" where
  "fca_op t s =
     (if t = 1 then accumulator s + temp_a s + ucast (fca_counter s)
      else if t = 2 then accumulator s XOR temp_b s XOR ucast (fca_counter s)
      else if t = 3 then push_bit 1 (accumulator s) XOR temp_a s
      else accumulator s + 1)"

definition fca_edge :: "fca_in \<Rightarrow> fca_state \<Rightarrow> fca_state" where
  "fca_edge i s =
     (let r = (if fca_start i
               then s\<lparr>temp_a := op_a i, temp_b := op_b i, fca_counter := 1, internal_start := True,
                      accumulator := 0, fca_done := False\<rparr>
               else s)
      in if internal_start s \<and> fca_counter s < 12
         then r\<lparr>fca_counter := fca_counter s + 1, accumulator := fca_op (op_type i) s\<rparr>
         else if internal_start s
         then r\<lparr>fca_result := accumulator s XOR temp_a s XOR temp_b s, fca_done := True, internal_start := False\<rparr>
         else r)"

definition fca_reset :: fca_state where
  "fca_reset = \<lparr>accumulator = 0, temp_a = 0, temp_b = 0, fca_counter = 0, internal_start = False,
     fca_result = 0, fca_done = False\<rparr>"

text \<open>The number of edges is the same for every operation and every operand.\<close>

lemma fca_running:
  assumes "internal_start s" and "\<not> fca_done s" and "unat (fca_counter s) + length is \<le> 12"
    and "\<forall>i \<in> set is. \<not> fca_start i"
  shows "internal_start (fold fca_edge is s) \<and> \<not> fca_done (fold fca_edge is s) \<and>
    unat (fca_counter (fold fca_edge is s)) = unat (fca_counter s) + length is"
  using assms
proof (induction "is" arbitrary: s)
  case (Cons i "is")
  then have "fca_counter s < 12" "unat (fca_counter s + 1) = Suc (unat (fca_counter s))"
    by (simp_all add: word_less_nat_alt unat_add_lem [THEN iffD1])
  then have "internal_start (fca_edge i s)" "\<not> fca_done (fca_edge i s)"
    "unat (fca_counter (fca_edge i s)) = Suc (unat (fca_counter s))"
    using Cons.prems by (simp_all add: fca_edge_def Let_def)
  then show ?case
    using Cons.IH [of "fca_edge i s"] Cons.prems by simp
qed simp

lemma fca_takes_13_edges:
  assumes "\<not> internal_start s" and "fca_start i" and "\<forall>j \<in> set (js @ [k]). \<not> fca_start j" and "length js = 11"
  shows "fca_done (fold fca_edge (i # js @ [k]) s) \<and> \<not> fca_done (fold fca_edge (i # js) s)"
proof -
  define s1 where "s1 = fca_edge i s"
  have "internal_start s1" "\<not> fca_done s1" "fca_counter s1 = 1"
    using assms(1,2) by (simp_all add: s1_def fca_edge_def Let_def)
  then have "internal_start (fold fca_edge js s1)" "\<not> fca_done (fold fca_edge js s1)"
    "unat (fca_counter (fold fca_edge js s1)) = 12"
    using fca_running [of s1 js] assms(3,4) by simp_all
  moreover have "fca_done (fca_edge k r)" if "internal_start r" "unat (fca_counter r) = 12" for r
    using that by (simp add: fca_edge_def Let_def word_less_nat_alt)
  ultimately show ?thesis
    by (simp add: s1_def)
qed

section \<open>\<open>ecc_memory\<close>\<close>

text \<open>64 data bits in a word of 66, and 1024 words. \<open>error_type\<close> is 1 exactly when \<open>ecc_error\<close> is set.\<close>

record ecc_memory =
  memory_array :: "u10 \<Rightarrow> 66 word"
  em_rd_data :: "64 word"
  em_ecc_error :: bool

definition wr_data_ecc :: "64 word \<Rightarrow> 66 word" where
  "wr_data_ecc w =
     (let parity = red_xor w; overall = (red_xor w \<noteq> parity)
      in push_bit 2 (ucast w) OR push_bit 1 (of_bool parity) OR of_bool overall)"

definition ecc_memory_edge :: "bool \<Rightarrow> u10 \<Rightarrow> 64 word \<Rightarrow> ecc_memory \<Rightarrow> ecc_memory" where
  "ecc_memory_edge wr_en addr w s =
     (let e = memory_array s addr; r = (if wr_en then s\<lparr>memory_array := (memory_array s)(addr := wr_data_ecc w)\<rparr> else s)
      in r\<lparr>em_rd_data := ucast e, em_ecc_error := (bit e 65 \<noteq> red_xor (ucast e :: 64 word))\<rparr>)"

text \<open>The check bits are the low bits of the stored word and the low 64 bits are read, so what is
  read is the word written shifted by two places, with its parity in bit 1.\<close>

lemma ecc_memory_reads_shifted:
  "em_rd_data (ecc_memory_edge False a v (ecc_memory_edge True a w s)) =
     push_bit 2 w OR push_bit 1 (of_bool (red_xor w))"
  by (rule bit_word_eqI) (auto simp: ecc_memory_edge_def wr_data_ecc_def Let_def bit_simps)

section \<open>\<open>watchdog_timer\<close>\<close>

record wdt =
  wdt_counter :: u32
  wdt_timeout :: bool
  timeout_pulse :: bool

definition wdt_edge :: "bool \<Rightarrow> bool \<Rightarrow> u32 \<Rightarrow> wdt \<Rightarrow> wdt" where
  "wdt_edge timer_en timer_rst timeout_val s =
     (if timer_rst \<or> \<not> timer_en then \<lparr>wdt_counter = 0, wdt_timeout = False, timeout_pulse = False\<rparr>
      else if wdt_counter s < timeout_val
      then \<lparr>wdt_counter = wdt_counter s + 1, wdt_timeout = False, timeout_pulse = False\<rparr>
      else s\<lparr>wdt_timeout := True, timeout_pulse := True\<rparr>)"

lemma wdt_count:
  "unat (wdt_counter s) + n \<le> unat v \<Longrightarrow>
   unat (wdt_counter ((wdt_edge True False v ^^ n) s)) = unat (wdt_counter s) + n"
proof (induction n)
  case (Suc n)
  then have "unat (wdt_counter ((wdt_edge True False v ^^ n) s)) < unat v"
    by simp
  then show ?case
    using Suc unsigned_less [of v, where ?'a = nat]
    by (simp add: wdt_edge_def word_less_nat_alt unat_add_lem [THEN iffD1])
qed simp

text \<open>From 0 the timer fires on the edge after \<open>timeout_val\<close> others, and the pulse stays up.\<close>

lemma wdt_fires:
  assumes "wdt_counter s = 0" and "unat v \<le> n"
  shows "wdt_timeout ((wdt_edge True False v ^^ Suc n) s) \<and> timeout_pulse ((wdt_edge True False v ^^ Suc n) s)"
proof -
  have at: "wdt_counter ((wdt_edge True False v ^^ (unat v + k)) s) = v" for k
  proof (induction k)
    case 0
    then show ?case
      using wdt_count [of s "unat v" v] assms(1) by (simp add: word_unat_eq_iff)
  next
    case (Suc k)
    then show ?case
      by (simp add: wdt_edge_def)
  qed
  then have "wdt_counter ((wdt_edge True False v ^^ n) s) = v"
    using at [of "n - unat v"] assms(2) by simp
  then show ?thesis
    by (simp add: wdt_edge_def)
qed

section \<open>\<open>retention_reg\<close>\<close>

record ret_reg =
  retained_data :: u32
  normal_data :: u32

definition ret_edge :: "bool \<Rightarrow> u32 \<Rightarrow> ret_reg \<Rightarrow> ret_reg" where
  "ret_edge ret_en din s = s\<lparr>normal_data := din, retained_data := (if ret_en then din else retained_data s)\<rparr>"

definition ret_dout :: "bool \<Rightarrow> ret_reg \<Rightarrow> u32" where
  "ret_dout iso_en s = (if iso_en then retained_data s else normal_data s)"

text \<open>Isolated, the register shows the last value of a cycle with retention enabled.\<close>

lemma retained: "ret_dout True (fold (ret_edge False) ds (ret_edge True d s)) = d"
  by (induction ds rule: rev_induct) (simp_all add: ret_edge_def ret_dout_def)

section \<open>\<open>power_state_manager\<close>\<close>

text \<open>The four tiles are independent. \<open>pending_request\<close> is never read.\<close>

record psm_tile =
  granted :: bool
  switch_ctrl :: bool
  power_good :: bool
  power_stable :: bool
  power_timer :: u32

definition psm_reset :: psm_tile where
  "psm_reset = \<lparr>granted = True, switch_ctrl = False, power_good = True, power_stable = True, power_timer = 0\<rparr>"

definition psm_edge :: "bool \<Rightarrow> psm_tile \<Rightarrow> psm_tile" where
  "psm_edge req s =
     (if req = granted s then s
      else if req
      then (let r = s\<lparr>switch_ctrl := True, power_timer := power_timer s + 1\<rparr>
            in if 100 < power_timer s
               then r\<lparr>power_good := True, power_stable := True, granted := req, power_timer := 0\<rparr> else r)
      else s\<lparr>power_good := False, power_stable := False, switch_ctrl := False, granted := req, power_timer := 0\<rparr>)"

definition psm_step :: "(nat \<Rightarrow> bool) \<Rightarrow> (nat \<Rightarrow> psm_tile) \<Rightarrow> nat \<Rightarrow> psm_tile" where
  "psm_step req s i = psm_edge (req i) (s i)"

lemma psm_off: "granted s \<Longrightarrow> \<not> granted (psm_edge False s) \<and> \<not> power_good (psm_edge False s)"
  by (simp add: psm_edge_def)

lemma psm_powering_on:
  "\<not> granted s \<Longrightarrow> power_timer s = 0 \<Longrightarrow> n \<le> 101 \<Longrightarrow>
   \<not> granted ((psm_edge True ^^ n) s) \<and> power_timer ((psm_edge True ^^ n) s) = of_nat n"
proof (induction n)
  case (Suc n)
  then have "\<not> 100 < (of_nat n :: u32)"
    by (simp add: word_less_nat_alt unat_of_nat take_bit_nat_eq_self)
  then show ?case
    using Suc by (simp add: psm_edge_def add.commute)
qed simp

text \<open>Power is granted on the edge after 101 others.\<close>

lemma psm_on:
  assumes "\<not> granted s" and "power_timer s = 0"
  shows "granted ((psm_edge True ^^ Suc 101) s) \<and> \<not> granted ((psm_edge True ^^ 101) s)"
proof -
  define r where "r = (psm_edge True ^^ 101) s"
  have "\<not> granted r" "power_timer r = 101"
    using psm_powering_on [OF assms, of 101] by (simp_all add: r_def)
  then show ?thesis
    unfolding funpow.simps(2) o_apply r_def [symmetric] by (simp add: psm_edge_def)
qed

section \<open>\<open>bias_dac\<close> and \<open>leakage_sensor\<close>\<close>

definition analog_bias :: "u8 \<Rightarrow> bool" where
  "analog_bias code \<longleftrightarrow> code = mask 8"

record sensor =
  leakage_count :: u32
  temp_count :: u32

definition sensor_edge :: "bool \<Rightarrow> sensor \<Rightarrow> sensor" where
  "sensor_edge en s =
     (if en then \<lparr>leakage_count = temp_count s + 0x100, temp_count = temp_count s + 1\<rparr>
      else \<lparr>leakage_count = 0, temp_count = 0\<rparr>)"

lemma sensor_counts:
  "temp_count s = 0 \<Longrightarrow> leakage_count ((sensor_edge True ^^ Suc n) s) = of_nat n + 0x100"
proof -
  assume "temp_count s = 0"
  then have "temp_count ((sensor_edge True ^^ n) s) = of_nat n"
    by (induction n) (simp_all add: sensor_edge_def add.commute)
  then show ?thesis
    by (simp add: sensor_edge_def)
qed

end
