(* ===== verification/Sdk_Console.thy ===== *)
theory Sdk_Console
  imports Sdk_Snn Sdk_Sys
begin

text \<open>
  The text output that the programs under \<open>sdk/examples\<close> share: each file has its own copy of
  \<open>uart_putc\<close>, \<open>uart_puts\<close>, \<open>uart_puthex\<close>, \<open>uart_putdec\<close> and \<open>delay\<close>, all writing characters as
  32-bit stores to \<open>UART_TX\<close>. A C string is a list of characters without its terminator; \<open>char\<close> is
  unsigned, as it is on RISC-V, so the bytes of a UTF-8 literal are stored as they are.
  The locale \<open>console\<close> says what a program's output is: the characters stored to \<open>UART_TX\<close>, and no
  other access adds to it. \<open>watched B\<close> gives any bus that output.
\<close>

section \<open>The output functions\<close>

definition UART_TX :: u32 where "UART_TX = 0x10000000"

definition uart_putc :: "'d bus \<Rightarrow> char \<Rightarrow> 'd \<Rightarrow> 'd" where
  "uart_putc B c d = st32 B UART_TX (of_char c) d"

fun uart_puts :: "'d bus \<Rightarrow> string \<Rightarrow> 'd \<Rightarrow> 'd" where
  "uart_puts B [] d = d"
| "uart_puts B (c # s) d = uart_puts B s (uart_putc B c d)"

declare uart_puts.simps [simp del]

definition hex_digits :: string where "hex_digits = ''0123456789ABCDEF''"

definition hex_char :: "u32 \<Rightarrow> int \<Rightarrow> char" where
  "hex_char v i = hex_digits ! unat (drop_bit (nat i) v AND 0xF)"

text \<open>\<open>for (int i = 28; i >= 0; i -= 4)\<close>\<close>

function puthex_loop :: "'d bus \<Rightarrow> u32 \<Rightarrow> int \<Rightarrow> 'd \<Rightarrow> 'd" where
  "puthex_loop B v i d =
     (if 0 \<le> i then puthex_loop B v (i - 4) (uart_putc B (hex_char v i) d) else d)"
  by pat_completeness auto
termination
  by (relation "measure (\<lambda>(B, v, i, d). nat (i + 1))") auto

declare puthex_loop.simps [simp del]

definition uart_puthex :: "'d bus \<Rightarrow> u32 \<Rightarrow> 'd \<Rightarrow> 'd" where
  "uart_puthex B v d = puthex_loop B v 28 d"

text \<open>The digits are put into \<open>char buf[12]\<close> from index 10 downwards; \<open>junk\<close> is what the array holds
  before.\<close>

definition digit_char :: "u32 \<Rightarrow> char" where
  "digit_char v = char_of (48 + unat (v mod 10))"

function putdec_loop :: "string \<Rightarrow> int \<Rightarrow> u32 \<Rightarrow> string \<times> int" where
  "putdec_loop buf i v =
     (let buf' = buf[nat i := digit_char v]; i' = i - 1; v' = v div 10
      in if v' \<noteq> 0 \<and> 0 \<le> i' then putdec_loop buf' i' v' else (buf', i'))"
  by pat_completeness auto
termination
  by (relation "measure (\<lambda>(buf, i, v). nat i)") auto

declare putdec_loop.simps [simp del]

text \<open>The string that a pointer into an array of characters reaches: up to the first NUL.\<close>

definition c_string :: "string \<Rightarrow> nat \<Rightarrow> string" where
  "c_string buf k = takeWhile (\<lambda>c. c \<noteq> CHR 0x00) (drop k buf)"

definition uart_putdec :: "'d bus \<Rightarrow> string \<Rightarrow> u32 \<Rightarrow> 'd \<Rightarrow> 'd" where
  "uart_putdec B junk v d =
     (case putdec_loop (junk[11 := CHR 0x00]) 10 v of
        (buf, i) \<Rightarrow> uart_puts B (c_string buf (nat (i + 1))) d)"

text \<open>\<open>for (i = 0; i < count; i++)\<close> around an empty instruction\<close>

function spin :: "u32 \<Rightarrow> u32 \<Rightarrow> 'd \<Rightarrow> 'd" where
  "spin i count d = (if i < count then spin (i + 1) count d else d)"
  by pat_completeness auto
termination
  by (relation "measure (\<lambda>(i, count, d). unat count - unat i)") (simp_all add: u32_inc(2) del: One_nat_def)

declare spin.simps [simp del]

lemma spin_ends [simp]: "spin i count d = d"
  by (induction i count d rule: spin.induct) (subst spin.simps, simp)

text \<open>\<open>csrsi\<close> and \<open>csrci\<close> of the inline assembly read the register and write it with the bits set or
  cleared.\<close>

definition csr_set :: "'d bus \<Rightarrow> u12 \<Rightarrow> u32 \<Rightarrow> 'd \<Rightarrow> 'd" where
  "csr_set B a m d = (case csrr B a d of (v, d') \<Rightarrow> csrw B a (v OR m) d')"

definition csr_clear :: "'d bus \<Rightarrow> u12 \<Rightarrow> u32 \<Rightarrow> 'd \<Rightarrow> 'd" where
  "csr_clear B a m d = (case csrr B a d of (v, d') \<Rightarrow> csrw B a (v AND NOT m) d')"

section \<open>What the numbers look like\<close>

definition hex_text :: "u32 \<Rightarrow> string" where
  "hex_text v = map (\<lambda>k. hex_char v (4 * int k)) [7, 6, 5, 4, 3, 2, 1, 0]"

fun dec_text :: "nat \<Rightarrow> string" where
  "dec_text n = (if n < 10 then [char_of (48 + n)] else dec_text (n div 10) @ [char_of (48 + n mod 10)])"

declare dec_text.simps [simp del]

text \<open>Reading a numeral, most significant digit first.\<close>

definition digit_value :: "char \<Rightarrow> nat" where
  "digit_value c = (if of_char c < (65 :: nat) then of_char c - 48 else of_char c - 55)"

definition read_numeral :: "nat \<Rightarrow> string \<Rightarrow> nat" where
  "read_numeral b s = foldl (\<lambda>a c. b * a + digit_value c) 0 s"

lemma read_numeral_simps [simp]:
  "read_numeral b [] = 0"
  "read_numeral b (s @ [c]) = b * read_numeral b s + digit_value c"
  by (simp_all add: read_numeral_def)

lemma digit_value_dec: "k < 10 \<Longrightarrow> digit_value (char_of (48 + k)) = k"
  by (simp add: digit_value_def)

lemma digit_value_hex: "k < 16 \<Longrightarrow> digit_value (hex_digits ! k) = k"
proof -
  have "list_all (\<lambda>k. digit_value (hex_digits ! k) = k) [0..<16]"
    by code_simp
  then show "k < 16 \<Longrightarrow> ?thesis"
    by (simp add: list_all_iff)
qed

lemma hex_char_value: "digit_value (hex_char v (4 * int k)) = unat v div 16 ^ k mod 16"
proof -
  have i: "nat (4 * int k) = 4 * k"
    by simp
  have m: "(0xF :: u32) = mask 4"
    by (simp add: mask_eq_exp_minus_1)
  have "unat (drop_bit (4 * k) v AND 0xF) = unat v div 16 ^ k mod 16"
    unfolding m take_bit_eq_mask [symmetric] unsigned_take_bit_eq unsigned_drop_bit_eq
    using unsigned_less [of v, where ?'a = nat] by (simp add: take_bit_eq_mod drop_bit_eq_div power_mult)
  then show ?thesis
    by (simp add: hex_char_def i digit_value_hex)
qed

lemma eight_digits:
  fixes q d :: "nat \<Rightarrow> nat"
  assumes "\<And>k. 16 * q (Suc k) + d k = q k" and "q 8 = 0"
  shows "16 * (16 * (16 * (16 * (16 * (16 * (16 * d 7 + d 6) + d 5) + d 4) + d 3) + d 2) + d 1) + d 0 = q 0"
proof -
  have step: "16 * q 1 + d 0 = q 0" "16 * q 2 + d 1 = q 1" "16 * q 3 + d 2 = q 2" "16 * q 4 + d 3 = q 3"
    "16 * q 5 + d 4 = q 4" "16 * q 6 + d 5 = q 5" "16 * q 7 + d 6 = q 6" "16 * q 8 + d 7 = q 7"
    using assms(1) [of 0] assms(1) [of 1] assms(1) [of 2] assms(1) [of 3] assms(1) [of 4]
      assms(1) [of 5] assms(1) [of 6] assms(1) [of 7]
    by (simp_all add: numeral_2_eq_2 [symmetric])
  then have "d 7 = q 7"
    using assms(2) by simp
  then show ?thesis
    by (simp only: step)
qed

lemma read_hex_text: "read_numeral 16 (hex_text v) = unat v"
proof -
  define d where "d k = digit_value (hex_char v (4 * int k))" for k
  have "16 * (unat v div 16 ^ Suc k) + d k = unat v div 16 ^ k" for k
    unfolding d_def hex_char_value by (simp add: power_Suc2 div_mult2_eq del: power_Suc)
  moreover have "unat v div 16 ^ 8 = 0"
    using unsigned_less [of v, where ?'a = nat] by simp
  ultimately have "16 * (16 * (16 * (16 * (16 * (16 * (16 * d 7 + d 6) + d 5) + d 4) + d 3) + d 2) + d 1) + d 0 = unat v"
    using eight_digits [of "\<lambda>k. unat v div 16 ^ k" d] by (simp only: power_0 div_by_1)
  then show ?thesis
    unfolding d_def read_numeral_def hex_text_def list.map foldl.simps by simp
qed

lemma read_dec_text: "read_numeral 10 (dec_text n) = n"
proof (induction n rule: dec_text.induct)
  case (1 n)
  then show ?case
    using digit_value_dec [of n] digit_value_dec [of "n mod 10"]
    by (subst dec_text.simps) (simp add: read_numeral_def)
qed

lemma dec_text_length: "n < 10 ^ Suc k \<Longrightarrow> length (dec_text n) \<le> Suc k"
proof (induction k arbitrary: n)
  case 0
  then show ?case
    by (subst dec_text.simps) simp
next
  case (Suc k)
  then show ?case
    using Suc.IH [of "n div 10"] by (subst dec_text.simps) (simp add: div_less_iff_less_mult)
qed

lemma dec_text_not_Nil [simp]: "dec_text n \<noteq> []"
  by (subst dec_text.simps) simp

text \<open>Six and more digits of a \<open>putdec\<close> fill the buffer from the right.\<close>

lemma dec_text_step: "10 \<le> n \<Longrightarrow> dec_text n = dec_text (n div 10) @ [char_of (48 + n mod 10)]"
  by (subst dec_text.simps) simp

lemma digit_char_nat: "digit_char v = char_of (48 + unat v mod 10)"
  by (simp add: digit_char_def unat_mod)

lemma putdec_loop_text:
  assumes "length (dec_text (unat v)) \<le> Suc k" and "k < length buf"
  shows "\<exists>buf'. putdec_loop buf (int k) v = (buf', int k - int (length (dec_text (unat v)))) \<and>
    drop (Suc k - length (dec_text (unat v))) buf' = dec_text (unat v) @ drop (Suc k) buf"
  using assms
proof (induction k arbitrary: v buf)
  case 0
  then have "unat v < 10"
    using dec_text_step [of "unat v"] by (cases "unat v < 10") (auto simp: Suc_le_eq)
  then have "v div 10 = 0" "dec_text (unat v) = [char_of (48 + unat v)]"
    by (simp_all add: word_unat_eq_iff unat_div dec_text.simps)
  then show ?case
    using 0 \<open>unat v < 10\<close> by (subst putdec_loop.simps) (simp add: digit_char_nat Let_def, cases buf, simp_all)
next
  case (Suc k)
  show ?case
  proof (cases "unat v < 10")
    case True
    then have "v div 10 = 0" "dec_text (unat v) = [char_of (48 + unat v)]" "nat (1 + int k) = Suc k"
      by (simp_all add: word_unat_eq_iff unat_div dec_text.simps)
    then show ?thesis
      using Suc.prems True
      by (subst putdec_loop.simps) (simp add: digit_char_nat Let_def Cons_nth_drop_Suc [symmetric])
  next
    case False
    define buf1 where "buf1 = buf[Suc k := digit_char v]"
    have [simp]: "nat (1 + int k) = Suc k"
      by simp
    have dv: "unat (v div 10) = unat v div 10" "v div 10 \<noteq> 0"
      using False by (simp_all add: word_unat_eq_iff unat_div)
    have digits: "dec_text (unat v) = dec_text (unat v div 10) @ [digit_char v]"
      using False dec_text_step by (simp add: digit_char_nat)
    obtain buf' where "putdec_loop buf1 (int k) (v div 10) =
          (buf', int k - int (length (dec_text (unat v div 10))))"
        "drop (Suc k - length (dec_text (unat v div 10))) buf' = dec_text (unat v div 10) @ drop (Suc k) buf1"
      using Suc.IH [of "v div 10" buf1] Suc.prems digits dv by (auto simp: buf1_def)
    moreover have "drop (Suc k) buf1 = digit_char v # drop (Suc (Suc k)) buf"
      using Suc.prems by (simp add: buf1_def Cons_nth_drop_Suc [symmetric])
    ultimately show ?thesis
      using dv digits by (subst putdec_loop.simps) (simp add: Let_def buf1_def)
  qed
qed

lemma digit_not_NUL: "k < 10 \<Longrightarrow> char_of (48 + k) \<noteq> CHR 0x00" for k :: nat
proof
  assume "k < 10" and "char_of (48 + k) = CHR 0x00"
  then have "of_char (char_of (48 + k)) = (0 :: nat)"
    by simp
  then show False
    using \<open>k < 10\<close> by simp
qed

lemma dec_text_chars: "CHR 0x00 \<notin> set (dec_text n)"
proof (induction n rule: dec_text.induct)
  case (1 n)
  show ?case
  proof (cases "n < 10")
    case True
    then show ?thesis
      using digit_not_NUL [OF True] dec_text.simps [of n] by simp
  next
    case False
    have "char_of (48 + n mod 10) \<noteq> CHR 0x00"
      by (rule digit_not_NUL) simp
    then show ?thesis
      using 1 False dec_text.simps [of n] by simp
  qed
qed

lemma dec_text_hd: "0 < n \<Longrightarrow> hd (dec_text n) \<noteq> CHR ''0''"
proof (induction n rule: dec_text.induct)
  case (1 n)
  show ?case
  proof (cases "n < 10")
    case True
    have "char_of (48 + n) \<noteq> CHR ''0''"
    proof
      assume "char_of (48 + n) = CHR ''0''"
      then have "of_char (char_of (48 + n)) = (48 :: nat)"
        by simp
      then show False
        using True 1 by simp
    qed
    then show ?thesis
      using True dec_text.simps [of n] by simp
  next
    case False
    then show ?thesis
      using 1 dec_text.simps [of n] by simp
  qed
qed

lemma putdec_string:
  assumes "length junk = 12"
  obtains buf i where "putdec_loop (junk[11 := CHR 0x00]) 10 v = (buf, i)"
    and "c_string buf (nat (i + 1)) = dec_text (unat v)" and "0 \<le> i" and "i < 10"
proof -
  have "unat v < 10 ^ Suc 9"
    using unsigned_less [of v, where ?'a = nat] by simp
  then have len: "length (dec_text (unat v)) \<le> Suc 9"
    by (rule dec_text_length)
  obtain buf' where buf': "putdec_loop (junk[11 := CHR 0x00]) 10 v = (buf', 10 - int (length (dec_text (unat v))))"
      "drop (11 - length (dec_text (unat v))) buf' = dec_text (unat v) @ drop 11 (junk[11 := CHR 0x00])"
    using putdec_loop_text [of v 10 "junk[11 := CHR 0x00]"] len assms by auto
  have "drop 11 (junk[11 := CHR 0x00]) = [CHR 0x00]"
    using assms by (simp add: Cons_nth_drop_Suc [symmetric])
  moreover have "nat (10 - int (length (dec_text (unat v))) + 1) = 11 - length (dec_text (unat v))"
    using len by linarith
  ultimately have "c_string buf' (nat (10 - int (length (dec_text (unat v))) + 1)) = dec_text (unat v)"
    using buf'(2) dec_text_chars by (auto simp: c_string_def intro!: takeWhile_append2 [THEN trans])
  then show ?thesis
    using that buf'(1) len dec_text_not_Nil [of "unat v"] by (simp add: Suc_le_eq)
qed

section \<open>The console\<close>

locale console =
  fixes B :: "'d bus" and out :: "'d \<Rightarrow> string"
  assumes tx: "out (st32 B UART_TX v d) = out d @ [char_of (unat v)]"
    and tx_other: "a \<noteq> UART_TX \<Longrightarrow> out (st32 B a v d) = out d"
    and csrr_silent: "out (snd (csrr B r d)) = out d"
    and csrw_silent: "out (csrw B r v d) = out d"
    and insn_silent: "out (snd (insn B op x y d)) = out d"
    and ld32_silent: "out (snd (ld32 B a d)) = out d"
    and st8_silent: "out (st8 B a b d) = out d"
begin

lemma csrr_out: "csrr B r d = (v, d') \<Longrightarrow> out d' = out d"
  using csrr_silent [of r d] by simp

lemma insn_out: "insn B op x y d = (v, d') \<Longrightarrow> out d' = out d"
  using insn_silent [of op x y d] by simp

lemma ld32_out: "ld32 B a d = (v, d') \<Longrightarrow> out d' = out d"
  using ld32_silent [of a d] by simp

lemma putc: "out (uart_putc B c d) = out d @ [c]"
proof -
  have "(of_char c :: u32) = of_nat (of_char c)"
    by (simp add: of_nat_of_char)
  then have "unat (of_char c :: u32) = (of_char c :: nat)"
    using unat_of_nat_u32 [of "of_char c", OF less_trans [OF nat_of_char_less_256 [of c]]] by simp
  then have "char_of (unat (of_char c :: u32)) = c"
    by simp
  then show ?thesis
    by (simp add: uart_putc_def tx)
qed

lemma puts: "out (uart_puts B s d) = out d @ s"
  by (induction s arbitrary: d) (simp_all add: uart_puts.simps putc)

lemma puthex: "out (uart_puthex B v d) = out d @ hex_text v"
  by (simp add: uart_puthex_def puthex_loop.simps putc hex_text_def)

lemma putdec: "length junk = 12 \<Longrightarrow> out (uart_putdec B junk v d) = out d @ dec_text (unat v)"
  by (rule putdec_string [of junk v]) (simp_all add: uart_putdec_def puts)

lemma csr_set: "out (csr_set B a m d) = out d"
  by (simp add: csr_set_def csrw_silent csrr_out split: prod.split)

lemma csr_clear: "out (csr_clear B a m d) = out d"
  by (simp add: csr_clear_def csrw_silent csrr_out split: prod.split)

text \<open>The library prints nothing.\<close>

lemma sdk_silent:
  "out (snd (snd (xcew_eml_init B e m d))) = out d"
  "out (snd (snd (xcew_eml_compute B e x y d))) = out d"
  "out (snd (snd (xcew_snn_init B n c d))) = out d"
  "out (snd (snd (xcew_snn_classify B n p cls d))) = out d"
  "out (snd (snd (xcew_snn_enable_stdp B n policy d))) = out d"
  "out (snd (xcew_policy_set_deterministic B mc d)) = out d"
  "out (snd (xcew_policy_update B pid prm d)) = out d"
  "out (snd (xcew_pwr_tile_sleep B t d)) = out d"
  "out (snd (xcew_pwr_tile_wake B t d)) = out d"
  "out (snd (xcew_pwr_set_bias B bc d)) = out d"
  "out (snd (snd (xcew_fault_get_status B f d))) = out d"
  "out (snd (xcew_fault_clear B fm d)) = out d"
  "out (snd (snd (snd (xcew_nvm_get_stats B sc cc d)))) = out d"
  by (auto simp: sdk_defs eml_csr_read_def eml_csr_write_def Let_def csrw_silent
      split: option.splits prod.splits if_splits dest!: csrr_out insn_out)

end

section \<open>Any bus with its output\<close>

definition watched :: "'d bus \<Rightarrow> (string \<times> 'd) bus" where
  "watched B =
     \<lparr>csrr = (\<lambda>a (out, d). case csrr B a d of (v, d') \<Rightarrow> (v, out, d')),
      csrw = (\<lambda>a v (out, d). (out, csrw B a v d)),
      insn = (\<lambda>op x y (out, d). case insn B op x y d of (v, d') \<Rightarrow> (v, out, d')),
      ld32 = (\<lambda>a (out, d). case ld32 B a d of (v, d') \<Rightarrow> (v, out, d')),
      st32 = (\<lambda>a v (out, d). (if a = UART_TX then out @ [char_of (unat v)] else out, st32 B a v d)),
      st8 = (\<lambda>a b (out, d). (out, st8 B a b d))\<rparr>"

lemma watched_simps [bus_simps]:
  "csrr (watched B) a (out, d) = (fst (csrr B a d), out, snd (csrr B a d))"
  "csrw (watched B) a v (out, d) = (out, csrw B a v d)"
  "insn (watched B) op x y (out, d) = (fst (insn B op x y d), out, snd (insn B op x y d))"
  "ld32 (watched B) p (out, d) = (fst (ld32 B p d), out, snd (ld32 B p d))"
  "st32 (watched B) p v (out, d) =
     (if p = UART_TX then out @ [char_of (unat v)] else out, st32 B p v d)"
  "st8 (watched B) p b (out, d) = (out, st8 B p b d)"
  by (simp_all add: watched_def split: prod.split)

interpretation watch: console "watched B" fst for B
  by unfold_locales (auto simp: bus_simps watched_simps)

text \<open>A memory stays a memory when it is watched.\<close>

lemma watched_memory:
  assumes "bus_memory B I M"
  shows "bus_memory (watched B) (\<lambda>s. I (snd s)) M"
  using assms by (auto simp: bus_memory_def watched_simps)

section \<open>Properties\<close>

text \<open>The numbers that the programs print can be read back. \<open>uart_puthex\<close> prints eight hexadecimal
  digits and \<open>uart_putdec\<close> at most ten decimal ones without a leading zero, whatever its array held
  before and without leaving it, and both numerals denote the argument.\<close>

lemma printed_numbers_read_back:
  assumes "length junk = 12"
  shows "\<exists>h n. fst (uart_puthex (watched B) v (out, d)) = out @ h \<and>
      fst (uart_putdec (watched B) junk v (out, d)) = out @ n \<and>
      length h = 8 \<and> read_numeral 16 h = unat v \<and>
      n \<noteq> [] \<and> length n \<le> 10 \<and> read_numeral 10 n = unat v \<and> (v = 0 \<or> hd n \<noteq> CHR ''0'')"
proof (intro exI conjI)
  show "fst (uart_puthex (watched B) v (out, d)) = out @ hex_text v"
    by (simp add: watch.puthex)
  show "fst (uart_putdec (watched B) junk v (out, d)) = out @ dec_text (unat v)"
    using assms by (simp add: watch.putdec)
  show "length (dec_text (unat v)) \<le> 10"
    using dec_text_length [of "unat v" 9] unsigned_less [of v, where ?'a = nat] by simp
  show "v = 0 \<or> hd (dec_text (unat v)) \<noteq> CHR ''0''"
    using dec_text_hd [of "unat v"] by (auto simp: word_unat_eq_iff)
qed (simp_all add: read_hex_text read_dec_text, simp add: hex_text_def)

end
