(* ===== verification/Sdk_Examples.thy ===== *)
theory Sdk_Examples
  imports Sdk_Console
begin

text \<open>
  The programs under \<open>sdk/examples\<close>: one definition per \<open>main\<close>, over any bus. What the
  uninitialised locals of a \<open>main\<close> hold and where it places its arrays is the argument \<open>frame\<close>; a
  \<open>main\<close> returns its C result and the device. The volatile variables that an interrupt handler
  shares with its \<open>main\<close> are part of the state, reached through \<open>irq_vars\<close>, and \<open>interrupted\<close> is a
  bus on which the handler runs before any access that the predicate \<open>take\<close> selects.
\<close>

record frame =
  eml0 :: xcew_eml
  snn0 :: xcew_snn
  word0 :: u32
  buf0 :: string
  array_at :: "u8 list \<Rightarrow> u32"

definition CRLF :: string where "CRLF = [CHR 0x0D, CHR 0x0A]"

definition ln :: "string \<Rightarrow> string" where "ln s = s @ CRLF"

definition LF :: string where "LF = [CHR 0x0A]"

text \<open>A 32-bit variable as the four bytes that a \<open>void *\<close> to it reaches.\<close>

definition word_bytes :: "u32 \<Rightarrow> u8 list" where
  "word_bytes w = map (\<lambda>k. byte_of k w) [0, 1, 2, 3]"

definition bytes_word :: "u8 list \<Rightarrow> u32" where
  "bytes_word bs = the (load32 bs 0)"

text \<open>Sequencing of calls that may not return (\<open>None\<close>) or reach undefined behaviour (\<open>Inl\<close>).\<close>

definition and_then :: "(ub + 'a) option \<Rightarrow> ('a \<Rightarrow> (ub + 'b) option) \<Rightarrow> (ub + 'b) option" where
  "and_then x f =
     (case x of None \<Rightarrow> None | Some (Inl e) \<Rightarrow> Some (Inl e) | Some (Inr a) \<Rightarrow> f a)"

lemma and_then_simps [simp]:
  "and_then (Some (Inr a)) f = f a" "and_then (Some (Inl e)) f = Some (Inl e)" "and_then None f = None"
  by (simp_all add: and_then_def)

definition print_hex :: "'d bus \<Rightarrow> string \<Rightarrow> u32 \<Rightarrow> 'd \<Rightarrow> 'd" where
  "print_hex B s v d = uart_puthex B v (uart_puts B s d)"

section \<open>\<open>bare_metal_blinky.c\<close>\<close>

text \<open>\<open>while (1)\<close> with its exit after 200 beats.\<close>

function heartbeat :: "'d bus \<Rightarrow> int \<Rightarrow> 'd \<Rightarrow> 'd" where
  "heartbeat B count d =
     (let d1 = uart_putc B (CHR ''.'') d;
          count' = count + 1;
          d2 = (if count' mod 40 = 0 then uart_puts B CRLF d1 else d1);
          d3 = spin 0 100000 d2
      in if 200 \<le> count' then d3 else heartbeat B count' d3)"
  by pat_completeness auto
termination
  by (relation "measure (\<lambda>(B, count, d). nat (200 - count))") auto

declare heartbeat.simps [simp del]

definition bare_metal_blinky :: "'d bus \<Rightarrow> 'd \<Rightarrow> int \<times> 'd" where
  "bare_metal_blinky B d =
     (let d1 = uart_puts B (ln ''Azmuth v1.1 Boot OK'') d;
          (hartid, d2) = csrr B 0xF14 d1;
          d3 = uart_puts B ''Hart ID: '' d2;
          d4 = uart_putc B (char_of (48 + unat (hartid AND 0xF))) d3;
          d5 = uart_puts B CRLF d4;
          (misa, d6) = csrr B 0x301 d5;
          d7 = uart_puts B ''MISA: '' d6;
          d8 = (if misa AND push_bit 8 1 \<noteq> 0 then uart_putc B (CHR ''I'') d7 else d7);
          d9 = (if misa AND push_bit 12 1 \<noteq> 0 then uart_putc B (CHR ''M'') d8 else d8);
          d10 = (if misa AND push_bit 2 1 \<noteq> 0 then uart_putc B (CHR ''C'') d9 else d9);
          d11 = uart_puts B CRLF d10;
          d12 = heartbeat B 0 d11
      in (0, uart_puts B (CRLF @ ln ''Halting.'') d12))"

section \<open>\<open>hello_eml.c\<close>\<close>

definition hello_eml :: "'d bus \<Rightarrow> frame \<Rightarrow> 'd \<Rightarrow> int \<times> 'd" where
  "hello_eml B F d =
     (let d1 = uart_puts B (ln ''Azmuth EML Example'') d;
          (rc, eml, d2) = xcew_eml_init B (Some (eml0 F)) 0 d1
      in if rc \<noteq> XCEW_OK then (-1, uart_puts B (ln ''ERR: EML init failed'') d2)
         else
           let (rc, outp, d3) = xcew_eml_compute B eml 0x00020000 (Some (word0 F)) d2
           in if rc \<noteq> XCEW_OK then (-1, uart_puts B (ln ''ERR: EML compute failed'') d3)
              else
                let d4 = uart_puts B CRLF (print_hex B ''EML result (Q16.16): 0x'' (the outp) d3);
                    (_, fault, d5) = xcew_fault_get_status B (Some (word0 F)) d4;
                    d6 = (if the fault \<noteq> 0
                          then snd (xcew_fault_clear B (the fault)
                                 (uart_puts B CRLF (print_hex B ''WARN: Fault status: 0x'' (the fault) d5)))
                          else d5);
                    eml' = xcew_eml_close eml
                in (0, uart_puts B (ln ''Done.'') d6))"

section \<open>\<open>snn_classify.c\<close>\<close>

definition demo_weights :: "u8 list" where
  "demo_weights = [100, -50, 30, -10]"

definition snn_demo :: "'d bus \<Rightarrow> frame \<Rightarrow> 'd \<Rightarrow> (ub + int \<times> 'd) option" where
  "snn_demo B F d =
     (let d1 = uart_puts B (ln ''Azmuth SNN Classification Example'') d;
          (_, d2) = xcew_pwr_tile_wake B 2 d1;
          (rc, snn, d3) = xcew_snn_init B (Some (snn0 F)) 4 d2
      in if rc \<noteq> XCEW_OK then Some (Inr (-1, uart_puts B (ln ''ERR: SNN init failed'') d3))
         else and_then (xcew_snn_load_weights B snn (Some demo_weights) 4 d3) (\<lambda>(rc, d4).
           if rc \<noteq> XCEW_OK then Some (Inr (-1, uart_puts B (ln ''ERR: Weight load failed'') d4))
           else
             let (rc, class_id, d5) =
                   xcew_snn_classify B snn (Some (array_at F [80, 20, 60, 10])) (Some (word0 F)) d4
             in if rc \<noteq> XCEW_OK then Some (Inr (-1, uart_puts B (ln ''ERR: SNN classify failed'') d5))
                else
                  let d6 = uart_puts B ''Classification result: class '' d5;
                      d7 = uart_puts B CRLF (uart_putdec B (buf0 F) (the class_id) d6);
                      (_, snn', d8) = xcew_snn_enable_stdp B snn 1 d7;
                      d9 = uart_puts B (ln ''STDP learning enabled (policy 1)'') d8;
                      snn'' = xcew_snn_close snn';
                      (_, d10) = xcew_pwr_tile_sleep B 2 d9
                  in Some (Inr (0, uart_puts B (ln ''SNN tile sleeping.'') d10))))"

section \<open>\<open>nvm_persist.c\<close>\<close>

definition NVM_BOOT_COUNT_ADDR :: u32 where "NVM_BOOT_COUNT_ADDR = 0x4000"
definition NVM_CONFIG_ADDR :: u32 where "NVM_CONFIG_ADDR = 0x4004"

definition nvm_persist :: "'d bus \<Rightarrow> frame \<Rightarrow> 'd \<Rightarrow> (ub + int \<times> 'd) option" where
  "nvm_persist B F d =
     (let d1 = uart_puts B (ln ''NVM Persistence Demo'') d
      in and_then (xcew_nvm_read B NVM_BOOT_COUNT_ADDR (Some (word_bytes 0)) 4 d1) (\<lambda>(rc, buf, d2).
         let (boot_count, d3) =
               (if rc \<noteq> XCEW_OK then (0, uart_puts B (ln ''ERR: NVM read failed'') d2)
                else (bytes_word (the buf), d2));
             d4 = uart_puts B CRLF (print_hex B ''Boot count: 0x'' boot_count d3);
             boot_count' = boot_count + 1
         in and_then (xcew_nvm_write B NVM_BOOT_COUNT_ADDR (Some (word_bytes boot_count')) 4 d4) (\<lambda>(rc, d5).
            let d6 = (if rc \<noteq> XCEW_OK then uart_puts B (ln ''ERR: NVM write failed'') d5
                      else uart_puts B (ln ''Boot count incremented.'') d5);
                config = 0xCAFEBABE
            in and_then (xcew_nvm_write B NVM_CONFIG_ADDR (Some (word_bytes config)) 4 d6) (\<lambda>(_, d7).
               and_then (xcew_nvm_read B NVM_CONFIG_ADDR (Some (word_bytes 0)) 4 d7) (\<lambda>(_, buf, d8).
               let readback = bytes_word (the buf);
                   d9 = print_hex B ''Config readback: 0x'' readback d8;
                   d10 = uart_puts B (ln (if readback = config then '' (match)'' else '' (MISMATCH!)'')) d9;
                   (_, scrub, corrected, d11) =
                     xcew_nvm_get_stats B (Some (word0 F)) (Some (word0 F)) d10;
                   d12 = print_hex B ''ECC scrubs: 0x'' (the scrub) d11;
                   d13 = uart_puts B CRLF (print_hex B ''  corrections: 0x'' (the corrected) d12)
               in Some (Inr (0, uart_puts B (ln ''Done.'') d13)))))))"

section \<open>\<open>power_mgmt.c\<close>\<close>

definition duty_cycle :: "'d bus \<Rightarrow> frame \<Rightarrow> 'd \<Rightarrow> 'd" where
  "duty_cycle B F d =
     (let (_, d1) = xcew_pwr_tile_wake B 0 d;
          d2 = spin 0 10 d1;
          (_, eml, d3) = xcew_eml_init B (Some (eml0 F)) 0 d2;
          (_, result, d4) = xcew_eml_compute B eml 0x00010000 (Some (word0 F)) d3;
          eml' = xcew_eml_close eml;
          (_, d5) = xcew_pwr_tile_sleep B 0 d4;
          d6 = uart_puts B (ln ''  Cycle done, EML sleeping'') d5
      in spin 0 100 d6)"

definition power_mgmt :: "'d bus \<Rightarrow> frame \<Rightarrow> 'd \<Rightarrow> int \<times> 'd" where
  "power_mgmt B F d =
     (let d1 = uart_puts B (ln ''Power Management Demo'') d;
          d2 = uart_puts B (ln ''Sleeping all tiles...'') d1;
          (_, d3) = xcew_pwr_tile_sleep B 0 d2;
          (_, d4) = xcew_pwr_tile_sleep B 1 d3;
          (_, d5) = xcew_pwr_tile_sleep B 2 d4;
          (_, d6) = xcew_pwr_set_bias B (-2) d5;
          d7 = uart_puts B (ln ''Bias set to -2 (low leakage mode)'') d6;
          d8 = uart_puts B (CRLF @ ln ''Duty cycling EML...'') d7;
          d9 = fold (\<lambda>cycle. duty_cycle B F) [0..<3] d8;
          (_, d10) = xcew_pwr_set_bias B 0 d9;
          d11 = uart_puts B (CRLF @ ln ''Bias restored to nominal.'') d10;
          (_, d12) = xcew_pwr_tile_wake B 0 d11;
          (_, d13) = xcew_pwr_tile_wake B 1 d12;
          (_, d14) = xcew_pwr_tile_wake B 2 d13
      in (0, uart_puts B (ln ''All tiles awake.'' @ ln ''Done.'') d14))"

section \<open>\<open>multi_subsystem.c\<close>\<close>

definition sensor_data :: "u32 list" where
  "sensor_data = [0x00020000, 0x00018000, 0x00030000, 0x00008000]"

text \<open>The loop over the sensor data: the \<open>features\<close> array and the device.\<close>

fun extract_features :: "'d bus \<Rightarrow> frame \<Rightarrow> xcew_eml option \<Rightarrow> u32 list \<Rightarrow> 'd \<Rightarrow> u32 list \<times> 'd" where
  "extract_features B F eml [] d = ([], d)"
| "extract_features B F eml (x # xs) d =
     (case xcew_eml_compute B eml x (Some (word0 F)) d of
        (_, outp, d1) \<Rightarrow>
          (case extract_features B F eml xs d1 of (fs, d2) \<Rightarrow> (the outp # fs, d2)))"

definition to_snn_input :: "u32 \<Rightarrow> u8" where
  "to_snn_input f = ucast (drop_bit 16 f AND 0xFF)"

definition multi_subsystem :: "'d bus \<Rightarrow> frame \<Rightarrow> 'd \<Rightarrow> (ub + int \<times> 'd) option" where
  "multi_subsystem B F d =
     (let d1 = uart_puts B (ln ''Multi-Subsystem Pipeline Demo'') d;
          (_, d2) = xcew_pwr_tile_wake B 0 d1;
          (_, d3) = xcew_pwr_tile_wake B 1 d2;
          (_, d4) = xcew_pwr_tile_wake B 2 d3;
          d5 = uart_puts B (LF @ ln ''[Stage 1] EML Feature Extraction'') d4;
          (_, eml, d6) = xcew_eml_init B (Some (eml0 F)) 0 d5;
          (features, d7) = extract_features B F eml sensor_data d6;
          eml' = xcew_eml_close eml;
          d8 = uart_puts B (ln ''  4 features extracted.'') d7;
          d9 = uart_puts B (ln ''[Stage 2] SNN Classification'') d8;
          (_, snn, d10) = xcew_snn_init B (Some (snn0 F)) 4 d9
      in and_then (xcew_snn_load_weights B snn (Some demo_weights) 4 d10) (\<lambda>(_, d11).
         let snn_input = map to_snn_input features;
             (_, class_id, d12) =
               xcew_snn_classify B snn (Some (array_at F snn_input)) (Some (word0 F)) d11;
             snn' = xcew_snn_close snn;
             d13 = uart_puts B ''  Classification: class '' d12;
             d14 = uart_puts B CRLF (uart_putdec B (buf0 F) (the class_id) d13);
             d15 = uart_puts B (ln ''[Stage 3] NVM Result Storage'') d14;
             result_record = word_bytes (the class_id) @ word_bytes (features ! 0)
         in and_then (xcew_nvm_write B 0x4200 (Some result_record) 8 d15) (\<lambda>(rc, d16).
            let d17 = (if rc = XCEW_OK then uart_puts B (ln ''  Result stored at NVM 0x4200.'') d16
                       else uart_puts B (ln ''  ERR: NVM write failed.'') d16);
                (_, d18) = xcew_pwr_tile_sleep B 0 d17;
                (_, d19) = xcew_pwr_tile_sleep B 2 d18
            in Some (Inr (0, uart_puts B (LF @ ln ''Pipeline complete. EML+SNN sleeping.'') d19)))))"

section \<open>Programs with an interrupt handler\<close>

record 'd irq_vars =
  get_seen :: "'d \<Rightarrow> u32"
  set_seen :: "u32 \<Rightarrow> 'd \<Rightarrow> 'd"
  get_last :: "'d \<Rightarrow> u32"
  set_last :: "u32 \<Rightarrow> 'd \<Rightarrow> 'd"

definition interrupted :: "('d \<Rightarrow> bool) \<Rightarrow> ('d \<Rightarrow> 'd) \<Rightarrow> 'd bus \<Rightarrow> 'd bus" where
  "interrupted take_irq handler B =
     (let irq = (\<lambda>d. if take_irq d then handler d else d)
      in \<lparr>csrr = (\<lambda>a d. csrr B a (irq d)), csrw = (\<lambda>a v d. csrw B a v (irq d)),
          insn = (\<lambda>op x y d. insn B op x y (irq d)), ld32 = (\<lambda>a d. ld32 B a (irq d)),
          st32 = (\<lambda>a v d. st32 B a v (irq d)), st8 = (\<lambda>a b d. st8 B a b (irq d))\<rparr>)"

section \<open>\<open>fault_demo.c\<close>\<close>

definition fault_line :: "u32 \<Rightarrow> u32 \<Rightarrow> string \<Rightarrow> 'd bus \<Rightarrow> 'd \<Rightarrow> 'd" where
  "fault_line fault m s B d = (if fault AND m \<noteq> 0 then uart_puts B (ln s) d else d)"

definition fault_table :: "(u32 \<times> string) list" where
  "fault_table =
     [(0x01, ''  - Watchdog trip''), (0x02, ''  - ECC single-bit (corrected)''),
      (0x04, ''  - ECC double-bit (uncorrectable!)''), (0x08, ''  - EML soft error''),
      (0x10, ''  - SNN soft error''), (0x20, ''  - NVM hard error''),
      (0x40, ''  - CSR violation''), (0x80, ''  - Instruction fault'')]"

definition decode_fault :: "u32 \<Rightarrow> 'd bus \<Rightarrow> 'd \<Rightarrow> 'd" where
  "decode_fault fault B d = fold (\<lambda>(m, s). fault_line fault m s B) fault_table d"

definition fault_demo_handler :: "'d bus \<Rightarrow> frame \<Rightarrow> 'd irq_vars \<Rightarrow> 'd \<Rightarrow> 'd" where
  "fault_demo_handler B F V d =
     (let (_, fault, d1) = xcew_fault_get_status B (Some (word0 F)) d;
          d2 = uart_puts B CRLF (print_hex B ''IRQ: Fault detected! Status=0x'' (the fault) d1);
          d3 = decode_fault (the fault) B d2;
          (_, d4) = xcew_fault_clear B (the fault) d3
      in set_seen V 1 d4)"

definition EM_DASH :: string where "EM_DASH = [CHR 0xE2, CHR 0x80, CHR 0x94]"

definition fault_demo :: "'d bus \<Rightarrow> frame \<Rightarrow> 'd irq_vars \<Rightarrow> 'd \<Rightarrow> int \<times> 'd" where
  "fault_demo B F V d =
     (let d1 = uart_puts B (ln ''Azmuth Fault Monitoring Demo'') d;
          (_, d2) = xcew_policy_set_deterministic B 1000 d1;
          d3 = uart_puts B (ln ''Policy determinism enabled (max 1000 cycles)'') d2;
          d4 = csr_set B 0x304 0x8 d3;
          d5 = csr_set B 0x300 0x8 d4;
          (_, d6) = xcew_policy_update B 0 0 d5;
          d7 = uart_puts B (ln ''Policy update 0 complete'') d6;
          (_, fault, d8) = xcew_fault_get_status B (Some (word0 F)) d7;
          d9 = uart_puts B CRLF (print_hex B ''Current fault status: 0x'' (the fault) d8);
          d10 = (if the fault = 0 \<and> get_seen V d9 = 0
                 then uart_puts B (''No faults detected '' @ EM_DASH @ ln '' system healthy.'') d9 else d9);
          (_, scrub, corrected, d11) = xcew_nvm_get_stats B (Some (word0 F)) (Some (word0 F)) d10;
          d12 = print_hex B ''NVM: scrub='' (the scrub) d11;
          d13 = uart_puts B CRLF (print_hex B '' corrected='' (the corrected) d12)
      in (0, uart_puts B (ln ''Done.'') d13))"

section \<open>\<open>irq_driven.c\<close>\<close>

text \<open>\<open>irq_count\<close> is the variable \<open>seen\<close>, \<open>last_fault\<close> the variable \<open>last\<close>.\<close>

definition irq_driven_handler :: "'d bus \<Rightarrow> frame \<Rightarrow> 'd irq_vars \<Rightarrow> 'd \<Rightarrow> 'd" where
  "irq_driven_handler B F V d =
     (let (_, fault, d1) = xcew_fault_get_status B (Some (word0 F)) d;
          d2 = set_last V (the fault) d1;
          d3 = set_seen V (get_seen V d2 + 1) d2
      in snd (xcew_fault_clear B (the fault) d3))"

text \<open>The digits of \<open>last_fault\<close>, which is read again for every digit.\<close>

function last_fault_loop :: "'d bus \<Rightarrow> 'd irq_vars \<Rightarrow> int \<Rightarrow> 'd \<Rightarrow> 'd" where
  "last_fault_loop B V i d =
     (if 0 \<le> i then last_fault_loop B V (i - 4) (uart_putc B (hex_char (get_last V d) i) d) else d)"
  by pat_completeness auto
termination
  by (relation "measure (\<lambda>(B, V, i, d). nat (i + 1))") auto

declare last_fault_loop.simps [simp del]

definition report_irq :: "'d bus \<Rightarrow> 'd irq_vars \<Rightarrow> nat \<Rightarrow> 'd \<Rightarrow> 'd" where
  "report_irq B V iter d =
     (if 0 < get_seen V d then
        let d1 = uart_puts B ''  IRQ occurred during iteration '' d;
            d2 = st32 B UART_TX (48 + of_nat iter) d1;
            d3 = uart_puts B '', fault=0x'' d2;
            d4 = uart_puts B CRLF (last_fault_loop B V 28 d3)
        in set_seen V 0 d4
      else d)"

definition poll_fault :: "'d bus \<Rightarrow> frame \<Rightarrow> 'd \<Rightarrow> 'd" where
  "poll_fault B F d =
     (let (_, fault, d1) = xcew_fault_get_status B (Some (word0 F)) d
      in if the fault \<noteq> 0
         then snd (xcew_fault_clear B (the fault)
                (uart_puts B (ln ''  Polled fault detected, clearing.'') d1))
         else d1)"

definition irq_iteration :: "'d bus \<Rightarrow> frame \<Rightarrow> 'd irq_vars \<Rightarrow> nat \<Rightarrow> 'd \<Rightarrow> 'd" where
  "irq_iteration B F V iter d =
     (let (_, eml, d1) = xcew_eml_init B (Some (eml0 F)) 0 d;
          (_, result, d2) = xcew_eml_compute B eml (0x00010000 * (of_nat iter + 1)) (Some (word0 F)) d1;
          eml' = xcew_eml_close eml
      in poll_fault B F (report_irq B V iter d2))"

definition irq_driven :: "'d bus \<Rightarrow> frame \<Rightarrow> 'd irq_vars \<Rightarrow> 'd \<Rightarrow> int \<times> 'd" where
  "irq_driven B F V d =
     (let d1 = uart_puts B (ln ''Interrupt-Driven Processing Demo'') d;
          d2 = csr_set B 0x304 0x8 d1;
          d3 = csr_set B 0x300 0x8 d2;
          d4 = uart_puts B (ln ''Interrupts enabled.'') d3;
          d5 = fold (irq_iteration B F V) [0..<5] d4;
          d6 = uart_puts B (ln ''Processing complete.'') d5;
          d7 = csr_clear B 0x300 0x8 d6
      in (0, uart_puts B (ln ''Interrupts disabled. Done.'') d7))"

section \<open>Calls on one or two words\<close>

lemma bytes_word_bytes [simp]: "bytes_word (word_bytes w) = w" "length (word_bytes w) = 4"
  using u32_of_bytes_of [of w] by (simp_all add: bytes_word_def word_bytes_def load32_def)

lemma word_loop: "nwords 4 = 1" "nwords 8 = 2" "ctr (Suc 0) = 4" "ctr 2 = 8"
  by (simp_all add: nwords_def ctr_def)

lemma src_word_bytes:
  "src_word (word_bytes w) 0 = w"
  "src_word (word_bytes w @ word_bytes x) 0 = w"
  "src_word (word_bytes w @ word_bytes x) (Suc 0) = x"
  using u32_of_bytes_of [of w] u32_of_bytes_of [of x]
  by (simp_all add: src_word_def word_bytes_def load32_def)

lemma nvm_write_words:
  "xcew_nvm_write B 0x4000 (Some (word_bytes w)) 4 d = Some (Inr (XCEW_OK, st32 B 0x4000 w d))"
  "xcew_nvm_write B 0x4004 (Some (word_bytes w)) 4 d = Some (Inr (XCEW_OK, st32 B 0x4004 w d))"
  "xcew_nvm_write B 0x4200 (Some (word_bytes w @ word_bytes x)) 8 d =
     Some (Inr (XCEW_OK, st32 B 0x4204 x (st32 B 0x4200 w d)))"
  using nvm_write_loop_stores [of 4 "word_bytes w" 0 B "0x4000" d]
    nvm_write_loop_stores [of 4 "word_bytes w" 0 B "0x4004" d]
    nvm_write_loop_stores [of 8 "word_bytes w @ word_bytes x" 0 B "0x4200" d]
  by (simp_all add: xcew_nvm_write_def nvm_bad_range_def word_loop src_word_bytes upt_rec)

lemma store_word_bytes: "store32 (word_bytes v) 0 w = Some (word_bytes w)"
  by (simp add: store32_def word_bytes_def)

definition nvm_word :: "'d bus \<Rightarrow> u32 \<Rightarrow> 'd \<Rightarrow> int \<times> u8 list option \<times> 'd" where
  "nvm_word B a d = (case ld32 B a d of (w, d') \<Rightarrow> nvm_read_status B (word_bytes w, d'))"

lemma nvm_read_words:
  "xcew_nvm_read B 0x4000 (Some (word_bytes v)) 4 d = Some (Inr (nvm_word B 0x4000 d))"
  "xcew_nvm_read B 0x4004 (Some (word_bytes v)) 4 d = Some (Inr (nvm_word B 0x4004 d))"
  using nvm_read_loop_loads [of 4 "word_bytes v" 0 B "0x4000" d]
    nvm_read_loop_loads [of 4 "word_bytes v" 0 B "0x4004" d]
  by (simp_all add: xcew_nvm_read_def nvm_bad_range_def word_loop upt_rec store_word_bytes nvm_word_def
      split: prod.split)

lemma demo_load:
  "neuron_count s = 4 \<Longrightarrow> xcew_snn_load_weights B (Some s) (Some demo_weights) 4 d =
     Some (Inr (XCEW_OK, st32 B 0x3000 0xF61ECE64 d))"
  using snn_load_loop_stores [of 4 demo_weights 0 B d]
  by (simp add: xcew_snn_load_weights_def demo_weights_def word_loop upt_rec weight_word_def
      weight_byte_def u32_of_bytes_def)

lemmas example_calls =
  nvm_read_words nvm_write_words demo_load snn_init_ok eml_init_ok xcew_snn_classify_def

text \<open>Three of the programs return 0 whatever the hardware answers and whatever the memory held
  before: the calls that could loop or leave a buffer return, and no error branch of the SNN
  program is reachable, since none of its calls looks at the hardware.\<close>

lemma examples_return:
  "(\<exists>d'. snn_demo B F d = Some (Inr (0, d'))) \<and>
   (\<exists>d'. nvm_persist B F d = Some (Inr (0, d'))) \<and>
   (\<exists>d'. multi_subsystem B F d = Some (Inr (0, d')))"
proof (intro conjI)
  show "\<exists>d'. snn_demo B F d = Some (Inr (0, d'))"
    by (simp add: snn_demo_def example_calls xcew_codes Let_def split: prod.split)
  show "\<exists>d'. nvm_persist B F d = Some (Inr (0, d'))"
    by (simp add: nvm_persist_def NVM_BOOT_COUNT_ADDR_def NVM_CONFIG_ADDR_def example_calls Let_def
        split: prod.split)
  show "\<exists>d'. multi_subsystem B F d = Some (Inr (0, d'))"
    by (simp add: multi_subsystem_def example_calls Let_def split: prod.split)
qed

section \<open>What the programs print\<close>

definition beat :: "nat \<Rightarrow> string" where
  "beat k = ''.'' @ (if Suc k mod 40 = 0 then CRLF else [])"

definition fault_text :: "u32 \<Rightarrow> string" where
  "fault_text fault =
     concat (map (\<lambda>(m, s). if fault AND m \<noteq> 0 then ln s else []) fault_table)"

context console
begin

lemma print_hex: "out (print_hex B s v d) = out d @ s @ hex_text v"
  by (simp add: print_hex_def puts puthex)

lemma heartbeat:
  "k < 200 \<Longrightarrow> out (heartbeat B (int k) d) = out d @ concat (map beat [k..<200])"
proof (induction "200 - k" arbitrary: k d)
  case (Suc n)
  have m: "(int k + 1) mod 40 = 0 \<longleftrightarrow> Suc k mod 40 = 0" "(1 + int k) mod 40 = 0 \<longleftrightarrow> Suc k mod 40 = 0"
    by presburger+
  show ?case
  proof (cases "Suc k = 200")
    case True
    then show ?thesis
      by (subst heartbeat.simps) (simp add: Let_def putc puts beat_def m)
  next
    case False
    then have "n = 200 - Suc k" "Suc k < 200"
      using Suc by simp_all
    note IH = Suc.hyps(1) [OF this]
    show ?thesis
      using Suc.prems False IH
      by (subst heartbeat.simps) (simp add: Let_def putc puts beat_def m upt_conv_Cons add.commute)
  qed
qed simp

lemma decode_fault: "out (decode_fault f B d) = out d @ fault_text f"
proof -
  have "out (fold (\<lambda>(m, s). fault_line f m s B) t d) =
      out d @ concat (map (\<lambda>(m, s). if f AND m \<noteq> 0 then ln s else []) t)" for t
    by (induction t arbitrary: d) (auto simp: fault_line_def puts)
  then show ?thesis
    by (simp add: decode_fault_def fault_text_def)
qed

end

lemma five_lines: "concat (map beat [0..<200]) = concat (replicate 5 (replicate 40 (CHR ''.'') @ CRLF))"
  by code_simp

lemma watched_heartbeat:
  "fst (heartbeat (watched B) 0 d) =
     fst d @ concat (replicate 5 (replicate 40 (CHR ''.'') @ CRLF))"
  using watch.heartbeat [of 0 B d] five_lines by simp

text \<open>The bring-up program ends. On every hardware it returns 0 and prints its banner, the hart
  number and the extensions it reads, then exactly 200 beats in five lines of 40, and that it
  halts.\<close>

lemma blinky_prints:
  "fst (bare_metal_blinky (watched B) ([], d)) = 0 \<and>
   (\<exists>hart misa. fst (snd (bare_metal_blinky (watched B) ([], d))) =
      ln ''Azmuth v1.1 Boot OK'' @ ''Hart ID: '' @ [char_of (48 + unat (hart AND 0xF :: u32))] @ CRLF @
      ''MISA: '' @ misa @ CRLF @
      concat (replicate 5 (replicate 40 (CHR ''.'') @ CRLF)) @ CRLF @ ln ''Halting.''
    \<and> misa \<in> set (subseqs ''IMC''))"
proof -
  define d1 where "d1 = uart_puts (watched B) (ln ''Azmuth v1.1 Boot OK'') ([], d)"
  obtain hart d2 where h: "csrr (watched B) 0xF14 d1 = (hart, d2)"
    by (cases "csrr (watched B) 0xF14 d1")
  define d5 where "d5 = uart_puts (watched B) CRLF
      (uart_putc (watched B) (char_of (48 + unat (hart AND 0xF))) (uart_puts (watched B) ''Hart ID: '' d2))"
  obtain isa d6 where i: "csrr (watched B) 0x301 d5 = (isa, d6)"
    by (cases "csrr (watched B) 0x301 d5")
  have out: "fst d2 = ln ''Azmuth v1.1 Boot OK''"
      "fst d6 = fst d2 @ ''Hart ID: '' @ [char_of (48 + unat (hart AND 0xF))] @ CRLF"
    using watch.csrr_out [OF h] watch.csrr_out [OF i] by (simp_all add: d1_def d5_def watch.puts watch.putc)
  define misa where "misa = (if isa AND push_bit 8 1 \<noteq> 0 then ''I'' else []) @
    (if isa AND push_bit 12 1 \<noteq> 0 then ''M'' else []) @ (if isa AND push_bit 2 1 \<noteq> 0 then ''C'' else [])"
  have "misa \<in> set (subseqs ''IMC'')"
    by (simp add: misa_def Let_def)
  moreover have "fst (snd (bare_metal_blinky (watched B) ([], d))) =
      ln ''Azmuth v1.1 Boot OK'' @ ''Hart ID: '' @ [char_of (48 + unat (hart AND 0xF))] @ CRLF @
      ''MISA: '' @ misa @ CRLF @
      concat (replicate 5 (replicate 40 (CHR ''.'') @ CRLF)) @ CRLF @ ln ''Halting.''"
    unfolding bare_metal_blinky_def Let_def d1_def [symmetric] h prod.case d5_def [symmetric] i
    by (simp add: watch.puts watch.putc watched_heartbeat out misa_def)
  ultimately show ?thesis
    by (auto simp: bare_metal_blinky_def Let_def split: prod.split)
qed

section \<open>Programs on a chip with a fixed fault status\<close>

text \<open>The shared variables of a program with an interrupt handler, beside the device.\<close>

definition with_vars :: "'d bus \<Rightarrow> ('g \<times> 'd) bus" where
  "with_vars B =
     \<lparr>csrr = (\<lambda>a (g, d). (fst (csrr B a d), g, snd (csrr B a d))),
      csrw = (\<lambda>a v (g, d). (g, csrw B a v d)),
      insn = (\<lambda>op x y (g, d). (fst (insn B op x y d), g, snd (insn B op x y d))),
      ld32 = (\<lambda>a (g, d). (fst (ld32 B a d), g, snd (ld32 B a d))),
      st32 = (\<lambda>a v (g, d). (g, st32 B a v d)),
      st8 = (\<lambda>a b (g, d). (g, st8 B a b d))\<rparr>"

lemma with_vars_simps [bus_simps]:
  "csrr (with_vars B) r (g, d) = (fst (csrr B r d), g, snd (csrr B r d))"
  "csrw (with_vars B) r v (g, d) = (g, csrw B r v d)"
  "insn (with_vars B) op x y (g, d) = (fst (insn B op x y d), g, snd (insn B op x y d))"
  "ld32 (with_vars B) a (g, d) = (fst (ld32 B a d), g, snd (ld32 B a d))"
  "st32 (with_vars B) a v (g, d) = (g, st32 B a v d)"
  "st8 (with_vars B) a b (g, d) = (g, st8 B a b d)"
  by (simp_all add: with_vars_def)

definition c_vars :: "('o \<times> (u32 \<times> u32) \<times> 'd) irq_vars" where
  "c_vars =
     \<lparr>get_seen = (\<lambda>(t, (s, l), d). s), set_seen = (\<lambda>v (t, (s, l), d). (t, (v, l), d)),
      get_last = (\<lambda>(t, (s, l), d). l), set_last = (\<lambda>v (t, (s, l), d). (t, (s, v), d))\<rparr>"

text \<open>A console on a memory, with a fault status that reads \<open>code\<close> as long as \<open>inv\<close> holds.\<close>

locale coded_chip = bus_memory B inv M + console B out
  for B :: "'d bus" and inv :: "'d \<Rightarrow> bool" and M :: "u32 \<Rightarrow> u32" and out :: "'d \<Rightarrow> string" +
  fixes code :: u32
  assumes code: "inv d \<Longrightarrow> fst (csrr B 0x7CC d) = code"
    and st32_inv: "inv d \<Longrightarrow> inv (st32 B a v d)"
    and csrr_inv: "inv d \<Longrightarrow> inv (snd (csrr B r d))"
    and csrw_inv: "inv d \<Longrightarrow> r \<noteq> 0x7CD \<Longrightarrow> inv (csrw B r v d)"
    and insn_inv: "inv d \<Longrightarrow> inv (snd (insn B op x y d))"
begin

lemma putc_inv: "inv d \<Longrightarrow> inv (uart_putc B c d)"
  by (simp add: uart_putc_def st32_inv)

lemma puts_inv: "inv d \<Longrightarrow> inv (uart_puts B s d)"
  by (induction s arbitrary: d) (simp_all add: uart_puts.simps putc_inv)

lemma puthex_inv: "inv d \<Longrightarrow> inv (uart_puthex B v d)"
  by (simp add: uart_puthex_def puthex_loop.simps putc_inv)

lemma print_hex_inv: "inv d \<Longrightarrow> inv (print_hex B s v d)"
  by (simp add: print_hex_def puts_inv puthex_inv)

lemma decode_fault_inv: "inv d \<Longrightarrow> inv (decode_fault f B d)"
proof -
  have "inv d \<Longrightarrow> inv (fold (\<lambda>(m, s). fault_line f m s B) t d)" for t
    by (induction t arbitrary: d) (auto simp: fault_line_def puts_inv)
  then show "inv d \<Longrightarrow> ?thesis"
    by (simp add: decode_fault_def)
qed

lemma read_status:
  assumes "inv d"
  obtains d' where "csrr B 0x7CC d = (code, d')" "inv d'" "out d' = out d"
  using assms that [of "snd (csrr B 0x7CC d)"] code csrr_inv csrr_silent by (metis prod.collapse)

lemma and_4: "v AND 4 = 0 \<longleftrightarrow> \<not> bit (v :: u32) 2"
  using and_exp_eq_0_iff_not_bit [of v 2] by simp

lemma nvm_word:
  assumes "inv d"
  obtains d' where "nvm_word B a d = (if bit code 2 then XCEW_ERR_ECC else XCEW_OK, Some (word_bytes (M a)), d')"
    "inv d'" "out d' = out d"
proof -
  obtain d1 where ld: "ld32 B a d = (M a, d1)" "inv d1" "out d1 = out d"
    using ld_value ld_inv ld32_silent assms by (metis prod.collapse)
  obtain d2 where "csrr B 0x7CC d1 = (code, d2)" "inv d2" "out d2 = out d1"
    using ld(2) by (rule read_status)
  then show ?thesis
    using that [of d2] ld by (simp add: nvm_word_def nvm_read_status_def Let_def and_4)
qed

lemma nvm_persist_text:
  assumes "inv d"
  shows "\<exists>tail d'. nvm_persist B F d = Some (Inr (0, d')) \<and>
    out d' = out d @ ln ''NVM Persistence Demo'' @
      (if bit code 2 then ln ''ERR: NVM read failed'' else []) @
      ''Boot count: 0x'' @ hex_text (if bit code 2 then 0 else M 0x4000) @ CRLF @
      ln ''Boot count incremented.'' @
      ''Config readback: 0x'' @ hex_text (M 0x4004) @
      ln (if M 0x4004 = 0xCAFEBABE then '' (match)'' else '' (MISMATCH!)'') @ tail"
proof -
  define d1 where "d1 = uart_puts B (ln ''NVM Persistence Demo'') d"
  have d1: "inv d1" "out d1 = out d @ ln ''NVM Persistence Demo''"
    using assms by (simp_all add: d1_def puts_inv puts)
  obtain d2 where r1: "nvm_word B 0x4000 d1 =
        (if bit code 2 then XCEW_ERR_ECC else XCEW_OK, Some (word_bytes (M 0x4000)), d2)"
      and d2: "inv d2" "out d2 = out d1"
    using d1(1) by (rule nvm_word)
  define count where "count = (if bit code 2 then 0 else M 0x4000)"
  define d3 where "d3 = (if bit code 2 then uart_puts B (ln ''ERR: NVM read failed'') d2 else d2)"
  have count: "(if (if bit code 2 then XCEW_ERR_ECC else XCEW_OK) \<noteq> XCEW_OK
      then (0, uart_puts B (ln ''ERR: NVM read failed'') d2) else (M 0x4000, d2)) = (count, d3)"
    by (simp add: count_def d3_def xcew_codes)
  define d7 where "d7 = st32 B 0x4004 0xCAFEBABE (uart_puts B (ln ''Boot count incremented.'')
      (st32 B 0x4000 (count + 1) (uart_puts B CRLF (print_hex B ''Boot count: 0x'' count d3))))"
  have d7: "inv d7" "out d7 = out d3 @ ''Boot count: 0x'' @ hex_text count @ CRLF @ ln ''Boot count incremented.''"
    using d2 by (simp_all add: d7_def d3_def st32_inv puts_inv print_hex_inv tx_other UART_TX_def puts print_hex)
  obtain d8 where r2: "nvm_word B 0x4004 d7 =
        (if bit code 2 then XCEW_ERR_ECC else XCEW_OK, Some (word_bytes (M 0x4004)), d8)"
      and d8: "inv d8" "out d8 = out d7"
    using d7(1) by (rule nvm_word)
  define d10 where "d10 = uart_puts B (ln (if M 0x4004 = 0xCAFEBABE then '' (match)'' else '' (MISMATCH!)''))
      (print_hex B ''Config readback: 0x'' (M 0x4004) d8)"
  obtain x scrub corrected d11 where st: "xcew_nvm_get_stats B (Some (word0 F)) (Some (word0 F)) d10 =
      (x, scrub, corrected, d11)"
    by (metis prod_cases4)
  then have d11: "out d11 = out d10"
    using sdk_silent(13) [of "Some (word0 F)" "Some (word0 F)" d10] by simp
  have "nvm_persist B F d = Some (Inr (0, uart_puts B (ln ''Done.'') (uart_puts B CRLF
      (print_hex B ''  corrections: 0x'' (the corrected) (print_hex B ''ECC scrubs: 0x'' (the scrub) d11)))))"
    unfolding nvm_persist_def Let_def d1_def [symmetric] NVM_BOOT_COUNT_ADDR_def NVM_CONFIG_ADDR_def
      nvm_read_words nvm_write_words r1 and_then_simps prod.case option.sel bytes_word_bytes count
      simp_thms if_False d7_def [symmetric] r2 d10_def [symmetric] st
    by simp
  then show ?thesis
    using d1 d2 d7 d8 d11 by (simp add: puts print_hex d10_def d3_def count_def)
qed

lemma hello_eml_text:
  assumes "inv d"
  shows "if code AND 0xFF = 0
    then (\<exists>x tail d'. hello_eml B F d = (0, d') \<and>
       out d' = out d @ ln ''Azmuth EML Example'' @ ''EML result (Q16.16): 0x'' @
         hex_text (fst (insn B 0x0B 0 0x00020000 x)) @ CRLF @ tail)
    else (\<exists>d'. hello_eml B F d = (-1, d') \<and>
       out d' = out d @ ln ''Azmuth EML Example'' @ ln ''ERR: EML compute failed'' \<and> inv d')"
proof -
  define d1 where "d1 = uart_puts B (ln ''Azmuth EML Example'') d"
  have d1: "inv d1" "out d1 = out d @ ln ''Azmuth EML Example''"
    using assms by (simp_all add: d1_def puts_inv puts)
  define e where "e = (eml0 F)\<lparr>expr_id := 0, flags := 0, mode := 0, precision := 2\<rparr>"
  define d2 where "d2 = csrw B 0x7C0 0x3200 (csrw B 0x7C6 0 d1)"
  have init: "xcew_eml_init B (Some (eml0 F)) 0 d1 = (XCEW_OK, Some e, d2)"
    by (simp add: eml_init_ok e_def d2_def)
  have d2: "inv d2" "out d2 = out d1"
    using d1 by (simp_all add: d2_def csrw_inv csrw_silent)
  obtain result d3 where i: "insn B 0x0B (expr_id e) 0x20000 d2 = (result, d3)"
    by (cases "insn B 0x0B (expr_id e) 0x20000 d2")
  then have result: "fst (insn B 0x0B 0 0x20000 d2) = result"
    by (simp add: e_def)
  have d3: "inv d3" "out d3 = out d2"
    using i insn_inv [OF d2(1), of "0x0B" "expr_id e" "0x20000"] insn_out by simp_all
  obtain d4 where "csrr B 0x7CC d3 = (code, d4)" and d4: "inv d4" "out d4 = out d3"
    using d3(1) by (rule read_status)
  then have compute: "xcew_eml_compute B (Some e) 0x20000 (Some (word0 F)) d2 =
      (if code AND 0xFF \<noteq> 0 then XCEW_ERR_FAULT else XCEW_OK, Some result, d4)"
    by (simp add: xcew_eml_compute_def i eml_csr_read_def)
  show ?thesis
  proof (cases "code AND 0xFF = 0")
    case True
    define d5 where "d5 = uart_puts B CRLF (print_hex B ''EML result (Q16.16): 0x'' result d4)"
    obtain rc f d6 where f: "xcew_fault_get_status B (Some (word0 F)) d5 = (rc, f, d6)"
      by (metis prod_cases3)
    then have "out d6 = out d5"
      using sdk_silent(11) [of "Some (word0 F)" d5] by simp
    moreover have "out (snd (xcew_fault_clear B (the f) d)) = out d" for d
      by (rule sdk_silent)
    ultimately have "fst (hello_eml B F d) = 0 \<and> out (snd (hello_eml B F d)) =
        out d5 @ (if the f \<noteq> 0 then ''WARN: Fault status: 0x'' @ hex_text (the f) @ CRLF else []) @ ln ''Done.''"
      using True
      by (simp add: hello_eml_def Let_def d1_def [symmetric] init compute d5_def [symmetric] f puts print_hex)
    moreover have "out d5 = out d @ ln ''Azmuth EML Example'' @ ''EML result (Q16.16): 0x'' @ hex_text result @ CRLF"
      using d1 d2 d3 d4 by (simp add: d5_def puts print_hex)
    ultimately show ?thesis
      unfolding if_P [OF True] by (intro exI [of _ d2] exI [of _ "snd (hello_eml B F d)"] exI conjI)
        (simp_all add: prod_eq_iff result, simp only: append_assoc)
  next
    case False
    then show ?thesis
      using d1 d2 d3 d4
      by (simp add: hello_eml_def Let_def d1_def [symmetric] init compute xcew_codes puts puts_inv)
  qed
qed

lemma fault_demo_handler_text:
  assumes "inv d" and "\<And>x. out (set_seen V 1 x) = out x" and "\<And>x. inv x \<Longrightarrow> inv (set_seen V 1 x)"
  shows "out (fault_demo_handler B F V d) =
      out d @ ''IRQ: Fault detected! Status=0x'' @ hex_text code @ CRLF @ fault_text code \<and>
    inv (fault_demo_handler B F V d)"
proof -
  obtain d1 where "csrr B 0x7CC d = (code, d1)" "inv d1" "out d1 = out d"
    using assms(1) by (rule read_status)
  moreover from this have "xcew_fault_get_status B (Some (word0 F)) d = (XCEW_OK, Some code, d1)"
    by (simp add: xcew_fault_get_status_def)
  ultimately show ?thesis
    using assms(2,3)
    by (simp add: fault_demo_handler_def Let_def xcew_fault_clear_def csrw_silent csrw_inv decode_fault
        decode_fault_inv puts puts_inv print_hex print_hex_inv)
qed

end

section \<open>Interrupts\<close>

text \<open>\<open>irq_driven\<close> sets the count of interrupts to 0 after it has printed: on any bus, so also one on
  which the handler runs between the prints, what was counted meanwhile is lost.\<close>

lemma report_loses_interrupts:
  assumes "\<And>v x. get_seen V (set_seen V v x) = v" and "0 < get_seen V d"
  shows "get_seen V (report_irq (interrupted take_irq (irq_driven_handler B F V) B) V iter d) = 0"
  by (simp add: report_irq_def assms)

text \<open>\<open>csrsi mie, 0x8\<close> sets bit 3, the software interrupt enable; bit 11, the external one that the
  comment names, stays as it was.\<close>

lemma mie_set_keeps_MEIE:
  assumes "csrr B 0x304 d = (v, d')"
  shows "csr_set B 0x304 0x8 d = csrw B 0x304 (v OR 0x8) d' \<and> (bit (v OR 0x8) 11 \<longleftrightarrow> bit v 11) \<and> bit (v OR 0x8) 3"
proof -
  have m: "(0x8 :: u32) = push_bit 3 1"
    by simp
  show ?thesis
    unfolding m csr_set_def assms prod.case bit_or_iff bit_one_shift by simp
qed

end
