(* ===== verification/Sdk_Client.thy ===== *)
theory Sdk_Client
  imports Sdk_Sys Sdk_Snn
begin

text \<open>
  The calls of \<open>libxcew\<close> that a program can make, as steps of a client on any bus. What the library asks of
  its caller, and does not check: an SNN structure that \<open>xcew_snn_init\<close> has filled, weights as many as stated,
  NVM addresses of words, and NVM ranges that do not wrap around in 32 bits. Null pointers and ranges outside the
  NVM window are among the calls; a call that leaves its buffer is not defined in C and makes no step.
\<close>

section \<open>Calls of a client\<close>

inductive sdk_call :: "'d bus \<Rightarrow> 'd \<Rightarrow> 'd \<Rightarrow> bool" for B where
  eml_init: "xcew_eml_init B eml m d = (rc, eml', d') \<Longrightarrow> sdk_call B d d'"
| eml_compute: "xcew_eml_compute B eml inp outp d = (rc, outp', d') \<Longrightarrow> sdk_call B d d'"
| snn_init: "xcew_snn_init B snn nc d = (rc, snn', d') \<Longrightarrow> sdk_call B d d'"
| snn_load_weights:
    "\<forall>s. snn = Some s \<longrightarrow> neuron_count s \<le> 256 \<Longrightarrow> \<forall>ws. weights = Some ws \<longrightarrow> unat len \<le> length ws \<Longrightarrow>
     xcew_snn_load_weights B snn weights len d = Some (Inr (rc, d')) \<Longrightarrow> sdk_call B d d'"
| snn_classify: "xcew_snn_classify B snn inp class_id d = (rc, class_id', d') \<Longrightarrow> sdk_call B d d'"
| snn_enable_stdp: "xcew_snn_enable_stdp B snn policy d = (rc, snn', d') \<Longrightarrow> sdk_call B d d'"
| nvm_read:
    "4 dvd unat addr \<Longrightarrow> unat addr + unat len < 2 ^ 32 \<Longrightarrow>
     xcew_nvm_read B addr dst len d = Some (Inr (rc, buf', d')) \<Longrightarrow> sdk_call B d d'"
| nvm_write:
    "4 dvd unat addr \<Longrightarrow> unat addr + unat len < 2 ^ 32 \<Longrightarrow>
     xcew_nvm_write B addr src len d = Some (Inr (rc, d')) \<Longrightarrow> sdk_call B d d'"
| nvm_get_stats: "xcew_nvm_get_stats B scrub corrected d = (rc, scrub', corrected', d') \<Longrightarrow> sdk_call B d d'"
| policy_set_deterministic: "xcew_policy_set_deterministic B max_cycles d = (rc, d') \<Longrightarrow> sdk_call B d d'"
| policy_update: "xcew_policy_update B policy_id params d = (rc, d') \<Longrightarrow> sdk_call B d d'"
| pwr_tile_sleep: "xcew_pwr_tile_sleep B tile d = (rc, d') \<Longrightarrow> sdk_call B d d'"
| pwr_tile_wake: "xcew_pwr_tile_wake B tile d = (rc, d') \<Longrightarrow> sdk_call B d d'"
| pwr_set_bias: "xcew_pwr_set_bias B code d = (rc, d') \<Longrightarrow> sdk_call B d d'"
| fault_get_status: "xcew_fault_get_status B fault_code d = (rc, fault_code', d') \<Longrightarrow> sdk_call B d d'"
| fault_clear: "xcew_fault_clear B fault_mask d = (rc, d') \<Longrightarrow> sdk_call B d d'"

section \<open>What the hardware sees of them\<close>

definition word_of_window :: "u32 \<Rightarrow> bool" where
  "word_of_window p \<longleftrightarrow> 4 dvd unat p \<and> 0x3000 \<le> p \<and> p < 0x5000"

fun sdk_access :: "access \<Rightarrow> bool" where
  "sdk_access (CsrRead a _) \<longleftrightarrow> a \<in> {CSR_PWR_CTRL, CSR_FAULT_STATUS, CSR_ECC_SCRUB_COUNT, CSR_ECC_CORRECTED}"
| "sdk_access (CsrWrite a _) \<longleftrightarrow> a \<in> {CSR_XCEW_CFG, CSR_SNN_CTRL_EXT, CSR_EML_DAG_CTL, CSR_PWR_CTRL,
     CSR_BIAS_CTRL, CSR_POL_SEC, CSR_FAULT_STATUS}"
| "sdk_access (Insn op _ _ _) \<longleftrightarrow> op \<in> {0x0B, 0x2B, 0x5B}"
| "sdk_access (Load p _) \<longleftrightarrow> word_of_window p"
| "sdk_access (Store p _) \<longleftrightarrow> word_of_window p"
| "sdk_access (StoreByte _ _) \<longleftrightarrow> False"

abbreviation typed_log :: "access list \<Rightarrow> bool" where
  "typed_log l \<equiv> list_all sdk_access l"

lemma nvm_word_in_window:
  assumes "in_window addr len" and "4 dvd unat addr" and "k < nwords (unat len)"
  shows "word_of_window (addr + ctr k)"
proof -
  have "unat (addr + ctr k) = unat addr + 4 * k"
  proof -
    have "4 * k < unat len"
      using assms(3) by (simp add: less_nwords_iff)
    then show ?thesis
      using unat_add_small [of addr "ctr k"] assms(1) ctr_loop(3) [OF assms(3)] by (simp add: in_window_def)
  qed
  then have "4 dvd unat (addr + ctr k)"
    using assms(2) by simp
  then show ?thesis
    using in_window_word [OF assms(1,3)] by (simp add: word_of_window_def word_le_nat_alt)
qed

lemma loads_typed:
  "\<forall>k \<in> set ks. word_of_window (addr + ctr k) \<Longrightarrow> typed_log l \<Longrightarrow>
   typed_log (snd (loads (trace_bus h) addr ks (dst, l)))"
  by (induction ks arbitrary: dst l) (simp_all add: bus_simps)

text \<open>Without a wrap the library's own check leaves only ranges inside the window.\<close>

lemma accepted_in_window:
  assumes "len \<noteq> 0" and "\<not> nvm_bad_range addr len" and "unat addr + unat len < 2 ^ 32"
  shows "in_window addr len"
  using assms unat_add_small [of addr len]
  by (simp add: in_window_def nvm_bad_range_def word_le_nat_alt word_less_nat_alt not_less word_neq_0_conv)

lemma whole_words: "4 * nwords n \<le> m \<longleftrightarrow> \<not> m div 4 < nwords n"
  by linarith

lemma nvm_read_typed:
  assumes "4 dvd unat addr" and "unat addr + unat len < 2 ^ 32"
    and "xcew_nvm_read (trace_bus h) addr buf len l = Some (Inr (rc, buf', l'))" and "typed_log l"
  shows "typed_log l'"
proof (cases "buf = None \<or> len = 0 \<or> nvm_bad_range addr len")
  case False
  then obtain dst where buf: "buf = Some dst"
    by auto
  have w: "in_window addr len"
    using accepted_in_window assms(2) False by blast
  obtain dst' l1 where r: "loads (trace_bus h) addr [0..<nwords (unat len)] (dst, l) = (dst', l1)"
    by fastforce
  have "typed_log l1"
    using loads_typed [of "[0..<nwords (unat len)]" addr l h dst] nvm_word_in_window [OF w assms(1)] assms(4) by (simp add: r)
  moreover have "4 * nwords (unat len) \<le> length dst"
    using nvm_read_loop_overrun [of 0 dst len "trace_bus h" addr l] assms(3) False
    by (auto simp: whole_words xcew_nvm_read_def buf)
  then have "nvm_read_loop (trace_bus h) addr len 0 dst l = Some (Inr (dst', l1))"
    using nvm_read_loop_loads [OF in_window_small [OF w], of dst 0 "trace_bus h" addr l] by (simp add: r)
  ultimately show ?thesis
    using assms(3) False by (auto simp: xcew_nvm_read_def nvm_read_status_def bus_simps csr_numbers buf)
qed (use assms(3,4) in \<open>auto simp: xcew_nvm_read_def split: option.splits\<close>)

lemma nvm_write_typed:
  assumes "4 dvd unat addr" and "unat addr + unat len < 2 ^ 32"
    and "xcew_nvm_write (trace_bus h) addr buf len l = Some (Inr (rc, l'))" and "typed_log l"
  shows "typed_log l'"
proof (cases "buf = None \<or> len = 0 \<or> nvm_bad_range addr len")
  case False
  then obtain src where buf: "buf = Some src"
    by auto
  have w: "in_window addr len"
    using accepted_in_window assms(2) False by blast
  have "4 * nwords (unat len) \<le> length src"
    using nvm_write_loop_overrun [of 0 src len "trace_bus h" addr l] assms(3) False
    by (auto simp: whole_words xcew_nvm_write_def buf)
  then have "nvm_write_loop (trace_bus h) addr len 0 src l =
      Some (Inr (stores (trace_bus h) addr src [0..<nwords (unat len)] l))"
    using nvm_write_loop_stores [OF in_window_small [OF w], of src 0 "trace_bus h" addr l] by simp
  then show ?thesis
    using assms(3,4) False nvm_word_in_window [OF w assms(1)]
    by (auto simp: xcew_nvm_write_def stores_trace list_all_iff buf)
qed (use assms(3,4) in \<open>auto simp: xcew_nvm_write_def split: option.splits\<close>)

lemma store_weights_typed:
  "\<forall>k \<in> set ks. word_of_window (0x3000 + ctr k) \<Longrightarrow> typed_log l \<Longrightarrow>
   typed_log (store_weights (trace_bus h) ws n ks l)"
  by (induction ks arbitrary: l) (simp_all add: bus_simps)

lemma snn_word:
  assumes "k < nwords n" and "n \<le> 256"
  shows "word_of_window (0x3000 + ctr k)"
proof -
  have "4 * k < 256"
    using assms by (simp add: less_nwords_iff)
  then have "unat (0x3000 + ctr k) = 0x3000 + 4 * k"
    by (simp add: ctr_def unat_word_ariths unat_of_nat take_bit_nat_eq_self)
  then show ?thesis
    using \<open>4 * k < 256\<close> by (simp add: word_of_window_def word_le_nat_alt word_less_nat_alt)
qed

lemma load_weights_typed:
  assumes "\<forall>s. snn = Some s \<longrightarrow> neuron_count s \<le> 256" and "\<forall>ws. weights = Some ws \<longrightarrow> unat len \<le> length ws"
    and "xcew_snn_load_weights (trace_bus h) snn weights len l = Some (Inr (rc, l'))" and "typed_log l"
  shows "typed_log l'"
proof (cases "snn = None \<or> weights = None \<or> neuron_count (the snn) < len")
  case False
  then obtain s ws where some: "snn = Some s" "weights = Some ws" and le: "\<not> neuron_count s < len"
    by auto
  then have n: "unat len \<le> 256"
    using assms(1) some le by (simp add: word_le_nat_alt word_less_nat_alt)
  then have "snn_load_loop (trace_bus h) ws len 0 l =
      Some (Inr (store_weights (trace_bus h) ws (unat len) [0..<nwords (unat len)] l))"
    using snn_load_loop_stores [of len ws 0 "trace_bus h" l] assms(2) some by simp
  then show ?thesis
    using assms(3,4) le store_weights_typed [of "[0..<nwords (unat len)]" l h ws "unat len"] snn_word [OF _ n]
    by (auto simp: xcew_snn_load_weights_def some)
qed (use assms(3,4) in \<open>auto simp: xcew_snn_load_weights_def split: option.splits\<close>)

lemma sdk_call_typed: "sdk_call (trace_bus h) l l' \<Longrightarrow> typed_log l \<Longrightarrow> typed_log l'"
proof (induction rule: sdk_call.induct)
  case (snn_load_weights snn weights len d rc d')
  then show ?case
    by (rule load_weights_typed)
next
  case (nvm_read addr len dst d rc buf' d')
  then show ?case
    by (rule nvm_read_typed)
next
  case (nvm_write addr len src d rc d')
  then show ?case
    by (rule nvm_write_typed)
qed (auto simp: sdk_defs bus_simps csr_numbers Let_def split: option.splits if_splits prod.splits)

text \<open>C29: Every access of a client of the SDK is well formed. Whatever calls a client makes in whatever
  order, with null pointers and with NVM ranges inside or outside the window, and whatever the hardware answers,
  the hardware sees only reads and writes of the CSRs that the calls name, the three Xcew opcodes, and loads and
  stores of aligned words of the SNN and NVM windows. The client owes four things: the SNN structure has been
  filled by \<open>xcew_snn_init\<close> (at most 256 neurons), the weights are as many as it says, and an NVM range starts at a
  word and does not reach 2^32, where the library's check would wrap around (\<open>nvm_range_check_wraps\<close>).\<close>

theorem sdk_accesses_typed:
  assumes "(sdk_call (trace_bus h))\<^sup>*\<^sup>* [] l"
  shows "list_all sdk_access l"
  using assms by (induction rule: rtranclp_induct) (simp_all add: sdk_call_typed)

definition silent :: answers where
  "silent = \<lparr>ans_csr = \<lambda>_ _. 0, ans_insn = \<lambda>_ _ _ _. 0, ans_ld = \<lambda>_ _. 0\<rparr>"

theorem sdk_accesses_typed_witness:
  "list_all sdk_access [CsrWrite 0x7C9 0x80, CsrWrite 0x7C8 4, CsrRead 0x7C8 0]"
proof (rule sdk_accesses_typed)
  let ?B = "trace_bus silent"
  have "sdk_call ?B [] [CsrWrite 0x7C8 4, CsrRead 0x7C8 0]"
    by (rule sdk_call.pwr_tile_sleep [where tile = 2 and rc = XCEW_OK])
      (simp add: xcew_pwr_tile_sleep_def bus_simps silent_def)
  moreover have "sdk_call ?B [CsrWrite 0x7C8 4, CsrRead 0x7C8 0] [CsrWrite 0x7C9 0x80, CsrWrite 0x7C8 4, CsrRead 0x7C8 0]"
    by (rule sdk_call.pwr_set_bias [where code = "0x80" and rc = XCEW_OK])
      (simp add: xcew_pwr_set_bias_def bus_simps silent_def)
  ultimately show "(sdk_call ?B)\<^sup>*\<^sup>* [] [CsrWrite 0x7C9 0x80, CsrWrite 0x7C8 4, CsrRead 0x7C8 0]"
    by (rule rtranclp.rtrancl_into_rtrancl [OF r_into_rtranclp])
qed

end
