(* ===== verification/Soc_Programs.thy ===== *)
theory Soc_Programs
  imports Rtl_Soc Sdk_Examples
begin

text \<open>
  The example programs on the bus of the RTL. \<open>chip env\<close> is \<open>soc_bus env\<close> with the program's output
  and its shared variables beside the chip; the contract \<open>coded_chip\<close> of \<open>Sdk_Examples\<close> is
  interpreted on it for a chip whose fault monitor shows a code.
\<close>

definition chip :: "(nat \<Rightarrow> env_in) \<Rightarrow> (string \<times> (u32 \<times> u32) \<times> soc) bus" where
  "chip env = watched (with_vars (soc_bus env))"

definition chip_shows :: "(nat \<Rightarrow> env_in) \<Rightarrow> u4 \<Rightarrow> string \<times> (u32 \<times> u32) \<times> soc \<Rightarrow> bool" where
  "chip_shows env c x \<longleftrightarrow> (\<forall>n. quiet_env (env n)) \<and>
     ar_grant_master (dmem (snd (snd x))) \<and> shows_code c (snd (snd x))"

lemma chip_shows_simp [simp]:
  "chip_shows env c (t, g, s) \<longleftrightarrow>
     (\<forall>n. quiet_env (env n)) \<and> ar_grant_master (dmem s) \<and> shows_code c s"
  by (simp add: chip_shows_def)

lemma chip_simps [bus_simps]:
  "csrr (chip env) r (t, g, s) =
     (soc_csr_read (env (edges s)) r s, t, g, soc_edge (env (edges s)) (rd_port r) s)"
  "csrw (chip env) r v (t, g, s) = (t, g, soc_edge (env (edges s)) (wr_port r v) s)"
  "insn (chip env) op x y (t, g, s) =
     (unit_result (env (edges s)) op x y, t, g, soc_edge (env (edges s)) (rd_port 0) s)"
  "ld32 (chip env) a (t, g, s) =
     (core_mem_rdata a (dmem s), t, g, soc_edge (env (edges s)) (mem_port (load_req a)) s)"
  "st32 (chip env) a v (t, g, s) =
     (if a = UART_TX then t @ [char_of (unat v)] else t, g,
      soc_edge (env (edges s)) (mem_port (store_req a v)) s)"
  "st8 (chip env) a b (t, g, s) = (t, g, soc_edge (env (edges s)) (mem_port (store8_req a b)) s)"
  by (simp_all add: chip_def watched_simps with_vars_simps soc_bus_simps)

interpretation shown: coded_chip "chip env" "chip_shows env c" rom_word fst "ucast c" for env c
  by unfold_locales
    (auto simp: chip_simps granted_load soc_edge_grant shows_code_edge shows_code_read)

text \<open>The words of the boot ROM that the SDK takes for the first two words of the NVM.\<close>

lemma rom_words: "rom_word 0x4000 = 0x00000093" "rom_word 0x4004 = 0x00A00093"
proof -
  have "\<not> bit (0x4000 :: u32) 12" "ucast (drop_bit 2 (0x4000 :: u32)) = (0 :: u10)"
    "\<not> bit (0x4004 :: u32) 12" "ucast (drop_bit 2 (0x4004 :: u32)) = (1 :: u10)"
    by code_simp+
  then show "rom_word 0x4000 = 0x00000093" "rom_word 0x4004 = 0x00A00093"
    by (simp_all add: rom_word_low instr_rom_def)
qed

lemma hex_rom: "hex_text 0x93 = ''00000093''" "hex_text 0x00A00093 = ''00A00093''" "hex_text 3 = ''00000003''"
  by code_simp+

text \<open>A chip that shows a code and a frame, for examples.\<close>

definition faulty_soc :: "u4 \<Rightarrow> soc" where
  "faulty_soc c = idle_soc\<lparr>dmem := (mem_reset (\<lambda>_. 0))\<lparr>ar_grant_master := True\<rparr>,
     fmon := fault_reset\<lparr>latched_error_code := c, fault_status_reg := ucast c\<rparr>\<rparr>"

definition zero_frame :: frame where
  "zero_frame =
     \<lparr>eml0 = \<lparr>expr_id = 0, flags = 0, mode = 0, precision = 0\<rparr>,
      snn0 = \<lparr>tile_id = 0, neuron_count = 0, ttfs_enabled = 0, stdp_policy = 0\<rparr>,
      word0 = 0, buf0 = replicate 12 (CHR 0x00), array_at = \<lambda>_. 0\<rparr>"

lemma faulty_soc_simps [simp]: "ar_grant_master (dmem (faulty_soc c))" "shows_code c (faulty_soc c)"
proof -
  show "ar_grant_master (dmem (faulty_soc c))"
    by (simp add: faulty_soc_def)
  have "unat (ucast c :: u32) = unat c"
    using unsigned_less [of c, where ?'a = nat] by (simp add: unsigned_ucast_eq take_bit_nat_eq_self)
  then have "(ucast c :: u32) < 2 ^ 6"
    using unsigned_less [of c, where ?'a = nat] by (simp add: word_less_nat_alt)
  then have "(ucast c :: u32) AND mask 6 = ucast c"
    by (rule and_mask_id) simp
  then show "shows_code c (faulty_soc c)"
    by (simp add: faulty_soc_def shows_code_def watchdog_off_def fault_reset_def)
qed

text \<open>The persistence example never finds its data. On a chip whose fault status is clear it
  prints the boot count 0x00000093, which is the first instruction of the boot ROM, on every boot,
  says that the count was incremented, and reports a mismatch of the word it has just written; it
  returns 0.\<close>

lemma nvm_persist_on_chip:
  assumes "\<And>n. quiet_env (env n)" and "ar_grant_master (dmem s)" and "shows_code 0 s"
  shows "\<exists>tail d'. nvm_persist (chip env) F ([], g, s) = Some (Inr (0, d')) \<and>
    fst d' = ln ''NVM Persistence Demo'' @ ''Boot count: 0x'' @ ''00000093'' @ CRLF @
      ln ''Boot count incremented.'' @ ''Config readback: 0x'' @ ''00A00093'' @ ln '' (MISMATCH!)'' @ tail"
  using shown.nvm_persist_text [of env 0 "([], g, s)" F] assms
  by (simp add: rom_words hex_rom)

section \<open>The chip after an uncorrectable NVM error\<close>

text \<open>The NVM controller holds its double-error flag until its next completed read (theory \<open>Rtl_Nvm\<close>), so the
  flag is up during the handler, which reads nothing from the NVM.\<close>

definition held_double :: "env_in \<Rightarrow> bool" where
  "held_double e \<longleftrightarrow> nvm_double_err e \<and> \<not> nvm_single_err e"

text \<open>What the monitor then holds: the code 3, and in the status register bit 5 for the live ECC error beside it.\<close>

definition shows_double :: "soc \<Rightarrow> bool" where
  "shows_double s \<longleftrightarrow> watchdog_off (fmon s) \<and> latched_error_code (fmon s) = ERR_ECC_DOUBLE \<and>
     fault_status_reg (fmon s) AND mask 6 = 0x23"

lemma double_words:
  "(ucast ERR_ECC_DOUBLE OR push_bit 5 1 :: u32) = 0x23" "(push_bit 6 1 OR 0x23 :: u32) = 0x63" "bit (6 :: 4 word) 1"
  "\<not> bit (6 :: 4 word) 0"
  unfolding ERR_ECC_DOUBLE_def by code_simp+

lemma held_port:
  assumes "held_double e"
  shows "ecc_error (fault_port e p s)" "soft_error (fault_port e p s) = 0" "hard_error (fault_port e p s) = 6"
    "\<not> watchdog_trip (fault_port e p s)" "f_csr_addr (fault_port e p s) = core_csr_addr p"
    "f_csr_wr_en (fault_port e p s) \<longrightarrow> core_csr_wr_en p"
  using assms by (simp_all add: held_double_def fault_port_def Let_def)

lemma held_fault_edge:
  assumes "held_double e" and "watchdog_off f"
  shows "latched_error_code (fault_edge (fault_port e p s) f) = ERR_ECC_DOUBLE"
    "fault_status_reg (fault_edge (fault_port e p s) f) AND mask 6 = ucast (latched_error_code f) OR push_bit 5 1"
  using held_port [OF assms(1), of p s] assms(2) double_words(3,4)
  by (simp_all add: edge_code edge_status fault_event_def fault_code_def soft_or_hard_def watchdog_off_def status_bits_def
      del: push_bit_of_1)

lemma watchdog_off_soc:
  assumes "held_double e" and "\<not> (core_csr_wr_en p \<and> core_csr_addr p = 0x7CD)" and "watchdog_off (fmon s)"
  shows "watchdog_off (fmon (soc_edge e p s))"
  using assms held_port(5,6) [OF assms(1), of p s] by (auto simp: fmon_edge intro!: watchdog_off_edge)

text \<open>Two edges after the error the code has arrived in the status register, and it stays.\<close>

lemma shows_double_edge:
  assumes "held_double e" and "\<not> (core_csr_wr_en p \<and> core_csr_addr p = 0x7CD)" and "shows_double s"
  shows "shows_double (soc_edge e p s)"
  using assms(3) watchdog_off_soc [OF assms(1,2), of s] held_fault_edge [OF assms(1), of "fmon s" p s] double_words(1)
  by (simp add: shows_double_def fmon_edge del: push_bit_of_1 split: if_splits)

lemma shows_double_after:
  assumes "held_double e" "held_double e'" and "\<not> (core_csr_wr_en p \<and> core_csr_addr p = 0x7CD)"
    "\<not> (core_csr_wr_en q \<and> core_csr_addr q = 0x7CD)" and "watchdog_off (fmon s)"
    and "\<not> core_asleep s" "\<not> core_asleep (soc_edge e p s)"
  shows "shows_double (soc_edge e' q (soc_edge e p s))"
proof -
  have w: "watchdog_off (fmon (soc_edge e p s))"
    by (rule watchdog_off_soc [OF assms(1,3,5)])
  moreover have "latched_error_code (fmon (soc_edge e p s)) = ERR_ECC_DOUBLE"
    using held_fault_edge(1) [OF assms(1,5)] assms(6) by (simp add: fmon_edge)
  moreover have "fmon (soc_edge e' q (soc_edge e p s)) =
      fault_edge (fault_port e' q (soc_edge e p s)) (fmon (soc_edge e p s))"
    using assms(7) by (simp only: fmon_edge if_False)
  ultimately show ?thesis
    using held_fault_edge [OF assms(2) w, of q "soc_edge e p s"] watchdog_off_soc [OF assms(2,4) w] double_words(1)
    by (simp add: shows_double_def del: push_bit_of_1)
qed

lemma shows_double_read:
  assumes "held_double e" and "shows_double s"
  shows "soc_csr_read e 0x7CC s = 0x63"
  using held_port [OF assms(1), of "rd_port 0x7CC" s] assms(2) double_words(2)
  by (simp add: soc_csr_read_def fault_csr_read_def shows_double_def del: push_bit_of_1)

definition chip_double :: "(nat \<Rightarrow> env_in) \<Rightarrow> string \<times> (u32 \<times> u32) \<times> soc \<Rightarrow> bool" where
  "chip_double env x \<longleftrightarrow> (case x of (t, g, s) \<Rightarrow>
     (\<forall>n \<ge> edges s. held_double (env n)) \<and> ar_grant_master (dmem s) \<and> shows_double s)"

lemma chip_double_simp [simp]:
  "chip_double env (t, g, s) \<longleftrightarrow> (\<forall>n \<ge> edges s. held_double (env n)) \<and> ar_grant_master (dmem s) \<and> shows_double s"
  by (simp add: chip_double_def)

interpretation double: coded_chip "chip env" "chip_double env" rom_word fst "0x63" for env
  by unfold_locales
    (auto simp: chip_simps granted_load soc_edge_grant shows_double_edge shows_double_read)

text \<open>C36: The interrupt handler of the fault example reads the 4-bit code of the fault monitor as
  flags. When the NVM controller has raised its flag for an uncorrectable ECC error, on a chip whose core is
  awake and whose watchdog rests, the handler, from two edges later on, reads the status 0x63 and reports a watchdog trip, a
  corrected single-bit error, a hard NVM error and a CSR violation, but no double-bit error; and the chip still shows
  the code after the handler has cleared it.\<close>

theorem double_error_reported_as_watchdog:
  fixes env s p q
  defines "s2 \<equiv> soc_edge (env (edges s + 1)) q (soc_edge (env (edges s)) p s)"
  assumes "\<And>n. edges s \<le> n \<Longrightarrow> held_double (env n)" and "watchdog_off (fmon s)" and "ar_grant_master (dmem s)"
    and "\<not> core_asleep s" "\<not> core_asleep (soc_edge (env (edges s)) p s)"
    and "\<not> (core_csr_wr_en p \<and> core_csr_addr p = 0x7CD)" "\<not> (core_csr_wr_en q \<and> core_csr_addr q = 0x7CD)"
  shows "\<exists>vars s'. fault_demo_handler (chip env) F c_vars (t, g, s2) =
      (t @ ''IRQ: Fault detected! Status=0x'' @ ''00000063'' @ CRLF @
         ln ''  - Watchdog trip'' @ ln ''  - ECC single-bit (corrected)'' @ ln ''  - NVM hard error'' @
         ln ''  - CSR violation'', vars, s') \<and>
    shows_double s'"
proof -
  have v: "fst (set_seen c_vars 1 x) = fst x" "chip_double env x \<Longrightarrow> chip_double env (set_seen c_vars 1 x)" for x
    by (cases x; simp add: c_vars_def split: prod.splits)+
  have f: "fault_text 0x63 = ln ''  - Watchdog trip'' @ ln ''  - ECC single-bit (corrected)'' @ ln ''  - NVM hard error'' @
      ln ''  - CSR violation''" "hex_text 0x63 = ''00000063''"
    by code_simp+
  have "shows_double s2"
    unfolding s2_def by (rule shows_double_after) (use assms in auto)
  then have "chip_double env (t, g, s2)"
    using assms(2,4) by (simp add: s2_def soc_edge_grant)
  then show ?thesis
    using double.fault_demo_handler_text [of env "(t, g, s2)" c_vars F] v
    by (cases "fault_demo_handler (chip env) F c_vars (t, g, s2)") (auto simp: f)
qed

definition failed_env :: env_in where
  "failed_env = idle_env\<lparr>nvm_double_err := True, e_activity := 1\<rparr>"

lemma granted_soc:
  "edges (faulty_soc 0) = 0" "watchdog_off (fmon (faulty_soc 0))" "\<not> core_asleep (faulty_soc 0)"
  "\<not> core_asleep (soc_edge failed_env (rd_port 0) (faulty_soc 0))" "held_double failed_env"
proof -
  have "awake (faulty_soc 0)"
    using idle_soc_simps(9) by (simp add: faulty_soc_def awake_def core_asleep_def)
  moreover have "busy_env failed_env"
    by (simp add: busy_env_def failed_env_def)
  ultimately show "\<not> core_asleep (faulty_soc 0)" "\<not> core_asleep (soc_edge failed_env (rd_port 0) (faulty_soc 0))"
    using awake_edge by (auto simp: awake_def)
  show "edges (faulty_soc 0) = 0" "held_double failed_env"
    by (simp_all add: faulty_soc_def held_double_def failed_env_def idle_env_def)
  show "watchdog_off (fmon (faulty_soc 0))"
    by (simp add: faulty_soc_def watchdog_off_def fault_reset_def)
qed

theorem double_error_reported_as_watchdog_witness:
  "\<exists>vars s'. fault_demo_handler (chip (\<lambda>_. failed_env)) zero_frame c_vars
      ([], (0, 0), soc_edge failed_env (rd_port 0) (soc_edge failed_env (rd_port 0) (faulty_soc 0))) =
      (''IRQ: Fault detected! Status=0x'' @ ''00000063'' @ CRLF @
         ln ''  - Watchdog trip'' @ ln ''  - ECC single-bit (corrected)'' @ ln ''  - NVM hard error'' @
         ln ''  - CSR violation'', vars, s') \<and>
    shows_double s'"
  using double_error_reported_as_watchdog [of "faulty_soc 0" "\<lambda>_. failed_env" "rd_port 0" "rd_port 0" zero_frame "[]" "(0, 0)"]
    granted_soc by simp

lemma code_low_byte: "(ucast c :: u32) AND 0xFF = 0 \<longleftrightarrow> c = 0" for c :: u4
proof -
  have u: "unat (ucast c :: u32) = unat c"
    using unsigned_less [of c, where ?'a = nat] by (simp add: unsigned_ucast_eq take_bit_nat_eq_self)
  then have "(ucast c :: u32) < 2 ^ 8"
    using unsigned_less [of c, where ?'a = nat] by (simp add: word_less_nat_alt)
  then have "(ucast c :: u32) AND mask 8 = ucast c"
    by (rule and_mask_id) simp
  moreover have "(0xFF :: u32) = mask 8"
    by (simp add: mask_eq_exp_minus_1)
  ultimately show ?thesis
    using u by (metis unat_eq_zero)
qed

lemma chip_insn: "\<exists>k. fst (insn (chip env) op x y z) = unit_result (env k) op x y"
  by (cases z) (auto simp: chip_simps)

text \<open>The EML example works exactly on a chip without a fault: with the status clear it returns 0 and
  prints a result, and once any code is shown it returns -1 after its error line on this and every
  later run, since the chip still shows the code afterwards.\<close>

lemma hello_eml_on_chip:
  assumes "\<And>n. quiet_env (env n)" and "ar_grant_master (dmem s)" and "shows_code c s"
  shows "if c = 0
    then (\<exists>k tail d'. hello_eml (chip env) F ([], g, s) = (0, d') \<and>
       fst d' = ln ''Azmuth EML Example'' @ ''EML result (Q16.16): 0x'' @
         hex_text (unit_result (env k) 0x0B 0 0x00020000) @ CRLF @ tail)
    else (\<exists>t' g' s'. hello_eml (chip env) F ([], g, s) = (-1, t', g', s') \<and>
       t' = ln ''Azmuth EML Example'' @ ln ''ERR: EML compute failed'' \<and> shows_code c s')"
proof (cases "c = 0")
  case True
  then obtain x tail d' where "hello_eml (chip env) F ([], g, s) = (0, d')"
      "fst d' = ln ''Azmuth EML Example'' @ ''EML result (Q16.16): 0x'' @
         hex_text (fst (insn (chip env) 0x0B 0 0x00020000 x)) @ CRLF @ tail"
    using shown.hello_eml_text [of env c "([], g, s)" F] assms by auto
  moreover obtain k where "fst (insn (chip env) 0x0B 0 0x00020000 x) = unit_result (env k) 0x0B 0 0x00020000"
    using chip_insn by blast
  ultimately show ?thesis
    unfolding if_P [OF True] by (intro exI [of _ k] exI [of _ tail] exI [of _ d']) simp
next
  case False
  then show ?thesis
    using shown.hello_eml_text [of env c "([], g, s)" F] assms by (auto simp: code_low_byte)
qed

end
