(* ===== verification/Soc_Power.thy ===== *)
theory Soc_Power
  imports Sdk_Sys Rtl_Soc
begin

text \<open>
  The power functions of \<open>sdk/src/xcew_sys.c\<close> on the chip: the body-bias register and the wells it
  drives, and the sleep requests, which have no effect.
\<close>

section \<open>The body bias on the chip\<close>

text \<open>A run of accesses on the port of the core.\<close>

definition run_ports :: "(nat \<Rightarrow> env_in) \<Rightarrow> core_port list \<Rightarrow> soc \<Rightarrow> soc" where
  "run_ports env ps s = fold (\<lambda>p s. soc_edge (env (edges s)) p s) ps s"

definition writes_bias :: "core_port \<Rightarrow> bool" where
  "writes_bias p \<longleftrightarrow> core_csr_wr_en p \<and> core_csr_addr p = 0x7C9"

text \<open>A code that is in the register stays there and is on the wells after two more edges.\<close>

lemma bias_hold:
  assumes "busy_env e" and "awake s" and "no_sweep (bias s)" and "\<not> writes_bias p"
  shows "awake (soc_edge e p s) \<and> no_sweep (bias (soc_edge e p s)) \<and>
    bias_code_reg (bias (soc_edge e p s)) = bias_code_reg (bias s) \<and>
    dac_output (bias (soc_edge e p s)) = bias_code_reg (bias s) \<and>
    pb_bias_out (bias (soc_edge e p s)) = dac_output (bias s) \<and>
    nb_bias_out (bias (soc_edge e p s)) = NOT (dac_output (bias s))"
proof -
  have "\<not> measure_en (bias_port p)"
    by (simp add: bias_port_def)
  moreover have "\<not> (b_csr_wr_en (bias_port p) \<and> b_csr_addr (bias_port p) = 0x7C9)"
    using assms(4) by (simp add: bias_port_def writes_bias_def)
  moreover have "\<not> core_asleep s"
    using assms(2) by (simp add: awake_def)
  ultimately show ?thesis
    using bias_edge_regs [OF assms(3)] no_sweep_edge [OF assms(3)] awake_edge [OF assms(1,2)]
    by (auto simp: bias_edge_soc)
qed

lemma bias_settled:
  assumes "\<And>n. busy_env (env n)" and "awake s" and "no_sweep (bias s)"
    and "bias_code_reg (bias s) = c" and "dac_output (bias s) = c" and "pb_bias_out (bias s) = c"
    and "nb_bias_out (bias s) = NOT c" and "\<forall>p \<in> set ps. \<not> writes_bias p"
  shows "pb_bias_out (bias (run_ports env ps s)) = c \<and> nb_bias_out (bias (run_ports env ps s)) = NOT c"
  using assms(2-8)
proof (induction ps arbitrary: s)
  case (Cons p ps)
  show ?case
    using Cons.IH [of "soc_edge (env (edges s)) p s"] Cons.prems bias_hold [of "env (edges s)" s p] assms(1)
    by (simp add: run_ports_def)
qed (simp add: run_ports_def)

text \<open>\<open>xcew_pwr_set_bias\<close> reaches the wells. On a chip that runs and does not sweep the bias, the
  register reads back the code with the calibration switched off, and from the second edge after
  the write on, for as long as nothing writes the register, the P-well has the code and the N-well
  its complement. The code is unsigned: -2, which the power example calls low leakage, is 0xFE,
  and the 0 it calls nominal is the lowest code, where the reset value is 0x80.\<close>

lemma set_bias_reaches_wells:
  assumes "\<And>n. busy_env (env n)" and "awake s" and "no_sweep (bias s)"
    and "\<forall>p \<in> set ps. \<not> writes_bias p" and "2 \<le> length ps"
  shows "\<exists>s1. xcew_pwr_set_bias (soc_bus env) c s = (XCEW_OK, s1) \<and>
    ucast (fst (csrr (soc_bus env) 0x7C9 s1)) = c \<and> \<not> bit (fst (csrr (soc_bus env) 0x7C9 s1)) 8 \<and>
    pb_bias_out (bias (run_ports env ps s1)) = c \<and> nb_bias_out (bias (run_ports env ps s1)) = NOT c"
proof -
  obtain p q qs where ps: "ps = p # q # qs"
    using assms(5) by (auto simp: numeral_2_eq_2 Suc_le_length_iff)
  define s1 where "s1 = soc_edge (env (edges s)) (wr_port 0x7C9 (ucast c)) s"
  have b: "b_csr_wr_en (bias_port (wr_port 0x7C9 (ucast c)))" "b_csr_addr (bias_port (wr_port 0x7C9 (ucast c))) = 0x7C9"
    "b_csr_wr_data (bias_port (wr_port 0x7C9 (ucast c))) = ucast c" "\<not> measure_en (bias_port (wr_port 0x7C9 (ucast c)))"
    by (simp_all add: bias_port_def)
  have c: "ucast (ucast c :: u32) = c" "\<not> bit (ucast c :: u32) 8"
    by (rule u8_eqI) (auto simp: bit_unsigned_iff dest: bit_imp_le_length)
  have edge: "bias s1 = bias_edge (bias_port (wr_port 0x7C9 (ucast c))) (bias s)"
    using assms(2) by (simp add: s1_def bias_edge_soc awake_def)
  have "awake s1"
    unfolding s1_def by (rule awake_edge) (fact assms)+
  moreover have "no_sweep (bias s1)"
    unfolding edge by (rule no_sweep_edge) (fact assms b)+
  moreover have "bias_code_reg (bias s1) = c" "\<not> cal_en_reg (bias s1)"
    unfolding edge bias_edge_regs(1,2) [OF assms(3) b(4)] b c using c b by simp_all
  ultimately have s1: "awake s1" "no_sweep (bias s1)" "bias_code_reg (bias s1) = c" "\<not> cal_en_reg (bias s1)"
    by simp_all
  have read: "fst (csrr (soc_bus env) 0x7C9 s1) = bias_csr_read 0x7C9 (bias s1)"
    by (simp add: bus_simps soc_csr_read_def)
  define s2 where "s2 = soc_edge (env (edges s1)) p s1"
  define s3 where "s3 = soc_edge (env (edges s2)) q s2"
  have run: "run_ports env ps s1 = run_ports env qs s3"
    by (simp add: ps run_ports_def s2_def s3_def)
  have s2: "awake s2" "no_sweep (bias s2)" "bias_code_reg (bias s2) = c" "dac_output (bias s2) = c"
    using bias_hold [OF assms(1) s1(1,2), of p] assms(4) s1 by (simp_all add: s2_def ps)
  have s3: "awake s3" "no_sweep (bias s3)" "bias_code_reg (bias s3) = c" "dac_output (bias s3) = c"
    "pb_bias_out (bias s3) = c" "nb_bias_out (bias s3) = NOT c"
    using bias_hold [OF assms(1) s2(1,2), of q] assms(4) s2 by (simp_all add: s3_def ps)
  have "xcew_pwr_set_bias (soc_bus env) c s = (XCEW_OK, s1)"
    by (simp add: xcew_pwr_set_bias_def bus_simps s1_def)
  moreover have "ucast (bias_csr_read 0x7C9 (bias s1)) = c" "\<not> bit (bias_csr_read 0x7C9 (bias s1)) 8"
    using s1 by (simp_all add: read_bias)
  moreover have "pb_bias_out (bias (run_ports env qs s3)) = c \<and> nb_bias_out (bias (run_ports env qs s3)) = NOT c"
    by (rule bias_settled) (use assms(1,4) s3 in \<open>simp_all add: ps\<close>)
  ultimately show ?thesis
    by (intro exI [of _ s1] conjI) (simp_all only: run read not_False_eq_True)
qed

section \<open>Tile sleep and wake on the chip\<close>

text \<open>Two chips whose tiles and idle timeout agree.\<close>

definition same_tiles :: "soc \<Rightarrow> soc \<Rightarrow> bool" where
  "same_tiles s t \<longleftrightarrow> tiles (orch s) = tiles (orch t) \<and> edges s = edges t \<and>
     bitsel 7 4 (pwr_ctrl_reg (orch s)) = bitsel 7 4 (pwr_ctrl_reg (orch t))"

lemma tile_edge_port:
  "tile_edge (pwr_port e p s) w k u = tile_edge (pwr_port e p t) w k u"
  by (cases "current_tile_state u") (auto simp: tile_edge_def pwr_port_def)

lemma same_tiles_edge:
  assumes "same_tiles s t"
  shows "same_tiles (soc_edge e p s) (soc_edge e p t)"
proof -
  have "core_asleep s = core_asleep t"
    using assms by (simp add: same_tiles_def core_asleep_def)
  moreover have "edges (soc_edge e p s) = edges (soc_edge e p t)"
    using assms by (simp add: same_tiles_def soc_edge_def Let_def)
  ultimately show ?thesis
    using assms tile_edge_port [of e p s _ _ _ t]
    by (auto simp: same_tiles_def orch_edge pwr_edge_def) (auto simp: pwr_port_def)
qed

lemma same_tiles_run: "same_tiles s t \<Longrightarrow> same_tiles (run_ports env ps s) (run_ports env ps t)"
proof (induction ps arbitrary: s t)
  case (Cons p ps)
  have "edges s = edges t"
    using Cons.prems by (simp add: same_tiles_def)
  then show ?case
    using Cons.IH same_tiles_edge [OF Cons.prems, of "env (edges s)" p] by (simp add: run_ports_def)
qed (simp add: run_ports_def)

text \<open>The write half of a read-modify-write of \<open>pwr_ctrl\<close>.\<close>

lemma pwr_rmw:
  assumes "awake s" and "awake r" and "pwr_ctrl_reg (orch r) = pwr_ctrl_reg (orch s)"
    and "\<And>n. 4 \<le> n \<Longrightarrow> bit v n = bit (pwr_csr_read (orch s) 0x7C8) n"
  shows "bitsel 7 4 (pwr_ctrl_reg (orch (soc_edge e (wr_port 0x7C8 v) r))) = bitsel 10 7 (pwr_ctrl_reg (orch s))"
proof -
  have w: "pwr_ctrl_reg (orch (soc_edge e (wr_port 0x7C8 v) r)) = v"
    using assms(2) by (simp add: awake_def orch_edge pwr_edge_def pwr_port_def)
  show ?thesis
  proof (rule bit_word_eqI)
    fix n assume "n < LENGTH(32)"
    show "bit (bitsel 7 4 (pwr_ctrl_reg (orch (soc_edge e (wr_port 0x7C8 v) r)))) n \<longleftrightarrow>
        bit (bitsel 10 7 (pwr_ctrl_reg (orch s))) n"
      using assms(4) [of "4 + n"] unfolding w
      by (cases "n = 0"; auto simp: bit_pwr_csr_read bit_pwr_fields ac_simps)
  qed
qed

lemma tiles_write:
  "tiles (orch (soc_edge e (wr_port a v) r)) = tiles (orch (soc_edge e (wr_port a v') r))"
proof -
  have "tile_edge (pwr_port e (wr_port a v) r) w k u = tile_edge (pwr_port e (wr_port a v') r) w k u" for w k u
    by (simp add: tile_edge_def pwr_port_def wr_port_def csr_pwr_ctrl_def)
  then show ?thesis
    by (simp add: orch_edge pwr_edge_def)
qed

lemma single_bit:
  assumes "tile \<le> 3" and "4 \<le> n"
  shows "bit (v OR push_bit (unat (tile :: u32)) 1 :: u32) n = bit v n"
    and "bit (v AND NOT (push_bit (unat tile) 1) :: u32) n = bit v n"
proof -
  have "unat tile < 4"
    using assms(1) by (simp add: word_le_nat_alt)
  then have "\<not> bit (push_bit (unat tile) 1 :: u32) n"
    using assms(2) unfolding bit_one_shift by auto
  then show "bit (v OR push_bit (unat tile) 1 :: u32) n = bit v n"
    and "bit (v AND NOT (push_bit (unat tile) 1) :: u32) n = bit v n"
    unfolding bit_or_iff bit_and_iff bit_not_iff by (blast dest: bit_imp_possible_bit)+
qed

text \<open>On the chip \<open>xcew_pwr_tile_sleep\<close> and \<open>xcew_pwr_tile_wake\<close> do the same. Both return \<open>XCEW_OK\<close>
  and leave the four tiles alike, and nothing that is done afterwards makes the tiles differ: the
  request bits have no effect. What both change is the idle timeout of all tiles, bits 7 to 4 of
  \<open>pwr_ctrl\<close>, which becomes what bits 10 to 7 were, because the register reads back with its fields
  one place lower.\<close>

lemma sleep_and_wake_alike:
  assumes "\<And>n. busy_env (env n)" and "awake s" and "tile \<le> 3"
  shows "\<exists>a b. xcew_pwr_tile_sleep (soc_bus env) tile s = (XCEW_OK, a) \<and>
    xcew_pwr_tile_wake (soc_bus env) tile s = (XCEW_OK, b) \<and>
    tiles (orch (run_ports env ps a)) = tiles (orch (run_ports env ps b)) \<and>
    bitsel 7 4 (pwr_ctrl_reg (orch a)) = bitsel 10 7 (pwr_ctrl_reg (orch s)) \<and>
    bitsel 7 4 (pwr_ctrl_reg (orch b)) = bitsel 10 7 (pwr_ctrl_reg (orch s))"
proof -
  define r where "r = soc_edge (env (edges s)) (rd_port 0x7C8) s"
  define v where "v = pwr_csr_read (orch s) 0x7C8"
  define a where "a = soc_edge (env (edges r)) (wr_port 0x7C8 (v OR push_bit (unat tile) 1)) r"
  define b where "b = soc_edge (env (edges r)) (wr_port 0x7C8 (v AND NOT (push_bit (unat tile) 1))) r"
  have r: "awake r" "pwr_ctrl_reg (orch r) = pwr_ctrl_reg (orch s)"
    using assms(1,2) awake_edge by (simp_all add: r_def orch_edge pwr_edge_def pwr_port_def rd_port_def)
  have a: "bitsel 7 4 (pwr_ctrl_reg (orch a)) = bitsel 10 7 (pwr_ctrl_reg (orch s))"
    unfolding a_def by (rule pwr_rmw [OF assms(2) r]) (simp only: single_bit(1) [OF assms(3)] v_def)
  have b: "bitsel 7 4 (pwr_ctrl_reg (orch b)) = bitsel 10 7 (pwr_ctrl_reg (orch s))"
    unfolding b_def by (rule pwr_rmw [OF assms(2) r]) (simp only: single_bit(2) [OF assms(3)] v_def)
  have "tiles (orch a) = tiles (orch b)"
    unfolding a_def b_def by (rule tiles_write)
  moreover have "edges a = edges b"
    by (simp add: a_def b_def)
  ultimately have "same_tiles a b"
    using a b unfolding same_tiles_def by simp
  then have run: "tiles (orch (run_ports env ps a)) = tiles (orch (run_ports env ps b))"
    using same_tiles_run unfolding same_tiles_def by blast
  have read: "csrr (soc_bus env) 0x7C8 s = (v, r)"
    by (simp add: bus_simps soc_csr_read_def r_def v_def)
  have "\<not> 3 < tile"
    using assms(3) by (simp only: not_less)
  then have "xcew_pwr_tile_sleep (soc_bus env) tile s = (XCEW_OK, a)"
    "xcew_pwr_tile_wake (soc_bus env) tile s = (XCEW_OK, b)"
    unfolding xcew_pwr_tile_sleep_def xcew_pwr_tile_wake_def read a_def b_def by (simp_all only: bus_simps if_False prod.case)
  then show ?thesis
    using run a b by (intro exI [of _ a] exI [of _ b] conjI)
qed

section \<open>The header's set and clear macros on the chip\<close>

text \<open>On \<open>snn_ctrl_ext\<close>, which keeps what is written.\<close>

lemma set_bits_on_chip:
  assumes "v1_1_en s"
  shows "fst (CSR_READ (soc_bus env) CSR_SNN_CTRL_EXT (CSR_SET (soc_bus env) CSR_SNN_CTRL_EXT v s)) =
      fst (csrr (soc_bus env) CSR_SNN_CTRL_EXT s) OR v"
    "fst (CSR_READ (soc_bus env) CSR_SNN_CTRL_EXT (CSR_CLEAR (soc_bus env) CSR_SNN_CTRL_EXT v (CSR_SET (soc_bus env) CSR_SNN_CTRL_EXT v s))) =
      fst (csrr (soc_bus env) CSR_SNN_CTRL_EXT s) AND NOT v"
  using csr_reg.set_bits [OF snn_ctrl.csr_reg_axioms assms]
    csr_reg.set_then_clear [OF snn_ctrl.csr_reg_axioms assms]
  by (simp_all add: CSR_SNN_CTRL_EXT_def)

end
