(* ===== verification/Rtl_Neuron.thy ===== *)
theory Rtl_Neuron
  imports Azmuth_Prelude
begin

text \<open>
  The leaky integrate-and-fire neuron of the SNN tile, module \<open>lif_ttfs_neuron_v1_1\<close> of
  \<open>rtl/snn/lif_ttfs_neuron_v1_1.v\<close>. An edge computes from the registers \<open>s\<close> before it; where two
  assignments write a register the later one counts. \<open>next_state\<close> is a register too, not reset,
  so a change of state takes two edges.
\<close>

datatype lif_phase = LIF_IDLE | LIF_INTEGRATE | LIF_SPIKE | LIF_REFRACTORY

record lif_in =
  n_ttfs_enable :: bool
  n_t_window :: u3
  n_refractory_cycles :: u3
  n_input_current :: u32
  n_current_valid :: bool
  n_v_threshold :: u32
  n_v_rest :: u32

record lif_state =
  n_state :: lif_phase
  n_next :: lif_phase
  v_mem :: u32
  n_cycle_count :: u32
  refractory_count :: u32
  threshold_crossed :: bool
  spike_out :: bool
  spike_valid :: bool
  membrane_potential :: u32

definition lif_window :: "u3 \<Rightarrow> u32" where
  "lif_window w =
     (if w = 0 then 10 else if w = 1 then 20 else if w = 2 then 50 else if w = 3 then 100
      else if w = 4 then 200 else if w = 5 then 500 else if w = 6 then 1000 else 2000)"

definition lif_reset :: "lif_state \<Rightarrow> lif_state" where
  "lif_reset s =
     s\<lparr>n_state := LIF_IDLE, v_mem := 0, n_cycle_count := 0, refractory_count := 0,
       spike_out := False, spike_valid := False, membrane_potential := 0, threshold_crossed := False\<rparr>"

definition lif_integrate :: "lif_in \<Rightarrow> lif_state \<Rightarrow> lif_state \<Rightarrow> lif_state" where
  "lif_integrate c s r =
     (let r1 = r\<lparr>spike_out := False, n_cycle_count := n_cycle_count s + 1\<rparr>;
          r2 = (if n_current_valid c then r1\<lparr>v_mem := v_mem s + n_input_current c\<rparr> else r1);
          r3 = (if n_v_threshold c \<le> v_mem s \<and> \<not> threshold_crossed s
                then r2\<lparr>threshold_crossed := True, spike_out := True, spike_valid := True,
                        n_next := LIF_SPIKE\<rparr>
                else r2)
      in if n_ttfs_enable c \<and> lif_window (n_t_window c) \<le> n_cycle_count s \<and> \<not> threshold_crossed s
         then r3\<lparr>v_mem := n_v_rest c, n_cycle_count := 0, n_next := LIF_IDLE\<rparr>
         else r3)"

definition lif_edge :: "lif_in \<Rightarrow> lif_state \<Rightarrow> lif_state" where
  "lif_edge c s =
     (let r = s\<lparr>n_state := n_next s, membrane_potential := v_mem s, spike_valid := False\<rparr>
      in case n_state s of
           LIF_IDLE \<Rightarrow>
             let r1 = r\<lparr>spike_out := False, n_cycle_count := 0, v_mem := n_v_rest c,
                        threshold_crossed := False\<rparr>
             in if n_current_valid c
                then r1\<lparr>n_next := LIF_INTEGRATE, v_mem := v_mem s + n_input_current c\<rparr>
                else r1
         | LIF_INTEGRATE \<Rightarrow> lif_integrate c s r
         | LIF_SPIKE \<Rightarrow>
             r\<lparr>spike_out := True, spike_valid := False, threshold_crossed := False,
               refractory_count := ucast (n_refractory_cycles c), n_next := LIF_REFRACTORY\<rparr>
         | LIF_REFRACTORY \<Rightarrow>
             let r1 = r\<lparr>spike_out := False, v_mem := n_v_rest c\<rparr>
             in if 0 < refractory_count s
                then r1\<lparr>refractory_count := refractory_count s - 1\<rparr>
                else r1\<lparr>n_cycle_count := 0, n_next := LIF_IDLE\<rparr>)"

section \<open>The refractory period\<close>

text \<open>A lower bound on the number of edges before the neuron can fire again.\<close>

definition quiet_edges :: "nat \<Rightarrow> lif_state \<Rightarrow> nat" where
  "quiet_edges rc s =
     (case (n_state s, n_next s) of
        (LIF_INTEGRATE, LIF_SPIKE) \<Rightarrow> if threshold_crossed s then rc + 7 else 0
      | (LIF_SPIKE, LIF_SPIKE) \<Rightarrow> rc + 6
      | (LIF_SPIKE, LIF_REFRACTORY) \<Rightarrow> rc + 5
      | (LIF_REFRACTORY, LIF_REFRACTORY) \<Rightarrow> unat (refractory_count s) + 4
      | (LIF_REFRACTORY, LIF_IDLE) \<Rightarrow> 3
      | (LIF_IDLE, LIF_IDLE) \<Rightarrow> 2
      | (LIF_IDLE, LIF_INTEGRATE) \<Rightarrow> 1
      | _ \<Rightarrow> 0)"

lemma quiet_edge:
  assumes "quiet_edges rc s = Suc n" and "unat (n_refractory_cycles c) = rc"
  shows "\<not> spike_valid (lif_edge c s) \<and> n \<le> quiet_edges rc (lif_edge c s)"
proof -
  have "rc < 8"
    using unsigned_less [of "n_refractory_cycles c", where ?'a = nat] assms(2) by simp
  then have "unat (ucast (n_refractory_cycles c) :: u32) = rc"
    using assms(2) by (simp add: unsigned_ucast_eq take_bit_nat_eq_self)
  moreover have "unat (refractory_count s - 1) = unat (refractory_count s) - 1" if "0 < refractory_count s"
    using that by (simp add: unat_minus_one word_neq_0_conv [symmetric])
  moreover have "0 < refractory_count s \<longleftrightarrow> 0 < unat (refractory_count s)"
    by (simp add: word_less_nat_alt)
  ultimately show ?thesis
    using assms(1)
    by (cases "n_state s"; cases "n_next s")
      (auto simp: quiet_edges_def lif_edge_def lif_integrate_def Let_def split: if_splits)
qed

lemma quiet_run:
  assumes "length cs \<le> quiet_edges rc s" and "\<forall>c \<in> set cs. unat (n_refractory_cycles c) = rc" and "cs \<noteq> []"
  shows "\<not> spike_valid (fold lif_edge cs s)"
  using assms
proof (induction cs arbitrary: s)
  case (Cons c cs)
  then obtain n where n: "quiet_edges rc s = Suc n" "length cs \<le> n"
    by (cases "quiet_edges rc s") auto
  then have step: "\<not> spike_valid (lif_edge c s)" "n \<le> quiet_edges rc (lif_edge c s)"
    using quiet_edge Cons.prems(2) by (metis list.set_intros(1))+
  then show ?case
    using Cons.IH [of "lif_edge c s"] Cons.prems(2) n(2) by (cases "cs = []") auto
qed simp

text \<open>A neuron that fires is silent for its refractory period. When it fires on an edge from the
  state of integration, without the window ending on that edge, no spike is reported on the next
  \<open>refractory_cycles\<close> + 7 edges, whatever current arrives.\<close>

lemma neuron_refractory:
  assumes "n_state s = LIF_INTEGRATE" and "n_next s = LIF_INTEGRATE" and "spike_valid (lif_edge c s)"
    and "\<not> n_ttfs_enable c \<or> n_cycle_count s < lif_window (n_t_window c)"
    and "\<forall>d \<in> set cs. n_refractory_cycles d = rc" and "cs \<noteq> []" and "length cs \<le> unat rc + 7"
  shows "\<not> spike_valid (fold lif_edge cs (lif_edge c s))"
proof -
  have "n_v_threshold c \<le> v_mem s \<and> \<not> threshold_crossed s"
    using assms(1,3) by (auto simp: lif_edge_def lif_integrate_def Let_def split: if_splits)
  then have "quiet_edges (unat rc) (lif_edge c s) = unat rc + 7"
    using assms(1,2,4) by (auto simp: quiet_edges_def lif_edge_def lif_integrate_def Let_def)
  then show ?thesis
    using quiet_run [of cs "unat rc" "lif_edge c s"] assms(5-7) by simp
qed

text \<open>A neuron after reset, and an input with threshold 100 and a current of 60 on every edge.\<close>

definition resting :: lif_state where
  "resting = \<lparr>n_state = LIF_IDLE, n_next = LIF_IDLE, v_mem = 0, n_cycle_count = 0, refractory_count = 0,
     threshold_crossed = False, spike_out = False, spike_valid = False, membrane_potential = 0\<rparr>"

definition drive :: "u3 \<Rightarrow> lif_in" where
  "drive rc = \<lparr>n_ttfs_enable = False, n_t_window = 0, n_refractory_cycles = rc, n_input_current = 60,
     n_current_valid = True, n_v_threshold = 100, n_v_rest = 0\<rparr>"

text \<open>When the window ends on the edge of the spike the period is skipped: the neuron goes back to
  \<open>LIF_IDLE\<close> and integrates again.\<close>

lemma late_spike_skips_refractory:
  assumes "n_state s = LIF_INTEGRATE" and "n_ttfs_enable c"
    and "lif_window (n_t_window c) \<le> n_cycle_count s" and "\<not> threshold_crossed s"
    and "n_v_threshold c \<le> v_mem s"
  shows "spike_valid (lif_edge c s) \<and> n_next (lif_edge c s) = LIF_IDLE \<and>
    v_mem (lif_edge c s) = n_v_rest c"
  using assms by (simp add: lif_edge_def lif_integrate_def Let_def)

text \<open>Because the next state is a register, every state lasts two edges at least, and the second edge
  in \<open>LIF_IDLE\<close> puts the membrane back to rest: a current of one cycle is lost.\<close>

lemma one_cycle_input_lost:
  assumes "n_state s = LIF_IDLE" and "n_next s = LIF_IDLE" and "\<not> n_current_valid d"
  shows "v_mem (lif_edge d (lif_edge c s)) = n_v_rest d"
  using assms by (simp add: lif_edge_def Let_def)

section \<open>Time to the first spike\<close>

text \<open>A constant current into a neuron at rest: the state after \<open>k\<close> edges, before the first spike.\<close>

definition charging :: "lif_in \<Rightarrow> nat \<Rightarrow> lif_state \<Rightarrow> bool" where
  "charging c k s \<longleftrightarrow>
     n_state s = (if k < 2 then LIF_IDLE else LIF_INTEGRATE) \<and>
     n_next s = (if k = 0 then LIF_IDLE else LIF_INTEGRATE) \<and>
     v_mem s = n_v_rest c + of_nat k * n_input_current c \<and>
     (2 \<le> k \<longrightarrow> n_cycle_count s = of_nat (k - 2) \<and> \<not> threshold_crossed s) \<and> (0 < k \<longrightarrow> \<not> spike_valid s)"

lemma charging_edge:
  assumes "charging c k s" and "n_current_valid c"
    and "k < 2 \<or> v_mem s < n_v_threshold c"
    and "\<not> n_ttfs_enable c \<or> k < 2 \<or> n_cycle_count s < lif_window (n_t_window c)"
  shows "charging c (Suc k) (lif_edge c s)"
proof (cases "k < 2")
  case True
  then have "k = 0 \<or> k = 1"
    by auto
  then show ?thesis
    using assms by (auto simp: charging_def lif_edge_def Let_def algebra_simps)
next
  case False
  then have "(of_nat (Suc k - 2) :: u32) = of_nat (k - 2) + 1"
    by (simp add: Suc_diff_le)
  then show ?thesis
    using assms False by (auto simp: charging_def lif_edge_def lif_integrate_def Let_def algebra_simps)
qed

lemma charging_run:
  assumes "charging c 0 s" and "n_current_valid c"
    and below: "\<And>k. 2 \<le> k \<Longrightarrow> k < t \<Longrightarrow> n_v_rest c + of_nat k * n_input_current c < n_v_threshold c"
    and window: "\<And>k. 2 \<le> k \<Longrightarrow> k < t \<Longrightarrow> \<not> n_ttfs_enable c \<or> of_nat (k - 2) < lif_window (n_t_window c)"
    and "k \<le> t"
  shows "charging c k ((lif_edge c ^^ k) s)"
  using \<open>k \<le> t\<close>
proof (induction k)
  case (Suc k)
  then have k: "charging c k ((lif_edge c ^^ k) s)"
    by simp
  show ?case
    unfolding funpow.simps o_apply
  proof (rule charging_edge [OF k assms(2)])
    show "k < 2 \<or> v_mem ((lif_edge c ^^ k) s) < n_v_threshold c"
      using k below [of k] Suc.prems by (cases "k < 2") (simp_all add: charging_def)
    show "\<not> n_ttfs_enable c \<or> k < 2 \<or> n_cycle_count ((lif_edge c ^^ k) s) < lif_window (n_t_window c)"
      using k window [of k] Suc.prems by (cases "k < 2") (simp_all add: charging_def)
  qed
qed (use assms(1) in simp)

lemma u32_no_wrap: "a < 2 ^ 32 \<Longrightarrow> unat (of_nat a :: u32) = a"
  by (simp add: unat_of_nat take_bit_nat_eq_self)

lemma rest_plus:
  assumes "unat r + k * unat i < 2 ^ 32"
  shows "unat (r + of_nat k * i :: u32) = unat r + k * unat i"
proof -
  have "r + of_nat k * i = of_nat (unat r + k * unat i)"
    by simp
  then show ?thesis
    using u32_no_wrap [OF assms] by simp
qed

lemma ceil_div: "0 < (i :: nat) \<Longrightarrow> k < (x + (i - 1)) div i \<longleftrightarrow> k * i < x"
  using less_eq_div_iff_mult_less_eq [of i "Suc k" "x + (i - 1)"] by (auto simp: Suc_le_eq)

text \<open>C32: The time to the first spike codes the strength of the input. A neuron at rest that receives
  the current \<open>i\<close> on every edge fires for the first time on the edge after \<open>t\<close> others, where \<open>t\<close> is
  the distance from rest to threshold divided by \<open>i\<close>, rounded up, and at least 2, as long as the sum
  stays below \<open>2 ^ 32\<close> and, in TTFS mode, \<open>t\<close> is within the window.\<close>

theorem first_spike_time:
  assumes "n_state s = LIF_IDLE" and "n_next s = LIF_IDLE" and "v_mem s = n_v_rest c" and "n_current_valid c"
    and "i = unat (n_input_current c)" and "0 < i"
    and "t = max 2 ((unat (n_v_threshold c) - unat (n_v_rest c) + (i - 1)) div i)"
    and "unat (n_v_rest c) + t * i < 2 ^ 32"
    and "\<not> n_ttfs_enable c \<or> t \<le> unat (lif_window (n_t_window c)) + 2"
  shows "spike_valid ((lif_edge c ^^ Suc t) s) \<and> (\<forall>k \<in> {1..t}. \<not> spike_valid ((lif_edge c ^^ k) s))"
proof -
  define r where "r = unat (n_v_rest c)"
  define th where "th = unat (n_v_threshold c)"
  have v: "unat (n_v_rest c + of_nat k * n_input_current c) = r + k * i" if "k \<le> t" for k
  proof -
    have "r + k * i < 2 ^ 32"
      using mult_le_mono1 [OF that, of i] assms(8) unfolding r_def by linarith
    then show ?thesis
      using rest_plus [of "n_v_rest c" k "n_input_current c"] assms(5) by (simp add: r_def)
  qed
  have t: "k < t \<longleftrightarrow> r + k * i < th" if "2 \<le> k" for k
    using ceil_div [OF assms(6), of k "th - r"] that assms(7) by (auto simp: r_def th_def)
  have run: "charging c k ((lif_edge c ^^ k) s)" if "k \<le> t" for k
  proof (rule charging_run [where t = t])
    show "charging c 0 s"
      using assms(1-3) by (simp add: charging_def)
    fix k assume k: "2 \<le> k" "k < t"
    show "n_v_rest c + of_nat k * n_input_current c < n_v_threshold c"
      using v [of k] t k by (simp add: word_less_nat_alt th_def)
    show "\<not> n_ttfs_enable c \<or> of_nat (k - 2) < lif_window (n_t_window c)"
      using assms(9) k u32_no_wrap [of "k - 2"] unsigned_less [of "lif_window (n_t_window c)", where ?'a = nat]
      by (auto simp: word_less_nat_alt)
  qed (use assms that in simp_all)
  have "2 \<le> t" "\<not> r + t * i < th"
    using assms(7) t [of t] by auto
  then have "spike_valid (lif_edge c ((lif_edge c ^^ t) s))"
    using run [of t] v [of t] by (simp add: charging_def lif_edge_def lif_integrate_def Let_def word_le_nat_alt th_def)
  moreover have "\<not> spike_valid ((lif_edge c ^^ k) s)" if "k \<in> {1..t}" for k
    using run [of k] that by (simp add: charging_def)
  ultimately show ?thesis
    by simp
qed

theorem first_spike_time_witness: "spike_valid ((lif_edge (drive 0) ^^ 3) resting)"
  using first_spike_time [of resting "drive 0" 60 2]
  by (simp add: resting_def drive_def numeral_3_eq_3)

end
