(* ===== verification/Rtl_Snn_Tile.thy ===== *)
theory Rtl_Snn_Tile
  imports Rtl_Neuron
begin

text \<open>
  The classifier tile \<open>snn_tile_256\<close> of \<open>rtl/snn/snn_tile_256.v\<close> with its 256 neurons, the array
  \<open>lif_ttfs_neuron_v1_1_array\<close> of \<open>lif_ttfs_neuron_v1_1.v\<close>. \<open>NUM_NEURONS\<close> is 256 as in the top
  level, so an index has 8 bits and the counters 9. The 3-bit state register only holds the five
  codes of \<open>tile_phase\<close>, since the reset sets it and the next state is one of them.
\<close>

datatype tile_phase = T_IDLE | T_LOAD | T_INTEGRATE | T_SCAN | T_DONE

record tile_in =
  i_classify_en :: bool
  i_ttfs_enable :: bool
  i_t_window :: u3
  i_refractory_cycles :: u3
  i_v_threshold :: u32
  i_v_rest :: u32
  i_input_current :: u32
  i_neuron_idx :: u8
  i_current_valid :: bool

record tile_state =
  tphase :: tile_phase
  scan_idx :: u8
  scan_counter :: u9
  load_counter :: u9
  load_done :: bool
  max_spike_count :: u16
  winner_neuron :: u8
  t_cycle_counter :: u16
  input_current_reg :: "u8 \<Rightarrow> u32"
  current_valid_reg :: "u8 \<Rightarrow> bool"
  spike_counts :: "u8 \<Rightarrow> u16"
  neuron_array :: "u8 \<Rightarrow> lif_state"
  o_class :: u8
  o_conf :: u16
  o_done :: bool

definition tile_window :: "u3 \<Rightarrow> u16" where
  "tile_window w =
     (if w = 0 then 10 else if w = 1 then 20 else if w = 2 then 50 else if w = 3 then 100
      else if w = 4 then 200 else if w = 5 then 500 else if w = 6 then 1000 else 2000)"

definition tile_next :: "tile_in \<Rightarrow> tile_state \<Rightarrow> tile_phase" where
  "tile_next i s =
     (case tphase s of
        T_IDLE \<Rightarrow> if i_classify_en i then T_LOAD else T_IDLE
      | T_LOAD \<Rightarrow> if load_done s then T_INTEGRATE else T_LOAD
      | T_INTEGRATE \<Rightarrow> if tile_window (i_t_window i) \<le> t_cycle_counter s then T_SCAN else T_INTEGRATE
      | T_SCAN \<Rightarrow> if 256 \<le> scan_counter s then T_DONE else T_SCAN
      | T_DONE \<Rightarrow> T_IDLE)"

text \<open>What neuron \<open>k\<close> of the array sees.\<close>

definition neuron_in :: "tile_in \<Rightarrow> tile_state \<Rightarrow> u8 \<Rightarrow> lif_in" where
  "neuron_in i s k =
     \<lparr>n_ttfs_enable = i_ttfs_enable i, n_t_window = i_t_window i, n_refractory_cycles = i_refractory_cycles i,
      n_input_current = input_current_reg s k, n_current_valid = current_valid_reg s k,
      n_v_threshold = i_v_threshold i, n_v_rest = i_v_rest i\<rparr>"

definition tile_idle :: "tile_state \<Rightarrow> tile_state" where
  "tile_idle r =
     r\<lparr>scan_idx := 0, scan_counter := 0, load_counter := 0, load_done := False, max_spike_count := 0,
       winner_neuron := 0, t_cycle_counter := 0, current_valid_reg := \<lambda>_. False, spike_counts := \<lambda>_. 0\<rparr>"

definition tile_load :: "tile_in \<Rightarrow> tile_state \<Rightarrow> tile_state \<Rightarrow> tile_state" where
  "tile_load i s r =
     (let r1 = (if i_current_valid i
                then r\<lparr>input_current_reg := (input_current_reg s)(i_neuron_idx i := i_input_current i),
                       current_valid_reg := (current_valid_reg s)(i_neuron_idx i := True),
                       load_counter := load_counter s + 1\<rparr>
                else r)
      in if 255 \<le> load_counter s then r1\<lparr>load_done := True\<rparr> else r1)"

definition tile_integrate :: "tile_state \<Rightarrow> tile_state \<Rightarrow> tile_state" where
  "tile_integrate s r =
     r\<lparr>t_cycle_counter := t_cycle_counter s + 1,
       spike_counts := \<lambda>k. if spike_valid (neuron_array s k) \<and> spike_out (neuron_array s k)
                           then spike_counts s k + 1 else spike_counts s k\<rparr>"

definition tile_scan :: "tile_state \<Rightarrow> tile_state \<Rightarrow> tile_state" where
  "tile_scan s r =
     (if scan_counter s < 256
      then (let r1 = (if max_spike_count s < spike_counts s (scan_idx s)
                      then r\<lparr>max_spike_count := spike_counts s (scan_idx s), winner_neuron := scan_idx s\<rparr>
                      else r)
            in r1\<lparr>scan_idx := scan_idx s + 1, scan_counter := scan_counter s + 1\<rparr>)
      else r)"

definition tile_step :: "tile_in \<Rightarrow> tile_state \<Rightarrow> tile_state" where
  "tile_step i s =
     (let r = s\<lparr>tphase := tile_next i s, o_done := False,
                neuron_array := \<lambda>k. lif_edge (neuron_in i s k) (neuron_array s k)\<rparr>
      in case tphase s of
           T_IDLE \<Rightarrow> tile_idle r
         | T_LOAD \<Rightarrow> tile_load i s r
         | T_INTEGRATE \<Rightarrow> tile_integrate s r
         | T_SCAN \<Rightarrow> tile_scan s r
         | T_DONE \<Rightarrow> r\<lparr>o_class := winner_neuron s, o_conf := max_spike_count s, o_done := True\<rparr>)"

definition tile_rst :: "tile_state \<Rightarrow> tile_state" where
  "tile_rst s =
     (tile_idle s)\<lparr>tphase := T_IDLE, o_class := 0, o_conf := 0, o_done := False,
       input_current_reg := \<lambda>_. 0, neuron_array := \<lambda>k. lif_reset (neuron_array s k)\<rparr>"

definition o_ready :: "tile_state \<Rightarrow> bool" where
  "o_ready s \<longleftrightarrow> tphase s = T_IDLE"

section \<open>The scan finds the first neuron with the most spikes\<close>

text \<open>After \<open>k\<close> neurons of the scan: the maximum of their counts and the first that has it.\<close>

definition scanned :: "(u8 \<Rightarrow> u16) \<Rightarrow> nat \<Rightarrow> tile_state \<Rightarrow> bool" where
  "scanned f k s \<longleftrightarrow>
     tphase s = T_SCAN \<and> spike_counts s = f \<and> unat (scan_counter s) = k \<and> unat (scan_idx s) = k mod 256 \<and>
     (\<forall>j < k. f (of_nat j) \<le> max_spike_count s) \<and>
     (\<forall>j < unat (winner_neuron s). f (of_nat j) < max_spike_count s) \<and>
     (f (winner_neuron s) = max_spike_count s \<or> winner_neuron s = 0 \<and> max_spike_count s = 0) \<and>
     unat (winner_neuron s) \<le> k"

lemma scanned_step:
  assumes "scanned f k s" and "k < 256"
  shows "scanned f (Suc k) (tile_step i s)"
proof -
  have c: "scan_counter s < 256" "unat (scan_counter s + 1) = Suc k"
    using assms by (simp_all add: scanned_def word_less_nat_alt unat_add_lem [THEN iffD1])
  moreover have idx: "unat (scan_idx s) = k"
    using assms by (simp add: scanned_def)
  moreover have "scan_idx s = of_nat k"
    unfolding idx [symmetric] by simp
  moreover have "unat (scan_idx s + 1) = Suc k mod 256"
    using idx by (simp add: unat_word_ariths)
  ultimately show ?thesis
    using assms by (auto simp: scanned_def tile_step_def tile_scan_def tile_next_def Let_def less_Suc_eq word_gt_0)
qed

lemma scanned_run:
  assumes "scanned f k s" and "k + length is \<le> 256"
  shows "scanned f (k + length is) (fold tile_step is s)"
  using assms
proof (induction "is" arbitrary: k s)
  case (Cons i "is")
  then show ?case
    using Cons.IH [OF scanned_step [of f k s i]] by simp
qed simp

lemma u8_all: "(\<And>j. j < 256 \<Longrightarrow> P (of_nat j)) \<Longrightarrow> P (k :: u8)"
proof -
  assume "\<And>j. j < 256 \<Longrightarrow> P (of_nat j)"
  from this [of "unat k"] show "P k"
    using unsigned_less [of k, where ?'a = nat] by simp
qed

lemma scan_ends:
  assumes "scanned f 256 s"
  shows "o_done (tile_step j (tile_step i s)) \<and> tphase (tile_step j (tile_step i s)) = T_IDLE \<and>
    o_class (tile_step j (tile_step i s)) = winner_neuron s \<and>
    o_conf (tile_step j (tile_step i s)) = max_spike_count s"
proof -
  have "\<not> scan_counter s < 256" "256 \<le> scan_counter s"
    using assms by (simp_all add: scanned_def word_less_nat_alt word_le_nat_alt)
  then show ?thesis
    using assms by (simp add: scanned_def tile_step_def tile_scan_def tile_next_def Let_def)
qed

lemma scanned_winner:
  assumes "scanned f 256 s"
  shows "f k \<le> max_spike_count s" and "f (winner_neuron s) = max_spike_count s"
    and "k < winner_neuron s \<Longrightarrow> f k < max_spike_count s"
proof -
  show le: "f k \<le> max_spike_count s" for k
    by (rule u8_all) (use assms in \<open>simp add: scanned_def\<close>)
  show "f (winner_neuron s) = max_spike_count s"
    using assms le [of "winner_neuron s"] by (auto simp: scanned_def)
  assume "k < winner_neuron s"
  moreover have "\<forall>j < unat (winner_neuron s). f (of_nat j) < max_spike_count s"
    using assms by (simp add: scanned_def)
  ultimately show "f k < max_spike_count s"
    by (auto simp: word_less_nat_alt dest: spec [of _ "unat k"])
qed

definition scan_start :: "tile_state \<Rightarrow> bool" where
  "scan_start s \<longleftrightarrow> tphase s = T_SCAN \<and> scan_counter s = 0 \<and> scan_idx s = 0 \<and>
     max_spike_count s = 0 \<and> winner_neuron s = 0"

definition is_winner :: "(u8 \<Rightarrow> u16) \<Rightarrow> u8 \<Rightarrow> u16 \<Rightarrow> bool" where
  "is_winner f w m \<longleftrightarrow> f w = m \<and> (\<forall>k. f k \<le> m) \<and> (\<forall>k. k < w \<longrightarrow> f k < m)"

lemma scan_result:
  assumes "scan_start s" and "length is = 258"
  shows "o_done (fold tile_step is s) \<and> tphase (fold tile_step is s) = T_IDLE \<and>
    is_winner (spike_counts s) (o_class (fold tile_step is s)) (o_conf (fold tile_step is s))"
proof -
  define a where "a = take 256 is"
  obtain i j where "drop 256 is = [i, j]"
    using assms(2) by (auto simp: length_Suc_conv eval_nat_numeral dest: arg_cong [where f = "\<lambda>n. n - 256"])
  then have split: "is = a @ [i, j]"
    unfolding a_def by (metis append_take_drop_id)
  have "scanned (spike_counts s) 0 s"
    using assms(1) by (simp add: scan_start_def scanned_def)
  then have "scanned (spike_counts s) 256 (fold tile_step a s)"
    using scanned_run [of "spike_counts s" 0 s a] assms(2) by (simp add: a_def)
  then show ?thesis
    unfolding split fold_append fold.simps o_apply id_apply
    using scan_ends scanned_winner unfolding is_winner_def by metis
qed

section \<open>The window of integration\<close>

definition fires :: "lif_state \<Rightarrow> bool" where
  "fires n \<longleftrightarrow> spike_valid n \<and> spike_out n"

text \<open>The spikes of neuron \<open>k\<close> on the first \<open>m\<close> edges from \<open>s\<close> under a constant input \<open>i\<close>.\<close>

definition spikes :: "tile_in \<Rightarrow> tile_state \<Rightarrow> nat \<Rightarrow> u8 \<Rightarrow> nat" where
  "spikes i s m k = card {t. t < m \<and> fires ((lif_edge (neuron_in i s k) ^^ t) (neuron_array s k))}"

lemma spikes_0 [simp]: "spikes i s 0 k = 0"
  by (simp add: spikes_def)

lemma spikes_Suc:
  "spikes i s (Suc m) k =
     spikes i s m k + (if fires ((lif_edge (neuron_in i s k) ^^ m) (neuron_array s k)) then 1 else 0)"
proof -
  have "{t. t < Suc m \<and> P t} = (if P m then insert m {t. t < m \<and> P t} else {t. t < m \<and> P t})" for P
    by (auto simp: less_Suc_eq)
  then show ?thesis
    by (simp add: spikes_def)
qed

text \<open>The inputs that the tile looks at outside \<open>T_LOAD\<close>.\<close>

definition same_config :: "tile_in \<Rightarrow> tile_in \<Rightarrow> bool" where
  "same_config i j \<longleftrightarrow> i_ttfs_enable j = i_ttfs_enable i \<and> i_t_window j = i_t_window i \<and>
     i_refractory_cycles j = i_refractory_cycles i \<and> i_v_threshold j = i_v_threshold i \<and>
     i_v_rest j = i_v_rest i"

definition window_start :: "tile_state \<Rightarrow> bool" where
  "window_start s \<longleftrightarrow> tphase s = T_INTEGRATE \<and> t_cycle_counter s = 0 \<and> spike_counts s = (\<lambda>_. 0) \<and>
     scan_counter s = 0 \<and> scan_idx s = 0 \<and> max_spike_count s = 0 \<and> winner_neuron s = 0"

definition integrated :: "tile_in \<Rightarrow> tile_state \<Rightarrow> nat \<Rightarrow> tile_state \<Rightarrow> bool" where
  "integrated i s m r \<longleftrightarrow>
     tphase r = (if m \<le> unat (tile_window (i_t_window i)) then T_INTEGRATE else T_SCAN) \<and>
     t_cycle_counter r = of_nat m \<and> spike_counts r = (\<lambda>k. of_nat (spikes i s m k)) \<and>
     neuron_array r = (\<lambda>k. (lif_edge (neuron_in i s k) ^^ m) (neuron_array s k)) \<and>
     input_current_reg r = input_current_reg s \<and> current_valid_reg r = current_valid_reg s \<and>
     scan_counter r = 0 \<and> scan_idx r = 0 \<and> max_spike_count r = 0 \<and> winner_neuron r = 0"

lemma tile_window_bound: "unat (tile_window w) \<le> 2000"
  by (simp add: tile_window_def)

lemma integrated_step:
  assumes "integrated i s m r" and "m \<le> unat (tile_window (i_t_window i))" and "same_config i j"
  shows "integrated i s (Suc m) (tile_step j r)"
proof -
  have "unat (of_nat m :: u16) = m"
    using assms(2) tile_window_bound [of "i_t_window i"] by (simp add: unat_of_nat take_bit_nat_eq_self)
  then have "tile_window (i_t_window j) \<le> t_cycle_counter r \<longleftrightarrow> \<not> Suc m \<le> unat (tile_window (i_t_window i))"
    using assms by (auto simp: integrated_def same_config_def word_le_nat_alt)
  moreover have "neuron_in j r = neuron_in i s"
    using assms by (simp add: integrated_def same_config_def neuron_in_def fun_eq_iff)
  ultimately show ?thesis
    using assms
    by (auto simp: integrated_def tile_step_def tile_integrate_def tile_next_def Let_def spikes_Suc fires_def fun_eq_iff)
qed

lemma integrated_run:
  assumes "window_start s" and "length is \<le> Suc (unat (tile_window (i_t_window i)))" and "\<forall>j \<in> set is. same_config i j"
  shows "integrated i s (length is) (fold tile_step is s)"
  using assms(2,3)
proof (induction "is" rule: rev_induct)
  case Nil
  then show ?case
    using assms(1) by (simp add: integrated_def window_start_def)
next
  case (snoc j "is")
  then show ?case
    using integrated_step by simp
qed

text \<open>C24: A classification is finished a fixed number of cycles after the window opens, and its result
  is the winner. With a constant configuration the tile is done, on the edge that ends the scan of
  the 256 neurons, with the class of the first neuron among those with the most spikes and their
  number as confidence, where a spike counts if it comes on one of the \<open>window_cycles\<close> + 1 edges of
  the window.\<close>

theorem classification_result:
  assumes "window_start s" and "\<forall>j \<in> set is. same_config i j"
    and "length is = unat (tile_window (i_t_window i)) + 259"
  shows "o_done (fold tile_step is s) \<and> o_ready (fold tile_step is s) \<and>
    is_winner (\<lambda>k. of_nat (spikes i s (unat (tile_window (i_t_window i)) + 1) k))
      (o_class (fold tile_step is s)) (o_conf (fold tile_step is s))"
proof -
  define w where "w = Suc (unat (tile_window (i_t_window i)))"
  define r where "r = fold tile_step (take w is) s"
  have "\<forall>j \<in> set (take w is). same_config i j" "length (take w is) = w"
    using assms(2,3) by (auto simp: w_def dest: in_set_takeD)
  then have r: "integrated i s w r"
    using integrated_run [of s "take w is" i] assms(1) by (simp add: r_def w_def)
  then have "scan_start r" "spike_counts r = (\<lambda>k. of_nat (spikes i s w k))"
    by (simp_all add: integrated_def scan_start_def w_def)
  moreover have "fold tile_step is s = fold tile_step (drop w is) r"
    unfolding r_def by (metis append_take_drop_id comp_apply fold_append)
  moreover have "length (drop w is) = 258"
    using assms(3) by (simp add: w_def)
  ultimately show ?thesis
    using scan_result [of r "drop w is"] by (simp add: w_def o_ready_def)
qed

text \<open>An example: every neuron at rest with a current of 60 and threshold 100.\<close>

definition window_cfg :: tile_in where
  "window_cfg = \<lparr>i_classify_en = False, i_ttfs_enable = False, i_t_window = 0, i_refractory_cycles = 0,
     i_v_threshold = 100, i_v_rest = 0, i_input_current = 0, i_neuron_idx = 0, i_current_valid = False\<rparr>"

definition open_window :: tile_state where
  "open_window = \<lparr>tphase = T_INTEGRATE, scan_idx = 0, scan_counter = 0, load_counter = 255, load_done = True,
     max_spike_count = 0, winner_neuron = 0, t_cycle_counter = 0, input_current_reg = \<lambda>_. 60,
     current_valid_reg = \<lambda>_. True, spike_counts = \<lambda>_. 0, neuron_array = \<lambda>_. resting,
     o_class = 0, o_conf = 0, o_done = False\<rparr>"

lemma spikes_example: "spikes window_cfg open_window 11 k = 1"
proof -
  have n: "neuron_in window_cfg open_window k = drive 0"
    by (simp add: neuron_in_def window_cfg_def open_window_def drive_def)
  have e: "(11 :: nat) = Suc (Suc (Suc (Suc (Suc (Suc (Suc (Suc (Suc (Suc (Suc 0))))))))))"
    by simp
  show ?thesis
    unfolding e spikes_Suc spikes_0 n
    by (simp add: open_window_def resting_def drive_def lif_edge_def lif_integrate_def fires_def)
qed

theorem classification_result_witness:
  "o_class (fold tile_step (replicate 269 window_cfg) open_window) = 0 \<and>
   o_conf (fold tile_step (replicate 269 window_cfg) open_window) = 1"
proof -
  have w: "tile_window (i_t_window window_cfg) = 10"
    by (simp add: window_cfg_def tile_window_def)
  have "is_winner (\<lambda>_. 1) (o_class (fold tile_step (replicate 269 window_cfg) open_window))
      (o_conf (fold tile_step (replicate 269 window_cfg) open_window))"
    using classification_result [of open_window "replicate 269 window_cfg" window_cfg] spikes_example
    by (simp add: w window_start_def open_window_def same_config_def)
  then show ?thesis
    unfolding is_winner_def by (metis less_irrefl word_gt_0)
qed

section \<open>Loading\<close>

text \<open>The tile waits in \<open>T_LOAD\<close> until 255 words have been loaded, whichever neurons they are for.\<close>

definition n_loads :: "tile_in list \<Rightarrow> nat" where
  "n_loads is = length (filter i_current_valid is)"

lemma waits_for_loads:
  assumes "tphase s = T_LOAD" and "\<not> load_done s" and "unat (load_counter s) + n_loads is < 255"
  shows "tphase (fold tile_step is s) = T_LOAD \<and> \<not> load_done (fold tile_step is s) \<and>
    (is \<noteq> [] \<longrightarrow> \<not> o_done (fold tile_step is s))"
  using assms
proof (induction "is" arbitrary: s)
  case (Cons i "is")
  have "\<not> 255 \<le> load_counter s" "i_current_valid i \<Longrightarrow> unat (load_counter s + 1) = Suc (unat (load_counter s))"
    using Cons.prems(3) by (simp_all add: word_le_nat_alt unat_add_lem [THEN iffD1])
  then have "tphase (tile_step i s) = T_LOAD" "\<not> load_done (tile_step i s)" "\<not> o_done (tile_step i s)"
    "unat (load_counter (tile_step i s)) + n_loads is < 255"
    using Cons.prems by (auto simp: tile_step_def tile_load_def tile_next_def n_loads_def Let_def)
  then show ?case
    using Cons.IH [of "tile_step i s"] by (cases "is") auto
qed simp

end
