(* ===== verification/Rtl_Cdc.thy ===== *)
theory Rtl_Cdc
  imports Azmuth_Prelude
begin

text \<open>
  The synchronisers between the core and the SNN clock domains, \<open>rtl/soc/cdc_sync.v\<close>. A module
  with two clocks has one function for an edge of each clock; an event is an edge of one or of both.
  Metastability is not modelled: a flip-flop samples the old value at a simultaneous edge.
\<close>

section \<open>Two flip-flops\<close>

record sync2 =
  sync_ff1 :: bool
  sync_ff2 :: bool

definition sync_edge :: "bool \<Rightarrow> sync2 \<Rightarrow> sync2" where
  "sync_edge sig s = \<lparr>sync_ff1 = sig, sync_ff2 = sync_ff1 s\<rparr>"

definition sync_clear :: sync2 where
  "sync_clear = \<lparr>sync_ff1 = False, sync_ff2 = False\<rparr>"

section \<open>The pulse synchroniser\<close>

record pulse_sync =
  req_level_src :: bool
  p_ack :: sync2
  p_req :: sync2
  req_level_dst_d :: bool
  pulse_dst_reg :: bool

definition pulse_clear :: pulse_sync where
  "pulse_clear = \<lparr>req_level_src = False, p_ack = sync_clear, p_req = sync_clear,
     req_level_dst_d = False, pulse_dst_reg = False\<rparr>"

definition pulse_src_edge :: "bool \<Rightarrow> pulse_sync \<Rightarrow> pulse_sync" where
  "pulse_src_edge pulse s =
     s\<lparr>req_level_src := (if pulse then True else if sync_ff2 (p_ack s) then False else req_level_src s),
       p_ack := sync_edge (pulse_dst_reg s) (p_ack s)\<rparr>"

definition pulse_dst_edge :: "pulse_sync \<Rightarrow> pulse_sync" where
  "pulse_dst_edge s =
     s\<lparr>p_req := sync_edge (req_level_src s) (p_req s),
       req_level_dst_d := sync_ff2 (p_req s),
       pulse_dst_reg := (sync_ff2 (p_req s) \<and> \<not> req_level_dst_d s)\<rparr>"

section \<open>The data synchroniser\<close>

record 'a data_sync =
  data_reg_src :: 'a
  req_reg_src :: bool
  d_ack :: sync2
  ack_dst_d :: bool
  d_req :: sync2
  data_reg_dst :: 'a
  valid_reg_dst :: bool
  req_dst_d :: bool

definition data_clear :: "'a::zero data_sync" where
  "data_clear = \<lparr>data_reg_src = 0, req_reg_src = False, d_ack = sync_clear, ack_dst_d = False,
     d_req = sync_clear, data_reg_dst = 0, valid_reg_dst = False, req_dst_d = False\<rparr>"

definition ack_src :: "'a data_sync \<Rightarrow> bool" where
  "ack_src s \<longleftrightarrow> sync_ff2 (d_ack s) \<and> \<not> ack_dst_d s"

definition data_src_edge :: "bool \<Rightarrow> 'a \<Rightarrow> 'a data_sync \<Rightarrow> 'a data_sync" where
  "data_src_edge req d s =
     (if req then s\<lparr>data_reg_src := d, req_reg_src := True\<rparr>
      else if ack_src s then s\<lparr>req_reg_src := False\<rparr> else s)
     \<lparr>d_ack := sync_edge (valid_reg_dst s) (d_ack s), ack_dst_d := sync_ff2 (d_ack s)\<rparr>"

definition data_dst_edge :: "bool \<Rightarrow> 'a data_sync \<Rightarrow> 'a data_sync" where
  "data_dst_edge ready s =
     (if sync_ff2 (d_req s) \<and> \<not> req_dst_d s
      then s\<lparr>data_reg_dst := data_reg_src s, valid_reg_dst := True\<rparr>
      else if valid_reg_dst s \<and> ready then s\<lparr>valid_reg_dst := False\<rparr> else s)
     \<lparr>d_req := sync_edge (req_reg_src s) (d_req s), req_dst_d := sync_ff2 (d_req s)\<rparr>"

section \<open>Edges of two clocks\<close>

text \<open>The clocks are unrelated: an edge of one side, of the other, or of both at once, when each side
  samples the registers of the other before the edge.\<close>

definition pulse_both_edge :: "bool \<Rightarrow> pulse_sync \<Rightarrow> pulse_sync" where
  "pulse_both_edge pulse s =
     (pulse_dst_edge s)\<lparr>req_level_src := req_level_src (pulse_src_edge pulse s), p_ack := p_ack (pulse_src_edge pulse s)\<rparr>"

definition data_both_edge :: "bool \<Rightarrow> 'a \<Rightarrow> bool \<Rightarrow> 'a data_sync \<Rightarrow> 'a data_sync" where
  "data_both_edge req d ready s =
     (data_dst_edge ready s)\<lparr>data_reg_src := data_reg_src (data_src_edge req d s),
       req_reg_src := req_reg_src (data_src_edge req d s), d_ack := d_ack (data_src_edge req d s),
       ack_dst_d := ack_dst_d (data_src_edge req d s)\<rparr>"

datatype 'a cdc_event = Src bool 'a | Dst bool | Both bool 'a bool

fun data_event :: "'a cdc_event \<Rightarrow> 'a data_sync \<Rightarrow> 'a data_sync" where
  "data_event (Src req d) s = data_src_edge req d s"
| "data_event (Dst ready) s = data_dst_edge ready s"
| "data_event (Both req d ready) s = data_both_edge req d ready s"

fun sent :: "'a cdc_event \<Rightarrow> 'a set" where
  "sent (Src req d) = (if req then {d} else {})"
| "sent (Dst _) = {}"
| "sent (Both req d _) = (if req then {d} else {})"

lemmas data_edge_defs [rtl_defs] =
  data_src_edge_def data_dst_edge_def data_both_edge_def sync_edge_def sync_clear_def data_clear_def ack_src_def

text \<open>A request is under way only after a word was sent, and what is delivered was sent.\<close>

definition carries :: "'a set \<Rightarrow> 'a data_sync \<Rightarrow> bool" where
  "carries S s \<longleftrightarrow>
     (req_reg_src s \<or> sync_ff1 (d_req s) \<or> sync_ff2 (d_req s) \<longrightarrow> data_reg_src s \<in> S) \<and>
     (valid_reg_dst s \<longrightarrow> data_reg_dst s \<in> S)"

lemma carries_event: "carries S s \<Longrightarrow> carries (S \<union> sent e) (data_event e s)"
  by (cases e) (auto simp: carries_def data_edge_defs)

lemma carries_run: "carries S s \<Longrightarrow> carries (S \<union> \<Union> (sent ` set es)) (fold data_event es s)"
proof (induction es arbitrary: S s)
  case (Cons e es)
  then show ?case
    using Cons.IH [OF carries_event [of S s e]] by (simp add: Un_assoc)
qed simp

text \<open>Words cross the clock domains unchanged: whatever the order of the edges of the two clocks,
  a word that the receiving side sees as valid is one that the sending side requested to send.\<close>

lemma delivered_was_sent:
  assumes "valid_reg_dst (fold data_event es (data_clear :: 'a::zero data_sync))"
  shows "data_reg_dst (fold data_event es data_clear) \<in> \<Union> (sent ` set es)"
proof -
  have "carries {} (data_clear :: 'a data_sync)"
    by (simp add: carries_def data_edge_defs)
  then show ?thesis
    using carries_run [of "{}" data_clear es] assms by (simp add: carries_def)
qed

text \<open>There is no back pressure: a second word sent before the handshake is over replaces the first,
  and only one of the two arrives.\<close>

lemma second_word_replaces_first:
  "data_reg_dst (fold data_event [Src True a, Src True b, Dst True, Dst True, Dst True] data_clear) = b \<and>
   valid_reg_dst (fold data_event [Src True a, Src True b, Dst True, Dst True, Dst True] (data_clear :: 'a::zero data_sync))"
  by (simp add: data_edge_defs)

section \<open>A receiver that is faster than the sender\<close>

text \<open>The receiver holds \<open>valid\<close> for one of its own cycles only. If the sender has no edge in that
  cycle it never sees the acknowledgement, and its request stays up for good.\<close>

definition blocked :: "'a data_sync \<Rightarrow> bool" where
  "blocked s \<longleftrightarrow> req_reg_src s \<and> d_ack s = sync_clear \<and> d_req s = \<lparr>sync_ff1 = True, sync_ff2 = True\<rparr> \<and>
     req_dst_d s \<and> \<not> valid_reg_dst s"

lemma blocked_event: "blocked s \<Longrightarrow> blocked (data_event e s)"
  by (cases e) (auto simp: blocked_def data_edge_defs)

lemma blocked_run: "blocked s \<Longrightarrow> blocked (fold data_event es s)"
  by (induction es arbitrary: s) (simp_all add: blocked_event)

text \<open>A cycle of the sender in which the receiver has two.\<close>

definition double_rate :: "bool \<times> 'a \<Rightarrow> 'a cdc_event list" where
  "double_rate = (\<lambda>(req, d). [Src req d, Dst True, Dst True])"

text \<open>At twice the clock rate of the sender the channel works once. The 250 MHz core receives the
  results of the 125 MHz SNN tile: when two core edges fall between two SNN edges, a first request
  is delivered, its acknowledgement is missed, and from then on no word is delivered, in whatever
  order the edges of the two clocks come.\<close>

lemma channel_blocks_at_double_rate:
  assumes "es = double_rate (True, d) @ double_rate (req, d') @ es'"
  shows "valid_reg_dst (fold data_event (take 5 es) (data_clear :: 'a::zero data_sync)) \<and>
    data_reg_dst (fold data_event (take 5 es) data_clear) = (if req then d' else d) \<and>
    \<not> valid_reg_dst (fold data_event es data_clear)"
proof -
  have "blocked (fold data_event (double_rate (True, d) @ double_rate (req, d')) data_clear)"
    by (simp add: double_rate_def blocked_def data_edge_defs)
  then have "blocked (fold data_event es data_clear)"
    using blocked_run unfolding assms by fastforce
  then show ?thesis
    unfolding assms by (simp add: double_rate_def blocked_def data_edge_defs)
qed

section \<open>The reset synchroniser\<close>

text \<open>\<open>sync_ff\<close> as the pair of its bits 1 and 0; the output is bit 1. It is set by the reset and
  released by the second edge.\<close>

definition reset_assert :: "bool \<times> bool" where
  "reset_assert = (True, True)"

definition reset_sync_edge :: "bool \<times> bool \<Rightarrow> bool \<times> bool" where
  "reset_sync_edge s = (snd s, False)"

lemma reset_released: "fst ((reset_sync_edge ^^ n) reset_assert) \<longleftrightarrow> n < 2"
proof -
  have "(reset_sync_edge ^^ Suc (Suc m)) reset_assert = (False, False)" for m
    by (induction m) (simp_all add: reset_sync_edge_def reset_assert_def)
  then show ?thesis
    by (cases n; cases "n - 1") (auto simp: reset_sync_edge_def reset_assert_def)
qed

end
