(* ===== verification/Isa_Rv32.thy ===== *)
theory Isa_Rv32
  imports Azmuth_Prelude "HOL-Library.Signed_Division"
begin

text \<open>
  The instruction set that the core implements, RV32IM with the machine-mode control and status
  registers, as a reference: decoding and the effect of each instruction on the program counter, the
  registers, the control and status registers and a byte memory, after the RISC-V manuals. Nothing
  here comes from the Verilog.
\<close>

section \<open>Instructions\<close>

datatype alu_fn =
  Alu_add | Alu_sub | Alu_sll | Alu_slt | Alu_sltu | Alu_xor | Alu_srl | Alu_sra | Alu_or | Alu_and
| Alu_mul | Alu_mulh | Alu_mulhsu | Alu_mulhu | Alu_div | Alu_divu | Alu_rem | Alu_remu

datatype branch_cond = BEQ | BNE | BLT | BGE | BLTU | BGEU

datatype load_kind = LB | LH | LW | LBU | LHU

datatype store_kind = SB | SH | SW

datatype csr_fn = CSRRW | CSRRS | CSRRC

datatype csr_operand = From_reg u5 | From_imm u5

datatype rv_instr =
  Op alu_fn u5 u5 u5
| Op_imm alu_fn u5 u5 u32
| Load load_kind u5 u5 u32
| Store store_kind u5 u5 u32
| Branch branch_cond u5 u5 u32
| Jal u5 u32
| Jalr u5 u5 u32
| Lui u5 u32
| Auipc u5 u32
| Csr csr_fn u5 csr_operand u12
| Ecall
| Ebreak
| Mret
| Nop

section \<open>Decoding\<close>

definition opcode_of :: "u32 \<Rightarrow> u32" where "opcode_of w = bitsel 6 0 w"
definition rd_of :: "u32 \<Rightarrow> u5" where "rd_of w = ucast (bitsel 11 7 w)"
definition funct3_of :: "u32 \<Rightarrow> u32" where "funct3_of w = bitsel 14 12 w"
definition rs1_of :: "u32 \<Rightarrow> u5" where "rs1_of w = ucast (bitsel 19 15 w)"
definition rs2_of :: "u32 \<Rightarrow> u5" where "rs2_of w = ucast (bitsel 24 20 w)"
definition funct7 :: "u32 \<Rightarrow> u32" where "funct7 w = bitsel 31 25 w"
definition csr_of :: "u32 \<Rightarrow> u12" where "csr_of w = ucast (bitsel 31 20 w)"

definition imm_I :: "u32 \<Rightarrow> u32" where
  "imm_I w = scast (ucast (bitsel 31 20 w) :: 12 word)"

definition imm_S :: "u32 \<Rightarrow> u32" where
  "imm_S w = scast (push_bit 5 (ucast (bitsel 31 25 w)) OR ucast (bitsel 11 7 w) :: 12 word)"

definition imm_B :: "u32 \<Rightarrow> u32" where
  "imm_B w = scast (push_bit 12 (ucast (bitsel 31 31 w)) OR push_bit 11 (ucast (bitsel 7 7 w))
     OR push_bit 5 (ucast (bitsel 30 25 w)) OR push_bit 1 (ucast (bitsel 11 8 w)) :: 13 word)"

definition imm_U :: "u32 \<Rightarrow> u32" where
  "imm_U w = push_bit 12 (bitsel 31 12 w)"

definition imm_J :: "u32 \<Rightarrow> u32" where
  "imm_J w = scast (push_bit 20 (ucast (bitsel 31 31 w)) OR push_bit 12 (ucast (bitsel 19 12 w))
     OR push_bit 11 (ucast (bitsel 20 20 w)) OR push_bit 1 (ucast (bitsel 30 21 w)) :: 21 word)"

definition base_fn :: "u32 \<Rightarrow> alu_fn" where
  "base_fn f3 =
     (if f3 = 0 then Alu_add else if f3 = 1 then Alu_sll else if f3 = 2 then Alu_slt
      else if f3 = 3 then Alu_sltu else if f3 = 4 then Alu_xor else if f3 = 5 then Alu_srl
      else if f3 = 6 then Alu_or else Alu_and)"

definition mul_fn :: "u32 \<Rightarrow> alu_fn" where
  "mul_fn f3 =
     (if f3 = 0 then Alu_mul else if f3 = 1 then Alu_mulh else if f3 = 2 then Alu_mulhsu
      else if f3 = 3 then Alu_mulhu else if f3 = 4 then Alu_div else if f3 = 5 then Alu_divu
      else if f3 = 6 then Alu_rem else Alu_remu)"

definition decode_op :: "u32 \<Rightarrow> alu_fn option" where
  "decode_op w =
     (if funct7 w = 0 then Some (base_fn (funct3_of w))
      else if funct7 w = 1 then Some (mul_fn (funct3_of w))
      else if funct7 w = 0x20 \<and> funct3_of w = 0 then Some Alu_sub
      else if funct7 w = 0x20 \<and> funct3_of w = 5 then Some Alu_sra
      else None)"

text \<open>The shifts by an immediate have a function code where the other instructions have immediate bits.\<close>

definition decode_op_imm :: "u32 \<Rightarrow> (alu_fn \<times> u32) option" where
  "decode_op_imm w =
     (if funct3_of w = 1 then (if funct7 w = 0 then Some (Alu_sll, ucast (rs2_of w)) else None)
      else if funct3_of w = 5 then
        (if funct7 w = 0 then Some (Alu_srl, ucast (rs2_of w))
         else if funct7 w = 0x20 then Some (Alu_sra, ucast (rs2_of w)) else None)
      else Some (base_fn (funct3_of w), imm_I w))"

definition decode_load :: "u32 \<Rightarrow> load_kind option" where
  "decode_load f3 =
     (if f3 = 0 then Some LB else if f3 = 1 then Some LH else if f3 = 2 then Some LW
      else if f3 = 4 then Some LBU else if f3 = 5 then Some LHU else None)"

definition decode_store :: "u32 \<Rightarrow> store_kind option" where
  "decode_store f3 =
     (if f3 = 0 then Some SB else if f3 = 1 then Some SH else if f3 = 2 then Some SW else None)"

definition decode_branch :: "u32 \<Rightarrow> branch_cond option" where
  "decode_branch f3 =
     (if f3 = 0 then Some BEQ else if f3 = 1 then Some BNE else if f3 = 4 then Some BLT
      else if f3 = 5 then Some BGE else if f3 = 6 then Some BLTU else if f3 = 7 then Some BGEU else None)"

text \<open>The control and status registers of machine mode, and the block of custom ones.\<close>

definition machine_csr :: "u12 \<Rightarrow> bool" where
  "machine_csr c \<longleftrightarrow> c \<in> {0x300, 0x301, 0x304, 0x305, 0x340, 0x341, 0x342, 0x343, 0x344, 0xF14}"

definition custom_csr :: "u12 \<Rightarrow> bool" where
  "custom_csr c \<longleftrightarrow> 0x7C0 \<le> c \<and> c \<le> 0x7CF"

definition csr_writes :: "csr_fn \<Rightarrow> csr_operand \<Rightarrow> bool" where
  "csr_writes f x \<longleftrightarrow> f = CSRRW \<or> x \<notin> {From_reg 0, From_imm 0}"

definition csr_legal :: "csr_fn \<Rightarrow> csr_operand \<Rightarrow> u12 \<Rightarrow> bool" where
  "csr_legal f x c \<longleftrightarrow> (machine_csr c \<or> custom_csr c) \<and> (c = 0xF14 \<longrightarrow> \<not> csr_writes f x)"

definition decode_system :: "u32 \<Rightarrow> rv_instr option" where
  "decode_system w =
     (let c = csr_of w; x = (if 4 \<le> funct3_of w then From_imm (rs1_of w) else From_reg (rs1_of w));
          csr = (\<lambda>f. if csr_legal f x c then Some (Csr f (rd_of w) x c) else None)
      in if funct3_of w = 0 then
           (if rd_of w \<noteq> 0 \<or> rs1_of w \<noteq> 0 then None
            else if c = 0 then Some Ecall else if c = 1 then Some Ebreak
            else if c = 0x302 then Some Mret else if c = 0x105 then Some Nop else None)
         else if funct3_of w = 1 \<or> funct3_of w = 5 then csr CSRRW
         else if funct3_of w = 2 \<or> funct3_of w = 6 then csr CSRRS
         else if funct3_of w = 3 \<or> funct3_of w = 7 then csr CSRRC
         else None)"

definition decode :: "u32 \<Rightarrow> rv_instr option" where
  "decode w =
     (if opcode_of w = 0x33 then map_option (\<lambda>f. Op f (rd_of w) (rs1_of w) (rs2_of w)) (decode_op w)
      else if opcode_of w = 0x13 then
        map_option (\<lambda>(f, k). Op_imm f (rd_of w) (rs1_of w) k) (decode_op_imm w)
      else if opcode_of w = 0x03 then
        map_option (\<lambda>k. Load k (rd_of w) (rs1_of w) (imm_I w)) (decode_load (funct3_of w))
      else if opcode_of w = 0x23 then
        map_option (\<lambda>k. Store k (rs1_of w) (rs2_of w) (imm_S w)) (decode_store (funct3_of w))
      else if opcode_of w = 0x63 then
        map_option (\<lambda>c. Branch c (rs1_of w) (rs2_of w) (imm_B w)) (decode_branch (funct3_of w))
      else if opcode_of w = 0x6F then Some (Jal (rd_of w) (imm_J w))
      else if opcode_of w = 0x67 then
        (if funct3_of w = 0 then Some (Jalr (rd_of w) (rs1_of w) (imm_I w)) else None)
      else if opcode_of w = 0x37 then Some (Lui (rd_of w) (imm_U w))
      else if opcode_of w = 0x17 then Some (Auipc (rd_of w) (imm_U w))
      else if opcode_of w = 0x0F then Some Nop
      else if opcode_of w = 0x73 then decode_system w
      else None)"

section \<open>Execution\<close>

record mcsrs =
  mstatus :: u32
  mie :: u32
  mtvec :: u32
  mscratch :: u32
  mepc :: u32
  mcause :: u32
  mtval :: u32

record arch =
  apc :: u32
  regs :: "u5 \<Rightarrow> u32"
  arch_csrs :: mcsrs
  mem :: "u32 \<Rightarrow> u8"
  csr_log :: "(u12 \<times> u32) list"

record isa_in =
  ext_irq :: bool
  timer_irq :: bool
  soft_irq :: bool
  custom_rd :: u32

definition get_reg :: "arch \<Rightarrow> u5 \<Rightarrow> u32" where
  "get_reg a r = (if r = 0 then 0 else regs a r)"

definition set_reg :: "u5 \<Rightarrow> u32 \<Rightarrow> arch \<Rightarrow> arch" where
  "set_reg r v a = (if r = 0 then a else a\<lparr>regs := (regs a)(r := v)\<rparr>)"

fun isa_alu :: "alu_fn \<Rightarrow> u32 \<Rightarrow> u32 \<Rightarrow> u32" where
  "isa_alu Alu_add a b = a + b"
| "isa_alu Alu_sub a b = a - b"
| "isa_alu Alu_sll a b = a * 2 ^ (unat b mod 32)"
| "isa_alu Alu_slt a b = of_bool (sint a < sint b)"
| "isa_alu Alu_sltu a b = of_bool (a < b)"
| "isa_alu Alu_xor a b = a XOR b"
| "isa_alu Alu_srl a b = word_of_int (uint a div 2 ^ (unat b mod 32))"
| "isa_alu Alu_sra a b = word_of_int (sint a div 2 ^ (unat b mod 32))"
| "isa_alu Alu_or a b = (a OR b)"
| "isa_alu Alu_and a b = (a AND b)"
| "isa_alu Alu_mul a b = a * b"
| "isa_alu Alu_mulh a b = word_of_int (sint a * sint b div 2 ^ 32)"
| "isa_alu Alu_mulhsu a b = word_of_int (sint a * uint b div 2 ^ 32)"
| "isa_alu Alu_mulhu a b = word_of_int (uint a * uint b div 2 ^ 32)"
| "isa_alu Alu_div a b = (if b = 0 then - 1 else word_of_int (sint a sdiv sint b))"
| "isa_alu Alu_divu a b = (if b = 0 then - 1 else word_of_int (uint a div uint b))"
| "isa_alu Alu_rem a b = (if b = 0 then a else word_of_int (sint a smod sint b))"
| "isa_alu Alu_remu a b = (if b = 0 then a else word_of_int (uint a mod uint b))"

fun taken :: "branch_cond \<Rightarrow> u32 \<Rightarrow> u32 \<Rightarrow> bool" where
  "taken BEQ a b \<longleftrightarrow> a = b"
| "taken BNE a b \<longleftrightarrow> a \<noteq> b"
| "taken BLT a b \<longleftrightarrow> sint a < sint b"
| "taken BGE a b \<longleftrightarrow> sint b \<le> sint a"
| "taken BLTU a b \<longleftrightarrow> uint a < uint b"
| "taken BGEU a b \<longleftrightarrow> uint b \<le> uint a"

definition half_at :: "(u32 \<Rightarrow> u8) \<Rightarrow> u32 \<Rightarrow> u16" where
  "half_at m a = (push_bit 8 (ucast (m (a + 1))) OR ucast (m a))"

definition word_at :: "(u32 \<Rightarrow> u8) \<Rightarrow> u32 \<Rightarrow> u32" where
  "word_at m a = u32_of_bytes (m a) (m (a + 1)) (m (a + 2)) (m (a + 3))"

fun isa_load :: "load_kind \<Rightarrow> (u32 \<Rightarrow> u8) \<Rightarrow> u32 \<Rightarrow> u32" where
  "isa_load LB m a = scast (m a)"
| "isa_load LH m a = scast (half_at m a)"
| "isa_load LW m a = word_at m a"
| "isa_load LBU m a = ucast (m a)"
| "isa_load LHU m a = ucast (half_at m a)"

fun isa_store :: "store_kind \<Rightarrow> u32 \<Rightarrow> u32 \<Rightarrow> (u32 \<Rightarrow> u8) \<Rightarrow> u32 \<Rightarrow> u8" where
  "isa_store SB a v m = m(a := byte_of 0 v)"
| "isa_store SH a v m = m(a := byte_of 0 v, a + 1 := byte_of 1 v)"
| "isa_store SW a v m =
     m(a := byte_of 0 v, a + 1 := byte_of 1 v, a + 2 := byte_of 2 v, a + 3 := byte_of 3 v)"

fun load_aligned :: "load_kind \<Rightarrow> u32 \<Rightarrow> bool" where
  "load_aligned LH a \<longleftrightarrow> unat a mod 2 = 0"
| "load_aligned LHU a \<longleftrightarrow> unat a mod 2 = 0"
| "load_aligned LW a \<longleftrightarrow> unat a mod 4 = 0"
| "load_aligned _ a \<longleftrightarrow> True"

fun store_aligned :: "store_kind \<Rightarrow> u32 \<Rightarrow> bool" where
  "store_aligned SH a \<longleftrightarrow> unat a mod 2 = 0"
| "store_aligned SW a \<longleftrightarrow> unat a mod 4 = 0"
| "store_aligned SB a \<longleftrightarrow> True"

definition mip :: "isa_in \<Rightarrow> u32" where
  "mip i = (if ext_irq i then 0x800 else 0) OR (if timer_irq i then 0x80 else 0)
     OR (if soft_irq i then 8 else 0)"

definition read_csr :: "isa_in \<Rightarrow> arch \<Rightarrow> u12 \<Rightarrow> u32" where
  "read_csr i a c =
     (let r = arch_csrs a in
      if c = 0x300 then mstatus r else if c = 0x301 then 0x40001100 else if c = 0x304 then mie r
      else if c = 0x305 then mtvec r else if c = 0x340 then mscratch r else if c = 0x341 then mepc r
      else if c = 0x342 then mcause r else if c = 0x343 then mtval r else if c = 0x344 then mip i
      else if c = 0xF14 then 0 else custom_rd i)"

definition write_csr :: "u12 \<Rightarrow> u32 \<Rightarrow> arch \<Rightarrow> arch" where
  "write_csr c v a =
     (let r = arch_csrs a in
      if c = 0x300 then a\<lparr>arch_csrs := r\<lparr>mstatus := v\<rparr>\<rparr>
      else if c = 0x304 then a\<lparr>arch_csrs := r\<lparr>mie := v\<rparr>\<rparr>
      else if c = 0x305 then a\<lparr>arch_csrs := r\<lparr>mtvec := v\<rparr>\<rparr>
      else if c = 0x340 then a\<lparr>arch_csrs := r\<lparr>mscratch := v\<rparr>\<rparr>
      else if c = 0x341 then a\<lparr>arch_csrs := r\<lparr>mepc := v\<rparr>\<rparr>
      else if c = 0x342 then a\<lparr>arch_csrs := r\<lparr>mcause := v\<rparr>\<rparr>
      else if c = 0x343 then a\<lparr>arch_csrs := r\<lparr>mtval := v\<rparr>\<rparr>
      else if machine_csr c then a
      else a\<lparr>csr_log := csr_log a @ [(c, v)]\<rparr>)"

fun csr_source :: "arch \<Rightarrow> csr_operand \<Rightarrow> u32" where
  "csr_source a (From_reg r) = get_reg a r"
| "csr_source a (From_imm k) = ucast k"

fun csr_value :: "csr_fn \<Rightarrow> u32 \<Rightarrow> u32 \<Rightarrow> u32" where
  "csr_value CSRRW old src = src"
| "csr_value CSRRS old src = (old OR src)"
| "csr_value CSRRC old src = (old AND NOT src)"

definition put_bit :: "nat \<Rightarrow> bool \<Rightarrow> u32 \<Rightarrow> u32" where
  "put_bit n b w = (if b then w OR push_bit n 1 else w AND NOT (push_bit n 1))"

definition next_instr :: "arch \<Rightarrow> arch" where
  "next_instr a = a\<lparr>apc := apc a + 4\<rparr>"

text \<open>A jump to an address that is no multiple of four is an exception of the jump.\<close>

definition jump_to :: "u32 \<Rightarrow> arch \<Rightarrow> (u32 \<times> u32) + arch" where
  "jump_to t a = (if unat t mod 4 = 0 then Inr (a\<lparr>apc := t\<rparr>) else Inl (0, t))"

fun exec :: "isa_in \<Rightarrow> rv_instr \<Rightarrow> arch \<Rightarrow> (u32 \<times> u32) + arch" where
  "exec i (Op f d s t) a = Inr (next_instr (set_reg d (isa_alu f (get_reg a s) (get_reg a t)) a))"
| "exec i (Op_imm f d s k) a = Inr (next_instr (set_reg d (isa_alu f (get_reg a s) k) a))"
| "exec i (Load l d s k) a =
     (let x = get_reg a s + k in
      if load_aligned l x then Inr (next_instr (set_reg d (isa_load l (mem a) x) a)) else Inl (4, x))"
| "exec i (Store l s t k) a =
     (let x = get_reg a s + k in
      if store_aligned l x then Inr (next_instr (a\<lparr>mem := isa_store l x (get_reg a t) (mem a)\<rparr>))
      else Inl (6, x))"
| "exec i (Branch c s t k) a =
     (if taken c (get_reg a s) (get_reg a t) then jump_to (apc a + k) a else Inr (next_instr a))"
| "exec i (Jal d k) a = jump_to (apc a + k) (set_reg d (apc a + 4) a)"
| "exec i (Jalr d s k) a = jump_to ((get_reg a s + k) AND NOT 1) (set_reg d (apc a + 4) a)"
| "exec i (Lui d k) a = Inr (next_instr (set_reg d k a))"
| "exec i (Auipc d k) a = Inr (next_instr (set_reg d (apc a + k) a))"
| "exec i (Csr f d x c) a =
     (let old = read_csr i a c; v = csr_value f old (csr_source a x);
          a' = (if csr_writes f x then write_csr c v a else a)
      in Inr (next_instr (set_reg d old a')))"
| "exec i Ecall a = Inl (11, 0)"
| "exec i Ebreak a = Inl (3, apc a)"
| "exec i Mret a =
     (let r = arch_csrs a; st = mstatus r in
      Inr (a\<lparr>apc := mepc r,
             arch_csrs := r\<lparr>mstatus := put_bit 7 True (put_bit 3 (bit st 7) st) OR 0x1800\<rparr>\<rparr>))"
| "exec i Nop a = Inr (next_instr a)"

definition trap_vector :: "u32 \<Rightarrow> u32 \<Rightarrow> u32" where
  "trap_vector tvec cause =
     (let base = tvec AND NOT 3 in
      if tvec AND 3 = 1 \<and> bit cause 31 then base + 4 * (cause AND mask 31) else base)"

definition enter_trap :: "u32 \<Rightarrow> u32 \<Rightarrow> arch \<Rightarrow> arch" where
  "enter_trap cause val a =
     (let r = arch_csrs a; st = mstatus r in
      a\<lparr>apc := trap_vector (mtvec r) cause,
        arch_csrs := r\<lparr>mepc := apc a, mcause := cause, mtval := val,
                       mstatus := put_bit 3 False (put_bit 7 (bit st 3) st) OR 0x1800\<rparr>\<rparr>)"

text \<open>Machine external interrupts go before software ones, and those before the timer's.\<close>

definition pending_irq :: "isa_in \<Rightarrow> mcsrs \<Rightarrow> u32 option" where
  "pending_irq i r =
     (if \<not> bit (mstatus r) 3 then None
      else if bit (mie r) 11 \<and> ext_irq i then Some 0x8000000B
      else if bit (mie r) 3 \<and> soft_irq i then Some 0x80000003
      else if bit (mie r) 7 \<and> timer_irq i then Some 0x80000007
      else None)"

text \<open>The opcodes that the processor has instructions for; a word with another one is illegal.\<close>

definition known_opcode :: "u32 \<Rightarrow> bool" where
  "known_opcode p \<longleftrightarrow> p \<in> {0x33, 0x13, 0x03, 0x23, 0x63, 0x6F, 0x67, 0x17, 0x37, 0x73, 0x0F,
     0x0B, 0x2B, 0x5B, 0x7B}"

text \<open>
  One instruction. \<open>None\<close> is a program outside the contract: an encoding that is reserved under an
  opcode in use, a coprocessor instruction, or an exception while no handler is installed.
\<close>

definition outcome :: "u32 \<Rightarrow> isa_in \<Rightarrow> arch \<Rightarrow> ((u32 \<times> u32) + arch) option" where
  "outcome w i a =
     (case decode w of Some ins \<Rightarrow> Some (exec i ins a)
      | None \<Rightarrow> if known_opcode (opcode_of w) then None else Some (Inl (2, w)))"

definition isa_step :: "(u32 \<Rightarrow> u32) \<Rightarrow> isa_in \<Rightarrow> arch \<Rightarrow> arch option" where
  "isa_step imem i a =
     (let handler = mtvec (arch_csrs a) \<noteq> 0 in
      case outcome (imem (apc a)) i a of
        None \<Rightarrow> None
      | Some (Inl (c, v)) \<Rightarrow> if handler then Some (enter_trap c v a) else None
      | Some (Inr a') \<Rightarrow>
          (case pending_irq i (arch_csrs a) of
             Some c \<Rightarrow> if handler then Some (enter_trap c 0 a) else Some a'
           | None \<Rightarrow> Some a'))"

fun isa_run :: "(u32 \<Rightarrow> u32) \<Rightarrow> isa_in list \<Rightarrow> arch \<Rightarrow> arch option" where
  "isa_run imem [] a = Some a"
| "isa_run imem (i # is) a = (case isa_step imem i a of None \<Rightarrow> None | Some a' \<Rightarrow> isa_run imem is a')"

end
