(* ===== verification/Rtl_Core_Alu.thy ===== *)
theory Rtl_Core_Alu
  imports Isa_Rv32
begin

text \<open>
  The combinational blocks of the core, \<open>rtl/core/riscv_core.v\<close>: opcodes, arithmetic, immediates and
  the byte lanes of loads and stores, each shown equal to what the instruction set asks for.
\<close>

section \<open>Opcodes\<close>

definition OPCODE_RTYPE :: u32 where "OPCODE_RTYPE = 0x33"
definition OPCODE_ITYPE :: u32 where "OPCODE_ITYPE = 0x13"
definition OPCODE_LTYPE :: u32 where "OPCODE_LTYPE = 0x03"
definition OPCODE_STYPE :: u32 where "OPCODE_STYPE = 0x23"
definition OPCODE_BRANCH :: u32 where "OPCODE_BRANCH = 0x63"
definition OPCODE_JAL :: u32 where "OPCODE_JAL = 0x6F"
definition OPCODE_JALR :: u32 where "OPCODE_JALR = 0x67"
definition OPCODE_AUIPC :: u32 where "OPCODE_AUIPC = 0x17"
definition OPCODE_LUI :: u32 where "OPCODE_LUI = 0x37"
definition OPCODE_SYSTEM :: u32 where "OPCODE_SYSTEM = 0x73"
definition OPCODE_XCEW_EML :: u32 where "OPCODE_XCEW_EML = 0x0B"
definition OPCODE_XCEW_POL_UPD :: u32 where "OPCODE_XCEW_POL_UPD = 0x2B"
definition OPCODE_XCEW_SNN_CLASS :: u32 where "OPCODE_XCEW_SNN_CLASS = 0x5B"
definition OPCODE_XCEW_MISC :: u32 where "OPCODE_XCEW_MISC = 0x7B"

lemmas xcew_opcodes [simp] =
  OPCODE_XCEW_EML_def OPCODE_XCEW_POL_UPD_def OPCODE_XCEW_SNN_CLASS_def OPCODE_XCEW_MISC_def

lemmas base_opcodes [simp] =
  OPCODE_RTYPE_def OPCODE_ITYPE_def OPCODE_LTYPE_def OPCODE_STYPE_def OPCODE_BRANCH_def
  OPCODE_JAL_def OPCODE_JALR_def OPCODE_AUIPC_def OPCODE_LUI_def OPCODE_SYSTEM_def

definition is_xcew :: "u32 \<Rightarrow> bool" where
  "is_xcew instr \<longleftrightarrow> bitsel 6 0 instr \<in>
     {OPCODE_XCEW_EML, OPCODE_XCEW_POL_UPD, OPCODE_XCEW_SNN_CLASS, OPCODE_XCEW_MISC}"

definition legal_opcode :: "u32 \<Rightarrow> bool" where
  "legal_opcode instr \<longleftrightarrow> bitsel 6 0 instr \<in>
     {OPCODE_RTYPE, OPCODE_ITYPE, OPCODE_LTYPE, OPCODE_STYPE, OPCODE_BRANCH, OPCODE_JAL, OPCODE_JALR,
      OPCODE_AUIPC, OPCODE_LUI, OPCODE_SYSTEM, 0x0F} \<or> is_xcew instr"

section \<open>Arithmetic and byte lanes\<close>

datatype alu_control =
  ALU_ADD | ALU_SUB | ALU_AND | ALU_OR | ALU_XOR | ALU_SLT | ALU_SHL | ALU_SHR | ALU_SLTU | ALU_SRA
| ALU_MUL | ALU_MULH | ALU_MULHSU | ALU_MULHU | ALU_DIV | ALU_DIVU | ALU_REM | ALU_REMU

definition mul_signed :: "u32 \<Rightarrow> u32 \<Rightarrow> 64 word" where
  "mul_signed a b = word_of_int (sint a * sint b)"

definition mul_signedsp :: "u32 \<Rightarrow> u32 \<Rightarrow> 64 word" where
  "mul_signedsp a b = word_of_int (sint a * uint b)"

definition mul_unsigned :: "u32 \<Rightarrow> u32 \<Rightarrow> 64 word" where
  "mul_unsigned a b = word_of_int (uint a * uint b)"

definition div_signed :: "u32 \<Rightarrow> u32 \<Rightarrow> u32" where
  "div_signed a b =
     (if b = 0 then 0xFFFFFFFF else if a = 0x80000000 \<and> b = 0xFFFFFFFF then 0x80000000
      else word_of_int (sint a sdiv sint b))"

definition div_unsigned :: "u32 \<Rightarrow> u32 \<Rightarrow> u32" where
  "div_unsigned a b = (if b = 0 then 0xFFFFFFFF else a div b)"

definition rem_signed :: "u32 \<Rightarrow> u32 \<Rightarrow> u32" where
  "rem_signed a b =
     (if b = 0 then a else if a = 0x80000000 \<and> b = 0xFFFFFFFF then 0
      else word_of_int (sint a smod sint b))"

definition rem_unsigned :: "u32 \<Rightarrow> u32 \<Rightarrow> u32" where
  "rem_unsigned a b = (if b = 0 then a else a mod b)"

definition shamt :: "u32 \<Rightarrow> nat" where
  "shamt b = unat (bitsel 4 0 b)"

fun alu :: "alu_control \<Rightarrow> u32 \<Rightarrow> u32 \<Rightarrow> u32" where
  "alu ALU_ADD a b = a + b"
| "alu ALU_SUB a b = a - b"
| "alu ALU_AND a b = (a AND b)"
| "alu ALU_OR a b = (a OR b)"
| "alu ALU_XOR a b = a XOR b"
| "alu ALU_SLT a b = (if sint a < sint b then 1 else 0)"
| "alu ALU_SLTU a b = (if a < b then 1 else 0)"
| "alu ALU_SHL a b = push_bit (shamt b) a"
| "alu ALU_SHR a b = drop_bit (shamt b) a"
| "alu ALU_SRA a b = signed_drop_bit (shamt b) a"
| "alu ALU_MUL a b = ucast (bitsel 31 0 (mul_signed a b))"
| "alu ALU_MULH a b = ucast (bitsel 63 32 (mul_signed a b))"
| "alu ALU_MULHSU a b = ucast (bitsel 63 32 (mul_signedsp a b))"
| "alu ALU_MULHU a b = ucast (bitsel 63 32 (mul_unsigned a b))"
| "alu ALU_DIV a b = div_signed a b"
| "alu ALU_DIVU a b = div_unsigned a b"
| "alu ALU_REM a b = rem_signed a b"
| "alu ALU_REMU a b = rem_unsigned a b"

text \<open>\<open>{n{b}}\<close> of Verilog.\<close>

definition replicate_bit :: "nat \<Rightarrow> bool \<Rightarrow> u32" where
  "replicate_bit n b = (if b then mask n else 0)"

definition generate_imm :: "u32 \<Rightarrow> u32 \<Rightarrow> u32" where
  "generate_imm instr opc =
     (if opc = OPCODE_ITYPE \<or> opc = OPCODE_LTYPE \<or> opc = OPCODE_JALR then
        push_bit 12 (replicate_bit 20 (bit instr 31)) OR bitsel 31 20 instr
      else if opc = OPCODE_STYPE then
        push_bit 12 (replicate_bit 20 (bit instr 31)) OR push_bit 5 (bitsel 31 25 instr) OR bitsel 11 7 instr
      else if opc = OPCODE_BRANCH then
        push_bit 13 (replicate_bit 19 (bit instr 31)) OR push_bit 12 (bitsel 31 31 instr)
          OR push_bit 11 (bitsel 7 7 instr) OR push_bit 5 (bitsel 30 25 instr) OR push_bit 1 (bitsel 11 8 instr)
      else if opc = OPCODE_JAL then
        push_bit 21 (replicate_bit 11 (bit instr 31)) OR push_bit 20 (bitsel 31 31 instr)
          OR push_bit 12 (bitsel 19 12 instr) OR push_bit 11 (bitsel 20 20 instr) OR push_bit 1 (bitsel 30 21 instr)
      else if opc = OPCODE_AUIPC \<or> opc = OPCODE_LUI then push_bit 12 (bitsel 31 12 instr)
      else 0)"

definition alu_select :: "u32 \<Rightarrow> alu_control" where
  "alu_select instr =
     (let f3 = bitsel 14 12 instr in
      if bitsel 6 0 instr = OPCODE_RTYPE then
        (if bitsel 31 25 instr = 1 then
           (if f3 = 0 then ALU_MUL else if f3 = 1 then ALU_MULH else if f3 = 2 then ALU_MULHSU
            else if f3 = 3 then ALU_MULHU else if f3 = 4 then ALU_DIV else if f3 = 5 then ALU_DIVU
            else if f3 = 6 then ALU_REM else ALU_REMU)
         else
           (if f3 = 0 then (if bitsel 31 25 instr = 0x20 then ALU_SUB else ALU_ADD)
            else if f3 = 7 then ALU_AND else if f3 = 6 then ALU_OR else if f3 = 4 then ALU_XOR
            else if f3 = 2 then ALU_SLT else if f3 = 3 then ALU_SLTU else if f3 = 1 then ALU_SHL
            else (if bit instr 30 then ALU_SRA else ALU_SHR)))
      else if bitsel 6 0 instr = OPCODE_ITYPE then
        (if f3 = 0 then ALU_ADD
         else if f3 = 7 then ALU_AND else if f3 = 6 then ALU_OR else if f3 = 4 then ALU_XOR
         else if f3 = 2 then ALU_SLT else if f3 = 3 then ALU_SLTU else if f3 = 1 then ALU_SHL
         else (if bit instr 30 then ALU_SRA else ALU_SHR))
      else ALU_ADD)"

text \<open>The byte lanes of loads and stores; \<open>f3\<close> is the function code, \<open>a\<close> the address.\<close>

definition load_data :: "u32 \<Rightarrow> u32 \<Rightarrow> u32 \<Rightarrow> u32" where
  "load_data f3 a rdata =
     (let load_byte = ucast (drop_bit (8 * unat (bitsel 1 0 a)) rdata) :: u8;
          load_half = ucast (drop_bit (16 * unat (bitsel 1 1 a)) rdata) :: u16
      in if f3 = 0 then push_bit 8 (replicate_bit 24 (bit load_byte 7)) OR ucast load_byte
         else if f3 = 4 then ucast load_byte
         else if f3 = 1 then push_bit 16 (replicate_bit 16 (bit load_half 15)) OR ucast load_half
         else if f3 = 5 then ucast load_half
         else rdata)"

definition store_lanes :: "u32 \<Rightarrow> u32 \<Rightarrow> u32" where
  "store_lanes a v = push_bit (8 * unat (bitsel 1 0 a)) v"

definition store_wstrb :: "u32 \<Rightarrow> u32 \<Rightarrow> u4" where
  "store_wstrb f3 a =
     (if f3 = 0 then
        (if bitsel 1 0 a = 0 then 1 else if bitsel 1 0 a = 1 then 2 else if bitsel 1 0 a = 2 then 4 else 8)
      else if f3 = 1 then (if bit a 1 then 0xC else 3)
      else 0xF)"

section \<open>The blocks compute what the instruction set asks for\<close>

subsection \<open>Immediates\<close>

text \<open>Words whose 32 bits are compared one after the other.\<close>

lemma u32_eqI_bits: "list_all (\<lambda>n. bit (a :: u32) n = bit b n) [0..<32] \<Longrightarrow> a = b"
  by (rule u32_eqI) (simp add: list_all_iff)

lemma bit_replicate_bit [simp]: "bit (replicate_bit n b) k \<longleftrightarrow> b \<and> k < n \<and> k < 32"
  by (auto simp: replicate_bit_def bit_simps)

lemma imm_type_I: "push_bit 12 (replicate_bit 20 (bit w 31)) OR bitsel 31 20 w = imm_I w"
  by (rule u32_eqI_bits) (simp add: imm_I_def bit_simps upt_rec del: push_bit_Suc)

lemma imm_type_S:
  "push_bit 12 (replicate_bit 20 (bit w 31)) OR push_bit 5 (bitsel 31 25 w) OR bitsel 11 7 w = imm_S w"
  by (rule u32_eqI_bits) (simp add: imm_S_def bit_simps upt_rec del: push_bit_Suc)

lemma imm_type_B:
  "push_bit 13 (replicate_bit 19 (bit w 31)) OR push_bit 12 (bitsel 31 31 w)
     OR push_bit 11 (bitsel 7 7 w) OR push_bit 5 (bitsel 30 25 w) OR push_bit 1 (bitsel 11 8 w) = imm_B w"
  by (rule u32_eqI_bits) (simp add: imm_B_def bit_simps upt_rec del: push_bit_Suc)

lemma imm_type_J:
  "push_bit 21 (replicate_bit 11 (bit w 31)) OR push_bit 20 (bitsel 31 31 w)
     OR push_bit 12 (bitsel 19 12 w) OR push_bit 11 (bitsel 20 20 w) OR push_bit 1 (bitsel 30 21 w) = imm_J w"
  by (rule u32_eqI_bits) (simp add: imm_J_def bit_simps upt_rec del: push_bit_Suc)

lemma generate_imm_correct:
  "generate_imm w OPCODE_ITYPE = imm_I w" "generate_imm w OPCODE_LTYPE = imm_I w"
  "generate_imm w OPCODE_JALR = imm_I w" "generate_imm w OPCODE_STYPE = imm_S w"
  "generate_imm w OPCODE_BRANCH = imm_B w" "generate_imm w OPCODE_JAL = imm_J w"
  "generate_imm w OPCODE_AUIPC = imm_U w" "generate_imm w OPCODE_LUI = imm_U w"
  by (simp_all add: generate_imm_def imm_type_I imm_type_S imm_type_B imm_type_J imm_U_def del: push_bit_Suc One_nat_def)

subsection \<open>Arithmetic\<close>

lemma shamt_mod: "shamt b = unat b mod 32"
  by (simp add: shamt_def bitsel_def unsigned_take_bit_eq flip: take_bit_eq_mask) (simp add: take_bit_eq_mod)

lemma high_half: "ucast (bitsel 63 32 (word_of_int k :: 64 word)) = (word_of_int (k div 2 ^ 32) :: u32)"
proof -
  have "k div 2 ^ 32 = drop_bit 32 k"
    by (simp add: drop_bit_eq_div)
  then show ?thesis
    by (simp only:) (rule u32_eqI, auto simp: bit_simps ac_simps)
qed

lemma low_half: "ucast (bitsel 31 0 (word_of_int k :: 64 word)) = (word_of_int k :: u32)"
  by (rule u32_eqI) (auto simp: bit_simps)

lemma mul_low_word: "word_of_int (sint a * sint b) = (a * b :: u32)"
  by (simp flip: wi_hom_mult)

lemma min_over_minus_one:
  assumes "a = (0x80000000 :: u32)" and "b = (0xFFFFFFFF :: u32)"
  shows "word_of_int (sint a sdiv sint b) = (0x80000000 :: u32)" "word_of_int (sint a smod sint b) = (0 :: u32)"
proof -
  have "sint a = - 0x80000000" "sint b = - 1"
    using assms by (simp_all add: sint_uint)
  then show "word_of_int (sint a sdiv sint b) = (0x80000000 :: u32)" "word_of_int (sint a smod sint b) = (0 :: u32)"
    by (simp_all add: signed_divide_int_def signed_modulo_int_def)
qed

lemma div_signed_correct: "div_signed a b = isa_alu Alu_div a b"
  by (auto simp: div_signed_def dest: min_over_minus_one(1))

lemma rem_signed_correct: "rem_signed a b = isa_alu Alu_rem a b"
  by (auto simp: rem_signed_def simp: signed_modulo_int_def)

lemma div_unsigned_correct: "div_unsigned a b = isa_alu Alu_divu a b"
  by (simp add: div_unsigned_def word_div_def)

lemma rem_unsigned_correct: "rem_unsigned a b = isa_alu Alu_remu a b"
  by (simp add: rem_unsigned_def word_mod_def)

lemma mul_blocks_correct:
  "ucast (bitsel 31 0 (mul_signed a b)) = isa_alu Alu_mul a b"
  "ucast (bitsel 63 32 (mul_signed a b)) = isa_alu Alu_mulh a b"
  "ucast (bitsel 63 32 (mul_signedsp a b)) = isa_alu Alu_mulhsu a b"
  "ucast (bitsel 63 32 (mul_unsigned a b)) = isa_alu Alu_mulhu a b"
  by (simp_all only: mul_signed_def mul_signedsp_def mul_unsigned_def low_half high_half mul_low_word isa_alu.simps)

text \<open>The control code of each function.\<close>

fun control_of :: "alu_fn \<Rightarrow> alu_control" where
  "control_of Alu_add = ALU_ADD" | "control_of Alu_sub = ALU_SUB" | "control_of Alu_sll = ALU_SHL"
| "control_of Alu_slt = ALU_SLT" | "control_of Alu_sltu = ALU_SLTU" | "control_of Alu_xor = ALU_XOR"
| "control_of Alu_srl = ALU_SHR" | "control_of Alu_sra = ALU_SRA" | "control_of Alu_or = ALU_OR"
| "control_of Alu_and = ALU_AND" | "control_of Alu_mul = ALU_MUL" | "control_of Alu_mulh = ALU_MULH"
| "control_of Alu_mulhsu = ALU_MULHSU" | "control_of Alu_mulhu = ALU_MULHU"
| "control_of Alu_div = ALU_DIV" | "control_of Alu_divu = ALU_DIVU"
| "control_of Alu_rem = ALU_REM" | "control_of Alu_remu = ALU_REMU"

lemma shr_correct: "drop_bit n (a :: u32) = word_of_int (uint a div 2 ^ n)"
proof -
  have "uint (drop_bit n a) = uint a div 2 ^ n"
    by (rule bit_eqI) (simp add: bit_simps flip: drop_bit_eq_div)
  then show ?thesis
    by (metis word_of_int_uint)
qed

lemma sra_correct: "signed_drop_bit n (a :: u32) = word_of_int (sint a div 2 ^ n)"
proof -
  have "sint (signed_drop_bit n a) = sint a div 2 ^ n"
    by (simp add: sint_signed_drop_bit_eq drop_bit_eq_div)
  then show ?thesis
    by (metis of_int_sint scast_id)
qed

lemma alu_correct: "alu (control_of f) a b = isa_alu f a b"
  by (cases f)
     (simp_all add: shamt_mod mul_blocks_correct div_signed_correct rem_signed_correct div_unsigned_correct rem_unsigned_correct
       push_bit_eq_mult shr_correct sra_correct of_bool_def del: isa_alu.simps(11-18))

lemma bitsel_bound: "bitsel hi lo w \<le> mask (Suc hi - lo)"
  unfolding bitsel_def by (rule word_and_mask_le)

lemma three_bits: "(x :: u32) \<le> 7 \<Longrightarrow> x \<in> {0, 1, 2, 3, 4, 5, 6, 7}"
  by (simp add: word_le_nat_alt word_unat_eq_iff) linarith

lemma two_bits: "(x :: u32) \<le> 3 \<Longrightarrow> x \<in> {0, 1, 2, 3}"
  by (simp add: word_le_nat_alt word_unat_eq_iff) linarith

lemma funct3_cases: "funct3_of w \<in> {0, 1, 2, 3, 4, 5, 6, 7}"
  using bitsel_bound [of 14 12 w] by (intro three_bits) (simp add: funct3_of_def mask_eq_exp_minus_1)

lemma low_bits_cases: "bitsel 1 0 (a :: u32) \<in> {0, 1, 2, 3}"
  using bitsel_bound [of 1 0 a] by (intro two_bits) (simp add: mask_eq_exp_minus_1)

lemma funct7_bit30: "funct7 w = 0 \<Longrightarrow> \<not> bit w 30" "funct7 w = 0x20 \<Longrightarrow> bit w 30"
proof -
  have b: "bit (funct7 w) 5 \<longleftrightarrow> bit w 30"
    by (simp add: funct7_def)
  show "funct7 w = 0 \<Longrightarrow> \<not> bit w 30" "funct7 w = 0x20 \<Longrightarrow> bit w 30"
    unfolding b [symmetric] by (simp_all only:) (simp_all add: bit_simps)
qed

lemma alu_select_op:
  assumes "opcode_of w = OPCODE_RTYPE" and "decode_op w = Some f"
  shows "alu_select w = control_of f"
  using assms funct3_cases [of w] funct7_bit30 [of w]
  by (auto simp: alu_select_def decode_op_def base_fn_def mul_fn_def Let_def
      opcode_of_def funct3_of_def funct7_def split: if_splits)

lemma alu_select_op_imm:
  assumes "opcode_of w = OPCODE_ITYPE" and "decode_op_imm w = Some (f, k)"
  shows "alu_select w = control_of f"
  using assms funct3_cases [of w] funct7_bit30 [of w]
  by (auto simp: alu_select_def decode_op_imm_def base_fn_def Let_def
      opcode_of_def funct3_of_def funct7_def split: if_splits)

text \<open>A shift reads only five bits of the immediate.\<close>

lemma shift_amount: "unat (imm_I w) mod 32 = unat (ucast (rs2_of w) :: u32) mod 32"
proof -
  have "bitsel 4 0 (imm_I w) = bitsel 4 0 (ucast (rs2_of w) :: u32)"
    by (rule u32_eqI) (auto simp: imm_I_def rs2_of_def bit_simps min_def)
  then show ?thesis
    by (simp flip: shamt_mod add: shamt_def)
qed

lemma op_imm_operand:
  assumes "decode_op_imm w = Some (f, k)"
  shows "isa_alu f a (imm_I w) = isa_alu f a k"
  using assms
  by (auto simp: decode_op_imm_def shift_amount split: if_splits)

lemma alu_select_other: "bitsel 6 0 w \<noteq> OPCODE_RTYPE \<Longrightarrow> bitsel 6 0 w \<noteq> OPCODE_ITYPE \<Longrightarrow> alu_select w = ALU_ADD"
  by (simp add: alu_select_def)

subsection \<open>Byte lanes\<close>

lemma aligned_plus_low: "(a AND NOT 3) + bitsel 1 0 a = (a :: u32)"
proof -
  have "(a AND NOT 3) AND (a AND 3) = 0" "(a AND NOT 3) OR (a AND 3) = a"
    by (auto simp: bit_simps intro!: bit_word_eqI)
  then have "(a AND NOT 3) + (a AND 3) = a"
    using word_plus_and_or [of "a AND NOT 3" "a AND 3"] by simp
  then show ?thesis
    by (simp add: bitsel_def mask_eq_exp_minus_1)
qed

lemma sign_extend_byte: "push_bit 8 (replicate_bit 24 (bit b 7)) OR ucast b = (scast (b :: u8) :: u32)"
proof (rule u32_eqI)
  fix n :: nat assume "n < 32"
  then consider "n < 7" | "n = 7" | "8 \<le> n"
    by linarith
  then show "bit (push_bit 8 (replicate_bit 24 (bit b 7)) OR ucast b) n \<longleftrightarrow> bit (scast b :: u32) n"
    using \<open>n < 32\<close> by cases (auto simp: bit_simps min_def dest: bit_imp_le_length)
qed

lemma sign_extend_half: "push_bit 16 (replicate_bit 16 (bit b 15)) OR ucast b = (scast (b :: u16) :: u32)"
proof (rule u32_eqI)
  fix n :: nat assume "n < 32"
  then consider "n < 15" | "n = 15" | "16 \<le> n"
    by linarith
  then show "bit (push_bit 16 (replicate_bit 16 (bit b 15)) OR ucast b) n \<longleftrightarrow> bit (scast b :: u32) n"
    using \<open>n < 32\<close> by cases (auto simp: bit_simps min_def dest: bit_imp_le_length)
qed

lemma half_of_word:
  "ucast (drop_bit 0 (word_at m a)) = half_at m a"
  "ucast (drop_bit 16 (word_at m a)) = half_at m (a + 2)"
proof -
  show "ucast (drop_bit 0 (word_at m a)) = half_at m a"
    by (rule bit_word_eqI)
       (auto simp: word_at_def half_at_def bit_simps bit_u32_of_bytes dest: bit_imp_le_length)
  show "ucast (drop_bit 16 (word_at m a)) = half_at m (a + 2)"
    by (rule bit_word_eqI)
       (auto simp: word_at_def half_at_def bit_simps bit_u32_of_bytes add.commute dest: bit_imp_le_length)
qed

text \<open>The memory port addresses words: the low two bits of the address select the lane.\<close>

definition word_base :: "u32 \<Rightarrow> u32" where
  "word_base a = a AND NOT 3"

lemma base_plus_low: "word_base a + bitsel 1 0 a = (a :: u32)"
  using aligned_plus_low [of a] by (simp add: word_base_def)

lemma low_bits_mod: "unat (bitsel 1 0 (a :: u32)) = unat a mod 4"
  by (simp add: bitsel_def unsigned_take_bit_eq flip: take_bit_eq_mask) (simp add: take_bit_eq_mod)

lemma mod4_low_bits: "unat (a :: u32) mod 4 = 0 \<longleftrightarrow> bitsel 1 0 a = 0"
  by (simp add: unsigned_eq_0_iff flip: low_bits_mod)

lemma mod2_bit0: "unat (a :: u32) mod 2 = 0 \<longleftrightarrow> \<not> bit a 0"
proof -
  have "bit (unat a) 0 \<longleftrightarrow> bit a 0"
    by (simp only: bit_unsigned_iff) simp
  then show ?thesis
    by (metis bit_0 even_iff_mod_2_eq_zero)
qed

lemma bitsel_one: "bitsel n n (a :: u32) = (if bit a n then 1 else 0)"
  by (rule u32_eqI) (auto simp: bit_simps)

text \<open>The low two bits of an even address.\<close>

lemma even_low_bits:
  assumes "\<not> bit (a :: u32) 0"
  shows "bitsel 1 0 a = (if bit a 1 then 2 else 0)"
proof (rule u32_eqI)
  fix n :: nat
  consider "n = 0" | "n = 1" | "2 \<le> n"
    by linarith
  then show "bit (bitsel 1 0 a) n \<longleftrightarrow> bit (if bit a 1 then 2 else 0 :: u32) n"
    using assms by cases (auto simp: bit_2_iff)
qed

lemma word_at_bytes:
  "byte_of 0 (word_at m a) = m a" "byte_of 1 (word_at m a) = m (a + 1)"
  "byte_of 2 (word_at m a) = m (a + 2)" "byte_of 3 (word_at m a) = m (a + 3)"
  by (simp_all add: word_at_def)

text \<open>The byte and the half word that the lane selection picks.\<close>

lemma loaded_byte:
  "ucast (drop_bit (8 * unat (bitsel 1 0 a)) (word_at m (word_base a))) = m (a :: u32)"
proof -
  define b where "b = word_base a"
  have a: "a = b + bitsel 1 0 a"
    using base_plus_low [of a] by (simp add: b_def)
  have "byte_of (unat (bitsel 1 0 a)) (word_at m b) = m (b + bitsel 1 0 a)"
    using low_bits_cases [of a] word_at_bytes [of m b] by auto
  then show ?thesis
    using a by (simp add: byte_of_def b_def)
qed

lemma loaded_half:
  assumes "\<not> bit (a :: u32) 0"
  shows "ucast (drop_bit (16 * unat (bitsel 1 1 a)) (word_at m (word_base a))) = half_at m a"
proof -
  define b where "b = word_base a"
  have "a = b + (if bit a 1 then 2 else 0)"
    using base_plus_low [of a] even_low_bits [OF assms] by (simp add: b_def)
  then show ?thesis
    using half_of_word [of m b] by (auto simp: bitsel_one b_def [symmetric] split: if_splits)
qed

lemma load_data_correct:
  assumes "decode_load f3 = Some k" and "load_aligned k a"
  shows "load_data f3 a (word_at m (word_base a)) = isa_load k m a"
proof -
  have "k = LW \<Longrightarrow> word_base a = a"
    using assms(2) base_plus_low [of a] by (simp add: mod4_low_bits)
  then show ?thesis
    using assms loaded_byte [of a m] loaded_half [of a m]
    by (auto simp: decode_load_def load_data_def Let_def sign_extend_byte sign_extend_half mod2_bit0
        simp del: One_nat_def split: if_splits)
qed

text \<open>Stores: a memory that takes the bytes of the word whose lanes are strobed.\<close>

definition write_lanes :: "u4 \<Rightarrow> u32 \<Rightarrow> u32 \<Rightarrow> (u32 \<Rightarrow> u8) \<Rightarrow> u32 \<Rightarrow> u8" where
  "write_lanes strb a v m =
     (\<lambda>x. if word_base x = word_base a \<and> bit strb (unat (bitsel 1 0 x))
          then byte_of (unat (bitsel 1 0 x)) v else m x)"

lemma lane_address:
  assumes "word_base b = b" and "l \<in> {0, 1, 2, 3 :: u32}"
  shows "word_base (b + l) = b" "bitsel 1 0 (b + l) = l"
proof -
  have l: "l AND 3 = l" "l AND NOT 3 = 0"
    using assms(2) by auto
  have "b AND l = 0"
  proof -
    have "b AND l = (b AND NOT 3) AND (l AND 3)"
      using assms(1) l(1) by (simp add: word_base_def)
    then show ?thesis
      by (auto simp: bit_simps intro!: bit_word_eqI)
  qed
  then have s: "b + l = (b OR l)"
    using word_plus_and_or [of b l] by simp
  have b: "b AND 3 = 0"
  proof -
    have "b AND 3 = (b AND NOT 3) AND 3"
      using assms(1) by (simp add: word_base_def)
    then show ?thesis
      by (auto simp: bit_simps intro!: bit_word_eqI)
  qed
  show "word_base (b + l) = b"
    using assms(1) l(2) unfolding s word_base_def by (simp only: and.commute bit.conj_disj_distrib2) simp
  show "bitsel 1 0 (b + l) = l"
    using b l(1) by (simp add: s bitsel_def mask_eq_exp_minus_1 bit.conj_disj_distrib2)
qed

lemma word_base_idem: "word_base (word_base a) = word_base a"
  by (auto simp: word_base_def bit_simps intro!: bit_word_eqI)

lemma write_lanes_upd:
  assumes "word_base a = b"
  shows "write_lanes strb a v m =
    m(b := if bit strb 0 then byte_of 0 v else m b,
      b + 1 := if bit strb 1 then byte_of 1 v else m (b + 1),
      b + 2 := if bit strb 2 then byte_of 2 v else m (b + 2),
      b + 3 := if bit strb 3 then byte_of 3 v else m (b + 3))"
proof
  fix x
  have b: "word_base b = b"
    using assms word_base_idem by auto
  have n: "word_base x = b" if "x = b + l" "l \<in> {0, 1, 2, 3}" for l
    using lane_address(1) [OF b that(2)] that(1) by simp
  have x: "x = word_base x + bitsel 1 0 x"
    using base_plus_low [of x] by (rule sym)
  show "write_lanes strb a v m x =
    (m(b := if bit strb 0 then byte_of 0 v else m b,
      b + 1 := if bit strb 1 then byte_of 1 v else m (b + 1),
      b + 2 := if bit strb 2 then byte_of 2 v else m (b + 2),
      b + 3 := if bit strb 3 then byte_of 3 v else m (b + 3))) x"
  proof (cases "word_base x = b")
    case True
    then have "x = b + bitsel 1 0 x"
      using x by simp
    with True low_bits_cases [of x] show ?thesis
      unfolding write_lanes_def assms by (elim insertE) (simp_all del: One_nat_def)
  next
    case False
    then have "x \<noteq> b" "x \<noteq> b + 1" "x \<noteq> b + 2" "x \<noteq> b + 3"
      using n [of 0] n [of 1] n [of 2] n [of 3] by auto
    with False show ?thesis
      by (simp add: write_lanes_def assms)
  qed
qed

text \<open>\<open>store_lanes\<close> puts the low bytes of the source into the lanes from the addressed one on.\<close>

lemma byte_of_shifted: "j < 4 \<Longrightarrow> i + j < 4 \<Longrightarrow> byte_of (i + j) (push_bit (8 * j) v) = byte_of i v"
  by (rule u8_eqI) (auto simp: bit_simps algebra_simps)

lemma same_address: "word_base x = word_base a \<and> bitsel 1 0 x = bitsel 1 0 a \<longleftrightarrow> x = a"
  by (metis base_plus_low)

lemma strobe_byte:
  "bit (store_wstrb 0 a) (unat (bitsel 1 0 x)) \<longleftrightarrow> bitsel 1 0 x = bitsel 1 0 (a :: u32)"
proof -
  have "bit (if j = 0 then 1 else if j = 1 then 2 else if j = 2 then 4 else 8 :: u4) (unat l) \<longleftrightarrow> l = j"
    if "l \<in> {0, 1, 2, 3}" "j \<in> {0, 1, 2, 3}" for l j :: u32
    using that by (elim insertE) simp_all
  from this [OF low_bits_cases low_bits_cases] show ?thesis
    by (simp only: store_wstrb_def refl if_True)
qed

lemma store_byte: "write_lanes (store_wstrb 0 a) a (store_lanes a v) m = m(a := byte_of 0 v)"
proof
  fix x
  have "byte_of (unat (bitsel 1 0 a)) (store_lanes a v) = byte_of 0 v"
    using byte_of_shifted [of "unat (bitsel 1 0 a)" 0 v] by (simp add: store_lanes_def low_bits_mod del: One_nat_def)
  then show "write_lanes (store_wstrb 0 a) a (store_lanes a v) m x = (m(a := byte_of 0 v)) x"
    using same_address [of x a] by (auto simp: write_lanes_def strobe_byte simp del: One_nat_def)
qed

lemma strobe_half:
  assumes "bitsel 1 0 a = (if bit a 1 then 2 else 0)"
  shows "bit (store_wstrb 1 a) (unat (bitsel 1 0 x)) \<longleftrightarrow>
    bitsel 1 0 x = bitsel 1 0 (a :: u32) \<or> bitsel 1 0 x = bitsel 1 0 a + 1"
proof -
  have "bit (if b then 0xC else 3 :: u4) (unat l) \<longleftrightarrow> l = (if b then 2 else 0) \<or> l = (if b then 2 else 0) + 1"
    if "l \<in> {0, 1, 2, 3}" for l :: u32 and b
    using that by (elim insertE) simp_all
  from this [OF low_bits_cases] show ?thesis
    unfolding assms by (simp add: store_wstrb_def del: One_nat_def)
qed

lemma store_half:
  assumes "bitsel 1 0 a = (if bit a 1 then 2 else 0)"
  shows "write_lanes (store_wstrb 1 a) a (store_lanes a v) m = m(a := byte_of 0 v, a + 1 := byte_of 1 v)"
proof
  fix x
  have "a + 1 = word_base a + (bitsel 1 0 a + 1)"
    by (metis base_plus_low add.assoc)
  moreover have "bitsel 1 0 a + 1 \<in> {0, 1, 2, 3}"
    unfolding assms by simp
  ultimately have n: "word_base (a + 1) = word_base a" "bitsel 1 0 (a + 1) = bitsel 1 0 a + 1"
    using lane_address [OF word_base_idem, of "bitsel 1 0 a + 1" a] by (simp_all only:)
  have "unat (bitsel 1 0 a + 1) = 1 + unat (bitsel 1 0 a)" "unat (bitsel 1 0 a) \<le> 2"
    unfolding assms by simp_all
  then have v: "byte_of (unat (bitsel 1 0 a)) (store_lanes a v) = byte_of 0 v"
    "byte_of (unat (bitsel 1 0 a + 1)) (store_lanes a v) = byte_of 1 v"
    using byte_of_shifted [of "unat (bitsel 1 0 a)" 0 v] byte_of_shifted [of "unat (bitsel 1 0 a)" 1 v]
    by (simp_all add: store_lanes_def del: One_nat_def)
  show "write_lanes (store_wstrb 1 a) a (store_lanes a v) m x = (m(a := byte_of 0 v, a + 1 := byte_of 1 v)) x"
    using same_address [of x a] same_address [of x "a + 1"] v n
    by (auto simp: write_lanes_def strobe_half [OF assms] simp del: One_nat_def)
qed

lemma store_word:
  assumes "bitsel 1 0 a = 0"
  shows "write_lanes (store_wstrb 2 a) a (store_lanes a v) m = isa_store SW a v m"
proof -
  have "word_base a = a"
    using base_plus_low [of a] assms by simp
  from write_lanes_upd [OF this] show ?thesis
    unfolding store_lanes_def assms by (simp add: store_wstrb_def)
qed

lemma store_correct:
  assumes "decode_store f3 = Some k" and "store_aligned k a"
  shows "write_lanes (store_wstrb f3 a) a (store_lanes a v) m = isa_store k a v m"
proof -
  consider (byte) "k = SB" "f3 = 0" | (half) "k = SH" "f3 = 1" | (word) "k = SW" "f3 = 2"
    using assms(1) by (auto simp: decode_store_def split: if_splits)
  then show ?thesis
  proof cases
    case byte
    then show ?thesis by (simp only: isa_store.simps store_byte)
  next
    case half
    with assms(2) have l: "bitsel 1 0 a = (if bit a 1 then 2 else 0)"
      by (intro even_low_bits) (simp add: mod2_bit0)
    from store_half [OF l] half show ?thesis by (simp only: isa_store.simps)
  next
    case word
    with assms(2) have "bitsel 1 0 a = 0"
      by (simp add: mod4_low_bits)
    from store_word [OF this] word show ?thesis by simp
  qed
qed

end
