(* ===== verification/Soc_Snn.thy ===== *)
theory Soc_Snn
  imports Rtl_Snn_Tile Rtl_Cdc Rtl_Core_Alu
begin

text \<open>
  The path of an SNN classification through the chip, \<open>rtl/xcew_top_v1_1.v\<close>: the coprocessor
  registers of \<open>rtl/core/riscv_core.v\<close>, the synchronisers and the tile. A step is an edge of the
  core clock, of the SNN clock or of both; what the program does and when a gated clock stops is
  arbitrary.
\<close>

section \<open>The core's coprocessor port and the SNN tile\<close>

record snn_chip =
  xcew_pending :: bool
  o_xcew_req :: u32
  classify_sync :: pulse_sync
  load_sync :: "40 word data_sync"
  result_sync :: "24 word data_sync"
  snn_tile :: tile_state

text \<open>What the core's pipeline and the other coprocessors do on an edge of the core clock.\<close>

record issue_in =
  id_ex_valid :: bool
  id_ex_instr :: u32
  o_rs1_data :: u32
  o_rs2_data :: u32
  eml_done :: bool
  policy_done_in :: bool

abbreviation xcew_opcode :: "snn_chip \<Rightarrow> u32" where
  "xcew_opcode s \<equiv> bitsel 6 0 (o_xcew_req s)"

definition snn_classify_en_int :: "snn_chip \<Rightarrow> bool" where
  "snn_classify_en_int s \<longleftrightarrow> xcew_pending s \<and> xcew_opcode s = OPCODE_XCEW_SNN_CLASS"

definition snn_current_valid_int :: "snn_chip \<Rightarrow> bool" where
  "snn_current_valid_int s \<longleftrightarrow> xcew_pending s \<and> xcew_opcode s = OPCODE_XCEW_MISC"

definition core_xcew_done :: "issue_in \<Rightarrow> snn_chip \<Rightarrow> bool" where
  "core_xcew_done c s =
     (if xcew_opcode s = OPCODE_XCEW_EML then eml_done c
      else if xcew_opcode s = OPCODE_XCEW_SNN_CLASS then valid_reg_dst (result_sync s)
      else if xcew_opcode s = OPCODE_XCEW_POL_UPD then policy_done_in c
      else if xcew_opcode s = OPCODE_XCEW_MISC then xcew_pending s
      else False)"

definition issue_edge :: "issue_in \<Rightarrow> snn_chip \<Rightarrow> snn_chip \<Rightarrow> snn_chip" where
  "issue_edge c s r =
     (let issue = id_ex_valid c \<and> is_xcew (id_ex_instr c) \<and> \<not> xcew_pending s;
          r1 = (if issue then r\<lparr>xcew_pending := True, o_xcew_req := id_ex_instr c\<rparr> else r)
      in if core_xcew_done c s \<and> xcew_pending s then r1\<lparr>xcew_pending := False\<rparr> else r1)"

definition snn_data_src :: "issue_in \<Rightarrow> 40 word" where
  "snn_data_src c = (push_bit 32 (ucast (bitsel 7 0 (o_rs2_data c))) OR ucast (o_rs1_data c))"

definition snn_result_src :: "snn_chip \<Rightarrow> 24 word" where
  "snn_result_src s = (push_bit 8 (ucast (o_conf (snn_tile s))) OR ucast (o_class (snn_tile s)))"

text \<open>The configuration inputs \<open>g\<close> come from \<open>snn_ctrl_ext\<close>; the rest of the tile's inputs come through
  the synchronisers.\<close>

definition tile_inputs :: "tile_in \<Rightarrow> snn_chip \<Rightarrow> tile_in" where
  "tile_inputs g s =
     g\<lparr>i_classify_en := pulse_dst_reg (classify_sync s),
       i_v_threshold := 0x40000000, i_v_rest := 0,
       i_input_current := ucast (data_reg_dst (load_sync s)),
       i_neuron_idx := ucast (drop_bit 32 (data_reg_dst (load_sync s))),
       i_current_valid := valid_reg_dst (load_sync s)\<rparr>"

definition core_clk_edge :: "issue_in \<Rightarrow> snn_chip \<Rightarrow> snn_chip" where
  "core_clk_edge c s = issue_edge c s
     (s\<lparr>classify_sync := pulse_src_edge (snn_classify_en_int s) (classify_sync s),
        load_sync := data_src_edge (snn_current_valid_int s) (snn_data_src c) (load_sync s),
        result_sync := data_dst_edge True (result_sync s)\<rparr>)"

definition snn_edge :: "tile_in \<Rightarrow> snn_chip \<Rightarrow> snn_chip" where
  "snn_edge g s =
     s\<lparr>classify_sync := pulse_dst_edge (classify_sync s),
       load_sync := data_dst_edge True (load_sync s),
       result_sync := data_src_edge (o_done (snn_tile s)) (snn_result_src s) (result_sync s),
       snn_tile := tile_step (tile_inputs g s) (snn_tile s)\<rparr>"

definition both_edge :: "issue_in \<Rightarrow> tile_in \<Rightarrow> snn_chip \<Rightarrow> snn_chip" where
  "both_edge c g s = issue_edge c s
     (s\<lparr>classify_sync := pulse_both_edge (snn_classify_en_int s) (classify_sync s),
        load_sync := data_both_edge (snn_current_valid_int s) (snn_data_src c) True (load_sync s),
        result_sync := data_both_edge (o_done (snn_tile s)) (snn_result_src s) True (result_sync s),
        snn_tile := tile_step (tile_inputs g s) (snn_tile s)\<rparr>)"

inductive chip_step :: "snn_chip \<Rightarrow> snn_chip \<Rightarrow> bool" where
  core: "chip_step s (core_clk_edge c s)"
| snn: "chip_step s (snn_edge g s)"
| both: "chip_step s (both_edge c g s)"

definition chip_reset :: "tile_state \<Rightarrow> snn_chip" where
  "chip_reset t = \<lparr>xcew_pending = False, o_xcew_req = 0, classify_sync = pulse_clear,
     load_sync = data_clear, result_sync = data_clear, snn_tile = tile_rst t\<rparr>"

inductive chip_reach :: "snn_chip \<Rightarrow> bool" where
  start: "chip_reach (chip_reset t)"
| step: "chip_reach s \<Longrightarrow> chip_step s s' \<Longrightarrow> chip_reach s'"

section \<open>No classification ever completes\<close>

text \<open>An upper bound on the loads that can still arrive once the core sends none.\<close>

definition in_flight :: "'a data_sync \<Rightarrow> nat" where
  "in_flight d = of_bool (valid_reg_dst d) + of_bool (sync_ff2 (d_req d) \<and> \<not> req_dst_d d) +
     of_bool (sync_ff1 (d_req d) \<and> \<not> sync_ff2 (d_req d)) + of_bool (req_reg_src d \<and> \<not> sync_ff1 (d_req d))"

definition no_result :: "snn_chip \<Rightarrow> bool" where
  "no_result s \<longleftrightarrow> \<not> req_reg_src (result_sync s) \<and> d_req (result_sync s) = sync_clear \<and>
     \<not> valid_reg_dst (result_sync s) \<and> \<not> o_done (snn_tile s)"

definition not_yet :: "snn_chip \<Rightarrow> bool" where
  "not_yet s \<longleftrightarrow> no_result s \<and> xcew_opcode s \<noteq> OPCODE_XCEW_SNN_CLASS \<and>
     \<not> req_level_src (classify_sync s) \<and> p_req (classify_sync s) = sync_clear \<and>
     \<not> pulse_dst_reg (classify_sync s) \<and>
     tphase (snn_tile s) = T_IDLE \<and> load_counter (snn_tile s) = 0 \<and> \<not> load_done (snn_tile s)"

definition waiting :: "snn_chip \<Rightarrow> bool" where
  "waiting s \<longleftrightarrow> no_result s \<and> xcew_pending s \<and> xcew_opcode s = OPCODE_XCEW_SNN_CLASS \<and>
     (tphase (snn_tile s) = T_IDLE \<or> tphase (snn_tile s) = T_LOAD) \<and> \<not> load_done (snn_tile s) \<and>
     unat (load_counter (snn_tile s)) + in_flight (load_sync s) \<le> 4"

lemma in_flight_le: "in_flight d \<le> 4"
  by (simp add: in_flight_def of_bool_def)

lemmas snn_chip_defs =
  core_clk_edge_def snn_edge_def both_edge_def issue_edge_def Let_def
  pulse_src_edge_def pulse_dst_edge_def pulse_both_edge_def data_edge_defs

lemma not_yet_step:
  assumes "chip_step s s'" and "not_yet s"
  shows "not_yet s' \<or> waiting s'"
  using assms
proof cases
  case (core c)
  then show ?thesis
    using assms(2) in_flight_le
    by (auto simp: not_yet_def waiting_def no_result_def snn_chip_defs snn_classify_en_int_def)
next
  case (snn g)
  then show ?thesis
    using assms(2)
    by (simp add: not_yet_def no_result_def snn_chip_defs tile_step_def tile_idle_def tile_next_def tile_inputs_def)
next
  case (both c g)
  then show ?thesis
    using assms(2) in_flight_le
    by (auto simp: not_yet_def waiting_def no_result_def snn_chip_defs snn_classify_en_int_def
        tile_step_def tile_idle_def tile_next_def tile_inputs_def)
qed
text \<open>While the core sends nothing, an edge of the receiving side consumes a load or moves one on.\<close>

lemma in_flight_src: "in_flight (data_src_edge False d l) \<le> in_flight l"
  by (simp add: in_flight_def data_edge_defs of_bool_def)

lemma in_flight_dst:
  "in_flight (data_dst_edge True l) + of_bool (valid_reg_dst l) \<le> in_flight l"
  "in_flight (data_both_edge False d True l) + of_bool (valid_reg_dst l) \<le> in_flight l"
  by (simp_all add: in_flight_def data_edge_defs of_bool_def)

lemma tile_waits:
  assumes "tphase t = T_IDLE \<or> tphase t = T_LOAD" and "\<not> load_done t" and "unat (load_counter t) \<le> 4"
  shows "(tphase (tile_step i t) = T_IDLE \<or> tphase (tile_step i t) = T_LOAD) \<and> \<not> load_done (tile_step i t) \<and>
    \<not> o_done (tile_step i t) \<and>
    unat (load_counter (tile_step i t)) \<le> unat (load_counter t) + of_bool (i_current_valid i)"
proof -
  have "\<not> 255 \<le> load_counter t" "unat (load_counter t + 1) = unat (load_counter t) + 1"
    using assms(3) by (simp_all add: word_le_nat_alt unat_add_lem [THEN iffD1])
  then show ?thesis
    using assms(1,2) by (auto simp: tile_step_def tile_idle_def tile_load_def tile_next_def Let_def)
qed

lemma waiting_core:
  assumes "waiting s"
  shows "waiting (core_clk_edge c s)"
  using assms in_flight_src [of "snn_data_src c" "load_sync s"]
  by (auto simp: waiting_def no_result_def core_clk_edge_def issue_edge_def core_xcew_done_def snn_current_valid_int_def
      data_dst_edge_def sync_edge_def sync_clear_def)

lemma no_result_src: "no_result s \<Longrightarrow> data_src_edge (o_done (snn_tile s)) d (result_sync s) =
    (result_sync s)\<lparr>d_ack := sync_edge False (d_ack (result_sync s)), ack_dst_d := sync_ff2 (d_ack (result_sync s))\<rparr>"
  by (simp add: no_result_def data_src_edge_def)

lemma waiting_tile:
  assumes "waiting s"
  shows "let t = tile_step (tile_inputs g s) (snn_tile s)
    in (tphase t = T_IDLE \<or> tphase t = T_LOAD) \<and> \<not> load_done t \<and> \<not> o_done t \<and>
      unat (load_counter t) + in_flight (data_dst_edge True (load_sync s)) \<le> 4 \<and>
      unat (load_counter t) + in_flight (data_both_edge False d True (load_sync s)) \<le> 4"
  using assms tile_waits [of "snn_tile s" "tile_inputs g s"] in_flight_dst(1) [of "load_sync s"]
    in_flight_dst(2) [of d "load_sync s"]
  by (auto simp: waiting_def tile_inputs_def Let_def)

lemma waiting_step:
  assumes "chip_step s s'" and "waiting s"
  shows "waiting s'"
  using assms
proof cases
  case (core c)
  then show ?thesis
    using waiting_core assms(2) by simp
next
  case (snn g)
  then show ?thesis
    using assms(2) waiting_tile [OF assms(2), of g] no_result_src [of s]
    by (auto simp: waiting_def no_result_def snn_edge_def Let_def)
next
  case (both c g)
  then show ?thesis
    using assms(2) waiting_tile [OF assms(2), of g "snn_data_src c"] no_result_src [of s]
    by (auto simp: waiting_def no_result_def both_edge_def issue_edge_def core_xcew_done_def snn_current_valid_int_def
        Let_def data_both_edge_def data_dst_edge_def sync_edge_def sync_clear_def)
qed

lemma reach_cases: "chip_reach s \<Longrightarrow> not_yet s \<or> waiting s"
proof (induction rule: chip_reach.induct)
  case (start t)
  show ?case
    by (simp add: not_yet_def no_result_def chip_reset_def data_clear_def pulse_clear_def sync_clear_def
        tile_rst_def tile_idle_def bitsel_def)
next
  case (step s s')
  then show ?case
    using not_yet_step waiting_step by blast
qed

text \<open>C17: No classification ever completes. Once the core has issued the instruction of
  \<open>xcew_snn_classify\<close>, it waits for the result for ever: the tile needs 255 loads after the
  instruction has started it, the loads are instructions of the same core, and at most four can
  still be on their way. This holds for every program before it and for every order of the edges
  of the two clocks.\<close>

theorem classify_never_returns:
  assumes "chip_reach s" and "xcew_pending s" and "xcew_opcode s = OPCODE_XCEW_SNN_CLASS"
    and "chip_step\<^sup>*\<^sup>* s t"
  shows "xcew_pending t \<and> xcew_opcode t = OPCODE_XCEW_SNN_CLASS \<and> \<not> core_xcew_done c t \<and> \<not> o_done (snn_tile t)"
proof -
  have "waiting s"
    using reach_cases [OF assms(1)] assms(3) by (auto simp: not_yet_def)
  with assms(4) have "waiting t"
    by (induction rule: rtranclp_induct) (auto intro: waiting_step)
  then show ?thesis
    by (simp add: waiting_def no_result_def core_xcew_done_def)
qed

definition classify_issue :: issue_in where
  "classify_issue = \<lparr>id_ex_valid = True, id_ex_instr = 0x0005055B, o_rs1_data = 0, o_rs2_data = 0,
     eml_done = False, policy_done_in = False\<rparr>"

theorem classify_never_returns_witness:
  "xcew_pending (snn_edge window_cfg (core_clk_edge classify_issue (core_clk_edge classify_issue (chip_reset open_window))))"
proof -
  define s where "s = core_clk_edge classify_issue (chip_reset open_window)"
  have o: "bitsel 6 0 (0x0005055B :: u32) = 0x5B"
    by (simp add: bitsel_def mask_eq_exp_minus_1)
  have "chip_reach s"
    unfolding s_def by (rule chip_reach.step [OF chip_reach.start chip_step.core])
  moreover have "xcew_pending s" "xcew_opcode s = OPCODE_XCEW_SNN_CLASS"
    by (simp_all add: s_def core_clk_edge_def issue_edge_def chip_reset_def classify_issue_def is_xcew_def o
        core_xcew_done_def)
  moreover have "chip_step\<^sup>*\<^sup>* s (snn_edge window_cfg (core_clk_edge classify_issue s))"
    by (rule rtranclp.rtrancl_into_rtrancl [OF r_into_rtranclp]) (rule chip_step.core chip_step.snn)+
  ultimately show ?thesis
    unfolding s_def [symmetric] by (rule classify_never_returns [THEN conjunct1])
qed

end
