(* ===== verification/Rtl_Core.thy ===== *)
theory Rtl_Core
  imports Rtl_Core_Alu
begin

text \<open>
  The RISC-V core, \<open>rtl/core/riscv_core.v\<close>: a fetch stage and a stage that decodes, executes and
  writes back, with traps, the coprocessor port and debug mode. One definition per \<open>always\<close> block and
  per wire; \<open>core_edge\<close> is a rising clock edge. A register that two blocks drive (the register file,
  the control registers) takes the debug module's value when both write it on one edge; Verilog leaves
  the order open.
\<close>

section \<open>Registers\<close>

text \<open>
  The registers, grouped by the block that drives them. The decoded copies \<open>id_opcode\<close>, \<open>id_rd\<close>,
  \<open>id_funct3\<close>, \<open>id_rs1\<close>, \<open>id_rs2\<close>, \<open>id_funct7\<close> and \<open>rf_wdata\<close>, \<open>rf_rd_addr\<close> are written and never
  read. \<open>SUPPORT_C\<close> is not defined; \<open>Rtl_Rvc\<close> has what it adds.
\<close>

record if_stage =
  pc_reg :: u32
  if_instr :: u32
  if_pc :: u32

record ex_stage =
  id_ex_instr :: u32
  id_ex_pc :: u32
  id_ex_valid :: bool
  id_imm :: u32
  rf_rs1_addr :: u5
  rf_rs2_addr :: u5

record xcew_port =
  xcew_pending :: bool
  xcew_valid :: bool
  o_xcew_req :: u32
  xcew_rd_reg :: u5
  xcew_result :: u32

record debug_regs =
  debug_mode :: bool
  debug_halted :: bool
  debug_single_step :: bool
  debug_prv :: u2
  csr_dcsr :: u32
  csr_dpc :: u32
  csr_dscratch0 :: u32
  csr_dscratch1 :: u32
  step_armed :: bool

record core =
  ifs :: if_stage
  exs :: ex_stage
  regfile :: "u5 \<Rightarrow> u32"
  rf_we :: bool
  xcp :: xcew_port
  redirect_r :: bool
  csrs :: mcsrs
  dbg :: debug_regs
  o_dbg_reg_rdata :: u32
  o_dbg_reg_ack :: bool

record core_in =
  instr :: u32
  mem_rdata :: u32
  csr_rd_data :: u32
  i_meip :: bool
  i_mtip :: bool
  i_msip :: bool
  i_xcew_resp :: u32
  i_xcew_done :: bool
  i_dm_halt_req :: bool
  i_dm_resume_req :: bool
  i_dm_reset_req :: bool
  i_debug_trigger_hit :: bool
  i_dbg_reg_req :: bool
  i_dbg_reg_wr :: bool
  i_dbg_reg_addr :: u12
  i_dbg_reg_wdata :: u32
section \<open>Wires\<close>

abbreviation ex_instr :: "core \<Rightarrow> u32" where "ex_instr s \<equiv> id_ex_instr (exs s)"
abbreviation ex_valid :: "core \<Rightarrow> bool" where "ex_valid s \<equiv> id_ex_valid (exs s)"
abbreviation op7 :: "core \<Rightarrow> u32" where "op7 s \<equiv> bitsel 6 0 (ex_instr s)"
abbreviation f3 :: "core \<Rightarrow> u32" where "f3 s \<equiv> bitsel 14 12 (ex_instr s)"
abbreviation ex_rd :: "core \<Rightarrow> u5" where "ex_rd s \<equiv> ucast (bitsel 11 7 (ex_instr s))"
abbreviation ex_rs1 :: "core \<Rightarrow> u5" where "ex_rs1 s \<equiv> ucast (bitsel 19 15 (ex_instr s))"
abbreviation csr_a :: "core \<Rightarrow> u12" where "csr_a s \<equiv> ucast (bitsel 31 20 (ex_instr s))"

definition rf_read :: "core \<Rightarrow> u5 \<Rightarrow> u32" where
  "rf_read s a = (if a = 0 then 0 else regfile s a)"

definition rf_rs1_data :: "core \<Rightarrow> u32" where "rf_rs1_data s = rf_read s (rf_rs1_addr (exs s))"
definition rf_rs2_data :: "core \<Rightarrow> u32" where "rf_rs2_data s = rf_read s (rf_rs2_addr (exs s))"

definition alu_result :: "core \<Rightarrow> u32" where
  "alu_result s =
     (if ex_valid s \<and> \<not> is_xcew (ex_instr s)
      then alu (alu_select (ex_instr s)) (rf_rs1_data s)
             (if op7 s = OPCODE_ITYPE \<or> op7 s = OPCODE_LTYPE \<or> op7 s = OPCODE_STYPE
              then id_imm (exs s) else rf_rs2_data s)
      else alu ALU_ADD 0 0)"

definition branch_cond_holds :: "u32 \<Rightarrow> u32 \<Rightarrow> u32 \<Rightarrow> bool" where
  "branch_cond_holds c a b \<longleftrightarrow>
     (c = 0 \<and> a = b) \<or> (c = 1 \<and> a \<noteq> b) \<or> (c = 4 \<and> sint a < sint b) \<or> (c = 5 \<and> sint a \<ge> sint b) \<or>
     (c = 6 \<and> a < b) \<or> (c = 7 \<and> a \<ge> b)"

definition branch_taken :: "core \<Rightarrow> bool" where
  "branch_taken s \<longleftrightarrow> ex_valid s \<and> op7 s = OPCODE_BRANCH \<and>
     branch_cond_holds (f3 s) (rf_rs1_data s) (rf_rs2_data s)"

definition branch_target :: "core \<Rightarrow> u32" where
  "branch_target s = id_ex_pc (exs s) + id_imm (exs s)"

definition jump_target :: "core \<Rightarrow> u32" where
  "jump_target s =
     (if op7 s = OPCODE_JALR then (rf_rs1_data s + id_imm (exs s)) AND NOT 1
      else if op7 s = OPCODE_JAL then id_ex_pc (exs s) + id_imm (exs s) else 0)"

definition pc_sel_jump :: "core \<Rightarrow> bool" where
  "pc_sel_jump s \<longleftrightarrow> ex_valid s \<and>
     (op7 s = OPCODE_JAL \<or> op7 s = OPCODE_JALR \<or> op7 s = OPCODE_BRANCH \<and> branch_taken s)"

definition target_pc :: "core \<Rightarrow> u32" where
  "target_pc s = (if op7 s = OPCODE_BRANCH then branch_target s else jump_target s)"

definition stall_id_ex :: "core_in \<Rightarrow> core \<Rightarrow> bool" where
  "stall_id_ex i s \<longleftrightarrow> xcew_pending (xcp s) \<and> \<not> i_xcew_done i"

text \<open>Control and status registers.\<close>

definition csr_mip :: "core_in \<Rightarrow> u32" where
  "csr_mip i = (if i_meip i then 0x800 else 0) OR (if i_mtip i then 0x80 else 0) OR (if i_msip i then 8 else 0)"

definition csr_is_machine :: "u12 \<Rightarrow> bool" where
  "csr_is_machine a \<longleftrightarrow> a = 0x300 \<or> a = 0x301 \<or> a = 0x304 \<or> a = 0x305 \<or> a = 0x340 \<or> a = 0x341 \<or>
     a = 0x342 \<or> a = 0x343 \<or> a = 0x344 \<or> a = 0xF14"

definition csr_int_rdata :: "core_in \<Rightarrow> core \<Rightarrow> u32" where
  "csr_int_rdata i s =
     (let a = csr_a s; r = csrs s; d = dbg s in
      if a = 0x300 then mstatus r else if a = 0x301 then 0x40001100 else if a = 0x304 then mie r
      else if a = 0x305 then mtvec r else if a = 0x340 then mscratch r else if a = 0x341 then mepc r
      else if a = 0x342 then mcause r else if a = 0x343 then mtval r else if a = 0x344 then csr_mip i
      else if a = 0x7B0 then csr_dcsr d else if a = 0x7B1 then csr_dpc d
      else if a = 0x7B2 then csr_dscratch0 d else if a = 0x7B3 then csr_dscratch1 d
      else 0)"

definition csr_read_value :: "core_in \<Rightarrow> core \<Rightarrow> u32" where
  "csr_read_value i s = (if csr_is_machine (csr_a s) then csr_int_rdata i s else csr_rd_data i)"

definition is_system :: "core \<Rightarrow> bool" where
  "is_system s \<longleftrightarrow> ex_valid s \<and> op7 s = OPCODE_SYSTEM"

definition is_csr_op :: "core \<Rightarrow> bool" where
  "is_csr_op s \<longleftrightarrow> is_system s \<and> f3 s \<noteq> 0"

definition csr_src :: "core \<Rightarrow> u32" where
  "csr_src s = (if bit (f3 s) 2 then bitsel 19 15 (ex_instr s) else rf_rs1_data s)"

definition csr_new :: "core_in \<Rightarrow> core \<Rightarrow> u32" where
  "csr_new i s =
     (let k = bitsel 1 0 (f3 s); old = csr_read_value i s in
      if k = 1 then csr_src s else if k = 2 then (old OR csr_src s)
      else if k = 3 then (old AND NOT (csr_src s)) else old)"

definition csr_wr_happens :: "core \<Rightarrow> bool" where
  "csr_wr_happens s \<longleftrightarrow> is_csr_op s \<and> (bitsel 1 0 (f3 s) = 1 \<or> ex_rs1 s \<noteq> 0)"

definition is_ecall :: "core \<Rightarrow> bool" where "is_ecall s \<longleftrightarrow> is_system s \<and> f3 s = 0 \<and> csr_a s = 0"
definition is_ebreak :: "core \<Rightarrow> bool" where "is_ebreak s \<longleftrightarrow> is_system s \<and> f3 s = 0 \<and> csr_a s = 1"
definition is_mret :: "core \<Rightarrow> bool" where "is_mret s \<longleftrightarrow> is_system s \<and> f3 s = 0 \<and> csr_a s = 0x302"

definition is_load :: "core \<Rightarrow> bool" where "is_load s \<longleftrightarrow> ex_valid s \<and> op7 s = OPCODE_LTYPE"
definition is_store :: "core \<Rightarrow> bool" where "is_store s \<longleftrightarrow> ex_valid s \<and> op7 s = OPCODE_STYPE"

text \<open>Exceptions, interrupts and the traps they cause.\<close>

definition exc_instr_ma :: "core \<Rightarrow> bool" where
  "exc_instr_ma s \<longleftrightarrow> ex_valid s \<and> pc_sel_jump s \<and> bitsel 1 0 (target_pc s) \<noteq> 0"

definition exc_illegal :: "core \<Rightarrow> bool" where
  "exc_illegal s \<longleftrightarrow> ex_valid s \<and> \<not> legal_opcode (ex_instr s)"

definition exc_load_ma :: "core \<Rightarrow> bool" where
  "exc_load_ma s \<longleftrightarrow> is_load s \<and>
     (f3 s = 1 \<and> bit (alu_result s) 0 \<or> f3 s = 5 \<and> bit (alu_result s) 0 \<or>
      f3 s = 2 \<and> bitsel 1 0 (alu_result s) \<noteq> 0)"

definition exc_store_ma :: "core \<Rightarrow> bool" where
  "exc_store_ma s \<longleftrightarrow> is_store s \<and>
     (f3 s = 1 \<and> bit (alu_result s) 0 \<or> f3 s = 2 \<and> bitsel 1 0 (alu_result s) \<noteq> 0)"

definition any_exception :: "core \<Rightarrow> bool" where
  "any_exception s \<longleftrightarrow> exc_illegal s \<or> is_ecall s \<or> is_ebreak s \<or> exc_load_ma s \<or> exc_store_ma s \<or> exc_instr_ma s"

definition irq_pending :: "core_in \<Rightarrow> core \<Rightarrow> bool" where
  "irq_pending i s \<longleftrightarrow> bit (mstatus (csrs s)) 3 \<and>
     (bit (mie (csrs s)) 11 \<and> i_meip i \<or> bit (mie (csrs s)) 7 \<and> i_mtip i \<or> bit (mie (csrs s)) 3 \<and> i_msip i)"

definition trap_taken :: "core_in \<Rightarrow> core \<Rightarrow> bool" where
  "trap_taken i s \<longleftrightarrow> ex_valid s \<and> mtvec (csrs s) \<noteq> 0 \<and> \<not> xcew_pending (xcp s) \<and>
     (any_exception s \<or> irq_pending i s)"

definition mret_taken :: "core_in \<Rightarrow> core \<Rightarrow> bool" where
  "mret_taken i s \<longleftrightarrow> is_mret s \<and> ex_valid s \<and> \<not> trap_taken i s"

definition trap_cause_tval :: "core_in \<Rightarrow> core \<Rightarrow> u32 \<times> u32" where
  "trap_cause_tval i s =
     (if exc_instr_ma s then (0, target_pc s)
      else if exc_illegal s then (2, ex_instr s)
      else if is_ecall s then (11, 0)
      else if is_ebreak s then (3, id_ex_pc (exs s))
      else if exc_load_ma s then (4, alu_result s)
      else if exc_store_ma s then (6, alu_result s)
      else if bit (mie (csrs s)) 11 \<and> i_meip i then (0x8000000B, 0)
      else if bit (mie (csrs s)) 7 \<and> i_mtip i then (0x80000007, 0)
      else (0x80000003, 0))"

text \<open>Debug mode.\<close>

definition debug_halt_request :: "core_in \<Rightarrow> core \<Rightarrow> bool" where
  "debug_halt_request i s \<longleftrightarrow> i_dm_halt_req i \<and> \<not> debug_mode (dbg s)"

definition debug_ebreak :: "core \<Rightarrow> bool" where
  "debug_ebreak s \<longleftrightarrow> is_ebreak s \<and> \<not> debug_mode (dbg s) \<and> bit (csr_dcsr (dbg s)) 15"

definition debug_trigger_hit :: "core_in \<Rightarrow> core \<Rightarrow> bool" where
  "debug_trigger_hit i s \<longleftrightarrow> i_debug_trigger_hit i \<and> \<not> debug_mode (dbg s)"

definition debug_step_reenter :: "core_in \<Rightarrow> core \<Rightarrow> bool" where
  "debug_step_reenter i s \<longleftrightarrow> debug_single_step (dbg s) \<and> \<not> debug_mode (dbg s) \<and> \<not> debug_halted (dbg s) \<and>
     step_armed (dbg s) \<and> ex_valid s \<and> \<not> stall_id_ex i s"

definition debug_enter :: "core_in \<Rightarrow> core \<Rightarrow> bool" where
  "debug_enter i s \<longleftrightarrow> debug_halt_request i s \<or> debug_ebreak s \<or> debug_trigger_hit i s \<or> debug_step_reenter i s"

definition debug_exit :: "core_in \<Rightarrow> core \<Rightarrow> bool" where
  "debug_exit i s \<longleftrightarrow> i_dm_resume_req i \<and> debug_mode (dbg s)"

text \<open>The next program counter and the squashing of the instructions behind a redirection.\<close>

definition next_pc :: "core_in \<Rightarrow> core \<Rightarrow> u32" where
  "next_pc i s =
     (let tvec = mtvec (csrs s); cause = fst (trap_cause_tval i s) in
      if debug_enter i s then 0x800
      else if debug_exit i s then csr_dpc (dbg s)
      else if trap_taken i s then
        (if bitsel 1 0 tvec = 1 \<and> bit cause 31 then (tvec AND 0xFFFFFFFC) + push_bit 2 (bitsel 30 0 cause)
         else tvec AND 0xFFFFFFFC)
      else if mret_taken i s then mepc (csrs s)
      else if pc_sel_jump s then (if op7 s = OPCODE_BRANCH then branch_target s else jump_target s)
      else pc_reg (ifs s) + 4)"

definition redirect :: "core_in \<Rightarrow> core \<Rightarrow> bool" where
  "redirect i s \<longleftrightarrow> pc_sel_jump s \<or> trap_taken i s \<or> mret_taken i s"

definition flush :: "core_in \<Rightarrow> core \<Rightarrow> bool" where
  "flush i s \<longleftrightarrow> redirect i s \<or> redirect_r s \<or> debug_exit i s \<or> debug_enter i s"

definition wb_data :: "core_in \<Rightarrow> core \<Rightarrow> u32" where
  "wb_data i s =
     (if xcew_valid (xcp s) then xcew_result (xcp s)
      else if is_csr_op s then csr_read_value i s
      else if is_load s then load_data (f3 s) (alu_result s) (mem_rdata i)
      else if op7 s = OPCODE_JAL \<or> op7 s = OPCODE_JALR then id_ex_pc (exs s) + 4
      else if op7 s = OPCODE_LUI then id_imm (exs s)
      else if op7 s = OPCODE_AUIPC then id_ex_pc (exs s) + id_imm (exs s)
      else alu_result s)"

text \<open>The ports: data memory and the bus of the custom control registers.\<close>

definition mem_addr :: "core \<Rightarrow> u32" where
  "mem_addr s = (if is_store s \<or> is_load s then alu_result s else 0)"

definition mem_wdata :: "core \<Rightarrow> u32" where
  "mem_wdata s = (if is_store s then store_lanes (alu_result s) (rf_rs2_data s) else 0)"

definition mem_we :: "core_in \<Rightarrow> core \<Rightarrow> bool" where
  "mem_we i s \<longleftrightarrow> is_store s \<and> \<not> trap_taken i s"

definition mem_wstrb :: "core \<Rightarrow> u4" where
  "mem_wstrb s = (if is_store s then store_wstrb (f3 s) (alu_result s) else 0)"

definition csr_addr :: "core \<Rightarrow> u12" where
  "csr_addr s = (if is_csr_op s then csr_a s else 0)"

definition csr_wr_en :: "core_in \<Rightarrow> core \<Rightarrow> bool" where
  "csr_wr_en i s \<longleftrightarrow> csr_wr_happens s \<and> \<not> csr_is_machine (csr_a s) \<and> \<not> trap_taken i s"
section \<open>Clock edge\<close>

definition if_edge :: "core_in \<Rightarrow> core \<Rightarrow> if_stage" where
  "if_edge i s =
     (if debug_enter i s \<or> debug_exit i s \<or> trap_taken i s \<or> mret_taken i s
      then \<lparr>pc_reg = next_pc i s, if_instr = 0x13, if_pc = next_pc i s\<rparr>
      else if \<not> stall_id_ex i s
      then \<lparr>pc_reg = next_pc i s, if_instr = instr i, if_pc = pc_reg (ifs s)\<rparr>
      else ifs s)"

text \<open>\<open>bubble_id_ex\<close> is \<open>stall_id_ex\<close>, so the branch that would keep a valid instruction is dead.\<close>

definition ex_edge :: "core_in \<Rightarrow> core \<Rightarrow> ex_stage" where
  "ex_edge i s =
     (let w = if_instr (ifs s) in
      if \<not> stall_id_ex i s
      then \<lparr>id_ex_instr = w, id_ex_pc = if_pc (ifs s), id_ex_valid = (\<not> flush i s),
            id_imm = generate_imm w (bitsel 6 0 w),
            rf_rs1_addr = ucast (bitsel 19 15 w), rf_rs2_addr = ucast (bitsel 24 20 w)\<rparr>
      else exs s\<lparr>id_ex_valid := False\<rparr>)"

definition xcew_edge :: "core_in \<Rightarrow> core \<Rightarrow> xcew_port" where
  "xcew_edge i s =
     (let x = xcp s;
          x1 = (if ex_valid s \<and> is_xcew (ex_instr s) \<and> \<not> xcew_pending x
                then x\<lparr>xcew_pending := True, xcew_rd_reg := ex_rd s, o_xcew_req := ex_instr s\<rparr> else x)
      in if i_xcew_done i \<and> xcew_pending x
         then x1\<lparr>xcew_result := i_xcew_resp i, xcew_valid := True, xcew_pending := False\<rparr>
         else if xcew_valid x \<and> rf_we s then x1\<lparr>xcew_valid := False\<rparr> else x1)"

definition writes_rd :: "u32 \<Rightarrow> bool" where
  "writes_rd opc \<longleftrightarrow> opc = OPCODE_RTYPE \<or> opc = OPCODE_ITYPE \<or> opc = OPCODE_LTYPE \<or> opc = OPCODE_LUI \<or>
     opc = OPCODE_AUIPC \<or> opc = OPCODE_JAL \<or> opc = OPCODE_JALR \<or> opc = OPCODE_SYSTEM"

text \<open>The register that the write-back block writes, and the value.\<close>

definition rf_write :: "core_in \<Rightarrow> core \<Rightarrow> (u5 \<times> u32) option" where
  "rf_write i s =
     (if ex_valid s \<and> \<not> trap_taken i s then
        (if \<not> is_xcew (ex_instr s) then
           (if writes_rd (op7 s) \<and> ex_rd s \<noteq> 0 then Some (ex_rd s, wb_data i s) else None)
         else if xcew_valid (xcp s) \<and> xcew_rd_reg (xcp s) \<noteq> 0
         then Some (xcew_rd_reg (xcp s), xcew_result (xcp s))
         else None)
      else None)"

text \<open>The registers the debug module reads and writes by number.\<close>

definition dbg_access :: "core_in \<Rightarrow> core \<Rightarrow> bool" where
  "dbg_access i s \<longleftrightarrow> i_dbg_reg_req i \<and> \<not> o_dbg_reg_ack s"

definition dbg_is_gpr :: "core_in \<Rightarrow> bool" where
  "dbg_is_gpr i \<longleftrightarrow> bitsel 11 5 (i_dbg_reg_addr i) = 0"

definition dbg_gpr :: "core_in \<Rightarrow> u5" where
  "dbg_gpr i = ucast (bitsel 4 0 (i_dbg_reg_addr i))"

definition dbg_write :: "core_in \<Rightarrow> core \<Rightarrow> bool" where
  "dbg_write i s \<longleftrightarrow> dbg_access i s \<and> i_dbg_reg_wr i"

definition regfile_edge :: "core_in \<Rightarrow> core \<Rightarrow> u5 \<Rightarrow> u32" where
  "regfile_edge i s =
     (let r = (case rf_write i s of Some (a, v) \<Rightarrow> (regfile s)(a := v) | None \<Rightarrow> regfile s)
      in if dbg_write i s \<and> dbg_is_gpr i \<and> dbg_gpr i \<noteq> 0 then r(dbg_gpr i := i_dbg_reg_wdata i) else r)"

definition set_csr :: "u12 \<Rightarrow> u32 \<Rightarrow> mcsrs \<Rightarrow> mcsrs" where
  "set_csr a v r =
     (if a = 0x300 then r\<lparr>mstatus := v\<rparr> else if a = 0x304 then r\<lparr>mie := v\<rparr>
      else if a = 0x305 then r\<lparr>mtvec := v\<rparr> else if a = 0x340 then r\<lparr>mscratch := v\<rparr>
      else if a = 0x341 then r\<lparr>mepc := v\<rparr> else if a = 0x342 then r\<lparr>mcause := v\<rparr>
      else if a = 0x343 then r\<lparr>mtval := v\<rparr> else r)"

definition csrs_edge :: "core_in \<Rightarrow> core \<Rightarrow> mcsrs" where
  "csrs_edge i s =
     (let r = csrs s; st = mstatus r;
          r1 = (if trap_taken i s
                then r\<lparr>mepc := id_ex_pc (exs s), mcause := fst (trap_cause_tval i s),
                       mtval := snd (trap_cause_tval i s),
                       mstatus := put_bit 3 False (put_bit 7 (bit st 3) st) OR 0x1800\<rparr>
                else if mret_taken i s
                then r\<lparr>mstatus := put_bit 7 True (put_bit 3 (bit st 7) st) OR 0x1800\<rparr>
                else if is_csr_op s \<and> csr_is_machine (csr_a s) \<and> csr_wr_happens s
                then set_csr (csr_a s) (csr_new i s) r
                else r)
      in if dbg_write i s \<and> \<not> dbg_is_gpr i then set_csr (i_dbg_reg_addr i) (i_dbg_reg_wdata i) r1 else r1)"

text \<open>\<open>csr_dcsr[8:6] <= c\<close> and \<open>csr_dcsr[1:0] <= p\<close>.\<close>

definition put_cause :: "u32 \<Rightarrow> u32 \<Rightarrow> u32" where
  "put_cause c w = (w AND NOT 0x1C0) OR push_bit 6 c"

definition put_prv :: "u2 \<Rightarrow> u32 \<Rightarrow> u32" where
  "put_prv p w = (w AND NOT 3) OR ucast p"

definition dbg_enter_regs :: "core_in \<Rightarrow> core \<Rightarrow> debug_regs \<Rightarrow> debug_regs" where
  "dbg_enter_regs i s d =
     d\<lparr>debug_mode := True, debug_halted := True, debug_prv := ucast (bitsel 12 11 (mstatus (csrs s))),
       csr_dpc := (if debug_step_reenter i s then id_ex_pc (exs s) + 4 else id_ex_pc (exs s)),
       csr_dcsr := put_prv (debug_prv (dbg s))
         (put_cause (if debug_step_reenter i s then 4 else if debug_ebreak s then 1
                     else if debug_halt_request i s then 3 else 4) (csr_dcsr d))\<rparr>"

definition dbg_csr_write :: "u12 \<Rightarrow> u32 \<Rightarrow> debug_regs \<Rightarrow> debug_regs" where
  "dbg_csr_write a v d =
     (if a = 0x7B0 then d\<lparr>csr_dcsr := v\<rparr> else if a = 0x7B1 then d\<lparr>csr_dpc := v\<rparr>
      else if a = 0x7B2 then d\<lparr>csr_dscratch0 := v\<rparr> else if a = 0x7B3 then d\<lparr>csr_dscratch1 := v\<rparr> else d)"

definition step_armed_edge :: "core_in \<Rightarrow> core \<Rightarrow> bool" where
  "step_armed_edge i s =
     (if debug_step_reenter i s then False
      else if \<not> debug_single_step (dbg s) then False
      else if debug_exit i s then True else step_armed (dbg s))"

text \<open>The assignments in their order: a later one to the same register or field wins. \<open>rpc\<close> is
  \<open>RESET_PC\<close>.\<close>

definition dbg_edge :: "u32 \<Rightarrow> core_in \<Rightarrow> core \<Rightarrow> debug_regs" where
  "dbg_edge rpc i s =
     (let d0 = (dbg s)\<lparr>step_armed := step_armed_edge i s\<rparr>;
          d1 = (if debug_enter i s then dbg_enter_regs i s d0 else d0);
          d2 = (if debug_exit i s
                then d1\<lparr>debug_mode := False, debug_halted := False, debug_single_step := False\<rparr> else d1);
          d3 = (if debug_mode (dbg s) \<and> \<not> debug_halted (dbg s) \<and> debug_single_step (dbg s)
                then d2\<lparr>debug_halted := True, csr_dpc := pc_reg (ifs s), csr_dcsr := put_cause 4 (csr_dcsr d2)\<rparr>
                else d2);
          d4 = (if i_dm_resume_req i \<and> debug_mode (dbg s) \<and> bit (csr_dcsr (dbg s)) 2
                then d3\<lparr>debug_single_step := True\<rparr> else d3);
          d5 = (if is_csr_op s \<and> csr_wr_happens s then dbg_csr_write (csr_a s) (csr_new i s) d4 else d4);
          d6 = (if i_dm_reset_req i
                then d5\<lparr>debug_mode := True, debug_halted := True, debug_prv := 3, csr_dpc := rpc,
                        csr_dcsr := put_cause 6 (csr_dcsr d5)\<rparr> else d5)
      in if dbg_write i s \<and> \<not> dbg_is_gpr i
         then dbg_csr_write (i_dbg_reg_addr i) (i_dbg_reg_wdata i) d6 else d6)"

definition dbg_rdata :: "core_in \<Rightarrow> core \<Rightarrow> u32" where
  "dbg_rdata i s =
     (let a = i_dbg_reg_addr i; r = csrs s; d = dbg s in
      if dbg_is_gpr i then (if dbg_gpr i = 0 then 0 else regfile s (dbg_gpr i))
      else if a = 0x7B0 then csr_dcsr d else if a = 0x7B1 then csr_dpc d
      else if a = 0x7B2 then csr_dscratch0 d else if a = 0x7B3 then csr_dscratch1 d
      else if a = 0x300 then mstatus r else if a = 0x301 then 0x40001100 else if a = 0x304 then mie r
      else if a = 0x305 then mtvec r else if a = 0x340 then mscratch r else if a = 0x341 then mepc r
      else if a = 0x342 then mcause r else if a = 0x343 then mtval r else if a = 0x344 then csr_mip i
      else 0)"

definition core_edge :: "u32 \<Rightarrow> core_in \<Rightarrow> core \<Rightarrow> core" where
  "core_edge rpc i s =
     \<lparr>ifs = if_edge i s, exs = ex_edge i s, regfile = regfile_edge i s,
      rf_we = (rf_write i s \<noteq> None), xcp = xcew_edge i s,
      redirect_r = (if stall_id_ex i s then redirect_r s else redirect i s),
      csrs = csrs_edge i s, dbg = dbg_edge rpc i s,
      o_dbg_reg_rdata = (if dbg_access i s \<and> \<not> i_dbg_reg_wr i then dbg_rdata i s else o_dbg_reg_rdata s),
      o_dbg_reg_ack = dbg_access i s\<rparr>"

text \<open>The immediate and the register addresses of the second stage have no reset value.\<close>

definition core_reset :: "u32 \<Rightarrow> u32 \<Rightarrow> u5 \<Rightarrow> u5 \<Rightarrow> core" where
  "core_reset rpc imm a1 a2 =
     \<lparr>ifs = \<lparr>pc_reg = rpc, if_instr = 0, if_pc = rpc\<rparr>,
      exs = \<lparr>id_ex_instr = 0, id_ex_pc = 0, id_ex_valid = False, id_imm = imm, rf_rs1_addr = a1, rf_rs2_addr = a2\<rparr>,
      regfile = (\<lambda>_. 0), rf_we = False,
      xcp = \<lparr>xcew_pending = False, xcew_valid = False, o_xcew_req = 0, xcew_rd_reg = 0, xcew_result = 0\<rparr>,
      redirect_r = False,
      csrs = \<lparr>mstatus = 0, mie = 0, mtvec = 0, mscratch = 0, mepc = 0, mcause = 0, mtval = 0\<rparr>,
      dbg = \<lparr>debug_mode = False, debug_halted = False, debug_single_step = False, debug_prv = 3,
             csr_dcsr = 0x40000000, csr_dpc = 0, csr_dscratch0 = 0, csr_dscratch1 = 0, step_armed = False\<rparr>,
      o_dbg_reg_rdata = 0, o_dbg_reg_ack = False\<rparr>"

end
