(* ===== verification/Core_Refines.thy ===== *)
theory Core_Refines
  imports Rtl_Core
begin

text \<open>
  The core with its memories refines the instruction set: every clock edge either executes the one
  instruction that the architectural state names, with its trap or interrupt, or changes no
  architectural state, and the latter at most twice in a row.
\<close>

section \<open>The core with its memories\<close>

text \<open>
  Instructions come from \<open>imem\<close> and data from a byte memory, each in the cycle of the address, as the
  core expects of its ports. The interrupt lines and what the bus of the custom control registers
  returns are arbitrary in every cycle. No coprocessor answers and the debugger is not connected.
\<close>

record sys =
  sys_core :: core
  sys_mem :: "u32 \<Rightarrow> u8"
  sys_log :: "(u12 \<times> u32) list"

definition core_inputs :: "(u32 \<Rightarrow> u32) \<Rightarrow> isa_in \<Rightarrow> sys \<Rightarrow> core_in" where
  "core_inputs imem i s =
     \<lparr>instr = imem (pc_reg (ifs (sys_core s))),
      mem_rdata = word_at (sys_mem s) (word_base (mem_addr (sys_core s))),
      csr_rd_data = custom_rd i, i_meip = ext_irq i, i_mtip = timer_irq i, i_msip = soft_irq i,
      i_xcew_resp = 0, i_xcew_done = False,
      i_dm_halt_req = False, i_dm_resume_req = False, i_dm_reset_req = False, i_debug_trigger_hit = False,
      i_dbg_reg_req = False, i_dbg_reg_wr = False, i_dbg_reg_addr = 0, i_dbg_reg_wdata = 0\<rparr>"

definition sys_edge :: "u32 \<Rightarrow> (u32 \<Rightarrow> u32) \<Rightarrow> isa_in \<Rightarrow> sys \<Rightarrow> sys" where
  "sys_edge rpc imem i s =
     (let c = sys_core s; ci = core_inputs imem i s in
      \<lparr>sys_core = core_edge rpc ci c,
       sys_mem = (if mem_we ci c then write_lanes (mem_wstrb c) (mem_addr c) (mem_wdata c) (sys_mem s) else sys_mem s),
       sys_log = (if csr_wr_en ci c then sys_log s @ [(csr_addr c, csr_new ci c)] else sys_log s)\<rparr>)"

section \<open>Abstraction and invariant\<close>

text \<open>The instruction that will take effect next.\<close>

definition abs_pc :: "core \<Rightarrow> u32" where
  "abs_pc c =
     (if ex_valid c then id_ex_pc (exs c) else if redirect_r c then pc_reg (ifs c) else if_pc (ifs c))"

definition abs_sys :: "sys \<Rightarrow> arch" where
  "abs_sys s = \<lparr>apc = abs_pc (sys_core s), regs = regfile (sys_core s), arch_csrs = csrs (sys_core s),
     mem = sys_mem s, csr_log = sys_log s\<rparr>"

definition executing :: "(u32 \<Rightarrow> u32) \<Rightarrow> core \<Rightarrow> bool" where
  "executing imem c \<longleftrightarrow>
     (let w = imem (id_ex_pc (exs c)) in
      ex_valid c \<and> id_ex_instr (exs c) = w \<and> id_imm (exs c) = generate_imm w (bitsel 6 0 w) \<and>
      rf_rs1_addr (exs c) = ucast (bitsel 19 15 w) \<and> rf_rs2_addr (exs c) = ucast (bitsel 24 20 w))"

definition undisturbed :: "core \<Rightarrow> bool" where
  "undisturbed c \<longleftrightarrow> \<not> xcew_pending (xcp c) \<and> \<not> xcew_valid (xcp c) \<and>
     \<not> debug_single_step (dbg c) \<and> (debug_mode (dbg c) \<or> \<not> bit (csr_dcsr (dbg c)) 15)"

definition in_step :: "(u32 \<Rightarrow> u32) \<Rightarrow> core \<Rightarrow> bool" where
  "in_step imem c \<longleftrightarrow> undisturbed c \<and>
     (ex_valid c \<longrightarrow> executing imem c \<and> \<not> redirect_r c \<and> if_pc (ifs c) = id_ex_pc (exs c) + 4) \<and>
     (\<not> redirect_r c \<longrightarrow> if_instr (ifs c) = imem (if_pc (ifs c)) \<and> pc_reg (ifs c) = if_pc (ifs c) + 4)"

section \<open>One instruction\<close>

text \<open>What the second stage makes of its instruction when no interrupt comes.\<close>

definition core_exec :: "(u32 \<Rightarrow> u32) \<Rightarrow> isa_in \<Rightarrow> sys \<Rightarrow> (u32 \<times> u32) + arch" where
  "core_exec imem i s =
     (let c = sys_core s; ci = core_inputs imem i s in
      if any_exception c then Inl (trap_cause_tval ci c)
      else Inr (abs_sys s\<lparr>
                apc := (if is_mret c then mepc (csrs c) else if pc_sel_jump c then target_pc c
                       else id_ex_pc (exs c) + 4),
                regs := (if writes_rd (op7 c) \<and> ex_rd c \<noteq> 0 then (regfile c)(ex_rd c := wb_data ci c) else regfile c),
                arch_csrs := (if is_mret c
                  then (csrs c)\<lparr>mstatus := put_bit 7 True (put_bit 3 (bit (mstatus (csrs c)) 7) (mstatus (csrs c))) OR 0x1800\<rparr>
                  else if csr_is_machine (csr_a c) \<and> csr_wr_happens c then set_csr (csr_a c) (csr_new ci c) (csrs c)
                  else csrs c),
                mem := (if is_store c then write_lanes (mem_wstrb c) (mem_addr c) (mem_wdata c) (sys_mem s) else sys_mem s),
                csr_log := (if csr_wr_happens c \<and> \<not> csr_is_machine (csr_a c)
                           then sys_log s @ [(csr_a c, csr_new ci c)] else sys_log s)\<rparr>))"

lemma abs_sys_sel [simp]:
  "apc (abs_sys s) = abs_pc (sys_core s)" "regs (abs_sys s) = regfile (sys_core s)"
  "arch_csrs (abs_sys s) = csrs (sys_core s)" "mem (abs_sys s) = sys_mem s" "csr_log (abs_sys s) = sys_log s"
  by (simp_all add: abs_sys_def)

lemma abs_sys_same [simp]:
  "abs_sys s\<lparr>apc := p, regs := regfile (sys_core s), arch_csrs := csrs (sys_core s), mem := sys_mem s,
     csr_log := sys_log s\<rparr> = abs_sys s\<lparr>apc := p\<rparr>"
  "abs_sys s\<lparr>apc := p, regs := f, arch_csrs := csrs (sys_core s), mem := sys_mem s,
     csr_log := sys_log s\<rparr> = abs_sys s\<lparr>apc := p, regs := f\<rparr>"
  by (simp_all add: abs_sys_def)

lemmas wire_defs =
  any_exception_def exc_illegal_def legal_opcode_def is_ecall_def is_ebreak_def is_mret_def
  is_system_def is_load_def is_store_def is_csr_op_def pc_sel_jump_def writes_rd_def

lemma no_csr_write: "\<not> is_csr_op c \<Longrightarrow> \<not> csr_wr_happens c"
  by (simp add: csr_wr_happens_def)

lemma no_address_exception:
  "\<not> is_load c \<Longrightarrow> \<not> exc_load_ma c" "\<not> is_store c \<Longrightarrow> \<not> exc_store_ma c"
  "\<not> pc_sel_jump c \<Longrightarrow> \<not> exc_instr_ma c"
  by (simp_all add: exc_load_ma_def exc_store_ma_def exc_instr_ma_def)

lemmas fields =
  opcode_of_def [symmetric] rd_of_def [symmetric] rs1_of_def [symmetric] rs2_of_def [symmetric]
  funct3_of_def [symmetric] csr_of_def [symmetric]

text \<open>The second stage holds the instruction \<open>w\<close>.\<close>

definition executes_word :: "(u32 \<Rightarrow> u32) \<Rightarrow> u32 \<Rightarrow> sys \<Rightarrow> bool" where
  "executes_word imem w s \<longleftrightarrow> executing imem (sys_core s) \<and> undisturbed (sys_core s) \<and> ex_instr (sys_core s) = w"

lemma executes_wordD:
  assumes "executes_word imem w s"
  shows "ex_valid (sys_core s)" "ex_instr (sys_core s) = w" "imem (abs_pc (sys_core s)) = w"
    "abs_pc (sys_core s) = id_ex_pc (exs (sys_core s))"
    "rf_rs1_data (sys_core s) = get_reg (abs_sys s) (rs1_of w)"
    "rf_rs2_data (sys_core s) = get_reg (abs_sys s) (rs2_of w)"
    "id_imm (exs (sys_core s)) = generate_imm w (opcode_of w)"
    "\<not> xcew_pending (xcp (sys_core s))" "\<not> xcew_valid (xcp (sys_core s))"
  using assms
  by (auto simp: executes_word_def executing_def Let_def abs_pc_def rf_rs1_data_def rf_rs2_data_def rf_read_def
      rs1_of_def rs2_of_def opcode_of_def get_reg_def abs_sys_def undisturbed_def)

lemmas exec_defs =
  core_exec_def Let_def wire_defs no_csr_write no_address_exception fields is_xcew_def wb_data_def set_reg_def next_instr_def

lemma exec_op:
  assumes r: "executes_word imem w s" and o: "opcode_of w = 0x33" and d: "decode_op w = Some f"
  shows "core_exec imem i s = exec i (Op f (rd_of w) (rs1_of w) (rs2_of w)) (abs_sys s)"
proof -
  note r = executes_wordD [OF r]
  have "alu_result (sys_core s) = isa_alu f (get_reg (abs_sys s) (rs1_of w)) (get_reg (abs_sys s) (rs2_of w))"
    using alu_select_op [OF _ d] o r by (simp add: alu_result_def alu_correct opcode_of_def is_xcew_def)
  then show ?thesis
    using o r by (simp add: exec_defs)
qed

lemma exec_op_imm:
  assumes r: "executes_word imem w s" and o: "opcode_of w = 0x13" and d: "decode_op_imm w = Some (f, k)"
  shows "core_exec imem i s = exec i (Op_imm f (rd_of w) (rs1_of w) k) (abs_sys s)"
proof -
  note r = executes_wordD [OF r]
  have "alu_result (sys_core s) = isa_alu f (get_reg (abs_sys s) (rs1_of w)) (imm_I w)"
    using alu_select_op_imm [OF _ d] o r generate_imm_correct(1) [of w]
    by (simp add: alu_result_def alu_correct opcode_of_def is_xcew_def)
  then have "alu_result (sys_core s) = isa_alu f (get_reg (abs_sys s) (rs1_of w)) k"
    by (simp only: op_imm_operand [OF d])
  then show ?thesis
    using o r by (simp add: exec_defs)
qed

lemma address_of:
  assumes r: "executes_word imem w s" and o: "opcode_of w \<in> {0x03, 0x23}"
  shows "alu_result (sys_core s) = get_reg (abs_sys s) (rs1_of w) + generate_imm w (opcode_of w)"
  using o executes_wordD [OF r] by (auto simp: alu_result_def opcode_of_def is_xcew_def alu_select_other)

lemma exec_load:
  assumes r: "executes_word imem w s" and o: "opcode_of w = 0x03" and d: "decode_load (funct3_of w) = Some k"
  shows "core_exec imem i s = exec i (Load k (rd_of w) (rs1_of w) (imm_I w)) (abs_sys s)"
proof -
  define x where "x = get_reg (abs_sys s) (rs1_of w) + imm_I w"
  have a: "alu_result (sys_core s) = x"
    using address_of [OF r] o generate_imm_correct(2) [of w] by (simp add: x_def)
  note r = executes_wordD [OF r]
  have b: "load_aligned k x \<longleftrightarrow> \<not> exc_load_ma (sys_core s)"
    using d o r a by (auto simp: decode_load_def exc_load_ma_def is_load_def opcode_of_def funct3_of_def
      mod2_bit0 mod4_low_bits split: if_splits)
  have m: "mem_addr (sys_core s) = x"
    using o r a by (simp add: mem_addr_def is_load_def opcode_of_def)
  show ?thesis
  proof (cases "load_aligned k x")
    case True
    then have "load_data (funct3_of w) x (word_at (sys_mem s) (word_base x)) = isa_load k (sys_mem s) x"
      using load_data_correct [OF d] by simp
    with True show ?thesis
      using o r a b m by (simp add: exec_defs core_inputs_def x_def [symmetric])
  next
    case False
    then show ?thesis
      using o r a b by (simp add: exec_defs trap_cause_tval_def x_def [symmetric])
  qed
qed

lemma exec_store:
  assumes r: "executes_word imem w s" and o: "opcode_of w = 0x23" and d: "decode_store (funct3_of w) = Some k"
  shows "core_exec imem i s = exec i (Store k (rs1_of w) (rs2_of w) (imm_S w)) (abs_sys s)"
proof -
  define x where "x = get_reg (abs_sys s) (rs1_of w) + imm_S w"
  have a: "alu_result (sys_core s) = x"
    using address_of [OF r] o generate_imm_correct(4) [of w] by (simp add: x_def)
  note r = executes_wordD [OF r]
  have b: "store_aligned k x \<longleftrightarrow> \<not> exc_store_ma (sys_core s)"
    using d o r a by (auto simp: decode_store_def exc_store_ma_def is_store_def opcode_of_def funct3_of_def
      mod2_bit0 mod4_low_bits split: if_splits)
  have m: "mem_addr (sys_core s) = x" "mem_wdata (sys_core s) = store_lanes x (rf_rs2_data (sys_core s))"
    "mem_wstrb (sys_core s) = store_wstrb (funct3_of w) x"
    using o r a by (simp_all add: mem_addr_def mem_wdata_def mem_wstrb_def is_store_def opcode_of_def funct3_of_def)
  show ?thesis
  proof (cases "store_aligned k x")
    case True
    then have "write_lanes (store_wstrb (funct3_of w) x) x (store_lanes x v) (sys_mem s) = isa_store k x v (sys_mem s)" for v
      using store_correct [OF d] by simp
    with True show ?thesis
      using o r a b m by (simp add: exec_defs core_inputs_def x_def [symmetric])
  next
    case False
    then show ?thesis
      using o r a b by (simp add: exec_defs trap_cause_tval_def x_def [symmetric])
  qed
qed

text \<open>Jumps and branches.\<close>

lemma misaligned_target:
  "ex_valid c \<Longrightarrow> pc_sel_jump c \<Longrightarrow> exc_instr_ma c \<longleftrightarrow> unat (target_pc c) mod 4 \<noteq> 0"
  by (simp add: exc_instr_ma_def mod4_low_bits)

lemma branch_cond_correct:
  assumes "decode_branch f = Some b"
  shows "branch_cond_holds f x y \<longleftrightarrow> taken b x y"
  using assms by (auto simp: decode_branch_def branch_cond_holds_def word_less_def word_le_def split: if_splits)

lemma exec_branch:
  assumes r: "executes_word imem w s" and o: "opcode_of w = 0x63" and d: "decode_branch (funct3_of w) = Some b"
  shows "core_exec imem i s = exec i (Branch b (rs1_of w) (rs2_of w) (imm_B w)) (abs_sys s)"
proof -
  note r = executes_wordD [OF r]
  have j: "branch_taken (sys_core s) \<longleftrightarrow> taken b (get_reg (abs_sys s) (rs1_of w)) (get_reg (abs_sys s) (rs2_of w))"
    using o r branch_cond_correct [OF d] by (simp add: branch_taken_def fields)
  have t: "target_pc (sys_core s) = abs_pc (sys_core s) + imm_B w"
    using o r generate_imm_correct(5) [of w] by (simp add: target_pc_def branch_target_def fields)
  have p: "pc_sel_jump (sys_core s) \<longleftrightarrow> branch_taken (sys_core s)"
    using o r by (simp add: pc_sel_jump_def fields)
  show ?thesis
    using o r t p misaligned_target [of "sys_core s"]
    by (simp add: exec_defs trap_cause_tval_def jump_to_def j)
qed

lemma exec_jal:
  assumes r: "executes_word imem w s" and o: "opcode_of w = 0x6F"
  shows "core_exec imem i s = exec i (Jal (rd_of w) (imm_J w)) (abs_sys s)"
proof -
  note r = executes_wordD [OF r]
  have t: "target_pc (sys_core s) = abs_pc (sys_core s) + imm_J w" and p: "pc_sel_jump (sys_core s)"
    using o r generate_imm_correct(6) [of w] by (simp_all add: target_pc_def jump_target_def pc_sel_jump_def fields)
  show ?thesis
    using o r t p misaligned_target [of "sys_core s"]
    by (simp add: exec_defs trap_cause_tval_def jump_to_def)
qed

lemma exec_jalr:
  assumes r: "executes_word imem w s" and o: "opcode_of w = 0x67"
  shows "core_exec imem i s = exec i (Jalr (rd_of w) (rs1_of w) (imm_I w)) (abs_sys s)"
proof -
  note r = executes_wordD [OF r]
  have t: "target_pc (sys_core s) = (get_reg (abs_sys s) (rs1_of w) + imm_I w) AND NOT 1" and p: "pc_sel_jump (sys_core s)"
    using o r generate_imm_correct(3) [of w] by (simp_all add: target_pc_def jump_target_def pc_sel_jump_def fields)
  show ?thesis
    using o r t p misaligned_target [of "sys_core s"]
    by (simp add: exec_defs trap_cause_tval_def jump_to_def)
qed

lemma exec_upper:
  assumes r: "executes_word imem w s"
  shows "opcode_of w = 0x37 \<Longrightarrow> core_exec imem i s = exec i (Lui (rd_of w) (imm_U w)) (abs_sys s)"
    "opcode_of w = 0x17 \<Longrightarrow> core_exec imem i s = exec i (Auipc (rd_of w) (imm_U w)) (abs_sys s)"
    "opcode_of w = 0x0F \<Longrightarrow> core_exec imem i s = exec i Nop (abs_sys s)"
  using executes_wordD [OF r] generate_imm_correct(7,8) [of w] by (simp_all add: exec_defs)

text \<open>Control and status registers.\<close>

lemma machine_csr_iff: "csr_is_machine c \<longleftrightarrow> machine_csr c"
  by (auto simp: csr_is_machine_def machine_csr_def)

lemma csr_read_correct:
  assumes r: "executes_word imem w s" and l: "machine_csr (csr_of w) \<or> custom_csr (csr_of w)"
  shows "csr_read_value (core_inputs imem i s) (sys_core s) = read_csr i (abs_sys s) (csr_of w)"
proof -
  note r = executes_wordD [OF r]
  have m: "csr_mip (core_inputs imem i s) = mip i"
    by (simp add: csr_mip_def mip_def core_inputs_def)
  show ?thesis
  proof (cases "machine_csr (csr_of w)")
    case True
    then show ?thesis
      using r m by (auto simp: csr_read_value_def machine_csr_iff csr_int_rdata_def fields Let_def read_csr_def machine_csr_def)
  next
    case False
    then have "csr_of w \<notin> {0x300, 0x301, 0x304, 0x305, 0x340, 0x341, 0x342, 0x343, 0x344, 0xF14}"
      by (simp add: machine_csr_def)
    then show ?thesis
      using r False by (simp add: csr_read_value_def machine_csr_iff fields read_csr_def Let_def core_inputs_def)
  qed
qed

definition csr_fn_of :: "u32 \<Rightarrow> csr_fn" where
  "csr_fn_of f = (if f = 1 \<or> f = 5 then CSRRW else if f = 2 \<or> f = 6 then CSRRS else CSRRC)"

definition csr_operand_of :: "u32 \<Rightarrow> csr_operand" where
  "csr_operand_of w = (if 4 \<le> funct3_of w then From_imm (rs1_of w) else From_reg (rs1_of w))"

lemma imm_field: "bitsel 19 15 w = ucast (rs1_of w)"
  by (rule u32_eqI) (auto simp: rs1_of_def bit_simps)

lemma csr_codes:
  "bitsel 1 0 (1 :: u32) = 1" "bitsel 1 0 (2 :: u32) = 2" "bitsel 1 0 (3 :: u32) = 3"
  "bitsel 1 0 (5 :: u32) = 1" "bitsel 1 0 (6 :: u32) = 2" "bitsel 1 0 (7 :: u32) = 3"
  by (simp_all add: bitsel_def mask_eq_exp_minus_1)

lemma csr_operation:
  assumes r: "executes_word imem w s" and o: "opcode_of w = 0x73" and f: "funct3_of w \<notin> {0, 4}"
    and l: "csr_legal (csr_fn_of (funct3_of w)) x (csr_of w)" and x: "x = csr_operand_of w"
  shows "csr_wr_happens (sys_core s) \<longleftrightarrow> csr_writes (csr_fn_of (funct3_of w)) x"
    "csr_new (core_inputs imem i s) (sys_core s) =
      csr_value (csr_fn_of (funct3_of w)) (read_csr i (abs_sys s) (csr_of w)) (csr_source (abs_sys s) x)"
proof -
  have m: "machine_csr (csr_of w) \<or> custom_csr (csr_of w)"
    using l by (simp add: csr_legal_def)
  note old = csr_read_correct [OF r m, of i]
  note r = executes_wordD [OF r]
  have c: "funct3_of w \<in> {1, 2, 3, 5, 6, 7}"
    using funct3_cases [of w] f by blast
  show "csr_wr_happens (sys_core s) \<longleftrightarrow> csr_writes (csr_fn_of (funct3_of w)) x"
    using c r o unfolding x csr_operand_of_def
    by (elim insertE) (simp_all add: csr_wr_happens_def is_csr_op_def is_system_def csr_writes_def csr_fn_of_def fields csr_codes del: One_nat_def)
  have "csr_src (sys_core s) = csr_source (abs_sys s) x"
    using c r unfolding x csr_operand_of_def csr_src_def
    by (elim insertE) (simp_all add: fields imm_field word_le_nat_alt)
  then show "csr_new (core_inputs imem i s) (sys_core s) =
      csr_value (csr_fn_of (funct3_of w)) (read_csr i (abs_sys s) (csr_of w)) (csr_source (abs_sys s) x)"
    using c r old unfolding csr_new_def Let_def
    by (elim insertE) (simp_all add: csr_fn_of_def fields csr_codes del: One_nat_def)
qed

lemma write_csr_abs:
  "write_csr c v (abs_sys s) =
    (if machine_csr c then abs_sys s\<lparr>arch_csrs := set_csr c v (csrs (sys_core s))\<rparr>
     else abs_sys s\<lparr>csr_log := sys_log s @ [(c, v)]\<rparr>)"
  by (auto simp: write_csr_def set_csr_def machine_csr_def Let_def abs_sys_def)

lemma abs_sys_regs [simp]:
  "abs_sys s\<lparr>apc := p, regs := f, arch_csrs := csrs (sys_core s), mem := sys_mem s, csr_log := l\<rparr>
    = abs_sys s\<lparr>apc := p, regs := f, csr_log := l\<rparr>"
  "abs_sys s\<lparr>apc := p, regs := f, arch_csrs := r, mem := sys_mem s, csr_log := sys_log s\<rparr>
    = abs_sys s\<lparr>apc := p, regs := f, arch_csrs := r\<rparr>"
  "abs_sys s\<lparr>apc := p, regs := regfile (sys_core s), csr_log := l\<rparr> = abs_sys s\<lparr>apc := p, csr_log := l\<rparr>"
  "abs_sys s\<lparr>apc := p, regs := regfile (sys_core s), arch_csrs := r\<rparr> = abs_sys s\<lparr>apc := p, arch_csrs := r\<rparr>"
  by (simp_all add: abs_sys_def)

lemma exec_csr:
  assumes r: "executes_word imem w s" and o: "opcode_of w = 0x73" and f: "funct3_of w \<notin> {0, 4}"
    and l: "csr_legal (csr_fn_of (funct3_of w)) (csr_operand_of w) (csr_of w)"
  shows "core_exec imem i s = exec i (Csr (csr_fn_of (funct3_of w)) (rd_of w) (csr_operand_of w) (csr_of w)) (abs_sys s)"
proof -
  have m: "machine_csr (csr_of w) \<or> custom_csr (csr_of w)"
    using l by (simp add: csr_legal_def)
  note old = csr_read_correct [OF r m, of i]
  note upd = csr_operation(1) [OF r o f l refl] csr_operation(2) [OF r o f l refl, of i]
  note r = executes_wordD [OF r]
  show ?thesis
    using o r f old upd
    by (simp add: exec_defs write_csr_abs machine_csr_iff)
qed

lemma csr_is_field: "csr_of w = ucast (bitsel 31 20 w)"
  by (simp add: csr_of_def)

lemma exec_trap_instr:
  assumes r: "executes_word imem w s" and o: "opcode_of w = 0x73" and f: "funct3_of w = 0" and rd: "rd_of w = 0"
  shows "csr_of w = 0 \<Longrightarrow> core_exec imem i s = exec i Ecall (abs_sys s)"
    "csr_of w = 1 \<Longrightarrow> core_exec imem i s = exec i Ebreak (abs_sys s)"
    "csr_of w = 0x302 \<Longrightarrow> core_exec imem i s = exec i Mret (abs_sys s)"
    "csr_of w = 0x105 \<Longrightarrow> core_exec imem i s = exec i Nop (abs_sys s)"
  using o f rd executes_wordD [OF r]
  by (simp_all add: exec_defs trap_cause_tval_def)

lemma exec_illegal:
  assumes r: "executes_word imem w s" and o: "\<not> known_opcode (opcode_of w)"
  shows "core_exec imem i s = Inl (2, w)"
  using o executes_wordD [OF r] by (simp add: exec_defs known_opcode_def trap_cause_tval_def)

lemma decode_system_cases:
  assumes "decode_system w = Some ins"
  obtains (trap) "funct3_of w = 0" "rd_of w = 0"
      "csr_of w = 0 \<and> ins = Ecall \<or> csr_of w = 1 \<and> ins = Ebreak \<or> csr_of w = 0x302 \<and> ins = Mret \<or> csr_of w = 0x105 \<and> ins = Nop"
    | (csr) "funct3_of w \<notin> {0, 4}" "csr_legal (csr_fn_of (funct3_of w)) (csr_operand_of w) (csr_of w)"
      "ins = Csr (csr_fn_of (funct3_of w)) (rd_of w) (csr_operand_of w) (csr_of w)"
  using assms
  by (auto simp: decode_system_def Let_def csr_fn_of_def csr_operand_of_def split: if_splits)

lemma core_exec_correct:
  assumes r: "executes_word imem w s" and o: "outcome w i (abs_sys s) = Some res"
  shows "core_exec imem i s = res"
proof (cases "decode w")
  case None
  then show ?thesis
    using o exec_illegal [OF r] by (auto simp: outcome_def split: if_splits)
next
  case (Some ins)
  then have res: "res = exec i ins (abs_sys s)"
    using o by (simp add: outcome_def)
  have "opcode_of w = 0x73 \<Longrightarrow> decode_system w = Some ins \<Longrightarrow> core_exec imem i s = exec i ins (abs_sys s)"
    by (erule decode_system_cases) (use exec_trap_instr [OF r] exec_csr [OF r] in auto)
  with Some show ?thesis
    unfolding res decode_def
    by (auto split: if_splits simp: exec_op [OF r] exec_op_imm [OF r] exec_load [OF r] exec_store [OF r]
        exec_branch [OF r] exec_jal [OF r] exec_jalr [OF r] exec_upper [OF r]
        simp del: exec.simps)
qed

section \<open>One clock edge\<close>

text \<open>With no debugger and no coprocessor instruction the second stage is never held.\<close>

lemma quiet_wires:
  assumes "undisturbed (sys_core s)"
  shows "\<not> debug_enter (core_inputs imem i s) (sys_core s)" "\<not> debug_exit (core_inputs imem i s) (sys_core s)"
    "\<not> stall_id_ex (core_inputs imem i s) (sys_core s)" "\<not> debug_step_reenter (core_inputs imem i s) (sys_core s)"
    "\<not> dbg_write (core_inputs imem i s) (sys_core s)"
  using assms
  by (simp_all add: undisturbed_def debug_enter_def debug_halt_request_def debug_ebreak_def debug_trigger_hit_def
      debug_step_reenter_def debug_exit_def stall_id_ex_def core_inputs_def dbg_write_def)

definition ordinary :: "core \<Rightarrow> bool" where
  "ordinary c \<longleftrightarrow> (ex_valid c \<longrightarrow> \<not> is_xcew (ex_instr c)) \<and>
     (csr_wr_happens c \<longrightarrow> csr_a c \<notin> {0x7B0, 0x7B1, 0x7B2, 0x7B3})"

lemma dbg_stays:
  assumes q: "undisturbed (sys_core s)" and o: "ordinary (sys_core s)"
  shows "dbg (sys_core (sys_edge rpc imem i s)) = (dbg (sys_core s))\<lparr>step_armed := False\<rparr>"
  using quiet_wires [OF q, of imem i] o q unfolding sys_edge_def core_edge_def dbg_edge_def Let_def
  by (simp add: undisturbed_def step_armed_edge_def ordinary_def dbg_csr_write_def core_inputs_def)

lemma undisturbed_edge:
  assumes q: "undisturbed (sys_core s)" and o: "ordinary (sys_core s)"
  shows "undisturbed (sys_core (sys_edge rpc imem i s))"
proof -
  have "xcp (sys_core (sys_edge rpc imem i s)) = xcp (sys_core s)"
    using q o by (auto simp: sys_edge_def core_edge_def xcew_edge_def Let_def undisturbed_def ordinary_def core_inputs_def)
  then show ?thesis
    using q dbg_stays [OF q o, of rpc imem i] by (simp add: undisturbed_def)
qed

text \<open>The parts of the state after an edge.\<close>

lemma sys_edge_parts:
  fixes rpc imem i
  assumes q: "undisturbed (sys_core s)"
  defines "c \<equiv> sys_core s" and "ci \<equiv> core_inputs imem i s" and "c' \<equiv> sys_core (sys_edge rpc imem i s)"
  shows "ex_valid c' \<longleftrightarrow> \<not> redirect ci c \<and> \<not> redirect_r c"
    "ex_instr c' = if_instr (ifs c)" "id_ex_pc (exs c') = if_pc (ifs c)"
    "id_imm (exs c') = generate_imm (if_instr (ifs c)) (bitsel 6 0 (if_instr (ifs c)))"
    "rf_rs1_addr (exs c') = ucast (bitsel 19 15 (if_instr (ifs c)))"
    "rf_rs2_addr (exs c') = ucast (bitsel 24 20 (if_instr (ifs c)))"
    "redirect_r c' \<longleftrightarrow> redirect ci c"
    "pc_reg (ifs c') = next_pc ci c"
    "\<not> redirect ci c \<Longrightarrow> if_instr (ifs c') = imem (pc_reg (ifs c)) \<and> if_pc (ifs c') = pc_reg (ifs c)"
    "regfile c' = (case rf_write ci c of Some (a, v) \<Rightarrow> (regfile c)(a := v) | None \<Rightarrow> regfile c)"
    "csrs c' = csrs_edge ci c"
  using quiet_wires [OF q, of imem i]
  by (simp_all add: c_def ci_def c'_def sys_edge_def Let_def core_edge_def ex_edge_def if_edge_def flush_def
      redirect_def regfile_edge_def core_inputs_def split: option.splits)

lemma next_pc_quiet:
  fixes imem i
  assumes "undisturbed (sys_core s)"
  defines "c \<equiv> sys_core s" and "ci \<equiv> core_inputs imem i s"
  shows "next_pc ci c =
    (if trap_taken ci c then trap_vector (mtvec (csrs c)) (fst (trap_cause_tval ci c))
     else if mret_taken ci c then mepc (csrs c)
     else if pc_sel_jump c then target_pc c else pc_reg (ifs c) + 4)"
proof -
  have v: "push_bit 2 (bitsel 30 0 k) = 4 * (k AND mask 31)" for k :: u32
    by (simp add: bitsel_def push_bit_eq_mult)
  have m: "bitsel 1 0 t = t AND 3" for t :: u32
    by (simp add: bitsel_def mask_eq_exp_minus_1)
  have n: "(- 4 :: u32) = 0xFFFFFFFC"
    by simp
  show ?thesis
    using quiet_wires [OF assms(1), of imem i]
    by (simp add: next_pc_def c_def ci_def Let_def trap_vector_def v m n target_pc_def del: One_nat_def)
qed

text \<open>A valid instruction takes effect, with its exception or an interrupt if there is one.\<close>

lemma trap_taken_iff:
  assumes "executes_word imem w s"
  shows "trap_taken (core_inputs imem i s) (sys_core s) \<longleftrightarrow> mtvec (csrs (sys_core s)) \<noteq> 0 \<and>
    (any_exception (sys_core s) \<or> irq_pending (core_inputs imem i s) (sys_core s))"
  using executes_wordD [OF assms] by (auto simp: trap_taken_def)

lemma irq_cause:
  assumes "irq_pending (core_inputs imem i s) (sys_core s)" and "\<not> any_exception (sys_core s)"
    and "\<not> (timer_irq i \<and> soft_irq i)"
  shows "\<exists>k. pending_irq i (csrs (sys_core s)) = Some k \<and> trap_cause_tval (core_inputs imem i s) (sys_core s) = (k, 0)"
  using assms
  by (auto simp: irq_pending_def pending_irq_def trap_cause_tval_def any_exception_def core_inputs_def)

lemma no_irq:
  "\<not> irq_pending (core_inputs imem i s) (sys_core s) \<longleftrightarrow> pending_irq i (csrs (sys_core s)) = None"
  by (auto simp: irq_pending_def pending_irq_def core_inputs_def)

lemma edge_trap:
  assumes r: "executes_word imem w s" and t: "trap_taken (core_inputs imem i s) (sys_core s)"
  shows "abs_sys (sys_edge rpc imem i s) =
    enter_trap (fst (trap_cause_tval (core_inputs imem i s) (sys_core s)))
      (snd (trap_cause_tval (core_inputs imem i s) (sys_core s))) (abs_sys s)"
proof -
  have q: "undisturbed (sys_core s)"
    using r by (simp add: executes_word_def)
  note parts = sys_edge_parts [OF q, where imem = imem and i = i and rpc = rpc]
  have rd: "redirect (core_inputs imem i s) (sys_core s)"
    using t by (simp add: redirect_def)
  have pc: "abs_pc (sys_core (sys_edge rpc imem i s)) =
      trap_vector (mtvec (csrs (sys_core s))) (fst (trap_cause_tval (core_inputs imem i s) (sys_core s)))"
    using parts(1,7,8) rd t by (simp add: abs_pc_def next_pc_quiet [OF q])
  have m: "sys_mem (sys_edge rpc imem i s) = sys_mem s" "sys_log (sys_edge rpc imem i s) = sys_log s"
    using t by (simp_all add: sys_edge_def Let_def mem_we_def csr_wr_en_def)
  have f: "regfile (sys_core (sys_edge rpc imem i s)) = regfile (sys_core s)"
    using parts(10) t by (simp add: rf_write_def)
  have c: "csrs (sys_core (sys_edge rpc imem i s)) = csrs_edge (core_inputs imem i s) (sys_core s)"
    by (rule parts(11))
  show ?thesis
    using quiet_wires(5) [OF q, of imem i] t executes_wordD(1,4) [OF r]
    by (simp add: abs_sys_def pc m f c csrs_edge_def enter_trap_def Let_def)
qed

lemma edge_commit:
  assumes r: "executes_word imem w s" and t: "\<not> trap_taken (core_inputs imem i s) (sys_core s)"
    and x: "\<not> is_xcew w" and e: "core_exec imem i s = Inr a"
    and rr: "\<not> redirect_r (sys_core s)" and nx: "if_pc (ifs (sys_core s)) = id_ex_pc (exs (sys_core s)) + 4"
  shows "abs_sys (sys_edge rpc imem i s) = a"
proof -
  define c where "c = sys_core s"
  define ci where "ci = core_inputs imem i s"
  define s' where "s' = sys_edge rpc imem i s"
  have q: "undisturbed (sys_core s)"
    using r by (simp add: executes_word_def)
  note folds = c_def [symmetric] ci_def [symmetric] s'_def [symmetric]
  note parts = sys_edge_parts [OF q, where imem = imem and i = i and rpc = rpc, unfolded folds]
  note w = executes_wordD [OF r, unfolded folds] and t = t [unfolded folds]
  have mret: "mret_taken ci c \<longleftrightarrow> is_mret c"
    using t w(1) by (simp add: mret_taken_def)
  have pc: "abs_pc (sys_core s') = (if is_mret c then mepc (csrs c) else if pc_sel_jump c then target_pc c
      else id_ex_pc (exs c) + 4)"
    using t rr [unfolded folds] nx [unfolded folds] parts(1,3,7,8) next_pc_quiet [OF q, of imem i, unfolded folds]
    by (auto simp: abs_pc_def redirect_def mret)
  have regs: "regfile (sys_core s') = (if writes_rd (op7 c) \<and> ex_rd c \<noteq> 0 then (regfile c)(ex_rd c := wb_data ci c) else regfile c)"
    using parts(10) t w(1,2) x by (simp add: rf_write_def)
  have cs: "csrs (sys_core s') = (if is_mret c
      then (csrs c)\<lparr>mstatus := put_bit 7 True (put_bit 3 (bit (mstatus (csrs c)) 7) (mstatus (csrs c))) OR 0x1800\<rparr>
      else if csr_is_machine (csr_a c) \<and> csr_wr_happens c then set_csr (csr_a c) (csr_new ci c) (csrs c) else csrs c)"
    using t quiet_wires(5) [OF q, of imem i, unfolded folds]
    by (simp add: parts(11) csrs_edge_def Let_def mret) (simp add: csr_wr_happens_def)
  have m: "sys_mem s' = (if is_store c then write_lanes (mem_wstrb c) (mem_addr c) (mem_wdata c) (sys_mem s) else sys_mem s)"
    "sys_log s' = (if csr_wr_happens c \<and> \<not> csr_is_machine (csr_a c) then sys_log s @ [(csr_a c, csr_new ci c)] else sys_log s)"
    using t by (simp_all add: s'_def sys_edge_def Let_def folds mem_we_def csr_wr_en_def csr_addr_def csr_wr_happens_def)
  have "core_exec imem i s = (if any_exception c then Inl (trap_cause_tval ci c)
      else Inr (abs_sys s\<lparr>apc := abs_pc (sys_core s'), regs := regfile (sys_core s'),
        arch_csrs := csrs (sys_core s'), mem := sys_mem s', csr_log := sys_log s'\<rparr>))"
    by (simp only: core_exec_def Let_def folds pc regs cs m)
  with e have "a = abs_sys s\<lparr>apc := abs_pc (sys_core s'), regs := regfile (sys_core s'),
      arch_csrs := csrs (sys_core s'), mem := sys_mem s', csr_log := sys_log s'\<rparr>"
    by (cases "any_exception c") auto
  then show ?thesis
    unfolding folds by (simp add: abs_sys_def)
qed

lemma supported_ordinary:
  assumes r: "executes_word imem w s" and o: "outcome w i a \<noteq> None"
  shows "ordinary (sys_core s)" "\<not> is_xcew w"
proof -
  note r = executes_wordD [OF r]
  have k: "decode w = None \<Longrightarrow> \<not> known_opcode (opcode_of w)"
    using o by (auto simp: outcome_def split: if_splits)
  show x: "\<not> is_xcew w"
  proof
    assume "is_xcew w"
    then have "opcode_of w \<in> {0x0B, 0x2B, 0x5B, 0x7B}"
      by (simp add: is_xcew_def fields)
    then have "decode w = None" "known_opcode (opcode_of w)"
      by (auto simp: decode_def known_opcode_def)
    with k show False by simp
  qed
  have "csr_of w \<notin> {0x7B0, 0x7B1, 0x7B2, 0x7B3}" if "csr_wr_happens (sys_core s)"
  proof -
    have s: "opcode_of w = 0x73" "funct3_of w \<noteq> 0"
      using that r by (simp_all add: csr_wr_happens_def is_csr_op_def is_system_def fields)
    then obtain ins where "decode_system w = Some ins"
      using k by (cases "decode w") (auto simp: decode_def known_opcode_def)
    then have "machine_csr (csr_of w) \<or> custom_csr (csr_of w)"
      using s(2) by (cases rule: decode_system_cases) (simp_all add: csr_legal_def)
    then show ?thesis
      by (auto simp: machine_csr_def custom_csr_def word_le_nat_alt)
  qed
  then show "ordinary (sys_core s)"
    using x r by (auto simp: ordinary_def fields)
qed

text \<open>The fetch stage keeps the invariant whatever the second stage does.\<close>

lemma in_step_edge:
  assumes h: "in_step imem (sys_core s)" and o: "ordinary (sys_core s)"
  shows "in_step imem (sys_core (sys_edge rpc imem i s))"
proof -
  have q: "undisturbed (sys_core s)"
    using h by (simp add: in_step_def)
  note parts = sys_edge_parts [OF q, where imem = imem and i = i and rpc = rpc]
  show ?thesis
    unfolding in_step_def
  proof (intro conjI impI)
    show "undisturbed (sys_core (sys_edge rpc imem i s))"
      by (rule undisturbed_edge [OF q o])
  next
    assume "ex_valid (sys_core (sys_edge rpc imem i s))"
    then have n: "\<not> redirect (core_inputs imem i s) (sys_core s)" "\<not> redirect_r (sys_core s)"
      using parts(1) by simp_all
    then have f: "if_instr (ifs (sys_core s)) = imem (if_pc (ifs (sys_core s)))"
      "pc_reg (ifs (sys_core s)) = if_pc (ifs (sys_core s)) + 4"
      using h by (simp_all add: in_step_def)
    show "executing imem (sys_core (sys_edge rpc imem i s))"
      using n f parts(1-6) by (simp add: executing_def Let_def)
    show "\<not> redirect_r (sys_core (sys_edge rpc imem i s))"
      using n parts(7) by simp
    show "if_pc (ifs (sys_core (sys_edge rpc imem i s))) = id_ex_pc (exs (sys_core (sys_edge rpc imem i s))) + 4"
      using n f parts(3,9) by simp
  next
    assume "\<not> redirect_r (sys_core (sys_edge rpc imem i s))"
    then have n: "\<not> redirect (core_inputs imem i s) (sys_core s)"
      using parts(7) by simp
    then show "if_instr (ifs (sys_core (sys_edge rpc imem i s))) = imem (if_pc (ifs (sys_core (sys_edge rpc imem i s))))"
      using parts(9) by simp
    show "pc_reg (ifs (sys_core (sys_edge rpc imem i s))) = if_pc (ifs (sys_core (sys_edge rpc imem i s))) + 4"
      using n parts(8,9) next_pc_quiet [OF q, of imem i] by (simp add: redirect_def)
  qed
qed

lemma bubble_edge:
  assumes h: "in_step imem (sys_core s)" and v: "\<not> ex_valid (sys_core s)"
  shows "abs_sys (sys_edge rpc imem i s) = abs_sys s" "ordinary (sys_core s)"
proof -
  have q: "undisturbed (sys_core s)"
    using h by (simp add: in_step_def)
  note parts = sys_edge_parts [OF q, where imem = imem and i = i and rpc = rpc]
  have t: "\<not> trap_taken ci (sys_core s)" "\<not> redirect ci (sys_core s)" "\<not> csr_wr_happens (sys_core s)"
    "\<not> is_store (sys_core s)" "\<not> mret_taken ci (sys_core s)" for ci
    using v by (simp_all add: trap_taken_def redirect_def mret_taken_def pc_sel_jump_def wire_defs csr_wr_happens_def)
  have "csrs_edge (core_inputs imem i s) (sys_core s) = csrs (sys_core s)"
    using t quiet_wires(5) [OF q, of imem i] by (simp add: csrs_edge_def Let_def)
  moreover have "abs_pc (sys_core (sys_edge rpc imem i s)) = abs_pc (sys_core s)"
    using v t parts(1,3,7,9) by (auto simp: abs_pc_def)
  moreover have "sys_mem (sys_edge rpc imem i s) = sys_mem s" "sys_log (sys_edge rpc imem i s) = sys_log s"
    using t by (simp_all add: sys_edge_def Let_def mem_we_def csr_wr_en_def)
  moreover have "regfile (sys_core (sys_edge rpc imem i s)) = regfile (sys_core s)"
    using parts(10) v by (simp add: rf_write_def)
  ultimately show "abs_sys (sys_edge rpc imem i s) = abs_sys s"
    by (simp add: abs_sys_def parts(11))
  show "ordinary (sys_core s)"
    using v t by (simp add: ordinary_def)
qed

lemma isa_step_Inl:
  "outcome (imem (apc a)) i a = Some (Inl (k, v)) \<Longrightarrow>
    isa_step imem i a = (if mtvec (arch_csrs a) \<noteq> 0 then Some (enter_trap k v a) else None)"
  by (simp add: isa_step_def Let_def)

lemma isa_step_Inr:
  "outcome (imem (apc a)) i a = Some (Inr b) \<Longrightarrow>
    isa_step imem i a = (case pending_irq i (arch_csrs a) of
        Some k \<Rightarrow> if mtvec (arch_csrs a) \<noteq> 0 then Some (enter_trap k 0 a) else Some b
      | None \<Rightarrow> Some b)"
  by (simp add: isa_step_def Let_def cong: option.case_cong)

lemma isa_step_outcome: "isa_step imem i a = Some a' \<Longrightarrow> outcome (imem (apc a)) i a \<noteq> None"
  by (auto simp: isa_step_def Let_def split: option.splits)

lemma core_exec_Inl:
  "core_exec imem i s = Inl kv \<longleftrightarrow>
    any_exception (sys_core s) \<and> trap_cause_tval (core_inputs imem i s) (sys_core s) = kv"
  by (simp add: core_exec_def Let_def)

lemma core_exec_Inr: "core_exec imem i s = Inr b \<Longrightarrow> \<not> any_exception (sys_core s)"
  by (auto simp: core_exec_def Let_def)

lemma instruction_edge:
  assumes h: "in_step imem (sys_core s)" and v: "ex_valid (sys_core s)"
    and a: "isa_step imem i (abs_sys s) = Some a" and ts: "\<not> (timer_irq i \<and> soft_irq i)"
  shows "abs_sys (sys_edge rpc imem i s) = a" "ordinary (sys_core s)"
proof -
  define w where "w = ex_instr (sys_core s)"
  have r: "executes_word imem w s" and rr: "\<not> redirect_r (sys_core s)"
    and nx: "if_pc (ifs (sys_core s)) = id_ex_pc (exs (sys_core s)) + 4"
    using h v by (simp_all add: executes_word_def w_def in_step_def)
  have w: "imem (apc (abs_sys s)) = w"
    using executes_wordD(3) [OF r] by simp
  have o: "outcome w i (abs_sys s) \<noteq> None"
    using isa_step_outcome [OF a] w by simp
  note x = supported_ordinary [OF r o]
  show "ordinary (sys_core s)" by (rule x(1))
  note trap = trap_taken_iff [OF r, of i]
  from o obtain res where res: "outcome w i (abs_sys s) = Some res" by auto
  note e = core_exec_correct [OF r res]
  show "abs_sys (sys_edge rpc imem i s) = a"
  proof (cases res)
    case (Inl kv)
    obtain k t where kv: "kv = (k, t)" by (cases kv)
    have "mtvec (csrs (sys_core s)) \<noteq> 0" "a = enter_trap k t (abs_sys s)"
      using a isa_step_Inl [of imem "abs_sys s" i k t] res w Inl kv by (simp_all split: if_splits)
    moreover have "any_exception (sys_core s)" "trap_cause_tval (core_inputs imem i s) (sys_core s) = (k, t)"
      using e Inl kv by (simp_all add: core_exec_Inl)
    ultimately show ?thesis
      using edge_trap [OF r, of i rpc] trap by simp
  next
    case (Inr b)
    have n: "\<not> any_exception (sys_core s)"
      using e Inr by (simp add: core_exec_Inr)
    have step: "isa_step imem i (abs_sys s) = (case pending_irq i (csrs (sys_core s)) of
        Some k \<Rightarrow> if mtvec (csrs (sys_core s)) \<noteq> 0 then Some (enter_trap k 0 (abs_sys s)) else Some b
      | None \<Rightarrow> Some b)"
      using isa_step_Inr [of imem "abs_sys s" i b] res w Inr by (simp cong: option.case_cong)
    have commit: "a = b \<Longrightarrow> \<not> trap_taken (core_inputs imem i s) (sys_core s) \<Longrightarrow> ?thesis"
      using edge_commit [OF r _ x(2) _ rr nx, of i b rpc] e Inr by simp
    show ?thesis
    proof (cases "pending_irq i (csrs (sys_core s)) = None \<or> mtvec (csrs (sys_core s)) = 0")
      case True
      then have "a = b"
        using a step by (auto split: option.splits)
      moreover have "\<not> trap_taken (core_inputs imem i s) (sys_core s)"
        using True n trap no_irq [of imem i s] by auto
      ultimately show ?thesis by (rule commit)
    next
      case False
      then have p: "irq_pending (core_inputs imem i s) (sys_core s)"
        using no_irq [of imem i s] by auto
      from irq_cause [OF p n ts] obtain k where
        k: "pending_irq i (csrs (sys_core s)) = Some k"
          "trap_cause_tval (core_inputs imem i s) (sys_core s) = (k, 0)" by auto
      have "a = enter_trap k 0 (abs_sys s)"
        using a step k False by simp
      then show ?thesis
        using edge_trap [OF r, of i rpc] trap p False k by simp
    qed
  qed
qed

section \<open>Runs\<close>

text \<open>The inputs of the cycles in which an instruction takes effect.\<close>

fun committed :: "u32 \<Rightarrow> (u32 \<Rightarrow> u32) \<Rightarrow> isa_in list \<Rightarrow> sys \<Rightarrow> isa_in list" where
  "committed rpc imem [] s = []"
| "committed rpc imem (i # is) s =
     (if ex_valid (sys_core s) then [i] else []) @ committed rpc imem is (sys_edge rpc imem i s)"

abbreviation sys_run :: "u32 \<Rightarrow> (u32 \<Rightarrow> u32) \<Rightarrow> isa_in list \<Rightarrow> sys \<Rightarrow> sys" where
  "sys_run rpc imem is s \<equiv> fold (sys_edge rpc imem) is s"

definition irqs_ok :: "isa_in list \<Rightarrow> bool" where
  "irqs_ok is \<longleftrightarrow> list_all (\<lambda>i. \<not> (timer_irq i \<and> soft_irq i)) is"

lemma run_refines:
  assumes "in_step imem (sys_core s)" and "irqs_ok is"
    and "isa_run imem (committed rpc imem is s) (abs_sys s) = Some a"
  shows "abs_sys (sys_run rpc imem is s) = a \<and> in_step imem (sys_core (sys_run rpc imem is s))"
  using assms
proof (induction "is" arbitrary: s)
  case (Cons i "is")
  have ts: "\<not> (timer_irq i \<and> soft_irq i)" "irqs_ok is"
    using Cons.prems(2) by (simp_all add: irqs_ok_def)
  show ?case
  proof (cases "ex_valid (sys_core s)")
    case True
    then obtain a' where a': "isa_step imem i (abs_sys s) = Some a'"
      "isa_run imem (committed rpc imem is (sys_edge rpc imem i s)) a' = Some a"
      using Cons.prems(3) by (auto split: option.splits)
    note e = instruction_edge(1) [OF Cons.prems(1) True a'(1) ts(1), of rpc] instruction_edge(2) [OF Cons.prems(1) True a'(1) ts(1)]
    then show ?thesis
      using Cons.IH [OF in_step_edge [OF Cons.prems(1) e(2)] ts(2)] a'(2) by simp
  next
    case False
    note e = bubble_edge [OF Cons.prems(1) False]
    then show ?thesis
      using Cons.IH [OF in_step_edge [OF Cons.prems(1) e(2)] ts(2)] Cons.prems(3) False by simp
  qed
qed simp

text \<open>At most two cycles in a row are bubbles.\<close>

definition bubbles :: "core \<Rightarrow> nat" where
  "bubbles c = (if ex_valid c then 0 else if redirect_r c then 2 else 1)"

lemma bubbles_edge:
  assumes "in_step imem (sys_core s)" and "\<not> ex_valid (sys_core s)"
  shows "Suc (bubbles (sys_core (sys_edge rpc imem i s))) = bubbles (sys_core s)"
proof -
  have q: "undisturbed (sys_core s)"
    using assms(1) by (simp add: in_step_def)
  have "\<not> redirect (core_inputs imem i s) (sys_core s)"
    using assms(2) by (simp add: redirect_def trap_taken_def mret_taken_def pc_sel_jump_def)
  then show ?thesis
    using assms(2) sys_edge_parts(1,7) [OF q, where imem = imem and i = i and rpc = rpc] by (simp add: bubbles_def)
qed

lemma bubbles_le: "bubbles c \<le> 2"
  by (simp add: bubbles_def)

lemma run_progress:
  assumes "in_step imem (sys_core s)" and "irqs_ok is"
    and "isa_run imem (committed rpc imem is s) (abs_sys s) \<noteq> None"
  shows "length is \<le> 3 * length (committed rpc imem is s) + bubbles (sys_core s)"
  using assms
proof (induction "is" arbitrary: s)
  case (Cons i "is")
  have ts: "\<not> (timer_irq i \<and> soft_irq i)" "irqs_ok is"
    using Cons.prems(2) by (simp_all add: irqs_ok_def)
  show ?case
  proof (cases "ex_valid (sys_core s)")
    case True
    then obtain a' where a': "isa_step imem i (abs_sys s) = Some a'"
      using Cons.prems(3) by (auto split: option.splits)
    note e = instruction_edge(1) [OF Cons.prems(1) True a' ts(1), of rpc] instruction_edge(2) [OF Cons.prems(1) True a' ts(1)]
    have "isa_run imem (committed rpc imem is (sys_edge rpc imem i s)) a' \<noteq> None"
      using Cons.prems(3) a' True by simp
    then have "length is \<le> 3 * length (committed rpc imem is (sys_edge rpc imem i s)) + bubbles (sys_core (sys_edge rpc imem i s))"
      using Cons.IH [OF in_step_edge [OF Cons.prems(1) e(2)] ts(2)] e(1) by simp
    then have "length is \<le> 3 * length (committed rpc imem is (sys_edge rpc imem i s)) + 2"
      using bubbles_le [of "sys_core (sys_edge rpc imem i s)"] by linarith
    then show ?thesis
      using True by simp
  next
    case False
    note e = bubble_edge [OF Cons.prems(1) False]
    have "length is \<le> 3 * length (committed rpc imem is (sys_edge rpc imem i s)) + bubbles (sys_core (sys_edge rpc imem i s))"
      using Cons.IH [OF in_step_edge [OF Cons.prems(1) e(2)] ts(2)] Cons.prems(3) e(1) False by simp
    then show ?thesis
      using bubbles_edge [OF Cons.prems(1) False, of rpc i] False by simp
  qed
qed simp

section \<open>Reset\<close>

definition sys_reset :: "u32 \<Rightarrow> u32 \<Rightarrow> u5 \<Rightarrow> u5 \<Rightarrow> (u32 \<Rightarrow> u8) \<Rightarrow> sys" where
  "sys_reset rpc imm a1 a2 m = \<lparr>sys_core = core_reset rpc imm a1 a2, sys_mem = m, sys_log = []\<rparr>"

definition arch_reset :: "u32 \<Rightarrow> (u32 \<Rightarrow> u8) \<Rightarrow> arch" where
  "arch_reset rpc m = \<lparr>apc = rpc, regs = (\<lambda>_. 0),
     arch_csrs = \<lparr>mstatus = 0, mie = 0, mtvec = 0, mscratch = 0, mepc = 0, mcause = 0, mtval = 0\<rparr>,
     mem = m, csr_log = []\<rparr>"

text \<open>
  After reset the first instruction of the second stage is the word 0 of the empty fetch stage: illegal,
  but without a handler it has no effect. What it needs of the state is kept by an edge without effect.
\<close>

definition idle :: "u32 \<Rightarrow> (u32 \<Rightarrow> u8) \<Rightarrow> sys \<Rightarrow> bool" where
  "idle rpc m s \<longleftrightarrow> undisturbed (sys_core s) \<and> \<not> redirect_r (sys_core s) \<and>
     (ex_valid (sys_core s) \<longrightarrow> ex_instr (sys_core s) = 0) \<and>
     arch_reset rpc m = abs_sys s\<lparr>apc := rpc\<rparr>"

lemma idle_edge:
  fixes rpc imem i s
  assumes "idle rpc m s"
  defines "s' \<equiv> sys_edge rpc imem i s"
  shows "undisturbed (sys_core s')" "\<not> redirect_r (sys_core s')" "arch_reset rpc m = abs_sys s'\<lparr>apc := rpc\<rparr>"
    "ex_valid (sys_core s')" "ex_instr (sys_core s') = if_instr (ifs (sys_core s))"
    "id_ex_pc (exs (sys_core s')) = if_pc (ifs (sys_core s))"
    "if_instr (ifs (sys_core s')) = imem (pc_reg (ifs (sys_core s)))"
    "if_pc (ifs (sys_core s')) = pc_reg (ifs (sys_core s))"
    "pc_reg (ifs (sys_core s')) = pc_reg (ifs (sys_core s)) + 4"
    "executing imem (sys_core s') \<longleftrightarrow> if_instr (ifs (sys_core s)) = imem (if_pc (ifs (sys_core s)))"
    "debug_mode (dbg (sys_core s')) = debug_mode (dbg (sys_core s))"
proof -
  have q: "undisturbed (sys_core s)"
    using assms(1) by (simp add: idle_def)
  note parts = sys_edge_parts [OF q, where imem = imem and i = i and rpc = rpc, folded s'_def]
  have mt: "mtvec (csrs (sys_core s)) = 0"
  proof -
    have "csrs (sys_core s) = arch_csrs (arch_reset rpc m)"
      using assms(1) by (simp add: idle_def)
    then show ?thesis by (simp add: arch_reset_def)
  qed
  have f: "\<not> pc_sel_jump (sys_core s)" "\<not> is_mret (sys_core s)" "\<not> is_csr_op (sys_core s)" "\<not> is_store (sys_core s)"
    "ordinary (sys_core s)" "rf_write ci (sys_core s) = None" "\<not> csr_wr_happens (sys_core s)"
    "\<not> trap_taken ci (sys_core s)" for ci
    using assms(1) mt by (auto simp: idle_def wire_defs ordinary_def is_xcew_def bitsel_def csr_wr_happens_def
        rf_write_def trap_taken_def)
  have r: "\<not> redirect ci (sys_core s)" for ci
    using f by (simp add: redirect_def mret_taken_def)
  show "undisturbed (sys_core s')"
    unfolding s'_def by (rule undisturbed_edge [OF q f(5)])
  show "debug_mode (dbg (sys_core s')) = debug_mode (dbg (sys_core s))"
    using dbg_stays [OF q f(5), of rpc imem i] by (simp add: s'_def)
  show "\<not> redirect_r (sys_core s')" "ex_valid (sys_core s')" "ex_instr (sys_core s') = if_instr (ifs (sys_core s))"
    "id_ex_pc (exs (sys_core s')) = if_pc (ifs (sys_core s))"
    "if_instr (ifs (sys_core s')) = imem (pc_reg (ifs (sys_core s)))"
    "if_pc (ifs (sys_core s')) = pc_reg (ifs (sys_core s))"
    using assms(1) parts r by (simp_all add: idle_def)
  then show "executing imem (sys_core s') \<longleftrightarrow> if_instr (ifs (sys_core s)) = imem (if_pc (ifs (sys_core s)))"
    using parts(4-6) by (auto simp: executing_def Let_def)
  show "pc_reg (ifs (sys_core s')) = pc_reg (ifs (sys_core s)) + 4"
    using parts(8) next_pc_quiet [OF q, of imem i] f by (simp add: mret_taken_def)
  have "csrs (sys_core s') = csrs (sys_core s)" "regfile (sys_core s') = regfile (sys_core s)"
    using parts(10,11) f quiet_wires(5) [OF q, of imem i] by (simp_all add: csrs_edge_def Let_def mret_taken_def)
  moreover have "sys_mem s' = sys_mem s" "sys_log s' = sys_log s"
    using f by (simp_all add: s'_def sys_edge_def Let_def mem_we_def csr_wr_en_def)
  ultimately show "arch_reset rpc m = abs_sys s'\<lparr>apc := rpc\<rparr>"
    using assms(1) by (simp add: idle_def abs_sys_def)
qed

lemma boot:
  fixes rpc imm a1 a2 m
  defines "s \<equiv> sys_reset rpc imm a1 a2 m"
  shows "in_step imem (sys_core (sys_run rpc imem [i, j] s))"
    "ex_valid (sys_core (sys_run rpc imem [i, j] s))"
    "abs_sys (sys_run rpc imem [i, j] s) = arch_reset rpc m"
    "\<not> debug_mode (dbg (sys_core (sys_run rpc imem [i, j] s)))"
proof -
  have s: "idle rpc m s"
    by (simp add: s_def sys_reset_def idle_def core_reset_def undisturbed_def arch_reset_def abs_sys_def bit_simps)
  note e = idle_edge [OF s, of imem i]
  have f: "if_instr (ifs (sys_core s)) = 0" "if_pc (ifs (sys_core s)) = rpc" "pc_reg (ifs (sys_core s)) = rpc"
    by (simp_all add: s_def sys_reset_def core_reset_def)
  have "idle rpc m (sys_edge rpc imem i s)"
    using e f by (simp add: idle_def)
  note e2 = idle_edge [OF this, of imem j]
  show "in_step imem (sys_core (sys_run rpc imem [i, j] s))"
    using e e2 f by (simp add: in_step_def)
  show "ex_valid (sys_core (sys_run rpc imem [i, j] s))"
    using e2 by simp
  have "\<not> debug_mode (dbg (sys_core s))"
    by (simp add: s_def sys_reset_def core_reset_def)
  then show "\<not> debug_mode (dbg (sys_core (sys_run rpc imem [i, j] s)))"
    using e(11) e2(11) by simp
  have "abs_pc (sys_core (sys_edge rpc imem j (sys_edge rpc imem i s))) = rpc"
    using e e2 f by (simp add: abs_pc_def)
  then show "abs_sys (sys_run rpc imem [i, j] s) = arch_reset rpc m"
    using e2(3) by (simp add: abs_sys_def)
qed

section \<open>The core implements the instruction set\<close>

text \<open>C1: Refinement of the instruction set. From reset, for every program, every content of the memory and
  every sequence of interrupts, the architectural state of the core after any number of clock edges
  (the program counter of the next instruction, registers, control registers, memory and the writes to
  custom control registers) is the one that the instruction set gives for the instructions that have
  taken effect: traps and interrupts are precise and no squashed instruction leaves a trace. For
  programs within the contract of \<open>isa_step\<close>; timer and software interrupts not at once.\<close>

theorem core_implements_isa:
  assumes "irqs_ok is"
    and "isa_run imem (committed rpc imem is (sys_run rpc imem [i, j] (sys_reset rpc imm a1 a2 m)))
           (arch_reset rpc m) = Some a"
  shows "abs_sys (sys_run rpc imem (i # j # is) (sys_reset rpc imm a1 a2 m)) = a"
proof -
  note b = boot [where rpc = rpc and imem = imem and i = i and j = j and imm = imm and ?a1.0 = a1 and ?a2.0 = a2 and m = m]
  show ?thesis
    using run_refines [OF b(1) assms(1), where rpc = rpc and a = a] assms(2) b(3) by simp
qed

definition no_irq_in :: isa_in where
  "no_irq_in = \<lparr>ext_irq = False, timer_irq = False, soft_irq = False, custom_rd = 0\<rparr>"

text \<open>\<open>addi x1, x1, 5\<close> at every address.\<close>

lemma addi_step:
  "isa_step (\<lambda>_. 0x00508093) no_irq_in (arch_reset 0 m) =
     Some ((arch_reset 0 m)\<lparr>apc := 4, regs := (\<lambda>_. 0)(1 := 5)\<rparr>)"
  by (simp add: isa_step_def Let_def outcome_def decode_def decode_op_imm_def base_fn_def opcode_of_def
      funct3_of_def rd_of_def rs1_of_def imm_I_def bitsel_def mask_eq_exp_minus_1 arch_reset_def get_reg_def
      set_reg_def next_instr_def pending_irq_def)

lemma boot_commits:
  "committed rpc imem [k] (sys_run rpc imem [i, j] (sys_reset rpc imm a1 a2 m)) = [k]"
  using boot(2) [of rpc imem i j imm a1 a2 m] by simp

lemma core_implements_isa_witness:
  "abs_sys (sys_run 0 (\<lambda>_. 0x00508093) [no_irq_in, no_irq_in, no_irq_in] (sys_reset 0 0 0 0 (\<lambda>_. 0))) =
     (arch_reset 0 (\<lambda>_. 0))\<lparr>apc := 4, regs := (\<lambda>_. 0)(1 := 5)\<rparr>"
  by (rule core_implements_isa) (simp_all add: irqs_ok_def no_irq_in_def boot_commits addi_step [unfolded no_irq_in_def] del: fold.simps committed.simps)

lemma committed_append:
  "committed rpc imem (is @ js) s = committed rpc imem is s @ committed rpc imem js (sys_run rpc imem is s)"
  by (induction "is" arbitrary: s) simp_all

lemma isa_run_append: "isa_run imem (is @ js) a = Option.bind (isa_run imem is a) (isa_run imem js)"
  by (induction "is" arbitrary: a) (auto split: option.splits)

lemma committed_inputs: "set (committed rpc imem is s) \<subseteq> set is"
  by (induction "is" arbitrary: s) auto

text \<open>C2: Progress of the core: of any three clock edges in a row, after any number of earlier ones, at least one
  lets an instruction take effect, so that \<open>n\<close> edges after the reset sequence complete at least a third of \<open>n\<close>
  instructions. For programs within the contract of \<open>isa_step\<close>; timer and software interrupts not at once.\<close>

theorem core_progress:
  assumes "irqs_ok (is @ js)" and "length js = 3"
    and "isa_run imem (committed rpc imem (is @ js) (sys_run rpc imem [i, j] (sys_reset rpc imm a1 a2 m)))
           (arch_reset rpc m) \<noteq> None"
  shows "committed rpc imem js (sys_run rpc imem (i # j # is) (sys_reset rpc imm a1 a2 m)) \<noteq> [] \<and>
    length (is @ js) \<le> 3 * length (committed rpc imem (is @ js) (sys_run rpc imem [i, j] (sys_reset rpc imm a1 a2 m)))"
proof
  define b where "b = sys_run rpc imem [i, j] (sys_reset rpc imm a1 a2 m)"
  have b: "in_step imem (sys_core b)" "ex_valid (sys_core b)" "abs_sys b = arch_reset rpc m"
    unfolding b_def by (rule boot)+
  have o: "irqs_ok is" "irqs_ok js"
    using assms(1) by (simp_all add: irqs_ok_def)
  obtain a where a: "isa_run imem (committed rpc imem is b) (abs_sys b) = Some a"
    "isa_run imem (committed rpc imem js (sys_run rpc imem is b)) a \<noteq> None"
    using assms(3) unfolding b_def [symmetric] committed_append isa_run_append b(3)
    by (cases "isa_run imem (committed rpc imem is b) (arch_reset rpc m)") auto
  note r = run_refines [OF b(1) o(1) a(1)]
  have "length js \<le> 3 * length (committed rpc imem js (sys_run rpc imem is b)) + bubbles (sys_core (sys_run rpc imem is b))"
    by (rule run_progress) (use r o(2) a(2) in auto)
  then have "committed rpc imem js (sys_run rpc imem is b) \<noteq> []"
    using assms(2) bubbles_le [of "sys_core (sys_run rpc imem is b)"] by auto
  then show "committed rpc imem js (sys_run rpc imem (i # j # is) (sys_reset rpc imm a1 a2 m)) \<noteq> []"
    by (simp add: b_def)
  show "length (is @ js) \<le> 3 * length (committed rpc imem (is @ js) (sys_run rpc imem [i, j] (sys_reset rpc imm a1 a2 m)))"
    using run_progress [OF b(1) assms(1), of rpc] assms(3) b(2,3) by (simp add: bubbles_def b_def [symmetric] del: fold.simps)
qed

text \<open>On a program of additions every run is within the contract.\<close>

lemma addi_runs: "set is \<subseteq> {no_irq_in} \<Longrightarrow> isa_run (\<lambda>_. 0x00508093) is a \<noteq> None"
proof (induction "is" arbitrary: a)
  case (Cons i "is")
  have "isa_step (\<lambda>_. 0x00508093) no_irq_in a \<noteq> None"
    by (simp add: isa_step_def Let_def outcome_def decode_def decode_op_imm_def base_fn_def opcode_of_def
        funct3_of_def rd_of_def rs1_of_def imm_I_def bitsel_def mask_eq_exp_minus_1 get_reg_def
        set_reg_def next_instr_def pending_irq_def no_irq_in_def)
  then show ?case
    using Cons by auto
qed simp

lemma core_progress_witness:
  "committed 0 (\<lambda>_. 0x00508093) [no_irq_in, no_irq_in, no_irq_in]
     (sys_run 0 (\<lambda>_. 0x00508093) [no_irq_in, no_irq_in, no_irq_in] (sys_reset 0 0 0 0 (\<lambda>_. 0))) \<noteq> []"
proof -
  let ?is = "[no_irq_in]" and ?js = "[no_irq_in, no_irq_in, no_irq_in]"
  have "isa_run (\<lambda>_. 0x00508093) (committed 0 (\<lambda>_. 0x00508093) (?is @ ?js)
      (sys_run 0 (\<lambda>_. 0x00508093) [no_irq_in, no_irq_in] (sys_reset 0 0 0 0 (\<lambda>_. 0)))) (arch_reset 0 (\<lambda>_. 0)) \<noteq> None"
    by (rule addi_runs) (use committed_inputs [where ?is = "?is @ ?js"] in auto)
  then show ?thesis
    using core_progress [of ?is ?js "\<lambda>_. 0x00508093" 0 no_irq_in no_irq_in 0 0 0 "\<lambda>_. 0"]
    by (simp add: irqs_ok_def no_irq_in_def del: fold.simps committed.simps)
qed

end
