(* ===== verification/Soc_Core.thy ===== *)
theory Soc_Core
  imports Soc_Snn Core_Refines
begin

text \<open>
  The core on the chip: the instruction fetch of \<open>rtl/xcew_top_v1_1.v\<close> with the debug ROM
  (\<open>rtl/debug/debug_rom.v\<close>), and what the core does when it is halted, resumed and single stepped by the
  debug module and when a coprocessor answers.
\<close>

section \<open>Instruction fetch on the chip\<close>

text \<open>\<open>rtl/debug/debug_rom.v\<close>, and the selection of the instruction in \<open>rtl/xcew_top_v1_1.v\<close>; \<open>rom\<close> is the content
  of \<open>instr_rom\<close>.\<close>

definition debug_rom :: "u12 \<Rightarrow> u32" where
  "debug_rom addr = (if bitsel 11 2 addr = 0 then 0x0000006F else 0x00000013)"

definition core_instr :: "(nat \<Rightarrow> u32) \<Rightarrow> u32 \<Rightarrow> u32" where
  "core_instr rom pc =
     (if bitsel 31 12 pc = 0 \<and> bitsel 11 8 pc = 8 then debug_rom (ucast (bitsel 11 0 pc))
      else if bitsel 12 2 pc < 1024 then rom (unat (bitsel 11 2 pc)) else 0x00000013)"

section \<open>Halting\<close>

text \<open>An edge with a halt request, and one with a resume request, of the debug module.\<close>

definition halt_inputs :: "(u32 \<Rightarrow> u32) \<Rightarrow> isa_in \<Rightarrow> sys \<Rightarrow> core_in" where
  "halt_inputs imem i s = core_inputs imem i s\<lparr>i_dm_halt_req := True\<rparr>"

definition sys_halt :: "u32 \<Rightarrow> (u32 \<Rightarrow> u32) \<Rightarrow> isa_in \<Rightarrow> sys \<Rightarrow> sys" where
  "sys_halt rpc imem i s =
     (let c = sys_core s; ci = halt_inputs imem i s in
      \<lparr>sys_core = core_edge rpc ci c,
       sys_mem = (if mem_we ci c then write_lanes (mem_wstrb c) (mem_addr c) (mem_wdata c) (sys_mem s) else sys_mem s),
       sys_log = (if csr_wr_en ci c then sys_log s @ [(csr_addr c, csr_new ci c)] else sys_log s)\<rparr>)"

definition running :: "(u32 \<Rightarrow> u32) \<Rightarrow> sys \<Rightarrow> bool" where
  "running imem s \<longleftrightarrow> in_step imem (sys_core s) \<and> \<not> debug_mode (dbg (sys_core s))"

text \<open>The request changes none of the wires that the architectural state is computed from.\<close>

lemma halt_wires:
  "trap_taken (halt_inputs imem i s) c = trap_taken (core_inputs imem i s) c"
  "csr_new (halt_inputs imem i s) c = csr_new (core_inputs imem i s) c"
  "mem_we (halt_inputs imem i s) c = mem_we (core_inputs imem i s) c"
  "csr_wr_en (halt_inputs imem i s) c = csr_wr_en (core_inputs imem i s) c"
  "redirect (halt_inputs imem i s) c = redirect (core_inputs imem i s) c"
  "rf_write (halt_inputs imem i s) c = rf_write (core_inputs imem i s) c"
  "csrs_edge (halt_inputs imem i s) c = csrs_edge (core_inputs imem i s) c"
  "xcew_edge (halt_inputs imem i s) c = xcew_edge (core_inputs imem i s) c"
  "stall_id_ex (halt_inputs imem i s) c = stall_id_ex (core_inputs imem i s) c"
proof -
  have "csr_mip (halt_inputs imem i s) = csr_mip (core_inputs imem i s)"
    "csr_rd_data (halt_inputs imem i s) = csr_rd_data (core_inputs imem i s)"
    by (simp_all add: csr_mip_def halt_inputs_def)
  then have r: "csr_read_value (halt_inputs imem i s) c = csr_read_value (core_inputs imem i s) c"
    by (simp only: csr_read_value_def csr_int_rdata_def)
  show t: "trap_taken (halt_inputs imem i s) c = trap_taken (core_inputs imem i s) c"
    by (simp add: trap_taken_def irq_pending_def halt_inputs_def core_inputs_def)
  show n: "csr_new (halt_inputs imem i s) c = csr_new (core_inputs imem i s) c"
    by (simp add: csr_new_def r)
  have m: "mret_taken (halt_inputs imem i s) c = mret_taken (core_inputs imem i s) c"
    by (simp add: mret_taken_def t)
  show "mem_we (halt_inputs imem i s) c = mem_we (core_inputs imem i s) c"
    "csr_wr_en (halt_inputs imem i s) c = csr_wr_en (core_inputs imem i s) c"
    "redirect (halt_inputs imem i s) c = redirect (core_inputs imem i s) c"
    by (simp_all add: mem_we_def csr_wr_en_def redirect_def t m)
  have w: "wb_data (halt_inputs imem i s) c = wb_data (core_inputs imem i s) c"
    by (simp add: wb_data_def r) (simp add: halt_inputs_def)
  show "rf_write (halt_inputs imem i s) c = rf_write (core_inputs imem i s) c"
    by (simp add: rf_write_def t w)
  have v: "trap_cause_tval (halt_inputs imem i s) c = trap_cause_tval (core_inputs imem i s) c"
    by (simp add: trap_cause_tval_def halt_inputs_def)
  have dw: "\<not> dbg_write (halt_inputs imem i s) c" "\<not> dbg_write (core_inputs imem i s) c"
    by (simp_all add: dbg_write_def dbg_access_def halt_inputs_def core_inputs_def)
  show "csrs_edge (halt_inputs imem i s) c = csrs_edge (core_inputs imem i s) c"
    by (simp add: csrs_edge_def Let_def t m n v dw)
  show "xcew_edge (halt_inputs imem i s) c = xcew_edge (core_inputs imem i s) c"
    by (simp add: xcew_edge_def Let_def halt_inputs_def)
  show "stall_id_ex (halt_inputs imem i s) c = stall_id_ex (core_inputs imem i s) c"
    by (simp add: stall_id_ex_def halt_inputs_def)
qed

lemma halt_same:
  "regfile (sys_core (sys_halt rpc imem i s)) = regfile (sys_core (sys_edge rpc imem i s))"
  "csrs (sys_core (sys_halt rpc imem i s)) = csrs (sys_core (sys_edge rpc imem i s))"
  "sys_mem (sys_halt rpc imem i s) = sys_mem (sys_edge rpc imem i s)"
  "sys_log (sys_halt rpc imem i s) = sys_log (sys_edge rpc imem i s)"
  "xcp (sys_core (sys_halt rpc imem i s)) = xcp (sys_core (sys_edge rpc imem i s))"
  by (simp_all add: sys_halt_def sys_edge_def Let_def core_edge_def halt_wires regfile_edge_def)
     (simp add: halt_inputs_def core_inputs_def dbg_write_def dbg_access_def)

lemma halt_edge:
  fixes rpc imem i s
  assumes "running imem s"
  defines "c' \<equiv> sys_core (sys_halt rpc imem i s)"
  shows "pc_reg (ifs c') = 0x800" "if_instr (ifs c') = 0x13" "if_pc (ifs c') = 0x800" "\<not> ex_valid c'"
    "redirect_r c' \<longleftrightarrow> redirect (core_inputs imem i s) (sys_core s)"
    "ordinary (sys_core s) \<Longrightarrow> debug_mode (dbg c') \<and> debug_halted (dbg c') \<and> \<not> debug_single_step (dbg c') \<and>
       csr_dpc (dbg c') = id_ex_pc (exs (sys_core s))"
proof -
  have q: "undisturbed (sys_core s)" and d: "\<not> debug_mode (dbg (sys_core s))"
    using assms(1) by (simp_all add: running_def in_step_def)
  have e: "debug_enter (halt_inputs imem i s) (sys_core s)" "\<not> debug_exit (halt_inputs imem i s) (sys_core s)"
    "\<not> debug_step_reenter (halt_inputs imem i s) (sys_core s)" "\<not> stall_id_ex (halt_inputs imem i s) (sys_core s)"
    using q d by (simp_all add: debug_enter_def debug_halt_request_def debug_exit_def debug_step_reenter_def
        undisturbed_def halt_inputs_def stall_id_ex_def)
  then have n: "next_pc (halt_inputs imem i s) (sys_core s) = 0x800"
    by (simp add: next_pc_def Let_def)
  show "pc_reg (ifs c') = 0x800" "if_instr (ifs c') = 0x13" "if_pc (ifs c') = 0x800" "\<not> ex_valid c'"
    "redirect_r c' \<longleftrightarrow> redirect (core_inputs imem i s) (sys_core s)"
    using e n by (simp_all add: c'_def sys_halt_def Let_def core_edge_def if_edge_def ex_edge_def flush_def halt_wires)
  assume "ordinary (sys_core s)"
  then show "debug_mode (dbg c') \<and> debug_halted (dbg c') \<and> \<not> debug_single_step (dbg c') \<and>
      csr_dpc (dbg c') = id_ex_pc (exs (sys_core s))"
    using e q d unfolding c'_def sys_halt_def core_edge_def dbg_edge_def Let_def
    by (auto simp: dbg_enter_regs_def dbg_csr_write_def ordinary_def undisturbed_def halt_inputs_def core_inputs_def
        dbg_write_def dbg_access_def)
qed

section \<open>What a halted core does\<close>

text \<open>The debug ROM lies at \<open>0x800\<close>, but its only jump answers to the address 0: every word the core can
  fetch from it is \<open>addi x0, x0, 0\<close>.\<close>

lemma rom_window:
  assumes "k < 64"
  shows "core_instr rom (0x800 + 4 * of_nat k) = 0x13"
proof -
  have "list_all (\<lambda>k. core_instr rom (0x800 + 4 * of_nat k) = 0x13) [0..<64]"
    by (simp add: upt_rec core_instr_def debug_rom_def bitsel_def mask_eq_exp_minus_1)
  then show ?thesis
    using assms by (simp add: list_all_iff)
qed

lemma nop_facts:
  "decode 0x13 = Some (Op_imm Alu_add 0 0 0)" "generate_imm 0x13 (bitsel 6 0 0x13) = 0"
  "bitsel 6 0 (0x13 :: u32) = 0x13" "\<not> is_xcew 0x13"
  by (simp_all add: decode_def decode_op_imm_def base_fn_def opcode_of_def funct3_of_def rd_of_def rs1_of_def imm_I_def
      bitsel_def mask_eq_exp_minus_1 generate_imm_def replicate_bit_def is_xcew_def)

lemma nop_step:
  "imem (apc a) = 0x13 \<Longrightarrow> isa_step imem no_irq_in a = Some (a\<lparr>apc := apc a + 4\<rparr>)"
  by (simp add: isa_step_def Let_def outcome_def nop_facts set_reg_def next_instr_def pending_irq_def no_irq_in_def)

text \<open>An edge with \<open>addi x0, x0, 0\<close> in the second stage.\<close>

lemma nop_wires:
  assumes "ex_valid c" and "ex_instr c = 0x13" and "undisturbed c"
  shows "\<not> redirect (core_inputs imem no_irq_in s) c" "ordinary c"
  using assms nop_facts
  by (simp_all add: redirect_def trap_taken_def mret_taken_def wire_defs no_address_exception irq_pending_def
      ordinary_def core_inputs_def no_irq_in_def no_csr_write)

text \<open>The state in which the core is about to run the instruction at \<open>p\<close> of the memory, in debug mode.\<close>

definition halted_at :: "(u32 \<Rightarrow> u32) \<Rightarrow> u32 \<Rightarrow> sys \<Rightarrow> bool" where
  "halted_at imem p s \<longleftrightarrow> in_step imem (sys_core s) \<and> ex_valid (sys_core s) \<and> abs_pc (sys_core s) = p \<and>
     debug_mode (dbg (sys_core s)) \<and> debug_halted (dbg (sys_core s))"

lemma halted_nop:
  assumes h: "halted_at imem p s" and n: "imem p = 0x13"
  shows "halted_at imem (p + 4) (sys_edge rpc imem no_irq_in s)"
proof -
  have v: "ex_valid (sys_core s)" and c: "in_step imem (sys_core s)" and q: "undisturbed (sys_core s)"
    and p: "abs_pc (sys_core s) = p" and rr: "\<not> redirect_r (sys_core s)" and x: "executing imem (sys_core s)"
    using h by (simp_all add: halted_at_def in_step_def)
  have i: "ex_instr (sys_core s) = 0x13"
    using x v p n by (simp add: executing_def Let_def abs_pc_def)
  note w = nop_wires(1) [OF v i q, where imem = imem and s = s] nop_wires(2) [OF v i q]
  have st: "isa_step imem no_irq_in (abs_sys s) = Some (abs_sys s\<lparr>apc := abs_pc (sys_core s) + 4\<rparr>)"
    using nop_step [of imem "abs_sys s"] n p by simp
  have "abs_sys (sys_edge rpc imem no_irq_in s) = abs_sys s\<lparr>apc := abs_pc (sys_core s) + 4\<rparr>"
    by (rule instruction_edge(1) [OF c v st]) (simp add: no_irq_in_def)
  from arg_cong [OF this, of apc] have "abs_pc (sys_core (sys_edge rpc imem no_irq_in s)) = p + 4"
    using p by simp
  moreover have "ex_valid (sys_core (sys_edge rpc imem no_irq_in s))"
    using sys_edge_parts(1) [OF q, where imem = imem and i = no_irq_in and rpc = rpc] w(1) rr by simp
  ultimately show ?thesis
    using in_step_edge [OF c w(2), of rpc no_irq_in] dbg_stays [OF q w(2), of rpc imem no_irq_in] h
    by (simp add: halted_at_def)
qed

lemma halted_run:
  assumes "halted_at imem p s" and "\<forall>k < n. imem (p + 4 * of_nat k) = 0x13"
  shows "halted_at imem (p + 4 * of_nat n) (sys_run rpc imem (replicate n no_irq_in) s)"
  using assms
proof (induction n arbitrary: p s)
  case (Suc n)
  have "imem p = 0x13"
    using Suc.prems(2) [rule_format, of 0] by simp
  then have "halted_at imem (p + 4) (sys_edge rpc imem no_irq_in s)"
    by (rule halted_nop [OF Suc.prems(1)])
  moreover have "\<forall>k < n. imem (p + 4 + 4 * of_nat k) = 0x13"
    using Suc.prems(2) by (auto simp: algebra_simps dest: spec [of _ "Suc _"])
  ultimately show ?case
    using Suc.IH [of "p + 4"] by (simp add: algebra_simps)
qed simp

text \<open>Two edges after the halt request the core runs from \<open>0x800\<close>.\<close>

lemma after_halt:
  assumes r: "running imem s" and o: "ordinary (sys_core s)" and n: "imem 0x800 = 0x13"
  shows "halted_at imem 0x800 (sys_run rpc imem [no_irq_in, no_irq_in] (sys_halt rpc imem i s))"
proof -
  define s0 where "s0 = sys_halt rpc imem i s"
  define s1 where "s1 = sys_edge rpc imem no_irq_in s0"
  define s2 where "s2 = sys_edge rpc imem no_irq_in s1"
  note h = halt_edge [OF r, where rpc = rpc and i = i, folded s0_def]
  note d = h(6) [OF o]
  have "undisturbed (sys_core (sys_edge rpc imem i s))"
    using r o by (intro undisturbed_edge) (simp_all add: running_def in_step_def)
  then have q0: "undisturbed (sys_core s0)"
    using d unfolding s0_def by (simp add: undisturbed_def halt_same)
  have w0: "\<not> redirect (core_inputs imem no_irq_in s0) (sys_core s0)" "ordinary (sys_core s0)"
    using h(4) by (simp_all add: redirect_def trap_taken_def mret_taken_def wire_defs ordinary_def no_csr_write)
  note p1 = sys_edge_parts [OF q0, where imem = imem and i = no_irq_in and rpc = rpc, folded s1_def]
  have q1: "undisturbed (sys_core s1)"
    unfolding s1_def by (rule undisturbed_edge [OF q0 w0(2)])
  have pc1: "pc_reg (ifs (sys_core s1)) = 0x804"
    using p1(8) h(1) w0(1) next_pc_quiet [OF q0, of imem no_irq_in] by (simp add: redirect_def)
  have w1: "\<not> redirect (core_inputs imem no_irq_in s1) (sys_core s1)" "ordinary (sys_core s1)"
  proof -
    have "ex_instr (sys_core s1) = 0x13"
      using p1(2) h(2) by simp
    then show "\<not> redirect (core_inputs imem no_irq_in s1) (sys_core s1)" "ordinary (sys_core s1)"
      using nop_wires(1) [OF _ _ q1, where imem = imem and s = s1] nop_wires(2) [OF _ _ q1]
      by (cases "ex_valid (sys_core s1)";
          simp add: redirect_def trap_taken_def mret_taken_def wire_defs ordinary_def no_csr_write)+
  qed
  note p2 = sys_edge_parts [OF q1, where imem = imem and i = no_irq_in and rpc = rpc, folded s2_def]
  have q2: "undisturbed (sys_core s2)"
    unfolding s2_def by (rule undisturbed_edge [OF q1 w1(2)])
  have f1: "if_instr (ifs (sys_core s1)) = 0x13" "if_pc (ifs (sys_core s1)) = 0x800" "\<not> redirect_r (sys_core s1)"
    using p1(7,9) w0(1) h(1) n by simp_all
  have pc2: "pc_reg (ifs (sys_core s2)) = 0x808"
    using p2(8) pc1 w1(1) next_pc_quiet [OF q1, of imem no_irq_in] by (simp add: redirect_def)
  have "debug_mode (dbg (sys_core s2)) \<and> debug_halted (dbg (sys_core s2))"
    using d dbg_stays [OF q0 w0(2), of rpc imem no_irq_in] dbg_stays [OF q1 w1(2), of rpc imem no_irq_in]
    by (simp add: s1_def s2_def)
  moreover have "in_step imem (sys_core s2)"
    using q2 p2 w1(1) f1 pc1 pc2 n by (simp add: in_step_def executing_def Let_def)
  ultimately have "halted_at imem 0x800 s2"
    using p2(1,3) w1(1) f1 by (simp add: halted_at_def abs_pc_def)
  then show ?thesis
    by (simp add: s0_def s1_def s2_def)
qed

text \<open>C19: A halted core does not stop. The core takes a halt request by jumping to the debug ROM, which should
  hold it in a loop; but the ROM is addressed from 0 and fetched from \<open>0x800\<close>, where it only has
  no-operations. For every program, 66 edges after the request the core is still marked as halted and
  executes the program's own instruction at \<open>0x900\<close>.\<close>

theorem halted_core_runs_program:
  assumes "running (core_instr rom) s" and "ordinary (sys_core s)"
  shows "halted_at (core_instr rom) 0x900
      (sys_run rpc (core_instr rom) (replicate 66 no_irq_in) (sys_halt rpc (core_instr rom) i s)) \<and>
    core_instr rom 0x900 = rom 576"
proof (rule conjI)
  have n: "core_instr rom 0x800 = 0x13"
    using rom_window [of 0 rom] by simp
  have "\<forall>k < 64. core_instr rom (0x800 + 4 * of_nat k) = 0x13"
    by (simp add: rom_window)
  from halted_run [OF after_halt [OF assms n] this, of rpc]
  show "halted_at (core_instr rom) 0x900 
      (sys_run rpc (core_instr rom) (replicate 66 no_irq_in) (sys_halt rpc (core_instr rom) i s))"
    by (simp add: replicate_add [of 2 64, simplified] numeral_2_eq_2)
  show "core_instr rom 0x900 = rom 576"
    by (simp add: core_instr_def bitsel_def mask_eq_exp_minus_1)
qed

text \<open>A state of a running core: two edges after reset.\<close>

lemma boot_running:
  "running imem (sys_run rpc imem [i, j] (sys_reset rpc imm a1 a2 m))"
  using boot(1,4) unfolding running_def by (rule conjI)

lemma boot_ordinary:
  assumes "isa_step imem no_irq_in (arch_reset rpc m) \<noteq> None"
  shows "ordinary (sys_core (sys_run rpc imem [i, j] (sys_reset rpc imm a1 a2 m)))"
proof -
  obtain a where "isa_step imem no_irq_in (abs_sys (sys_run rpc imem [i, j] (sys_reset rpc imm a1 a2 m))) = Some a"
    using assms boot(3) by auto
  from instruction_edge(2) [OF boot(1,2) this] show ?thesis
    by (simp add: no_irq_in_def)
qed

lemma halted_core_runs_program_witness:
  "halted_at (core_instr (\<lambda>_. 0x13)) 0x900
     (sys_run 0 (core_instr (\<lambda>_. 0x13)) (replicate 66 no_irq_in) (sys_halt 0 (core_instr (\<lambda>_. 0x13)) no_irq_in
       (sys_run 0 (core_instr (\<lambda>_. 0x13)) [no_irq_in, no_irq_in] (sys_reset 0 0 0 0 (\<lambda>_. 0))))) \<and>
   core_instr (\<lambda>_. 0x13) 0x900 = 0x13"
proof (rule halted_core_runs_program [OF boot_running boot_ordinary])
  have "core_instr (\<lambda>_. 0x13) 0 = 0x13"
    by (simp add: core_instr_def bitsel_def)
  then show "isa_step (core_instr (\<lambda>_. 0x13)) no_irq_in (arch_reset 0 (\<lambda>_. 0)) \<noteq> None"
    using nop_step [of "core_instr (\<lambda>_. 0x13)" "arch_reset 0 (\<lambda>_. 0)"] by (simp add: arch_reset_def)
qed

section \<open>Where a resumed core continues\<close>

text \<open>An instruction in the second stage when the halt request arrives takes full effect, on registers,
  memory and control registers, and the address saved for the return is its own: resuming executes it
  a second time.\<close>

lemma halt_repeats_instruction:
  assumes "running imem s" and "ex_valid (sys_core s)" and "isa_step imem i (abs_sys s) = Some a"
    and "\<not> (timer_irq i \<and> soft_irq i)"
  shows "regfile (sys_core (sys_halt rpc imem i s)) = regs a \<and> csrs (sys_core (sys_halt rpc imem i s)) = arch_csrs a \<and>
    sys_mem (sys_halt rpc imem i s) = mem a \<and> csr_dpc (dbg (sys_core (sys_halt rpc imem i s))) = apc (abs_sys s)"
proof -
  have c: "in_step imem (sys_core s)"
    using assms(1) by (simp add: running_def)
  note e = instruction_edge(1) [OF c assms(2-4), of rpc] instruction_edge(2) [OF c assms(2-4)]
  have "regs (abs_sys (sys_edge rpc imem i s)) = regs a" "arch_csrs (abs_sys (sys_edge rpc imem i s)) = arch_csrs a"
    "mem (abs_sys (sys_edge rpc imem i s)) = mem a"
    by (simp_all only: e(1))
  then show ?thesis
    using halt_edge(6) [OF assms(1) e(2), of rpc i] assms(2) by (simp add: halt_same abs_pc_def)
qed

text \<open>A core that is halted on the edge after a jump, a taken branch or a trap resumes on the wrong
  path: the saved address is the one behind the jump, not its target.\<close>

lemma halt_behind_jump:
  assumes "running imem s" and "ex_valid (sys_core s)" and "isa_step imem i (abs_sys s) = Some a"
    and "\<not> (timer_irq i \<and> soft_irq i)" and "apc a \<noteq> apc (abs_sys s) + 4"
  shows "abs_pc (sys_core (sys_edge rpc imem i s)) = apc a \<and>
    csr_dpc (dbg (sys_core (sys_halt rpc imem j (sys_edge rpc imem i s)))) = apc (abs_sys s) + 4"
proof -
  have c: "in_step imem (sys_core s)" and q: "undisturbed (sys_core s)" and d: "\<not> debug_mode (dbg (sys_core s))"
    using assms(1) by (simp_all add: running_def in_step_def)
  note e = instruction_edge(1) [OF c assms(2-4), of rpc] instruction_edge(2) [OF c assms(2-4)]
  have pc: "abs_pc (sys_core (sys_edge rpc imem i s)) = apc a"
    using arg_cong [OF e(1), of apc] by simp
  have p: "id_ex_pc (exs (sys_core (sys_edge rpc imem i s))) = abs_pc (sys_core s) + 4"
    using sys_edge_parts(3) [OF q, where imem = imem and i = i and rpc = rpc] c assms(2)
    by (simp add: in_step_def abs_pc_def)
  have v: "\<not> ex_valid (sys_core (sys_edge rpc imem i s))"
    using assms(5) pc p by (auto simp: abs_pc_def)
  have r: "running imem (sys_edge rpc imem i s)"
    using in_step_edge [OF c e(2)] dbg_stays [OF q e(2), of rpc imem i] d by (simp add: running_def)
  then have "ordinary (sys_core (sys_edge rpc imem i s))"
    using bubble_edge(2) v by (auto simp: running_def)
  then show ?thesis
    using halt_edge(6) [OF r] pc p by simp
qed

text \<open>\<open>jal x0, 8\<close> at every address.\<close>

lemma jal_step: "isa_step (\<lambda>_. 0x0080006F) no_irq_in (arch_reset 0 m) = Some ((arch_reset 0 m)\<lparr>apc := 8\<rparr>)"
  by (simp add: isa_step_def Let_def outcome_def decode_def opcode_of_def rd_of_def imm_J_def bitsel_def
      mask_eq_exp_minus_1 arch_reset_def set_reg_def jump_to_def pending_irq_def no_irq_in_def)

text \<open>The state two edges after reset with the word \<open>w\<close> at every address.\<close>

definition booted :: "u32 \<Rightarrow> sys" where
  "booted w = sys_run 0 (\<lambda>_. w) [no_irq_in, no_irq_in] (sys_reset 0 0 0 0 (\<lambda>_. 0))"

lemma booted:
  "running (\<lambda>_. w) (booted w)" "ex_valid (sys_core (booted w))" "abs_sys (booted w) = arch_reset 0 (\<lambda>_. 0)"
  unfolding booted_def by (rule boot_running boot)+

lemma halt_behind_jump_example:
  "abs_pc (sys_core (sys_edge 0 (\<lambda>_. 0x0080006F) no_irq_in (booted 0x0080006F))) = 8 \<and>
    csr_dpc (dbg (sys_core (sys_halt 0 (\<lambda>_. 0x0080006F) no_irq_in
      (sys_edge 0 (\<lambda>_. 0x0080006F) no_irq_in (booted 0x0080006F))))) = 4"
  using halt_behind_jump [OF booted(1,2) [of "0x0080006F"], where i = no_irq_in and a = "(arch_reset 0 (\<lambda>_. 0))\<lparr>apc := 8\<rparr>"
      and rpc = "0" and j = no_irq_in] jal_step [of "\<lambda>_. 0"]
  by (simp add: booted(3) no_irq_in_def) (simp add: arch_reset_def)

lemma halt_repeats_example:
  "regfile (sys_core (sys_halt 0 (\<lambda>_. 0x00508093) no_irq_in (booted 0x00508093))) = (\<lambda>_. 0)(1 := 5) \<and>
    csr_dpc (dbg (sys_core (sys_halt 0 (\<lambda>_. 0x00508093) no_irq_in (booted 0x00508093)))) = 0"
  using halt_repeats_instruction [OF booted(1,2) [of "0x00508093"], where i = no_irq_in and rpc = "0"
      and a = "(arch_reset 0 (\<lambda>_. 0))\<lparr>apc := 4, regs := (\<lambda>_. 0)(1 := 5)\<rparr>"] addi_step [of "\<lambda>_. 0"]
  by (simp add: booted(3) no_irq_in_def) (simp add: arch_reset_def)
section \<open>The result of a coprocessor instruction\<close>

text \<open>An instruction that writes a register and transfers no control, and cycles without the debugger.\<close>

definition plain :: "u32 \<Rightarrow> bool" where
  "plain w \<longleftrightarrow> opcode_of w \<in> {0x33, 0x13, 0x03, 0x37, 0x17} \<and> rd_of w \<noteq> 0"

definition no_debug :: "core_in \<Rightarrow> bool" where
  "no_debug i \<longleftrightarrow> \<not> i_dm_halt_req i \<and> \<not> i_dm_resume_req i \<and> \<not> i_dm_reset_req i \<and> \<not> i_debug_trigger_hit i \<and>
     \<not> i_dbg_reg_req i"

definition undebugged :: "core \<Rightarrow> bool" where
  "undebugged c \<longleftrightarrow> \<not> debug_mode (dbg c) \<and> \<not> debug_single_step (dbg c) \<and> \<not> bit (csr_dcsr (dbg c)) 15 \<and>
     mtvec (csrs c) = 0 \<and> \<not> redirect_r c"

lemma no_debug_wires:
  assumes "no_debug i" and "undebugged c" and "ex_valid c \<longrightarrow> plain (ex_instr c)"
  shows "\<not> debug_enter i c" "\<not> debug_exit i c" "\<not> redirect i c" "\<not> trap_taken i c" "\<not> mret_taken i c"
    "\<not> dbg_write i c" "\<not> csr_wr_happens c" "ex_valid c \<Longrightarrow> \<not> is_xcew (ex_instr c)"
    "ex_valid c \<Longrightarrow> writes_rd (op7 c) \<and> ex_rd c \<noteq> 0"
  using assms
  by (auto simp: debug_enter_def debug_halt_request_def debug_ebreak_def debug_trigger_hit_def debug_step_reenter_def
      debug_exit_def redirect_def pc_sel_jump_def trap_taken_def mret_taken_def is_mret_def is_ebreak_def is_system_def
      dbg_write_def dbg_access_def csr_wr_happens_def is_csr_op_def is_xcew_def writes_rd_def no_debug_def undebugged_def
      plain_def opcode_of_def rd_of_def)

lemma no_debug_edge:
  fixes rpc i c
  assumes "no_debug i" and "undebugged c" and "ex_valid c \<longrightarrow> plain (ex_instr c)"
  defines "c' \<equiv> core_edge rpc i c"
  shows "undebugged c'"
    "\<not> stall_id_ex i c \<Longrightarrow> ex_valid c' \<and> ex_instr c' = if_instr (ifs c) \<and> if_instr (ifs c') = instr i"
    "stall_id_ex i c \<Longrightarrow> \<not> ex_valid c' \<and> if_instr (ifs c') = if_instr (ifs c)"
    "regfile c' = (if ex_valid c then (regfile c)(ex_rd c := wb_data i c) else regfile c)"
    "rf_we c' \<longleftrightarrow> ex_valid c"
proof -
  note w = no_debug_wires [OF assms(1-3)]
  have d: "dbg_edge rpc i c = (dbg c)\<lparr>step_armed := False\<rparr>"
    using w assms(1,2) by (simp add: dbg_edge_def Let_def step_armed_edge_def debug_step_reenter_def undebugged_def no_debug_def)
  have s: "csrs_edge i c = csrs c"
    using w by (simp add: csrs_edge_def Let_def)
  show "undebugged c'"
    using assms(2) w d s by (simp add: c'_def core_edge_def undebugged_def)
  show "\<not> stall_id_ex i c \<Longrightarrow> ex_valid c' \<and> ex_instr c' = if_instr (ifs c) \<and> if_instr (ifs c') = instr i"
    "stall_id_ex i c \<Longrightarrow> \<not> ex_valid c' \<and> if_instr (ifs c') = if_instr (ifs c)"
    using w assms(2) by (simp_all add: c'_def core_edge_def ex_edge_def if_edge_def Let_def flush_def undebugged_def)
  show "regfile c' = (if ex_valid c then (regfile c)(ex_rd c := wb_data i c) else regfile c)"
    "rf_we c' \<longleftrightarrow> ex_valid c"
    using w by (auto simp: c'_def core_edge_def regfile_edge_def rf_write_def Let_def)
qed


text \<open>Two \<open>addi\<close> behind an instruction whose result is \<open>0x77\<close>.\<close>

definition core_waiting :: core where
  "core_waiting = (core_reset 0 0 0 0)\<lparr>ifs := \<lparr>pc_reg = 12, if_instr = 0x00100093, if_pc = 8\<rparr>,
     xcp := \<lparr>xcew_pending = True, xcew_valid = False, o_xcew_req = 0x0000018B, xcew_rd_reg = 3, xcew_result = 0\<rparr>\<rparr>"

definition calm_in :: core_in where
  "calm_in = \<lparr>instr = 0x00200113, mem_rdata = 0, csr_rd_data = 0, i_meip = False, i_mtip = False, i_msip = False,
     i_xcew_resp = 0x77, i_xcew_done = True, i_dm_halt_req = False, i_dm_resume_req = False,
     i_dm_reset_req = False, i_debug_trigger_hit = False,
     i_dbg_reg_req = False, i_dbg_reg_wr = False, i_dbg_reg_addr = 0, i_dbg_reg_wdata = 0\<rparr>"

lemma plain_addi: "plain 0x00100093" "plain 0x00200113" "rd_of 0x00100093 = 1" "rd_of 0x00200113 = 2"
  by (simp_all add: plain_def opcode_of_def rd_of_def bitsel_def mask_eq_exp_minus_1)


text \<open>A jump behind a coprocessor instruction does not redirect the program counter while the core waits.\<close>

lemma jump_behind_coprocessor_lost:
  assumes "xcew_pending (xcp c)" and "\<not> i_xcew_done i" and "no_debug i" and "undebugged c" and "op7 c = OPCODE_JAL"
  shows "ifs (core_edge rpc i c) = ifs c \<and> \<not> ex_valid (core_edge rpc i c) \<and> \<not> redirect_r (core_edge rpc i c)"
  using assms
  by (auto simp: core_edge_def if_edge_def ex_edge_def Let_def stall_id_ex_def debug_enter_def debug_halt_request_def
      debug_ebreak_def debug_trigger_hit_def debug_step_reenter_def debug_exit_def trap_taken_def mret_taken_def
      is_mret_def is_ebreak_def is_system_def no_debug_def undebugged_def)

section \<open>Single step\<close>

lemma step_armed_core_edge: "step_armed (dbg (core_edge rpc i c)) = step_armed_edge i c"
proof -
  have "step_armed (dbg_csr_write a v d) = step_armed d" for a v d
    by (simp add: dbg_csr_write_def)
  then show ?thesis
    by (simp add: core_edge_def dbg_edge_def Let_def dbg_enter_regs_def)
qed

lemma unarmed_edge:
  "\<not> step_armed (dbg c) \<Longrightarrow> \<not> i_dm_resume_req i \<Longrightarrow> \<not> step_armed (dbg (core_edge rpc i c))"
  by (simp add: step_armed_core_edge step_armed_edge_def debug_exit_def)

lemma unarmed_run:
  "\<not> step_armed (dbg c) \<Longrightarrow> list_all (\<lambda>i. \<not> i_dm_resume_req i) is \<Longrightarrow>
    \<not> step_armed (dbg (fold (core_edge rpc) is c))"
  by (induction "is" arbitrary: c) (simp_all add: unarmed_edge)

text \<open>Single stepping does not stop. A resume request with the step bit of \<open>dcsr\<close> set starts the core
  running, but the request that sets the single-step flag comes too early to arm the stop: however many
  cycles follow until the next resume request, the core never re-enters debug mode after an instruction.\<close>

lemma single_step_runs_on:
  assumes "debug_mode (dbg c)" and "\<not> debug_single_step (dbg c)" and "i_dm_resume_req i"
    and "list_all (\<lambda>i. \<not> i_dm_resume_req i) is"
  shows "\<not> debug_step_reenter j (fold (core_edge rpc) is (core_edge rpc i c))"
proof -
  have "\<not> step_armed (dbg (core_edge rpc i c))"
    using assms(2) by (simp add: step_armed_core_edge step_armed_edge_def)
  from unarmed_run [OF this assms(4)] show ?thesis
    by (simp add: debug_step_reenter_def)
qed

definition stepping_core :: core where
  "stepping_core = (core_reset 0 0 0 0)\<lparr>dbg := \<lparr>debug_mode = True, debug_halted = True, debug_single_step = False,
     debug_prv = 3, csr_dcsr = 4, csr_dpc = 0x40, csr_dscratch0 = 0, csr_dscratch1 = 0, step_armed = False\<rparr>\<rparr>"

lemma single_step_runs_on_example:
  "\<not> debug_step_reenter calm_in (fold (core_edge 0) [calm_in, calm_in] (core_edge 0 (calm_in\<lparr>i_dm_resume_req := True\<rparr>) stepping_core))"
  by (rule single_step_runs_on) (simp_all add: stepping_core_def core_reset_def calm_in_def)

section \<open>The coprocessor port of the core\<close>

text \<open>
  The model of the chip in \<open>Soc_Snn\<close> lets the core issue any instruction at any time. The core's own port
  is an instance of it: when the two agree on the port before an edge and the chip's answer drives
  \<open>i_xcew_done\<close>, they agree after it.
\<close>

definition issue_of :: "core \<Rightarrow> issue_in \<Rightarrow> issue_in" where
  "issue_of c ci = ci\<lparr>Soc_Snn.id_ex_valid := ex_valid c, Soc_Snn.id_ex_instr := ex_instr c,
     Soc_Snn.o_rs1_data := rf_rs1_data c, Soc_Snn.o_rs2_data := rf_rs2_data c\<rparr>"

lemma core_port_issues:
  assumes "Soc_Snn.xcew_pending s = xcew_pending (xcp c)" and "Soc_Snn.o_xcew_req s = o_xcew_req (xcp c)"
    and "i_xcew_done i = core_xcew_done (issue_of c ci) s"
  shows "Soc_Snn.xcew_pending (core_clk_edge (issue_of c ci) s) = xcew_pending (xcp (core_edge rpc i c)) \<and>
    Soc_Snn.o_xcew_req (core_clk_edge (issue_of c ci) s) = o_xcew_req (xcp (core_edge rpc i c))"
  using assms
  by (auto simp: core_clk_edge_def issue_edge_def Let_def core_edge_def xcew_edge_def issue_of_def core_xcew_done_def)

end
