(* ===== verification/Rtl_Eml.thy ===== *)
theory Rtl_Eml
  imports Azmuth_Prelude
begin

text \<open>
  The EML datapath, \<open>rtl/eml/eml_unit.v\<close>: \<open>exp(rs1) - ln(rs2)\<close> in fixed point with 16 fraction bits, and a
  memory of 128 results that is addressed by an eight-bit hash of the operands.
\<close>

section \<open>The exponential\<close>

text \<open>\<open>pow2f\<close> is the polynomial for \<open>2^f\<close> of \<open>compute_exp\<close>, in the 32-bit arithmetic of the source.\<close>

definition pow2_poly :: "u32 \<Rightarrow> u32" where
  "pow2_poly f =
     (let p = 0x276;
          p = drop_bit 16 (f * p) + 0xE38;
          p = drop_bit 16 (f * p) + 0x3D7A;
          p = drop_bit 16 (f * p) + 0xB1AA
      in drop_bit 16 (f * p) + 0x10000)"

definition exp_scaled :: "u32 \<Rightarrow> u32" where
  "exp_scaled x = x + signed_drop_bit 2 x + signed_drop_bit 3 x + signed_drop_bit 4 x + signed_drop_bit 8 x + signed_drop_bit 9 x"

definition compute_exp :: "u32 \<Rightarrow> u32" where
  "compute_exp v =
     (if v = 0 then 0x10000
      else if sint v < -726017 then 1
      else if sint v > 726017 then 0x7FFFFFFF
      else
        let x = exp_scaled v;
            k = (ucast (bitsel 31 16 x) :: u16);
            p = pow2_poly (bitsel 15 0 x)
        in if 0 < sint k \<and> sint k < 16 then push_bit (unat k) p
           else if k = 0 then p
           else if sint k < 0 \<and> -16 < sint k then drop_bit (unat (- k)) p
           else if 16 \<le> sint k then 0x7FFFFFFF
           else 1)"

section \<open>The logarithm\<close>

primrec leading_one :: "nat \<Rightarrow> u32 \<Rightarrow> u5" where
  "leading_one 0 v = 0"
| "leading_one (Suc i) v = (if bit v (Suc i) then of_nat (Suc i) else leading_one i v)"

text \<open>The polynomial for \<open>log2 (1 + f)\<close>, in 48-bit signed arithmetic.\<close>

definition log2_poly :: "48 word \<Rightarrow> 48 word" where
  "log2_poly f =
     (let s = signed_drop_bit 16 (f * (- 5198)) + 20499;
          s = signed_drop_bit 16 (f * s) + (- 43916);
          s = signed_drop_bit 16 (f * s) + 94130
      in signed_drop_bit 16 (f * s))"

text \<open>\<open>leading_one - 5'd16\<close> stands in a concatenation, so it is 5 bits wide and zero extended to \<open>log2_int\<close>.\<close>

definition compute_ln :: "u32 \<Rightarrow> u32" where
  "compute_ln v =
     (if v = 0 then 0x80000000
      else if bit v 31 then 0x80000000
      else if v = 0x10000 then 0
      else
        let l = leading_one 30 v;
            x_norm = (if 16 \<le> l then drop_bit (unat (l - 16)) v else push_bit (unat (16 - l)) v);
            log2_int = (ucast (l - 16) :: u16);
            m_minus1 = x_norm - 0x10000;
            s_frac = (ucast (log2_poly (scast m_minus1)) :: u32);
            log2_combined = push_bit 16 (ucast log2_int) + s_frac;
            ln_product = (scast log2_combined :: 48 word) * 45426
        in ucast (bitsel 47 16 ln_product))"

section \<open>What the exponential computes\<close>

fun pow2_nat :: "nat \<Rightarrow> nat" where
  "pow2_nat f = f * (f * (f * (f * 0x276 div 65536 + 0xE38) div 65536 + 0x3D7A) div 65536 + 0xB1AA) div 65536 + 65536"

declare pow2_nat.simps [simp del]

lemma pow2_step:
  assumes "unat f < 65536" and "unat p < 65536"
  shows "unat (drop_bit 16 (f * p) :: u32) = unat f * unat p div 65536" "unat f * unat p div 65536 \<le> unat p"
proof -
  have "unat f * unat p \<le> 65535 * 65535"
    using assms by (intro mult_le_mono) auto
  then have "unat (f * p) = unat f * unat p"
    by (simp add: unat_mult_lem [THEN iffD1])
  then show "unat (drop_bit 16 (f * p) :: u32) = unat f * unat p div 65536"
    by (simp add: drop_bit_eq_div unat_div_distrib)
  have "unat f * unat p \<le> 65536 * unat p"
    using assms(1) by (intro mult_le_mono) auto
  then show "unat f * unat p div 65536 \<le> unat p"
    by (metis div_le_mono nonzero_mult_div_cancel_left zero_neq_numeral)
qed

lemma unat_pow2_poly:
  assumes "unat f < 65536"
  shows "unat (pow2_poly f) = pow2_nat (unat f)" and "pow2_nat (unat f) < 131072"
proof -
  have s: "unat (a + b) = unat a + unat b" if "unat a + unat b < 2 ^ 32" for a b :: u32
    using that by (simp add: unat_add_lem [THEN iffD1])
  note d = pow2_step [OF assms]
  define p1 where "p1 = drop_bit 16 (f * 0x276) + (0xE38 :: u32)"
  have 1: "unat p1 = unat f * 0x276 div 65536 + 0xE38" "unat p1 \<le> 0x10AE"
    using d [of "0x276"] s [of "drop_bit 16 (f * 0x276)" "0xE38"] by (simp_all add: p1_def)
  define p2 where "p2 = drop_bit 16 (f * p1) + (0x3D7A :: u32)"
  have 2: "unat p2 = unat f * unat p1 div 65536 + 0x3D7A" "unat p2 \<le> 0x4E28"
    using d [of p1] 1(2) s [of "drop_bit 16 (f * p1)" "0x3D7A"] by (simp_all add: p2_def)
  define p3 where "p3 = drop_bit 16 (f * p2) + (0xB1AA :: u32)"
  have 3: "unat p3 = unat f * unat p2 div 65536 + 0xB1AA" "unat p3 \<le> 0xFFD2"
    using d [of p2] 2(2) s [of "drop_bit 16 (f * p2)" "0xB1AA"] by (simp_all add: p3_def)
  have 4: "unat (drop_bit 16 (f * p3) + (0x10000 :: u32)) = unat f * unat p3 div 65536 + 65536"
    using d [of p3] 3(2) s [of "drop_bit 16 (f * p3)" "0x10000"] by simp
  have q: "pow2_poly f = drop_bit 16 (f * p3) + 0x10000"
    by (simp add: pow2_poly_def Let_def p1_def p2_def p3_def)
  have r: "pow2_nat (unat f) = unat f * unat p3 div 65536 + 65536"
    unfolding pow2_nat.simps 3(1) 2(1) 1(1) ..
  show "unat (pow2_poly f) = pow2_nat (unat f)"
    unfolding q r by (rule 4)
  show "pow2_nat (unat f) < 131072"
    unfolding r using d(2) [of p3] 3(2) by simp
qed

lemma pow2_nat_mono: "f \<le> g \<Longrightarrow> pow2_nat f \<le> pow2_nat g"
  unfolding pow2_nat.simps by (intro add_le_mono div_le_mono mult_le_mono order.refl) auto

lemma pow2_nat_bounds: "f < 65536 \<Longrightarrow> pow2_nat f < 131072" "65536 \<le> pow2_nat f"
  using unat_pow2_poly(2) [of "of_nat f"] by (simp_all add: unat_of_nat pow2_nat.simps)

lemma sint_sum:
  assumes "-(2^31) \<le> sint a + sint b" "sint a + sint b < 2^31"
  shows "sint (a + b :: u32) = sint a + sint b"
  using assms by (simp add: sint_word_ariths signed_take_bit_int_eq_self)

text \<open>The scaled argument as an integer, moved up by 16 units so that it is not negative.\<close>

definition scaled :: "int \<Rightarrow> int" where
  "scaled x = x + x div 4 + x div 8 + x div 16 + x div 256 + x div 512 + 16 * 65536"

lemma scaled_mono: "x \<le> y \<Longrightarrow> scaled x \<le> scaled y"
  unfolding scaled_def by (intro add_mono zdiv_mono1 order.refl) simp_all

lemma scaled_bounds:
  assumes "-726017 \<le> x" and "x \<le> 726017"
  shows "0 \<le> scaled x" "scaled x < 32 * 65536"
proof -
  have "scaled (-726017) \<le> scaled x" "scaled x \<le> scaled 726017"
    using assms by (simp_all add: scaled_mono)
  then show "0 \<le> scaled x" "scaled x < 32 * 65536"
    by (simp_all add: scaled_def)
qed

lemma exp_scaled:
  assumes "-726017 \<le> sint x" and "sint x \<le> 726017"
  shows "sint (exp_scaled x) = scaled (sint x) - 16 * 65536"
proof -
  have d: "sint (signed_drop_bit n x) = sint x div 2 ^ n" for n
    by (simp add: sint_signed_drop_bit_eq drop_bit_eq_div)
  have b: "-726017 \<le> sint x div 2 ^ n" "sint x div 2 ^ n \<le> 726017" for n
  proof -
    have "(1 :: int) \<le> 2 ^ n" by simp
    then show "sint x div 2 ^ n \<le> 726017"
      using assms(2) by (smt (verit) div_by_1 div_neg_pos_less0 pos_imp_zdiv_nonneg_iff zdiv_mono2)
    show "-726017 \<le> sint x div 2 ^ n"
      using assms(1) \<open>1 \<le> 2 ^ n\<close>
      by (smt (verit) div_by_1 pos_imp_zdiv_nonneg_iff zdiv_mono2_neg)
  qed
  note c = b [of 2] b [of 3] b [of 4] b [of 8] b [of 9]
  show ?thesis
    unfolding exp_scaled_def scaled_def using assms c
    by (simp add: sint_sum d)
qed
text \<open>On its range \<open>compute_exp\<close> is \<open>pow2_nat\<close> of the fraction, shifted by the integer part.\<close>

definition exp_nat :: "nat \<Rightarrow> nat" where
  "exp_nat n = pow2_nat (n mod 65536) * 2 ^ (n div 65536) div 65536"

lemma exp_nat_mono:
  assumes "m \<le> n"
  shows "exp_nat m \<le> exp_nat n"
proof -
  have "pow2_nat (m mod 65536) * 2 ^ (m div 65536) \<le> pow2_nat (n mod 65536) * 2 ^ (n div 65536)"
  proof (cases "m div 65536 = n div 65536")
    case True
    then have "m mod 65536 \<le> n mod 65536"
      using assms by (metis add_le_cancel_left div_mult_mod_eq)
    then show ?thesis
      by (simp add: True pow2_nat_mono)
  next
    case False
    then have "Suc (m div 65536) \<le> n div 65536"
      using div_le_mono [OF assms, of 65536] by simp
    then have "65536 * 2 ^ Suc (m div 65536) \<le> pow2_nat (n mod 65536) * (2 :: nat) ^ (n div 65536)"
      by (intro mult_le_mono power_increasing pow2_nat_bounds) simp_all
    then have "131072 * 2 ^ (m div 65536) \<le> pow2_nat (n mod 65536) * (2 :: nat) ^ (n div 65536)"
      by simp
    moreover have "pow2_nat (m mod 65536) * 2 ^ (m div 65536) \<le> 131072 * 2 ^ (m div 65536)"
      using pow2_nat_bounds(1) [of "m mod 65536"] by (intro mult_le_mono) simp_all
    ultimately show ?thesis
      by (rule order.trans [rotated])
  qed
  then show ?thesis
    unfolding exp_nat_def by (rule div_le_mono)
qed

lemma fields_of_scaled:
  assumes "sint x = int n - 16 * 65536" and "n < 32 * 65536"
  shows "unat (bitsel 15 0 x) = n mod 65536" "sint (ucast (bitsel 31 16 (x :: u32)) :: u16) = int (n div 65536) - 16"
proof -
  have "word_of_int (sint x) = x"
    by simp
  then have x: "x = word_of_int (int n - 16 * 65536)"
    by (simp only: assms(1))
  have l: "bitsel 15 0 x = take_bit 16 x"
    by (auto simp: bit_simps intro!: bit_word_eqI)
  have "uint (take_bit 16 x) = take_bit 16 (int n - 16 * 65536)"
    by (simp only: x unsigned_take_bit_eq uint_word_of_int_eq) (simp add: take_bit_take_bit)
  also have "\<dots> = int (n mod 65536)"
    by (simp add: take_bit_eq_mod zmod_int mod_diff_eq [symmetric, of "int n" "1048576"])
  finally show "unat (bitsel 15 0 x) = n mod 65536"
    unfolding l by (metis nat_int unat_eq_nat_uint)
  have u: "(ucast (bitsel 31 16 x) :: u16) = scast (signed_drop_bit 16 x)"
    by (auto simp: bit_simps intro!: bit_word_eqI)
  have "sint (signed_drop_bit 16 x) = int (n div 65536) - 16"
    using assms(1) by (simp add: sint_signed_drop_bit_eq drop_bit_eq_div zdiv_int)
  moreover have "n div 65536 < 32"
    using assms(2) by (simp add: less_mult_imp_div_less)
  ultimately show "sint (ucast (bitsel 31 16 x) :: u16) = int (n div 65536) - 16"
    unfolding u by (simp add: signed_scast_eq signed_take_bit_int_eq_self)
qed

lemma unat_compute_exp:
  assumes "-726017 \<le> sint v" and "sint v \<le> 726017"
  shows "unat (compute_exp v) = exp_nat (nat (scaled (sint v)))" "0 < exp_nat (nat (scaled (sint v)))"
proof -
  define n where "n = nat (scaled (sint v))"
  have n: "int n = scaled (sint v)" "n < 32 * 65536"
    using scaled_bounds [OF assms] by (simp_all add: n_def)
  define q where "q = n div 65536"
  have q: "q < 32"
    using n(2) by (simp add: q_def less_mult_imp_div_less)
  define p where "p = pow2_nat (n mod 65536)"
  have p: "65536 \<le> p" "p < 131072"
    using pow2_nat_bounds by (simp_all add: p_def)
  have e: "sint (exp_scaled v) = int n - 16 * 65536"
    using exp_scaled [OF assms] n(1) by simp
  note f = fields_of_scaled [OF e n(2)]
  define k where "k = (ucast (bitsel 31 16 (exp_scaled v)) :: u16)"
  define w where "w = pow2_poly (bitsel 15 0 (exp_scaled v))"
  have k: "sint k = int q - 16"
    using f(2) by (simp add: k_def q_def)
  have w: "unat w = p"
    using unat_pow2_poly(1) f(1) by (simp add: w_def p_def)
  have "word_of_int (sint k) = k"
    by simp
  then have k': "k = word_of_int (int q - 16)"
    by (simp only: k)
  have pos: "unat k = q - 16" if "16 \<le> q"
  proof -
    have "k = of_nat (q - 16)"
      using that by (simp add: k' of_nat_diff)
    then show ?thesis
      using q by (simp add: unat_of_nat)
  qed
  have neg: "unat (- k) = 16 - q" if "q \<le> 16"
  proof -
    have "- k = of_nat (16 - q)"
      using that by (simp add: k' of_nat_diff)
    then show ?thesis
      by (simp add: unat_of_nat)
  qed
  have g: "exp_nat n = p * 2 ^ q div 65536"
    by (simp add: exp_nat_def p_def q_def)
  have right: "exp_nat n = p div 2 ^ (16 - q)" if "q \<le> 16"
  proof -
    have "p * 2 ^ q div (2 ^ (16 - q) * 2 ^ q) = p div 2 ^ (16 - q)"
      by (rule div_mult_mult2) simp
    then show ?thesis
      using that by (simp add: g flip: power_add)
  qed
  have left: "exp_nat n = p * 2 ^ (q - 16)" if "16 \<le> q"
  proof -
    have "(2 :: nat) ^ q = 2 ^ (q - 16) * 65536"
      using that power_add [of "2 :: nat" "q - 16" 16] by simp
    then show ?thesis
      by (simp add: g)
  qed
  show "unat (compute_exp v) = exp_nat (nat (scaled (sint v)))"
    unfolding n_def [symmetric]
  proof (cases "v = 0")
    case True
    then have "n = 16 * 65536"
      by (simp add: n_def scaled_def)
    then show "unat (compute_exp v) = exp_nat n"
      by (simp add: True compute_exp_def exp_nat_def pow2_nat.simps)
  next
    case False
    then have c: "compute_exp v = (if 0 < sint k \<and> sint k < 16 then push_bit (unat k) w else if k = 0 then w
        else if sint k < 0 \<and> -16 < sint k then drop_bit (unat (- k)) w else if 16 \<le> sint k then 0x7FFFFFFF else 1)"
      using assms by (simp add: compute_exp_def Let_def k_def w_def)
    consider "16 < q" | "q = 16" | "0 < q \<and> q < 16" | "q = 0"
      by linarith
    then show "unat (compute_exp v) = exp_nat n"
    proof cases
      case 1
      then have "p * 2 ^ (q - 16) < 131072 * 2 ^ 15"
        using p(2) q by (intro mult_less_le_imp_less power_increasing) simp_all
      then have "unat (push_bit (q - 16) w) = p * 2 ^ (q - 16)"
        by (simp only: unsigned_push_bit_eq w) (simp add: push_bit_eq_mult take_bit_nat_eq_self)
      then show ?thesis
        using 1 q pos left c by (simp add: k del: push_bit_eq_mult)
    next
      case 2
      then show ?thesis
        using c w k' left by (simp add: k)
    next
      case 3
      then have "k \<noteq> 0"
        using k by auto
      moreover have "unat (drop_bit (16 - q) w) = p div 2 ^ (16 - q)"
        using p(2) by (simp only: unsigned_drop_bit_eq w) (simp add: drop_bit_eq_div take_bit_nat_eq_self)
      ultimately show ?thesis
        using 3 c neg right by (simp add: k del: drop_bit_eq_div)
    next
      case 4
      then have "k \<noteq> 0"
        using k by auto
      then show ?thesis
        using 4 c p right by (simp add: k)
    qed
  qed
  have "65536 * 2 ^ 0 \<le> p * 2 ^ q"
    using p(1) by (intro mult_le_mono) simp_all
  then have "65536 div 65536 \<le> p * 2 ^ q div 65536"
    by (intro div_le_mono) simp
  then show "0 < exp_nat (nat (scaled (sint v)))"
    by (simp add: exp_nat_def n_def [symmetric] p_def q_def)
qed

text \<open>C11: The exponential of the EML unit is monotone up to its range limit 726017, about 11.08, over all
  operands, although its two exits, its shifts and its polynomial are separate cases and everything is
  rounded down; above the limit it falls to \<open>0x7FFFFFFF\<close>, below what it returned at 10.4. The value at
  the limit has the sign bit set.\<close>

theorem exp_monotone_then_drops:
  "(sint x \<le> sint y \<and> sint y \<le> 726017 \<longrightarrow> compute_exp x \<le> compute_exp y) \<and>
   (726017 < sint y \<longrightarrow> compute_exp y < compute_exp 690000 \<and> sint (compute_exp 690000) < 0)"
proof (intro conjI impI)
  have c: "compute_exp 690000 = 2461138944"
    by (simp add: compute_exp_def exp_scaled_def pow2_poly_def bitsel_def mask_eq_exp_minus_1 Let_def)
  assume "726017 < sint y"
  moreover from this have "y \<noteq> 0"
    by auto
  ultimately show "compute_exp y < compute_exp 690000"
    unfolding c by (simp add: compute_exp_def)
  show "sint (compute_exp 690000) < 0"
    by (simp add: c)
next
  assume a: "sint x \<le> sint y \<and> sint y \<le> 726017"
  have low: "compute_exp v = 1" if "sint v < -726017" for v
    using that by (auto simp: compute_exp_def)
  show "compute_exp x \<le> compute_exp y"
  proof (cases "sint x < -726017")
    case True
    then show ?thesis
      using low [of x] low [of y] unat_compute_exp [of y] a
      by (cases "sint y < -726017") (simp_all add: word_le_nat_alt)
  next
    case False
    then show ?thesis
      using a unat_compute_exp [of x] unat_compute_exp [of y] exp_nat_mono [OF nat_mono [OF scaled_mono [of "sint x" "sint y"]]]
      by (simp add: word_le_nat_alt)
  qed
qed

theorem exp_monotone_then_drops_witness:
  "compute_exp (-65536) \<le> compute_exp 65536 \<and> compute_exp 800000 < compute_exp 690000"
  using exp_monotone_then_drops [of "-65536" "65536"] exp_monotone_then_drops [of "0" "800000"] by simp

section \<open>What the logarithm computes\<close>

lemma leading_one:
  assumes "unat v < 2 ^ Suc i" and "i < 32" and "v \<noteq> 0"
  shows "2 ^ unat (leading_one i v) \<le> unat v \<and> unat v < 2 ^ Suc (unat (leading_one i v)) \<and> unat (leading_one i v) \<le> i"
  using assms
proof (induction i)
  case 0
  then have "unat v = 1"
    using unat_eq_0 [of v] by simp
  then show ?case
    by simp
next
  case (Suc i)
  show ?case
  proof (cases "bit v (Suc i)")
    case True
    have "bit (unat v) (Suc i)"
      using True by (simp add: bit_unsigned_iff bit_imp_possible_bit)
    then have "2 ^ Suc i \<le> unat v"
      by (metis bit_iff_odd div_less even_zero not_le)
    moreover have "unat (of_nat (Suc i) :: u5) = Suc i"
      unfolding unat_of_nat using Suc.prems(2) by simp
    ultimately show ?thesis
      using True Suc.prems by (simp del: of_nat_Suc)
  next
    case False
    have "\<not> bit (unat v) (Suc i)"
      using False by (simp add: bit_unsigned_iff)
    then have "even (unat v div 2 ^ Suc i)"
      by (simp add: bit_iff_odd)
    moreover have "unat v div 2 ^ Suc i < 2"
      using Suc.prems(1) by (simp add: less_mult_imp_div_less mult.commute)
    ultimately have "unat v div 2 ^ Suc i = 0"
      by (cases "unat v div 2 ^ Suc i = 1") auto
    then have "unat v < 2 ^ Suc i"
      by (simp add: div_eq_0_iff)
    then show ?thesis
      using Suc.IH Suc.prems False by simp
  qed
qed

lemma signed_product:
  assumes "sint (f :: 48 word) \<in> {0..65535}" and "sint s \<in> {-131072..131072}"
  shows "sint (signed_drop_bit 16 (f * s)) = sint f * sint s div 65536"
proof -
  have "\<bar>sint f * sint s\<bar> \<le> 65535 * 131072"
    unfolding abs_mult using assms by (intro mult_mono) auto
  then show ?thesis
    by (simp add: sint_signed_drop_bit_eq drop_bit_eq_div sint_word_ariths signed_take_bit_int_eq_self)
qed

lemma signed_sum:
  assumes "\<bar>sint (a :: 48 word)\<bar> \<le> 2 ^ 40" and "\<bar>sint b\<bar> \<le> 2 ^ 40"
  shows "sint (a + b) = sint a + sint b"
  using assms by (simp add: sint_word_ariths signed_take_bit_int_eq_self)

lemma floor_between:
  assumes "(f :: int) \<in> {0..65535}" and "s \<in> {lo..hi}" and "lo \<le> 0" and "0 \<le> hi"
  shows "f * s div 65536 \<in> {lo..hi}"
proof -
  have "f * s \<le> f * hi" "f * lo \<le> f * s"
    using assms by (simp_all add: mult_left_mono)
  moreover have "f * hi \<le> 65536 * hi" "65536 * lo \<le> f * lo"
    using mult_right_mono [of f 65536 hi] mult_right_mono_neg [of f 65536 lo] assms by simp_all
  ultimately have "f * s \<le> 65536 * hi" "65536 * lo \<le> f * s"
    by linarith+
  then show ?thesis
    using zdiv_mono1 [of "65536 * lo" "f * s" 65536] zdiv_mono1 [of "f * s" "65536 * hi" 65536] by simp
qed

lemma log2_poly_bounds:
  assumes "sint f \<in> {0..65535}"
  shows "sint (log2_poly f) \<in> {0..94130}"
proof -
  define s1 where "s1 = signed_drop_bit 16 (f * (- 5198)) + (20499 :: 48 word)"
  have "sint (signed_drop_bit 16 (f * (- 5198))) \<in> {-5198..0}"
    using signed_product [OF assms, of "- 5198"] floor_between [OF assms, of "- 5198" "- 5198" 0] by simp
  then have s1: "sint s1 \<in> {15301..20499}"
    using signed_sum [of "signed_drop_bit 16 (f * (- 5198))" 20499] by (simp add: s1_def)
  define s2 where "s2 = signed_drop_bit 16 (f * s1) + (- 43916 :: 48 word)"
  have "sint (signed_drop_bit 16 (f * s1)) \<in> {0..20499}"
    using signed_product [OF assms, of s1] floor_between [OF assms, of "sint s1" 0 20499] s1 by simp
  then have s2: "sint s2 \<in> {-43916..-23417}"
    using signed_sum [of "signed_drop_bit 16 (f * s1)" "- 43916"] by (simp add: s2_def)
  define s3 where "s3 = signed_drop_bit 16 (f * s2) + (94130 :: 48 word)"
  have "sint (signed_drop_bit 16 (f * s2)) \<in> {-43916..0}"
    using signed_product [OF assms, of s2] floor_between [OF assms, of "sint s2" "- 43916" 0] s2 by simp
  then have s3: "sint s3 \<in> {50214..94130}"
    using signed_sum [of "signed_drop_bit 16 (f * s2)" 94130] by (simp add: s3_def)
  have "log2_poly f = signed_drop_bit 16 (f * s3)"
    by (simp add: log2_poly_def Let_def s1_def s2_def s3_def)
  then show ?thesis
    using signed_product [OF assms, of s3] floor_between [OF assms, of "sint s3" 0 94130] s3 by simp
qed

lemma small_sint:
  assumes "unat y < 2 ^ 31"
  shows "sint (y :: u32) = int (unat y)"
proof -
  have "uint y < 2 ^ 31"
    using assms of_nat_less_iff [where 'a = int, of "unat y" "2 ^ 31"] by simp
  then show ?thesis
    by (simp add: sint_uint) (rule signed_take_bit_int_eq_self, auto intro: order.trans [OF _ uint_ge_0])
qed

lemma zero_extended: "(ucast (ucast (w :: u5) :: u16) :: u32) = of_nat (unat w)"
proof (rule bit_word_eqI)
  fix n
  show "bit (ucast (ucast w :: u16) :: u32) n = bit (of_nat (unat w) :: u32) n" if "n < LENGTH(32)"
    using bit_imp_le_length [of w n] that by (auto simp: bit_simps)
qed

lemma scast_small:
  assumes "n < 2 ^ 31"
  shows "(scast (of_nat n :: u32) :: 48 word) = of_nat n"
proof -
  have "sint (of_nat n :: u32) = int n"
    using assms by (subst small_sint) (simp_all add: unat_of_nat)
  then have "(scast (of_nat n :: u32) :: 48 word) = word_of_int (int n)"
    by (simp only: scast_eq)
  then show ?thesis
    by simp
qed

lemma ln_tail:
  assumes "n \<le> 2125746"
  shows "unat (ucast (bitsel 47 16 ((scast (of_nat n :: u32) :: 48 word) * 45426)) :: u32) = n * 45426 div 65536"
proof -
  define w where "w = (of_nat (n * 45426) :: 48 word)"
  have w: "unat w = n * 45426"
    unfolding w_def unat_of_nat using assms by simp
  have b: "bitsel 47 16 w = drop_bit 16 w"
    by (rule bit_word_eqI) (auto simp: bit_simps dest: bit_imp_le_length)
  have "unat (ucast (bitsel 47 16 w) :: u32) = take_bit 32 (n * 45426 div 65536)"
    by (simp only: b unsigned_ucast_eq unat_drop_bit_eq w) (simp add: drop_bit_eq_div)
  also have "\<dots> = n * 45426 div 65536"
    using assms by (intro take_bit_nat_eq_self) simp
  finally show ?thesis
    using assms scast_small [of n] by (simp add: w_def)
qed

text \<open>The integer part is taken modulo 32: 16 too large below 1 instead of negative.\<close>

lemma ln_value:
  assumes "v \<noteq> 0" and "unat v < 2 ^ 31"
  defines "l \<equiv> unat (leading_one 30 v)"
  obtains s where "s \<le> 94130" and "unat (compute_ln v) = ((l + 16) mod 32 * 65536 + s) * 45426 div 65536"
proof (cases "v = 0x10000")
  case True
  have "(2 :: nat) ^ l \<le> 2 ^ 16" "(2 :: nat) ^ 16 < 2 ^ Suc l"
    using leading_one [of v 30] by (simp_all add: l_def True)
  then have "l = 16"
    using power_le_imp_le_exp [of "2 :: nat" l 16] power_less_imp_less_exp [of "2 :: nat" 16 "Suc l"] by simp
  then show ?thesis
    using that [of 0] by (simp add: True compute_ln_def)
next
  case False
  have l: "2 ^ l \<le> unat v" "unat v < 2 ^ Suc l" "l \<le> 30"
    using leading_one [of v 30] assms(1,2) by (simp_all add: l_def)
  have nb: "\<not> bit v 31"
  proof -
    have "bit v 31 \<longleftrightarrow> bit (unat v) 31"
      by (simp add: bit_unsigned_iff bit_imp_possible_bit)
    then show ?thesis
      using assms(2) by (simp add: bit_iff_odd)
  qed
  have u: "unat (leading_one 30 v) = l"
    by (simp add: l_def)
  have c: "16 \<le> leading_one 30 v \<longleftrightarrow> 16 \<le> l"
    by (simp add: word_le_nat_alt u)
  define x where "x = (if 16 \<le> leading_one 30 v then drop_bit (unat (leading_one 30 v - 16)) v
    else push_bit (unat (16 - leading_one 30 v)) v)"
  have x: "unat x \<in> {65536..<131072}"
  proof (cases "16 \<le> l")
    case True
    have "unat x = unat v div 2 ^ (l - 16)"
      using True c u unat_sub [of 16 "leading_one 30 v"]
      by (simp only: x_def if_True unat_drop_bit_eq) (simp add: drop_bit_eq_div)
    moreover have "2 ^ l = (65536 :: nat) * 2 ^ (l - 16)"
      using True power_add [of "2 :: nat" 16 "l - 16"] by simp
    ultimately show ?thesis
      using l by (simp add: less_eq_div_iff_mult_less_eq div_less_iff_less_mult)
  next
    case False
    have p: "(65536 :: nat) = 2 ^ l * 2 ^ (16 - l)"
      using False power_add [of "2 :: nat" l "16 - l"] by simp
    have b: "2 ^ l * 2 ^ (16 - l) \<le> unat v * 2 ^ (16 - l)" "unat v * 2 ^ (16 - l) < 2 ^ Suc l * 2 ^ (16 - l)"
      using l by simp_all
    then have b': "65536 \<le> unat v * 2 ^ (16 - l)" "unat v * 2 ^ (16 - l) < 2 * 65536"
      by (simp_all only: power_Suc mult.assoc p [symmetric])
    have "leading_one 30 v \<le> 16"
      using False by (simp add: word_le_nat_alt u)
    then have "unat (16 - leading_one 30 v) = 16 - l"
      using unat_sub [of "leading_one 30 v" 16] u by simp
    then have "unat x = take_bit 32 (push_bit (16 - l) (unat v))"
      using False c by (simp only: x_def if_False unsigned_push_bit_eq) simp
    also have "\<dots> = unat v * 2 ^ (16 - l)"
      using b'(2) unfolding push_bit_eq_mult by (intro take_bit_nat_eq_self) simp
    finally have "unat x = unat v * 2 ^ (16 - l)" .
    then show ?thesis
      using b' by simp
  qed
  define f where "f = (scast (x - 0x10000) :: 48 word)"
  have d: "unat (x - 0x10000) = unat x - 65536"
    using x by (simp add: unat_sub_if')
  have "unat (x - 0x10000) < 2 ^ 31"
    using x d by auto
  moreover define m where "m = unat x - 65536"
  ultimately have "sint (x - 0x10000) = int m"
    by (simp only: small_sint d)
  moreover have "m \<le> 65535"
    using x by (auto simp: m_def)
  ultimately have "sint f \<in> {0..65535}"
    by (simp add: f_def signed_scast_eq signed_take_bit_int_eq_self)
  note p = log2_poly_bounds [OF this]
  define e where "e = (l + 16) mod 32"
  have "e = l - 16" if "16 \<le> l"
  proof -
    have "l + 16 = (l - 16) + 32"
      using that by simp
    then show ?thesis
      using l(3) by (simp only: e_def mod_add_self2) simp
  qed
  then have e: "e < 32" "unat (leading_one 30 v - 16) = e"
    using l(3) by (simp_all add: e_def unat_sub_if' u)
  define s where "s = nat (sint (log2_poly f))"
  have s: "s \<le> 94130" "sint (log2_poly f) = int s"
    using p by (auto simp: s_def)
  have "word_of_int (sint (log2_poly f)) = log2_poly f"
    by simp
  then have "log2_poly f = of_nat s"
    by (simp add: s(2))
  then have s': "ucast (log2_poly f) = (of_nat s :: u32)"
    using s(1) by (simp add: unsigned_of_nat take_bit_nat_eq_self)
  have "(ucast (ucast (leading_one 30 v - 16) :: u16) :: u32) = of_nat e"
    unfolding e(2) [symmetric] by (rule zero_extended)
  then have e': "push_bit 16 (ucast (ucast (leading_one 30 v - 16) :: u16)) = (of_nat (e * 65536) :: u32)"
    by (simp add: push_bit_eq_mult mult.commute)
  define n where "n = e * 65536 + s"
  have n: "n \<le> 2125746"
    using e(1) s(1) by (simp add: n_def)
  have "compute_ln v = ucast (bitsel 47 16 ((scast (of_nat n :: u32) :: 48 word) * 45426))"
    using assms(1) nb False
    by (simp only: compute_ln_def Let_def if_False x_def [symmetric] f_def [symmetric] s' e' n_def of_nat_add)
  then have "unat (compute_ln v) = n * 45426 div 65536"
    using ln_tail [OF n] by simp
  then show ?thesis
    using that [OF s(1)] by (simp add: e_def n_def)
qed

text \<open>C12: The logarithm of the EML unit is wrong below 1. Every operand between 0 and 1 gets a result above
  11.09, larger than the one of every operand from 1 up to the largest, where the result is at most one
  octave above the integer part of the binary logarithm: the integer part is computed in 5 bits and zero
  extended, so that -1 becomes 31.\<close>

theorem ln_below_one_is_largest:
  assumes "0 < x" and "x < 0x10000" and "0x10000 \<le> y" and "y < 0x80000000"
  shows "compute_ln y < compute_ln x \<and> 16 * 45426 \<le> unat (compute_ln x) \<and> unat (compute_ln y) < 16 * 45426"
proof -
  have x: "x \<noteq> 0" "unat x < 2 ^ 31" "unat x < 2 ^ 16" and y: "y \<noteq> 0" "unat y < 2 ^ 31" "2 ^ 16 \<le> unat y"
    using assms by (auto simp: word_less_nat_alt word_le_nat_alt)
  obtain s where s: "unat (compute_ln x) = ((unat (leading_one 30 x) + 16) mod 32 * 65536 + s) * 45426 div 65536"
    using ln_value [OF x(1,2)] by metis
  obtain t where t: "t \<le> 94130" "unat (compute_ln y) = ((unat (leading_one 30 y) + 16) mod 32 * 65536 + t) * 45426 div 65536"
    using ln_value [OF y(1,2)] by metis
  have "(2 :: nat) ^ unat (leading_one 30 x) < 2 ^ 16"
    using leading_one [of x 30] x by (simp add: order.strict_trans1)
  then have lx: "unat (leading_one 30 x) < 16"
    by (rule power_less_imp_less_exp [rotated]) simp
  have "(2 :: nat) ^ 16 < 2 ^ Suc (unat (leading_one 30 y))" "unat (leading_one 30 y) \<le> 30"
    using leading_one [of y 30] y by (simp_all add: order.strict_trans1)
  then have "16 \<le> unat (leading_one 30 y)"
    using power_less_imp_less_exp [of "2 :: nat" 16 "Suc (unat (leading_one 30 y))"] by simp
  then have "(unat (leading_one 30 y) + 16) mod 32 \<le> 14"
    using mod_add_self2 [of "unat (leading_one 30 y) - 16" 32] \<open>unat (leading_one 30 y) \<le> 30\<close>
    by (simp add: add.commute)
  then have "(unat (leading_one 30 y) + 16) mod 32 * 65536 + t \<le> 1011634"
    using t(1) by simp
  then have "unat (compute_ln y) \<le> 1011634 * 45426 div 65536"
    unfolding t(2) by (intro div_le_mono mult_le_mono) simp_all
  moreover have "16 * 65536 \<le> (unat (leading_one 30 x) + 16) mod 32 * 65536 + s"
    using lx by simp
  then have "16 * 65536 * 45426 div 65536 \<le> unat (compute_ln x)"
    unfolding s by (intro div_le_mono mult_le_mono) simp_all
  ultimately show ?thesis
    by (simp add: word_less_nat_alt)
qed

lemma ln_below_one_is_largest_witness:
  "compute_ln 0x7FFFFFFF < compute_ln 0x8000 \<and> 16 * 45426 \<le> unat (compute_ln 0x8000) \<and> unat (compute_ln 0x7FFFFFFF) < 16 * 45426"
  by (rule ln_below_one_is_largest) simp_all

section \<open>The clocked unit\<close>

definition calculate_hash :: "u32 \<Rightarrow> u32 \<Rightarrow> u8" where
  "calculate_hash a b =
     ucast a XOR ucast (bitsel 15 8 a) XOR ucast (bitsel 23 16 a) XOR ucast (bitsel 31 24 a) XOR
     ucast b XOR ucast (bitsel 15 8 b) XOR ucast (bitsel 23 16 b) XOR ucast (bitsel 31 24 b)"

text \<open>The reset leaves the other two encodings of \<open>current_stage\<close> unreachable. The memory is not reset.\<close>

datatype eml_stage = ST_IDLE | ST_FETCH | ST_EXP | ST_LN | ST_SUB | ST_WB

text \<open>The encoding, which the status register shows; the stages are ordered by it.\<close>

primrec stage_code :: "eml_stage \<Rightarrow> u3" where
  "stage_code ST_IDLE = 0"
| "stage_code ST_FETCH = 1"
| "stage_code ST_EXP = 2"
| "stage_code ST_LN = 3"
| "stage_code ST_SUB = 4"
| "stage_code ST_WB = 5"

lemma stage_code_inject [simp]: "stage_code s = stage_code t \<longleftrightarrow> s = t"
  by (cases s; cases t; simp)

instantiation eml_stage :: linorder
begin

definition less_eq_eml_stage :: "eml_stage \<Rightarrow> eml_stage \<Rightarrow> bool" where
  "less_eq_eml_stage s t \<longleftrightarrow> stage_code s \<le> stage_code t"

definition less_eml_stage :: "eml_stage \<Rightarrow> eml_stage \<Rightarrow> bool" where
  "less_eml_stage s t \<longleftrightarrow> stage_code s < stage_code t"

instance
  by standard (auto simp: less_eq_eml_stage_def less_eml_stage_def order.strict_iff_order)

end

record memo_entry =
  memo_valid :: bool
  memo_tag :: u8
  memo_data :: u32

record eml_in =
  eml_rs1 :: u32
  eml_rs2 :: u32
  eml_cfg :: u32
  eml_valid :: bool

record eml =
  fetch_rs1 :: u32
  fetch_rs2 :: u32
  fetch_hash :: u8
  fetch_valid :: bool
  current_stage :: eml_stage
  depth_cnt :: u3
  exc_depth :: bool
  eml_o_valid :: bool
  eml_o_rd :: u32
  eml_o_exc :: bool
  memo_hit_d1 :: bool
  memo_data_out :: u32
  memo_hit_r :: bool
  exp_result_r :: u32
  ln_result_r :: u32
  result_r :: u32
  memo :: "u7 \<Rightarrow> memo_entry"

definition eml_ready :: "eml \<Rightarrow> bool" where
  "eml_ready s \<longleftrightarrow> current_stage s = ST_IDLE"

definition eml_accept :: "eml_in \<Rightarrow> eml \<Rightarrow> bool" where
  "eml_accept i s \<longleftrightarrow> eml_valid i \<and> eml_ready s"

definition memo_idx :: "eml \<Rightarrow> u7" where
  "memo_idx s = ucast (fetch_hash s)"

definition memo_matches :: "u8 \<Rightarrow> (u7 \<Rightarrow> memo_entry) \<Rightarrow> bool" where
  "memo_matches h m \<longleftrightarrow> memo_valid (m (ucast h)) \<and> memo_tag (m (ucast h)) = h"

text \<open>The two clocked blocks; all right-hand sides read the state before the edge.\<close>

definition fetch_edge :: "eml_in \<Rightarrow> eml \<Rightarrow> eml \<Rightarrow> eml" where
  "fetch_edge i s r =
     (if eml_accept i s
      then r\<lparr>fetch_rs1 := eml_rs1 i, fetch_rs2 := eml_rs2 i,
             fetch_hash := calculate_hash (eml_rs1 i) (eml_rs2 i), fetch_valid := True\<rparr>
      else if current_stage s = ST_WB then r\<lparr>fetch_valid := False\<rparr> else r)"

definition depth_edge :: "eml_in \<Rightarrow> eml \<Rightarrow> eml \<Rightarrow> eml" where
  "depth_edge i s r =
     r\<lparr>memo_hit_d1 := fetch_valid s \<and> memo_matches (fetch_hash s) (memo s),
       memo_data_out := memo_data (memo s (memo_idx s)),
       depth_cnt := (if eml_accept i s then depth_cnt s + 1 else if current_stage s = ST_WB then 0 else depth_cnt s),
       exc_depth := bitsel 14 12 (eml_cfg i) + 1 < ucast (depth_cnt s)\<rparr>"

definition stage_edge :: "eml_in \<Rightarrow> eml \<Rightarrow> eml \<Rightarrow> eml" where
  "stage_edge i s r =
     (case current_stage s of
        ST_IDLE \<Rightarrow> if eml_accept i s then r\<lparr>eml_o_valid := False, eml_o_exc := False, current_stage := ST_FETCH\<rparr> else r
      | ST_FETCH \<Rightarrow>
          (if memo_matches (fetch_hash s) (memo s)
           then r\<lparr>result_r := memo_data (memo s (memo_idx s)), memo_hit_r := True, current_stage := ST_EXP\<rparr>
           else r\<lparr>memo_hit_r := False, current_stage := ST_EXP\<rparr>)
      | ST_EXP \<Rightarrow> r\<lparr>exp_result_r := compute_exp (fetch_rs1 s), current_stage := ST_LN\<rparr>
      | ST_LN \<Rightarrow> r\<lparr>ln_result_r := compute_ln (fetch_rs2 s), current_stage := ST_SUB\<rparr>
      | ST_SUB \<Rightarrow> r\<lparr>result_r := (if memo_hit_r s then result_r r else exp_result_r s - ln_result_r s), current_stage := ST_WB\<rparr>
      | ST_WB \<Rightarrow>
          r\<lparr>eml_o_rd := result_r s, eml_o_valid := True, eml_o_exc := exc_depth s,
            memo := (if memo_hit_r s then memo r
                     else (memo r)(memo_idx s := \<lparr>memo_valid = True, memo_tag = fetch_hash s, memo_data = result_r s\<rparr>)),
            current_stage := ST_IDLE\<rparr>)"

definition eml_edge :: "eml_in \<Rightarrow> eml \<Rightarrow> eml" where
  "eml_edge i s = stage_edge i s (depth_edge i s (fetch_edge i s s))"

text \<open>Reset; the arguments are the registers without a reset value.\<close>

definition eml_reset :: "bool \<Rightarrow> u32 \<Rightarrow> u32 \<Rightarrow> u32 \<Rightarrow> (u7 \<Rightarrow> memo_entry) \<Rightarrow> eml" where
  "eml_reset hit e l r m =
     \<lparr>fetch_rs1 = 0, fetch_rs2 = 0, fetch_hash = 0, fetch_valid = False, current_stage = ST_IDLE, depth_cnt = 0,
      exc_depth = False, eml_o_valid = False, eml_o_rd = 0, eml_o_exc = False, memo_hit_d1 = False, memo_data_out = 0,
      memo_hit_r = hit, exp_result_r = e, ln_result_r = l, result_r = r, memo = m\<rparr>"

section \<open>One operation\<close>

text \<open>What the memory answers for the operands, and the memory afterwards.\<close>

definition eml_function :: "u32 \<Rightarrow> u32 \<Rightarrow> u32" where
  "eml_function a b = compute_exp a - compute_ln b"

definition memo_result :: "u32 \<Rightarrow> u32 \<Rightarrow> (u7 \<Rightarrow> memo_entry) \<Rightarrow> u32" where
  "memo_result a b m =
     (let h = calculate_hash a b in if memo_matches h m then memo_data (m (ucast h)) else eml_function a b)"

definition memo_after :: "u32 \<Rightarrow> u32 \<Rightarrow> (u7 \<Rightarrow> memo_entry) \<Rightarrow> u7 \<Rightarrow> memo_entry" where
  "memo_after a b m =
     (let h = calculate_hash a b in
      if memo_matches h m then m else m(ucast h := \<lparr>memo_valid = True, memo_tag = h, memo_data = eml_function a b\<rparr>))"

lemma memo_after_result:
  "memo_matches (calculate_hash a b) (memo_after a b m)"
  "memo_data (memo_after a b m (ucast (calculate_hash a b))) = memo_result a b m"
  by (simp_all add: memo_after_def memo_result_def memo_matches_def Let_def)

lemma accept_edge:
  assumes "eml_accept i s"
  shows "current_stage (eml_edge i s) = ST_FETCH" "eml_o_valid (eml_edge i s) = False" "memo (eml_edge i s) = memo s"
    "fetch_rs1 (eml_edge i s) = eml_rs1 i" "fetch_rs2 (eml_edge i s) = eml_rs2 i"
    "fetch_hash (eml_edge i s) = calculate_hash (eml_rs1 i) (eml_rs2 i)" "eml_o_rd (eml_edge i s) = eml_o_rd s"
  using assms by (simp_all add: eml_edge_def stage_edge_def depth_edge_def fetch_edge_def eml_accept_def eml_ready_def)

lemma not_idle: "current_stage s \<noteq> ST_IDLE \<Longrightarrow> \<not> eml_accept i s"
  by (simp add: eml_accept_def eml_ready_def)

lemma busy_edge:
  assumes "current_stage s \<notin> {ST_IDLE, ST_WB}"
  shows "eml_o_valid (eml_edge i s) = eml_o_valid s" "memo (eml_edge i s) = memo s"
    "fetch_rs1 (eml_edge i s) = fetch_rs1 s" "fetch_rs2 (eml_edge i s) = fetch_rs2 s"
    "fetch_hash (eml_edge i s) = fetch_hash s" "eml_o_rd (eml_edge i s) = eml_o_rd s"
  using assms not_idle [of s i]
  by (auto simp: eml_edge_def stage_edge_def depth_edge_def fetch_edge_def split: eml_stage.splits)

definition eml_next :: "eml_stage \<Rightarrow> eml_stage" where
  "eml_next t = (case t of ST_IDLE \<Rightarrow> ST_IDLE | ST_FETCH \<Rightarrow> ST_EXP | ST_EXP \<Rightarrow> ST_LN | ST_LN \<Rightarrow> ST_SUB |
     ST_SUB \<Rightarrow> ST_WB | ST_WB \<Rightarrow> ST_IDLE)"

lemma stage_of_edge:
  "current_stage (eml_edge i s) = (if eml_accept i s then ST_FETCH else eml_next (current_stage s))"
  by (auto simp: eml_edge_def stage_edge_def depth_edge_def fetch_edge_def eml_next_def eml_accept_def eml_ready_def
      split: eml_stage.splits)

text \<open>An operation in progress moves to a later stage on every edge, up to the last.\<close>

lemma stage_advances:
  assumes "ST_IDLE < current_stage s" and "current_stage s < ST_WB"
  shows "current_stage s < current_stage (eml_edge i s)"
proof -
  have "current_stage s \<noteq> ST_IDLE"
    using assms(1) by auto
  then show ?thesis
    using assms by (cases "current_stage s") (simp_all add: stage_of_edge not_idle eml_next_def less_eml_stage_def)
qed

lemma result_registers:
  "current_stage s = ST_FETCH \<Longrightarrow> memo_hit_r (eml_edge i s) = memo_matches (fetch_hash s) (memo s) \<and>
     result_r (eml_edge i s) = (if memo_matches (fetch_hash s) (memo s) then memo_data (memo s (memo_idx s)) else result_r s)"
  "current_stage s = ST_EXP \<Longrightarrow> memo_hit_r (eml_edge i s) = memo_hit_r s \<and> result_r (eml_edge i s) = result_r s \<and>
     exp_result_r (eml_edge i s) = compute_exp (fetch_rs1 s)"
  "current_stage s = ST_LN \<Longrightarrow> memo_hit_r (eml_edge i s) = memo_hit_r s \<and> result_r (eml_edge i s) = result_r s \<and>
     exp_result_r (eml_edge i s) = exp_result_r s \<and> ln_result_r (eml_edge i s) = compute_ln (fetch_rs2 s)"
  "current_stage s = ST_SUB \<Longrightarrow> memo_hit_r (eml_edge i s) = memo_hit_r s \<and>
     result_r (eml_edge i s) = (if memo_hit_r s then result_r s else exp_result_r s - ln_result_r s)"
  by (simp_all add: eml_edge_def stage_edge_def depth_edge_def fetch_edge_def not_idle)

lemma wb_edge:
  assumes "current_stage s = ST_WB"
  shows "eml_o_valid (eml_edge i s) = True" "eml_o_rd (eml_edge i s) = result_r s"
    "memo (eml_edge i s) = (if memo_hit_r s then memo s
       else (memo s)(memo_idx s := \<lparr>memo_valid = True, memo_tag = fetch_hash s, memo_data = result_r s\<rparr>))"
    "eml_o_exc (eml_edge i s) = exc_depth s"
  using assms not_idle [of s i] by (simp_all add: eml_edge_def stage_edge_def depth_edge_def fetch_edge_def)

lemma eml_op:
  assumes "eml_accept i s" and "length is = 5"
  shows "current_stage (fold eml_edge is (eml_edge i s)) = ST_IDLE"
    "eml_o_valid (fold eml_edge is (eml_edge i s))"
    "eml_o_rd (fold eml_edge is (eml_edge i s)) = memo_result (eml_rs1 i) (eml_rs2 i) (memo s)"
    "memo (fold eml_edge is (eml_edge i s)) = memo_after (eml_rs1 i) (eml_rs2 i) (memo s)"
    "\<And>k. k < 5 \<Longrightarrow> \<not> eml_o_valid (fold eml_edge (take k is) (eml_edge i s))"
proof -
  obtain i1 i2 i3 i4 i5 where i: "is = [i1, i2, i3, i4, i5]"
    using assms(2) by (auto simp: length_Suc_conv eval_nat_numeral)
  define s1 where "s1 = eml_edge i s"
  define s2 where "s2 = eml_edge i1 s1"
  define s3 where "s3 = eml_edge i2 s2"
  define s4 where "s4 = eml_edge i3 s3"
  define s5 where "s5 = eml_edge i4 s4"
  note a = accept_edge [OF assms(1), folded s1_def]
  have t2: "current_stage s2 = ST_EXP"
    using a by (simp add: s2_def stage_of_edge not_idle eml_next_def)
  have t3: "current_stage s3 = ST_LN"
    using t2 by (simp add: s3_def stage_of_edge not_idle eml_next_def)
  have t4: "current_stage s4 = ST_SUB"
    using t3 by (simp add: s4_def stage_of_edge not_idle eml_next_def)
  have t5: "current_stage s5 = ST_WB"
    using t4 by (simp add: s5_def stage_of_edge not_idle eml_next_def)
  note b = busy_edge [of s1 i1, folded s2_def] busy_edge [of s2 i2, folded s3_def] busy_edge [of s3 i3, folded s4_def]
    busy_edge [of s4 i4, folded s5_def]
  note r = result_registers(1) [OF a(1), of i1, folded s2_def] result_registers(2) [OF t2, of i2, folded s3_def]
    result_registers(3) [OF t3, of i3, folded s4_def] result_registers(4) [OF t4, of i4, folded s5_def]
  have q: "result_r s5 = memo_result (eml_rs1 i) (eml_rs2 i) (memo s)"
    "memo_hit_r s5 = memo_matches (calculate_hash (eml_rs1 i) (eml_rs2 i)) (memo s)"
    using a b r t2 t3 t4 by (simp_all add: memo_result_def eml_function_def memo_idx_def Let_def)
  have v: "\<not> eml_o_valid s1" "\<not> eml_o_valid s2" "\<not> eml_o_valid s3" "\<not> eml_o_valid s4" "\<not> eml_o_valid s5"
    using a b t2 t3 t4 by simp_all
  have k: "k < 5 \<Longrightarrow> fold eml_edge (take k is) s1 \<in> {s1, s2, s3, s4, s5}" for k
    by (auto simp: i less_Suc_eq eval_nat_numeral s2_def s3_def s4_def s5_def)
  have f: "fold eml_edge is s1 = eml_edge i5 s5"
    by (simp add: i s2_def s3_def s4_def s5_def)
  have m: "memo s5 = memo s" "memo_idx s5 = ucast (calculate_hash (eml_rs1 i) (eml_rs2 i))"
    "fetch_hash s5 = calculate_hash (eml_rs1 i) (eml_rs2 i)"
    using a b t2 t3 t4 by (simp_all add: memo_idx_def)
  have nk: "\<not> eml_o_valid (fold eml_edge (take k is) s1)" if "k < 5" for k
    using k [OF that] v by auto
  show "current_stage (fold eml_edge is (eml_edge i s)) = ST_IDLE"
    unfolding s1_def [symmetric] f using t5 by (simp add: stage_of_edge not_idle eml_next_def)
  show "eml_o_valid (fold eml_edge is (eml_edge i s))"
    unfolding s1_def [symmetric] f by (simp add: wb_edge [OF t5])
  show "eml_o_rd (fold eml_edge is (eml_edge i s)) = memo_result (eml_rs1 i) (eml_rs2 i) (memo s)"
    unfolding s1_def [symmetric] f by (simp add: wb_edge [OF t5] q)
  show "memo (fold eml_edge is (eml_edge i s)) = memo_after (eml_rs1 i) (eml_rs2 i) (memo s)"
    unfolding s1_def [symmetric] f wb_edge [OF t5] using q m by (simp add: memo_after_def memo_result_def Let_def)
  show "\<not> eml_o_valid (fold eml_edge (take k is) (eml_edge i s))" if "k < 5" for k
    unfolding s1_def [symmetric] using that by (rule nk)
qed

lemma idle_edges:
  assumes "\<forall>j \<in> set js. \<not> eml_valid j" and "current_stage s = ST_IDLE"
  shows "current_stage (fold eml_edge js s) = ST_IDLE \<and> memo (fold eml_edge js s) = memo s \<and>
    eml_o_rd (fold eml_edge js s) = eml_o_rd s \<and> eml_o_valid (fold eml_edge js s) = eml_o_valid s"
  using assms
proof (induction js arbitrary: s)
  case (Cons j js)
  have "eml_edge j s = depth_edge j s s"
    using Cons.prems by (simp add: eml_edge_def stage_edge_def fetch_edge_def eml_accept_def)
  then show ?case
    using Cons by (simp add: depth_edge_def stage_edge_def)
qed simp

text \<open>C10: An operation of the EML unit takes six edges from its acceptance whatever the operands, the memory and
  the inputs on the other edges are, also when the memory has the answer (the documents give a hit one or two cycles);
  the result is the memory's answer for the hash of the operands or \<open>exp - ln\<close>, which is then remembered, and no
  result is valid before. On the sixth edge the unit is ready again with the result still valid, so that ready is
  not the opposite of valid, as \<open>sby/eml_fv.sv\<close> asserts.\<close>

theorem eml_operation:
  assumes "eml_accept i s" and "length is = 5"
  shows "current_stage (fold eml_edge is (eml_edge i s)) = ST_IDLE \<and> eml_o_valid (fold eml_edge is (eml_edge i s)) \<and>
    eml_ready (fold eml_edge is (eml_edge i s)) \<and>
    eml_o_rd (fold eml_edge is (eml_edge i s)) = memo_result (eml_rs1 i) (eml_rs2 i) (memo s) \<and>
    memo (fold eml_edge is (eml_edge i s)) = memo_after (eml_rs1 i) (eml_rs2 i) (memo s) \<and>
    (\<forall>k < 5. \<not> eml_o_valid (fold eml_edge (take k is) (eml_edge i s)))"
  using eml_op [OF assms] by (simp add: eml_ready_def)

definition eml_request :: "u32 \<Rightarrow> u32 \<Rightarrow> eml_in" where
  "eml_request a b = \<lparr>eml_rs1 = a, eml_rs2 = b, eml_cfg = 0x3200, eml_valid = True\<rparr>"

definition eml_quiet :: eml_in where
  "eml_quiet = \<lparr>eml_rs1 = 0, eml_rs2 = 0, eml_cfg = 0x3200, eml_valid = False\<rparr>"

definition memo_blank :: "u7 \<Rightarrow> memo_entry" where
  "memo_blank = (\<lambda>_. \<lparr>memo_valid = False, memo_tag = 0, memo_data = 0\<rparr>)"

lemma eml_operation_witness:
  "eml_o_rd (fold eml_edge (replicate 5 eml_quiet) (eml_edge (eml_request 0 0x10000) (eml_reset False 0 0 0 memo_blank))) = 0x10000"
  using eml_operation [of "eml_request 0 0x10000" "eml_reset False 0 0 0 memo_blank" "replicate 5 eml_quiet"]
  by (simp add: eml_accept_def eml_ready_def eml_reset_def eml_request_def memo_result_def memo_matches_def memo_blank_def
      eml_function_def compute_exp_def compute_ln_def)

section \<open>What the memory confuses\<close>

lemma hash_swap: "calculate_hash a b = calculate_hash b a"
  by (simp add: calculate_hash_def xor.assoc xor.left_commute xor.commute)

text \<open>The memory confuses operands. After an operation, every later operation whose operands have the
  same eight-bit hash, for example the same two operands swapped, has the result of the first, with any
  number of idle edges between, whatever the memory held before.\<close>

lemma memo_confuses_operands:
  assumes "eml_accept i s" and "length is = 5" and "\<forall>j \<in> set js. \<not> eml_valid j"
    and "eml_valid i'" and "length is' = 5"
    and "calculate_hash (eml_rs1 i') (eml_rs2 i') = calculate_hash (eml_rs1 i) (eml_rs2 i)"
    and "s' = fold eml_edge js (fold eml_edge is (eml_edge i s))"
  shows "eml_o_rd (fold eml_edge is' (eml_edge i' s')) = eml_o_rd (fold eml_edge is (eml_edge i s))"
proof -
  define t where "t = fold eml_edge is (eml_edge i s)"
  note o = eml_op [OF assms(1,2), folded t_def]
  have w: "current_stage s' = ST_IDLE \<and> memo s' = memo t"
    using idle_edges [OF assms(3), of t] o(1) by (simp add: assms(7) t_def)
  then have a: "eml_accept i' s'"
    using assms(4) by (simp add: eml_accept_def eml_ready_def)
  show ?thesis
    unfolding t_def [symmetric] eml_op(3) [OF a assms(5)] o(3)
    using memo_after_result [of "eml_rs1 i" "eml_rs2 i" "memo s"] w o(4)
    by (simp add: memo_result_def [of "eml_rs1 i'"] assms(6) Let_def)
qed

lemma memo_confuses_operands_example:
  "eml_o_rd (fold eml_edge (replicate 5 eml_quiet) (eml_edge (eml_request 0x10000 0)
      (fold eml_edge [] (fold eml_edge (replicate 5 eml_quiet) (eml_edge (eml_request 0 0x10000) (eml_reset False 0 0 0 memo_blank)))))) =
    eml_o_rd (fold eml_edge (replicate 5 eml_quiet) (eml_edge (eml_request 0 0x10000) (eml_reset False 0 0 0 memo_blank)))"
  by (rule memo_confuses_operands [OF _ _ _ _ _ _ refl])
    (simp_all add: eml_accept_def eml_ready_def eml_reset_def eml_request_def hash_swap [of "0x10000"])

text \<open>The valid bits of the memory are not reset: a power-up content answers the first operation with any
  value.\<close>

lemma first_result_from_power_up:
  assumes "length is = 5"
  shows "eml_o_rd (fold eml_edge is (eml_edge (eml_request a b)
    (eml_reset hit e l r (\<lambda>_. \<lparr>memo_valid = True, memo_tag = calculate_hash a b, memo_data = v\<rparr>)))) = v"
  by (subst eml_op(3) [OF _ assms])
    (simp_all add: eml_accept_def eml_ready_def eml_reset_def eml_request_def memo_result_def memo_matches_def)

section \<open>The depth limit\<close>

inductive eml_reach :: "eml \<Rightarrow> bool" where
  start: "eml_reach (eml_reset hit e l r m)"
| edge: "eml_reach s \<Longrightarrow> eml_reach (eml_edge i s)"

definition depth_small :: "eml \<Rightarrow> bool" where
  "depth_small s \<longleftrightarrow> depth_cnt s = (if current_stage s = ST_IDLE then 0 else 1) \<and> \<not> exc_depth s \<and> \<not> eml_o_exc s"

lemma depth_small_edge:
  assumes "depth_small s"
  shows "depth_small (eml_edge i s)"
proof -
  have c: "\<not> bitsel 14 12 (eml_cfg i) + 1 < (ucast (depth_cnt s) :: u32)"
  proof -
    have "bitsel 14 12 (eml_cfg i) < 8"
      using bitsel_less [of 14 12 "eml_cfg i"] by simp
    then have "unat (bitsel 14 12 (eml_cfg i) + 1) = unat (bitsel 14 12 (eml_cfg i)) + 1"
      by (subst unat_add_lem [THEN iffD1]) (simp_all add: word_less_nat_alt)
    moreover have "unat (ucast (depth_cnt s) :: u32) \<le> 1"
      using assms by (simp add: depth_small_def)
    ultimately show ?thesis
      by (simp add: word_less_nat_alt)
  qed
  have d: "depth_cnt (eml_edge i s) = (if eml_accept i s then depth_cnt s + 1 else if current_stage s = ST_WB then 0 else depth_cnt s)"
    "exc_depth (eml_edge i s) = False"
    "eml_o_exc (eml_edge i s) = (if eml_accept i s then False else if current_stage s = ST_WB then exc_depth s else eml_o_exc s)"
    using c not_idle [of s i]
    by (auto simp: eml_edge_def stage_edge_def depth_edge_def fetch_edge_def split: eml_stage.splits)
  show ?thesis
    using assms by (auto simp: depth_small_def d stage_of_edge eml_next_def eml_accept_def eml_ready_def split: eml_stage.splits)
qed

text \<open>The EML unit never raises its depth exception: the count of nested operations is 0 or 1 in every
  reachable state, and the limit of the configuration is at least 1.\<close>

lemma eml_never_raises:
  assumes "eml_reach s"
  shows "\<not> eml_o_exc s \<and> \<not> exc_depth s \<and> depth_cnt s \<le> 1"
proof -
  have "depth_small s"
    using assms
  proof induction
    case (start hit e l r m)
    show ?case
      by (simp add: depth_small_def eml_reset_def)
  qed (rule depth_small_edge)
  then show ?thesis
    by (auto simp: depth_small_def)
qed

lemma eml_never_raises_example: "\<not> eml_o_exc (eml_edge (eml_request 0 0) (eml_reset False 0 0 0 memo_blank))"
  using eml_never_raises [OF eml_reach.edge [OF eml_reach.start, of "eml_request 0 0" False 0 0 0 memo_blank]] by simp

text \<open>Swapping the operands changes the function, but not the result of a repeated operation.\<close>

lemma eml_function_not_symmetric: "eml_function 0 0x10000 \<noteq> eml_function 0x10000 0"
  by (simp add: eml_function_def compute_exp_def compute_ln_def exp_scaled_def pow2_poly_def bitsel_def mask_eq_exp_minus_1 Let_def)

end
