(* ===== verification/Soc_Eml.thy ===== *)
theory Soc_Eml
  imports Soc_Core Rtl_Eml
begin

text \<open>
  EML instructions on the chip: the core of \<open>Rtl_Core\<close> and the unit of \<open>Rtl_Eml\<close> on the coprocessor port of
  \<open>rtl/xcew_top_v1_1.v\<close>, one edge of the common clock at a time.
\<close>

section \<open>The core and the EML unit as the top level connects them\<close>

text \<open>Both clocks run; the constant-time mode is off. The other coprocessors' answers and the rest of the core's
  inputs are arbitrary.\<close>

record eml_chip =
  ec_core :: core
  ec_eml :: eml

abbreviation req_opcode :: "eml_chip \<Rightarrow> u32" where
  "req_opcode s \<equiv> bitsel 6 0 (o_xcew_req (xcp (ec_core s)))"

definition eml_wires :: "core_in \<Rightarrow> eml_chip \<Rightarrow> core_in" where
  "eml_wires i s =
     (if req_opcode s = OPCODE_XCEW_EML then i\<lparr>i_xcew_done := eml_o_valid (ec_eml s), i_xcew_resp := eml_o_rd (ec_eml s)\<rparr>
      else if req_opcode s = OPCODE_XCEW_MISC then i\<lparr>i_xcew_done := xcew_pending (xcp (ec_core s)), i_xcew_resp := 0\<rparr>
      else i)"

text \<open>The unit is requested by every pending instruction, not only by those with the EML opcode.\<close>

definition eml_port :: "u32 \<Rightarrow> eml_chip \<Rightarrow> eml_in" where
  "eml_port cfg s =
     (let c = ec_core s; on = o_xcew_req (xcp c) \<noteq> 0 in
      \<lparr>eml_rs1 = (if on then rf_rs1_data c else 0), eml_rs2 = (if on then rf_rs2_data c else 0),
       eml_cfg = cfg, eml_valid = xcew_pending (xcp c)\<rparr>)"

definition eml_chip_edge :: "u32 \<Rightarrow> core_in \<Rightarrow> u32 \<Rightarrow> eml_chip \<Rightarrow> eml_chip" where
  "eml_chip_edge rpc i cfg s =
     \<lparr>ec_core = core_edge rpc (eml_wires i s) (ec_core s), ec_eml = eml_edge (eml_port cfg s) (ec_eml s)\<rparr>"

text \<open>On this edge the core takes the answer of the EML unit for the instruction that waits.\<close>

definition eml_answers :: "eml_chip \<Rightarrow> bool" where
  "eml_answers s \<longleftrightarrow> xcew_pending (xcp (ec_core s)) \<and> req_opcode s = OPCODE_XCEW_EML \<and> eml_o_valid (ec_eml s)"

lemma answer_taken:
  assumes "eml_answers s"
  shows "xcew_result (xcp (ec_core (eml_chip_edge rpc i cfg s))) = eml_o_rd (ec_eml s)"
    "\<not> xcew_pending (xcp (ec_core (eml_chip_edge rpc i cfg s)))"
  using assms by (simp_all add: eml_chip_edge_def core_edge_def xcew_edge_def Let_def eml_wires_def eml_answers_def)

text \<open>The steps between two answers: the core may run, issue and wait, for the EML unit only.\<close>

inductive between_answers :: "u32 \<Rightarrow> eml_chip \<Rightarrow> eml_chip \<Rightarrow> bool" for rpc where
  edge: "\<not> eml_answers s \<Longrightarrow> (xcew_pending (xcp (ec_core s)) \<longrightarrow> req_opcode s = OPCODE_XCEW_EML) \<Longrightarrow>
    between_answers rpc s (eml_chip_edge rpc i cfg s)"

inductive_cases between_answersE: "between_answers rpc s t"

section \<open>Every answer is one operation late\<close>

text \<open>The unit is busy with the operation that \<open>j\<close> started in \<open>e\<close>, or holds its result.\<close>

definition runs_op :: "eml_in \<Rightarrow> eml \<Rightarrow> eml \<Rightarrow> bool" where
  "runs_op j e t \<longleftrightarrow>
     (\<exists>is. length is < 5 \<and> t = fold eml_edge is (eml_edge j e)) \<or>
     current_stage t = ST_IDLE \<and> eml_o_valid t \<and> eml_o_rd t = memo_result (eml_rs1 j) (eml_rs2 j) (memo e)"

lemma busy_not_valid:
  assumes "eml_accept j e" and "length is < 5"
  shows "\<not> eml_o_valid (fold eml_edge is (eml_edge j e))"
  using eml_op(5) [OF assms(1), of "is @ replicate (5 - length is) eml_quiet" "length is"] assms(2) by simp

lemma runs_op_step:
  assumes "eml_accept j e" and "runs_op j e (ec_eml s)" and "between_answers rpc s t"
  shows "runs_op j e (ec_eml t)"
proof -
  obtain i cfg where t: "t = eml_chip_edge rpc i cfg s" and n: "\<not> eml_answers s"
    and p: "xcew_pending (xcp (ec_core s)) \<longrightarrow> req_opcode s = OPCODE_XCEW_EML"
    using assms(3) by (auto elim!: between_answersE)
  have et: "ec_eml t = eml_edge (eml_port cfg s) (ec_eml s)"
    by (simp add: t eml_chip_edge_def)
  show ?thesis
  proof (cases "current_stage (ec_eml s) = ST_IDLE \<and> eml_o_valid (ec_eml s)")
    case True
    then have "\<not> eml_valid (eml_port cfg s)"
      using n p by (auto simp: eml_answers_def eml_port_def Let_def)
    then show ?thesis
      using True assms(1,2) idle_edges [of "[eml_port cfg s]" "ec_eml s"] busy_not_valid [OF assms(1)]
      by (auto simp: et runs_op_def)
  next
    case False
    then obtain js where js: "length js < 5" "ec_eml s = fold eml_edge js (eml_edge j e)"
      using assms(2) by (auto simp: runs_op_def)
    then have f: "ec_eml t = fold eml_edge (js @ [eml_port cfg s]) (eml_edge j e)"
      by (simp add: et)
    show ?thesis
    proof (cases "length js = 4")
      case True
      then show ?thesis
        using eml_op(1-3) [OF assms(1), of "js @ [eml_port cfg s]"] f by (simp add: runs_op_def)
    next
      case False
      then show ?thesis
        using js(1) f unfolding runs_op_def by (intro disjI1 exI [of _ "js @ [eml_port cfg s]"]) simp
    qed
  qed
qed

text \<open>C8: An EML instruction is answered with an operation that was started before it. Let an EML instruction be
  answered. The result that the next EML instruction gets, whenever it is issued and whatever its operands
  are, is the one of the operands that were on the port when the first was answered: the unit starts
  again on that edge, and keeps its valid signal until the next start. With the constant-time mode off, and with no
  other coprocessor instruction pending between the two (\<open>between_answers\<close>).\<close>

theorem next_eml_answer_fixed:
  assumes "eml_answers s" and "current_stage (ec_eml s) = ST_IDLE"
    and "(between_answers rpc)\<^sup>*\<^sup>* (eml_chip_edge rpc i cfg s) t" and "eml_answers t"
  shows "xcew_result (xcp (ec_core (eml_chip_edge rpc i' cfg' t))) =
    memo_result (rf_rs1_data (ec_core s)) (rf_rs2_data (ec_core s)) (memo (ec_eml s))"
proof -
  have on: "o_xcew_req (xcp (ec_core s)) \<noteq> 0"
    using assms(1) by (auto simp: eml_answers_def bitsel_def OPCODE_XCEW_EML_def)
  have a: "eml_accept (eml_port cfg s) (ec_eml s)"
    using assms(1,2) by (simp add: eml_accept_def eml_ready_def eml_port_def eml_answers_def Let_def)
  have "runs_op (eml_port cfg s) (ec_eml s) (ec_eml t)"
    using assms(3)
  proof (induction rule: rtranclp_induct)
    case base
    show ?case
      unfolding runs_op_def by (intro disjI1 exI [of _ "[]"]) (simp add: eml_chip_edge_def)
  next
    case (step u v)
    then show ?case
      using runs_op_step [OF a] by blast
  qed
  then have "eml_o_rd (ec_eml t) = memo_result (eml_rs1 (eml_port cfg s)) (eml_rs2 (eml_port cfg s)) (memo (ec_eml s))"
    using assms(4) busy_not_valid [OF a] by (auto simp: runs_op_def eml_answers_def)
  then show ?thesis
    using answer_taken(1) [OF assms(4)] on by (simp add: eml_port_def Let_def)
qed

section \<open>The operands\<close>

lemma rf_read_port: "rf_rs1_data c = rf_read c (rf_rs1_addr (exs c))" "rf_rs2_data c = rf_read c (rf_rs2_addr (exs c))"
  by (simp_all add: rf_rs1_data_def rf_rs2_data_def)

lemma issued:
  assumes "ex_valid (ec_core s)" and "is_xcew (ex_instr (ec_core s))" and "\<not> xcew_pending (xcp (ec_core s))"
  shows "xcew_pending (xcp (ec_core (eml_chip_edge rpc i cfg s)))"
    "o_xcew_req (xcp (ec_core (eml_chip_edge rpc i cfg s))) = ex_instr (ec_core s)"
  using assms by (simp_all add: eml_chip_edge_def core_edge_def xcew_edge_def Let_def)

text \<open>C9: An EML instruction computes with the operands of the instruction behind it. When it is issued, the
  second stage takes in the next instruction on the same edge; an idle unit accepts, one edge later, the two
  registers which that instruction names.\<close>

theorem eml_operands_misrouted:
  assumes "ex_valid (ec_core s)" and "is_xcew (ex_instr (ec_core s))" and "\<not> xcew_pending (xcp (ec_core s))"
    and "current_stage (ec_eml s) = ST_IDLE"
    and "s' = eml_chip_edge rpc i cfg s" and "w = if_instr (ifs (ec_core s))"
  shows "xcew_pending (xcp (ec_core s')) \<and> o_xcew_req (xcp (ec_core s')) = ex_instr (ec_core s) \<and>
    fetch_rs1 (ec_eml (eml_chip_edge rpc j cfg s')) = rf_read (ec_core s') (ucast (bitsel 19 15 w)) \<and>
    fetch_rs2 (ec_eml (eml_chip_edge rpc j cfg s')) = rf_read (ec_core s') (ucast (bitsel 24 20 w))"
proof -
  have c: "ec_core s' = core_edge rpc (eml_wires i s) (ec_core s)"
    by (simp add: assms(5) eml_chip_edge_def)
  have p: "xcew_pending (xcp (ec_core s'))" "o_xcew_req (xcp (ec_core s')) = ex_instr (ec_core s)"
    using issued [OF assms(1-3)] by (simp_all add: assms(5))
  have r: "rf_rs1_addr (exs (ec_core s')) = ucast (bitsel 19 15 w)" "rf_rs2_addr (exs (ec_core s')) = ucast (bitsel 24 20 w)"
    using assms(3,6) by (simp_all add: c core_edge_def ex_edge_def stall_id_ex_def Let_def)
  have "\<not> eml_accept (eml_port cfg s) (ec_eml s)"
    using assms(3) by (simp add: eml_accept_def eml_port_def Let_def)
  then have "current_stage (ec_eml s') = ST_IDLE"
    using assms(4) by (simp add: assms(5) eml_chip_edge_def stage_of_edge eml_next_def)
  then have a: "eml_accept (eml_port cfg s') (ec_eml s')"
    using p by (simp add: eml_accept_def eml_ready_def eml_port_def Let_def)
  have "ex_instr (ec_core s) \<noteq> 0"
    using assms(2) by (auto simp: is_xcew_def bitsel_def xcew_opcodes)
  then show ?thesis
    using p accept_edge(4,5) [OF a] by (simp add: eml_chip_edge_def eml_port_def Let_def rf_read_port r)
qed

section \<open>A program of EML instructions\<close>

text \<open>A core that waits for the answer to an EML instruction, and fetches nothing but EML instructions; the unit
  has just finished.\<close>

definition eml_demo :: eml_chip where
  "eml_demo =
     \<lparr>ec_core = core_waiting\<lparr>ifs := \<lparr>pc_reg = 12, if_instr = 0x0000018B, if_pc = 8\<rparr>\<rparr>,
      ec_eml = (eml_reset False 0 0 0 memo_blank)\<lparr>eml_o_valid := True, eml_o_rd := 5\<rparr>\<rparr>"

definition demo_step :: "eml_chip \<Rightarrow> eml_chip" where
  "demo_step = eml_chip_edge 0 (calm_in\<lparr>instr := 0x0000018B\<rparr>) 0"

lemma demo_answers: "eml_answers eml_demo" "current_stage (ec_eml eml_demo) = ST_IDLE"
  by (simp_all add: eml_answers_def eml_demo_def core_waiting_def eml_reset_def bitsel_def mask_eq_exp_minus_1 xcew_opcodes)

lemma eml_word: "is_xcew 0x18B" "bitsel 6 0 (0x18B :: u32) = OPCODE_XCEW_EML"
  by (simp_all add: is_xcew_def bitsel_def mask_eq_exp_minus_1 xcew_opcodes)

lemma demo_issue:
  "ex_valid (ec_core (demo_step eml_demo)) \<and> ex_instr (ec_core (demo_step eml_demo)) = 0x18B \<and>
   \<not> xcew_pending (xcp (ec_core (demo_step eml_demo)))"
proof -
  have w: "eml_wires (calm_in\<lparr>instr := 0x18B\<rparr>) eml_demo = calm_in\<lparr>instr := 0x18B, i_xcew_resp := 5\<rparr>"
    using demo_answers(1) by (simp add: eml_wires_def eml_answers_def) (simp add: eml_demo_def eml_reset_def calm_in_def)
  let ?i = "calm_in\<lparr>instr := 0x18B, i_xcew_resp := 5\<rparr>" and ?c = "ec_core eml_demo"
  have p: "no_debug ?i" "undebugged ?c" "\<not> ex_valid ?c" "if_instr (ifs ?c) = 0x18B" "\<not> stall_id_ex ?i ?c"
    by (simp_all add: eml_demo_def core_waiting_def core_reset_def undebugged_def no_debug_def calm_in_def bit_simps
        stall_id_ex_def)
  have "\<not> xcew_pending (xcp (ec_core (demo_step eml_demo)))"
    unfolding demo_step_def by (rule answer_taken(2) [OF demo_answers(1)])
  moreover have "ec_core (demo_step eml_demo) = core_edge 0 ?i ?c"
    by (simp add: demo_step_def eml_chip_edge_def w)
  ultimately show ?thesis
    using no_debug_edge(2) [OF p(1,2) _ p(5), where rpc = 0] p(3,4) by simp
qed

lemma eml_waits:
  assumes "xcew_pending (xcp (ec_core s))" and "req_opcode s = OPCODE_XCEW_EML" and "\<not> eml_o_valid (ec_eml s)"
  shows "xcew_pending (xcp (ec_core (eml_chip_edge rpc i cfg s)))" "req_opcode (eml_chip_edge rpc i cfg s) = OPCODE_XCEW_EML"
  using assms by (simp_all add: eml_chip_edge_def core_edge_def xcew_edge_def Let_def eml_wires_def)

lemma eml_waits_run:
  assumes "eml_accept j e" and "length is + n = 5" and "ec_eml s = fold eml_edge is (eml_edge j e)"
    and "xcew_pending (xcp (ec_core s))" and "req_opcode s = OPCODE_XCEW_EML"
  shows "(between_answers 0)\<^sup>*\<^sup>* s ((demo_step ^^ n) s) \<and> eml_answers ((demo_step ^^ n) s)"
  using assms(2-5)
proof (induction n arbitrary: "is" s)
  case 0
  then show ?case
    using eml_op(2) [OF assms(1), of "is"] by (simp add: eml_answers_def)
next
  case (Suc n)
  define i where "i = calm_in\<lparr>instr := 0x0000018B\<rparr>"
  have d: "demo_step s = eml_chip_edge 0 i 0 s"
    by (simp add: demo_step_def i_def)
  have v: "\<not> eml_o_valid (ec_eml s)"
    using busy_not_valid [OF assms(1), of "is"] Suc.prems(1,2) by simp
  have "between_answers 0 s (demo_step s)"
    unfolding d using v by (intro between_answers.edge) (simp_all add: eml_answers_def Suc.prems(4))
  moreover have "(between_answers 0)\<^sup>*\<^sup>* (demo_step s) ((demo_step ^^ n) (demo_step s)) \<and>
      eml_answers ((demo_step ^^ n) (demo_step s))"
  proof (rule Suc.IH)
    show "length (is @ [eml_port 0 s]) + n = 5"
      using Suc.prems(1) by simp
    show "ec_eml (demo_step s) = fold eml_edge (is @ [eml_port 0 s]) (eml_edge j e)"
      by (simp add: d eml_chip_edge_def Suc.prems(2))
  qed (simp_all only: d eml_waits [OF Suc.prems(3,4) v])
  ultimately show ?case
    by (simp add: funpow_swap1 converse_rtranclp_into_rtranclp del: funpow.simps(2) add: funpow_Suc_right)
qed

lemma demo_port: "eml_accept (eml_port 0 eml_demo) (ec_eml eml_demo)"
  using demo_answers by (simp add: eml_accept_def eml_ready_def eml_port_def eml_answers_def Let_def)

lemma demo_run:
  "(between_answers 0)\<^sup>*\<^sup>* (demo_step eml_demo) ((demo_step ^^ 6) eml_demo)" "eml_answers ((demo_step ^^ 6) eml_demo)"
proof -
  define i where "i = calm_in\<lparr>instr := 0x0000018B\<rparr>"
  define s1 where "s1 = eml_chip_edge 0 i 0 eml_demo"
  define s2 where "s2 = eml_chip_edge 0 i 0 s1"
  have d: "demo_step eml_demo = s1" "demo_step s1 = s2" "(demo_step ^^ 6) eml_demo = (demo_step ^^ 4) s2"
    by (simp_all add: demo_step_def i_def s1_def s2_def numeral_eq_Suc funpow_swap1)
  note q = demo_issue [unfolded d]
  have s2: "xcew_pending (xcp (ec_core s2))" "req_opcode s2 = OPCODE_XCEW_EML"
    using issued [of s1 0 i 0] q eml_word by (simp_all add: s2_def)
  have "ec_eml s2 = fold eml_edge [eml_port 0 s1] (eml_edge (eml_port 0 eml_demo) (ec_eml eml_demo))"
    by (simp add: s2_def s1_def eml_chip_edge_def)
  then have "(between_answers 0)\<^sup>*\<^sup>* s2 ((demo_step ^^ 4) s2) \<and> eml_answers ((demo_step ^^ 4) s2)"
    by (intro eml_waits_run [OF demo_port _ _ s2, of "[eml_port 0 s1]" 4]) simp_all
  moreover have "between_answers 0 s1 s2"
    unfolding s2_def using q by (intro between_answers.edge) (simp_all add: eml_answers_def)
  ultimately show "(between_answers 0)\<^sup>*\<^sup>* (demo_step eml_demo) ((demo_step ^^ 6) eml_demo)"
    "eml_answers ((demo_step ^^ 6) eml_demo)"
    by (simp_all add: d converse_rtranclp_into_rtranclp)
qed

lemma demo_value: "memo_result (rf_rs1_data (ec_core eml_demo)) (rf_rs2_data (ec_core eml_demo)) (memo (ec_eml eml_demo)) = 0x80010000"
  by (simp add: eml_demo_def core_waiting_def core_reset_def rf_rs1_data_def rf_rs2_data_def rf_read_def eml_reset_def
      memo_result_def memo_matches_def memo_blank_def eml_function_def compute_exp_def compute_ln_def)

lemma next_eml_answer_fixed_witness:
  "xcew_result (xcp (ec_core (demo_step ((demo_step ^^ 6) eml_demo)))) = 0x80010000"
  using next_eml_answer_fixed [OF demo_answers demo_run(1) [unfolded demo_step_def] demo_run(2) [unfolded demo_step_def]] demo_value
  unfolding demo_step_def by simp

text \<open>An EML instruction in the second stage, an \<open>add\<close> of \<open>x4\<close> and \<open>x5\<close> behind it.\<close>

definition eml_demo2 :: eml_chip where
  "eml_demo2 =
     \<lparr>ec_core = (core_reset 0 0 0 0)\<lparr>ifs := \<lparr>pc_reg = 8, if_instr = 0x005201B3, if_pc = 4\<rparr>,
        exs := \<lparr>id_ex_instr = 0x18B, id_ex_pc = 0, id_ex_valid = True, id_imm = 0, rf_rs1_addr = 0, rf_rs2_addr = 0\<rparr>\<rparr>,
      ec_eml = eml_reset False 0 0 0 memo_blank\<rparr>"

lemma eml_operands_misrouted_witness:
  "fetch_rs1 (ec_eml (eml_chip_edge 0 calm_in 0 (eml_chip_edge 0 calm_in 0 (eml_demo2)))) =
     rf_read (ec_core (eml_chip_edge 0 calm_in 0 eml_demo2)) 4"
  using eml_operands_misrouted [of eml_demo2 _ 0 calm_in 0 _ calm_in, OF _ _ _ _ refl refl]
  by (simp add: eml_demo2_def core_reset_def eml_reset_def eml_word bitsel_def mask_eq_exp_minus_1)

end
