(* ===== verification/Rtl_Dtm.thy ===== *)
theory Rtl_Dtm
  imports Azmuth_Prelude
begin

text \<open>
  The debug transport, \<open>rtl/debug/dtm\<close>: the TAP controller \<open>jtag_tap\<close>, the data registers \<open>jtag_dr\<close> and
  \<open>dtm_top\<close>, which connects them; a step is an edge of \<open>tck\<close>.
\<close>

section \<open>\<open>jtag_tap\<close>\<close>

datatype tap_state = S_RESET | S_IDLE | S_SELECT_DR | S_CAPTURE_DR | S_SHIFT_DR | S_EXIT1_DR | S_PAUSE_DR | S_EXIT2_DR
  | S_UPDATE_DR | S_SELECT_IR | S_CAPTURE_IR | S_SHIFT_IR | S_EXIT1_IR | S_PAUSE_IR | S_EXIT2_IR | S_UPDATE_IR

fun tap_next :: "bool \<Rightarrow> tap_state \<Rightarrow> tap_state" where
  "tap_next tms S_RESET = (if tms then S_RESET else S_IDLE)"
| "tap_next tms S_IDLE = (if tms then S_SELECT_DR else S_IDLE)"
| "tap_next tms S_SELECT_DR = (if tms then S_SELECT_IR else S_CAPTURE_DR)"
| "tap_next tms S_CAPTURE_DR = (if tms then S_EXIT1_DR else S_SHIFT_DR)"
| "tap_next tms S_SHIFT_DR = (if tms then S_EXIT1_DR else S_SHIFT_DR)"
| "tap_next tms S_EXIT1_DR = (if tms then S_UPDATE_DR else S_PAUSE_DR)"
| "tap_next tms S_PAUSE_DR = (if tms then S_EXIT2_DR else S_PAUSE_DR)"
| "tap_next tms S_EXIT2_DR = (if tms then S_UPDATE_DR else S_SHIFT_DR)"
| "tap_next tms S_UPDATE_DR = (if tms then S_SELECT_DR else S_IDLE)"
| "tap_next tms S_SELECT_IR = (if tms then S_RESET else S_CAPTURE_IR)"
| "tap_next tms S_CAPTURE_IR = (if tms then S_EXIT1_IR else S_SHIFT_IR)"
| "tap_next tms S_SHIFT_IR = (if tms then S_EXIT1_IR else S_SHIFT_IR)"
| "tap_next tms S_EXIT1_IR = (if tms then S_UPDATE_IR else S_PAUSE_IR)"
| "tap_next tms S_PAUSE_IR = (if tms then S_EXIT2_IR else S_PAUSE_IR)"
| "tap_next tms S_EXIT2_IR = (if tms then S_UPDATE_IR else S_SHIFT_IR)"
| "tap_next tms S_UPDATE_IR = (if tms then S_SELECT_DR else S_IDLE)"

record tap =
  tap_state :: tap_state
  ir_reg :: u5
  ir_shift_reg :: u5
  bypass_reg :: bool
  tdo_reg :: bool

definition tap_reset :: tap where
  "tap_reset = \<lparr>tap_state = S_RESET, ir_reg = 0x1F, ir_shift_reg = 0x1F, bypass_reg = False, tdo_reg = False\<rparr>"

text \<open>\<open>{tdi, r[n:1]}\<close>.\<close>

definition shift_in :: "bool \<Rightarrow> 'a::len word \<Rightarrow> 'a word" where
  "shift_in tdi r = push_bit (LENGTH('a) - 1) (of_bool tdi) OR drop_bit 1 r"

definition tap_edge :: "bool \<Rightarrow> bool \<Rightarrow> tap \<Rightarrow> tap" where
  "tap_edge tms tdi s =
     s\<lparr>tap_state := tap_next tms (tap_state s),
       ir_shift_reg := (case tap_state s of S_CAPTURE_IR \<Rightarrow> 1 | S_SHIFT_IR \<Rightarrow> shift_in tdi (ir_shift_reg s) | _ \<Rightarrow> ir_shift_reg s),
       ir_reg := (if tap_state s = S_UPDATE_IR then ir_shift_reg s else ir_reg s),
       bypass_reg := (if tap_state s = S_SHIFT_DR \<and> ir_reg s = 0x1F then tdi else bypass_reg s),
       tdo_reg := (case tap_state s of S_SHIFT_IR \<Rightarrow> bit (ir_shift_reg s) 0
          | S_SHIFT_DR \<Rightarrow> ir_reg s = 0x1F \<and> bypass_reg s | _ \<Rightarrow> False)\<rparr>"

section \<open>\<open>jtag_dr\<close>\<close>

text \<open>The bit counter, which nothing reads, is left out.\<close>

record jtag_dr =
  idcode_shift :: u32
  dtmcs_shift :: u32
  dmi_shift_reg :: "41 word"
  dmi_op_started :: bool
  dr_dmi_req :: bool
  dr_dmi_wr :: bool
  dr_dmi_addr :: u7
  dr_dmi_wdata :: u32

definition dr_reset :: jtag_dr where
  "dr_reset = \<lparr>idcode_shift = 0, dtmcs_shift = 0, dmi_shift_reg = 0, dmi_op_started = False, dr_dmi_req = False,
     dr_dmi_wr = False, dr_dmi_addr = 0, dr_dmi_wdata = 0\<rparr>"

definition idcode_reg :: u32 where "idcode_reg = 0x00000001"
definition dtmcs_reg :: u32 where "dtmcs_reg = push_bit 28 1 OR push_bit 17 0x40"

definition dr_edge :: "bool \<Rightarrow> u32 \<Rightarrow> tap \<Rightarrow> jtag_dr \<Rightarrow> jtag_dr" where
  "dr_edge tdi rdata t d =
     (let capture = (tap_state t = S_CAPTURE_DR); shift = (tap_state t = S_SHIFT_DR); update = (tap_state t = S_UPDATE_DR);
          ir = ir_reg t; q = dmi_shift_reg d;
          issue = (update \<and> ir = 0x11 \<and> \<not> dmi_op_started d)
      in d\<lparr>idcode_shift := (if capture \<and> ir = 0x01 then idcode_reg
               else if shift \<and> ir = 0x01 then shift_in tdi (idcode_shift d) else idcode_shift d),
           dtmcs_shift := (if capture \<and> ir = 0x10 then dtmcs_reg
               else if shift \<and> ir = 0x10 then shift_in tdi (dtmcs_shift d) else dtmcs_shift d),
           dmi_shift_reg := (if capture \<and> ir = 0x11 then push_bit 39 1 OR ucast rdata
               else if shift \<and> ir = 0x11 then shift_in tdi q else q),
           dmi_op_started := (if issue then True else if capture \<and> ir = 0x11 then False else dmi_op_started d),
           dr_dmi_req := issue,
           dr_dmi_wr := (if issue then bit q 40 else dr_dmi_wr d),
           dr_dmi_addr := (if issue then ucast (drop_bit 33 q) else dr_dmi_addr d),
           dr_dmi_wdata := (if issue then ucast (drop_bit 1 q) else dr_dmi_wdata d)\<rparr>)"

definition dr_tdo :: "tap \<Rightarrow> jtag_dr \<Rightarrow> bool" where
  "dr_tdo t d =
     (if ir_reg t = 0x01 then bit (idcode_shift d) 0 else if ir_reg t = 0x10 then bit (dtmcs_shift d) 0
      else if ir_reg t = 0x11 then bit (dmi_shift_reg d) 0 else False)"

section \<open>\<open>dtm_top\<close>\<close>

record dtm =
  dtm_tap :: tap
  dtm_dr :: jtag_dr

record tck_in =
  tms :: bool
  tdi :: bool
  dtm_rdata :: u32

text \<open>An edge of \<open>tck\<close> while the module is enabled; \<open>trst_n\<close> or the strap resets both parts.\<close>

definition dtm_edge :: "tck_in \<Rightarrow> dtm \<Rightarrow> dtm" where
  "dtm_edge x s = \<lparr>dtm_tap = tap_edge (tms x) (tdi x) (dtm_tap s), dtm_dr = dr_edge (tdi x) (dtm_rdata x) (dtm_tap s) (dtm_dr s)\<rparr>"

definition dtm_reset :: dtm where
  "dtm_reset = \<lparr>dtm_tap = tap_reset, dtm_dr = dr_reset\<rparr>"

definition dtm_tdo :: "dtm \<Rightarrow> bool" where
  "dtm_tdo s = (if tap_state (dtm_tap s) = S_SHIFT_DR \<and> ir_reg (dtm_tap s) \<noteq> 0x1F then dr_tdo (dtm_tap s) (dtm_dr s)
     else tdo_reg (dtm_tap s))"

section \<open>Reset by \<open>tms\<close>\<close>

lemma five_ones_reset: "tap_next True (tap_next True (tap_next True (tap_next True (tap_next True s)))) = S_RESET"
  by (cases s) simp_all

text \<open>The reset state keeps the instruction; IEEE 1149.1 has it select the identification or bypass register.\<close>

lemma tms_reset_keeps_instruction:
  assumes "\<forall>x \<in> set xs. tms x" and "tap_state (dtm_tap s) = S_RESET"
  shows "tap_state (dtm_tap (fold dtm_edge xs s)) = S_RESET \<and> ir_reg (dtm_tap (fold dtm_edge xs s)) = ir_reg (dtm_tap s)"
  using assms by (induction xs arbitrary: s) (simp_all add: dtm_edge_def tap_edge_def)

section \<open>Scans\<close>

lemma bit_shift_in:
  "bit (shift_in b (r :: 'a::len word)) n \<longleftrightarrow> n < LENGTH('a) \<and> (if n = LENGTH('a) - 1 then b else bit r (n + 1))"
  by (auto simp: shift_in_def bit_simps not_less dest: bit_imp_le_length split: if_splits)

lemma fold_shift_in:
  assumes "length bs \<le> LENGTH('a)" and "n < LENGTH('a)"
  shows "bit (fold shift_in bs (r :: 'a::len word)) n \<longleftrightarrow>
    (if n + length bs < LENGTH('a) then bit r (n + length bs) else bs ! (n + length bs - LENGTH('a)))"
  using assms
proof (induction bs arbitrary: n rule: rev_induct)
  case (snoc b bs)
  show ?case
  proof (cases "n = LENGTH('a) - 1")
    case True
    then show ?thesis
      using snoc.prems by (simp add: bit_shift_in nth_append)
  next
    case False
    then show ?thesis
      using snoc.prems snoc.IH [of "n + 1"] by (auto simp: bit_shift_in nth_append)
  qed
qed simp

lemma fold_shift_all: "fold shift_in (map (bit w) [0..<LENGTH('a)]) (r :: 'a::len word) = w"
  by (rule bit_word_eqI) (simp add: fold_shift_in)

lemma dtm_fields:
  "tap_state (dtm_tap (dtm_edge x s)) = tap_next (tms x) (tap_state (dtm_tap s))"
  "ir_reg (dtm_tap (dtm_edge x s)) = (if tap_state (dtm_tap s) = S_UPDATE_IR then ir_shift_reg (dtm_tap s) else ir_reg (dtm_tap s))"
  "ir_shift_reg (dtm_tap (dtm_edge x s)) = (case tap_state (dtm_tap s) of S_CAPTURE_IR \<Rightarrow> 1
     | S_SHIFT_IR \<Rightarrow> shift_in (tdi x) (ir_shift_reg (dtm_tap s)) | _ \<Rightarrow> ir_shift_reg (dtm_tap s))"
  by (simp_all add: dtm_edge_def tap_edge_def)

lemma dmi_register:
  assumes "ir_reg (dtm_tap s) = 0x11"
  shows "dmi_shift_reg (dtm_dr (dtm_edge x s)) = (case tap_state (dtm_tap s) of S_CAPTURE_DR \<Rightarrow> push_bit 39 1 OR ucast (dtm_rdata x)
      | S_SHIFT_DR \<Rightarrow> shift_in (tdi x) (dmi_shift_reg (dtm_dr s)) | _ \<Rightarrow> dmi_shift_reg (dtm_dr s))"
    "dmi_op_started (dtm_dr (dtm_edge x s)) = (case tap_state (dtm_tap s) of S_CAPTURE_DR \<Rightarrow> False | S_UPDATE_DR \<Rightarrow> True
      | _ \<Rightarrow> dmi_op_started (dtm_dr s))"
  using assms by (simp_all add: dtm_edge_def dr_edge_def Let_def split: tap_state.split)

lemma dmi_issue:
  assumes "tap_state (dtm_tap s) = S_UPDATE_DR" and "ir_reg (dtm_tap s) = 0x11" and "\<not> dmi_op_started (dtm_dr s)"
  shows "dr_dmi_req (dtm_dr (dtm_edge x s))" "dr_dmi_wr (dtm_dr (dtm_edge x s)) = bit (dmi_shift_reg (dtm_dr s)) 40"
    "dr_dmi_addr (dtm_dr (dtm_edge x s)) = ucast (drop_bit 33 (dmi_shift_reg (dtm_dr s)))"
    "dr_dmi_wdata (dtm_dr (dtm_edge x s)) = ucast (drop_bit 1 (dmi_shift_reg (dtm_dr s)))"
  using assms by (simp_all add: dtm_edge_def dr_edge_def Let_def)

text \<open>What a probe does: the values of \<open>tms\<close> and \<open>tdi\<close> on the edges of \<open>tck\<close>. A scan shifts a register in from
  its lowest bit, and leaves the shift state with the last bit.\<close>

type_synonym probe = "(bool \<times> bool) list"

definition jtag :: "u32 \<Rightarrow> probe \<Rightarrow> tck_in list" where
  "jtag r p = map (\<lambda>(m, b). \<lparr>tms = m, tdi = b, dtm_rdata = r\<rparr>) p"

fun shift_seq :: "bool list \<Rightarrow> probe" where
  "shift_seq [] = []"
| "shift_seq [b] = [(True, b)]"
| "shift_seq (b # c # bs) = (False, b) # shift_seq (c # bs)"

definition goto_idle :: probe where
  "goto_idle = replicate 5 (True, False) @ [(False, False)]"

definition ir_scan :: "u5 \<Rightarrow> probe" where
  "ir_scan w = [(True, False), (True, False), (False, False), (False, False)] @
     shift_seq (map (bit w) [0..<5]) @ [(True, False), (False, False)]"

definition dr_scan :: "41 word \<Rightarrow> probe" where
  "dr_scan w = [(True, False), (False, False), (False, False)] @
     shift_seq (map (bit w) [0..<41]) @ [(True, False), (False, False)]"

lemma jtag_simps [simp]:
  "jtag r [] = []" "jtag r ((m, b) # p) = \<lparr>tms = m, tdi = b, dtm_rdata = r\<rparr> # jtag r p" "jtag r (p @ q) = jtag r p @ jtag r q"
  by (simp_all add: jtag_def)

lemma goto_idle: "tap_state (dtm_tap (fold dtm_edge (jtag r goto_idle) s)) = S_IDLE"
  using five_ones_reset [of "tap_state (dtm_tap s)"]
  by (simp add: goto_idle_def numeral_eq_Suc dtm_fields)

lemma shift_ir:
  assumes "tap_state (dtm_tap s) = S_SHIFT_IR" and "bs \<noteq> []"
  shows "tap_state (dtm_tap (fold dtm_edge (jtag r (shift_seq bs)) s)) = S_EXIT1_IR"
    "ir_shift_reg (dtm_tap (fold dtm_edge (jtag r (shift_seq bs)) s)) = fold shift_in bs (ir_shift_reg (dtm_tap s))"
  using assms by (induction bs arbitrary: s rule: shift_seq.induct) (simp_all add: dtm_fields)

lemma shift_dmi:
  assumes "tap_state (dtm_tap s) = S_SHIFT_DR" and "ir_reg (dtm_tap s) = 0x11" and "bs \<noteq> []"
  shows "tap_state (dtm_tap (fold dtm_edge (jtag r (shift_seq bs)) s)) = S_EXIT1_DR \<and>
    ir_reg (dtm_tap (fold dtm_edge (jtag r (shift_seq bs)) s)) = 0x11 \<and>
    dmi_shift_reg (dtm_dr (fold dtm_edge (jtag r (shift_seq bs)) s)) = fold shift_in bs (dmi_shift_reg (dtm_dr s)) \<and>
    dmi_op_started (dtm_dr (fold dtm_edge (jtag r (shift_seq bs)) s)) = dmi_op_started (dtm_dr s)"
  using assms by (induction bs arbitrary: s rule: shift_seq.induct) (simp_all add: dtm_fields dmi_register)

lemma ir_scan:
  assumes "tap_state (dtm_tap s) = S_IDLE"
  shows "tap_state (dtm_tap (fold dtm_edge (jtag r (ir_scan w)) s)) = S_IDLE" "ir_reg (dtm_tap (fold dtm_edge (jtag r (ir_scan w)) s)) = w"
proof -
  define t where "t = fold dtm_edge (jtag r [(True, False), (True, False), (False, False), (False, False)]) s"
  have t: "tap_state (dtm_tap t) = S_SHIFT_IR"
    using assms by (simp add: t_def dtm_fields)
  define u where "u = fold dtm_edge (jtag r (shift_seq (map (bit w) [0..<5]))) t"
  have u: "tap_state (dtm_tap u) = S_EXIT1_IR" "ir_shift_reg (dtm_tap u) = w"
    using shift_ir [OF t, of "map (bit w) [0..<5]" r] fold_shift_all [of w "ir_shift_reg (dtm_tap t)"] by (simp_all add: u_def)
  have f: "fold dtm_edge (jtag r (ir_scan w)) s = fold dtm_edge (jtag r [(True, False), (False, False)]) u"
    by (simp only: ir_scan_def jtag_simps fold_append comp_apply t_def u_def)
  show "tap_state (dtm_tap (fold dtm_edge (jtag r (ir_scan w)) s)) = S_IDLE" "ir_reg (dtm_tap (fold dtm_edge (jtag r (ir_scan w)) s)) = w"
    unfolding f using u by (simp_all add: dtm_fields)
qed

lemma dr_scan:
  fixes w r s
  assumes "tap_state (dtm_tap s) = S_IDLE" and "ir_reg (dtm_tap s) = 0x11"
  defines "d \<equiv> dtm_dr (fold dtm_edge (jtag r (dr_scan w)) s)"
  shows "dr_dmi_req d \<and> dr_dmi_wr d = bit w 40 \<and> dr_dmi_addr d = ucast (drop_bit 33 w) \<and> dr_dmi_wdata d = ucast (drop_bit 1 w)"
proof -
  define t where "t = fold dtm_edge (jtag r [(True, False), (False, False), (False, False)]) s"
  have t: "tap_state (dtm_tap t) = S_SHIFT_DR" "ir_reg (dtm_tap t) = 0x11" "\<not> dmi_op_started (dtm_dr t)"
    using assms by (simp_all add: t_def dtm_fields dmi_register)
  define u where "u = fold dtm_edge (jtag r (shift_seq (map (bit w) [0..<41]))) t"
  have u: "tap_state (dtm_tap u) = S_EXIT1_DR" "ir_reg (dtm_tap u) = 0x11" "dmi_shift_reg (dtm_dr u) = w"
    "\<not> dmi_op_started (dtm_dr u)"
    using shift_dmi [OF t(1,2), of "map (bit w) [0..<41]" r] fold_shift_all [of w "dmi_shift_reg (dtm_dr t)"] t(3)
    by (simp_all add: u_def)
  have f: "fold dtm_edge (jtag r (dr_scan w)) s = fold dtm_edge (jtag r [(True, False), (False, False)]) u"
    by (simp only: dr_scan_def jtag_simps fold_append comp_apply t_def u_def)
  show ?thesis
    unfolding d_def f using u by (simp add: dmi_issue dtm_fields dmi_register)
qed

text \<open>A request to the debug module as 41 bits: the lowest bit is not used, the operation is the highest.\<close>

definition dmi_frame :: "bool \<Rightarrow> u7 \<Rightarrow> u32 \<Rightarrow> 41 word" where
  "dmi_frame wr a v = push_bit 40 (of_bool wr) OR push_bit 33 (ucast a) OR push_bit 1 (ucast v)"

lemma bit_dmi_frame:
  "bit (dmi_frame wr a v) n \<longleftrightarrow> n = 40 \<and> wr \<or> 33 \<le> n \<and> n < 40 \<and> bit a (n - 33) \<or> 1 \<le> n \<and> n < 33 \<and> bit v (n - 1)"
proof -
  have "bit a (n - 33) \<Longrightarrow> n - 33 < 7" "bit v (n - 1) \<Longrightarrow> n - 1 < 32"
    using bit_imp_le_length [of a "n - 33"] bit_imp_le_length [of v "n - 1"] by simp_all
  then show ?thesis
    unfolding dmi_frame_def bit_or_iff bit_push_bit_iff bit_unsigned_iff bit_of_bool_iff possible_bit_word by auto
qed

lemma dmi_frame_fields:
  "bit (dmi_frame wr a v) 40 = wr" "ucast (drop_bit 33 (dmi_frame wr a v)) = a" "ucast (drop_bit 1 (dmi_frame wr a v)) = v"
  by (auto intro!: bit_word_eqI simp: bit_unsigned_iff bit_drop_bit_eq bit_dmi_frame simp del: One_nat_def)

text \<open>C23: A probe reaches the debug module from every state of the transport: five edges with \<open>tms\<close> and one without,
  a scan of the instruction \<open>0x11\<close> and a scan of 41 bits make the request with exactly the operation,
  address and data that the frame was built from.\<close>

theorem probe_request:
  "let d = dtm_dr (fold dtm_edge (jtag r (goto_idle @ ir_scan 0x11 @ dr_scan (dmi_frame wr a v))) s)
   in dr_dmi_req d \<and> dr_dmi_wr d = wr \<and> dr_dmi_addr d = a \<and> dr_dmi_wdata d = v"
proof -
  define t where "t = fold dtm_edge (jtag r (ir_scan 0x11)) (fold dtm_edge (jtag r goto_idle) s)"
  have t: "tap_state (dtm_tap t) = S_IDLE" "ir_reg (dtm_tap t) = 0x11"
    unfolding t_def by (rule ir_scan [OF goto_idle])+
  show ?thesis
    using dr_scan [OF t, of r "dmi_frame wr a v"] by (simp add: t_def [symmetric] dmi_frame_fields Let_def del: One_nat_def)
qed

text \<open>The answer is captured at bits 31 to 0, not at bits 32 to 1 where a request has its data.\<close>

lemma captured_answer:
  assumes "tap_state (dtm_tap s) = S_CAPTURE_DR" and "ir_reg (dtm_tap s) = 0x11"
  shows "dmi_shift_reg (dtm_dr (dtm_edge x s)) = push_bit 39 1 OR ucast (dtm_rdata x)"
  using assms by (simp add: dmi_register)

end
