(* ===== verification/Rtl_Debug.thy ===== *)
theory Rtl_Debug
  imports Soc_Core Rtl_Dtm
begin

text \<open>
The debug module, \<open>rtl/debug\<close>: the register file \<open>dm_regfile\<close>, the abstract command unit
  \<open>dm_abstract_cmd\<close>, the program buffer and the triggers as \<open>dm_top\<close> connects them, and the module
  together with the core as a step relation. A register that the reset does not set starts with an
  arbitrary value.
\<close>

section \<open>The debug module interface\<close>

record dmi =
  dmi_req :: bool
  dmi_wr :: bool
  dmi_addr :: u7
  dmi_wdata :: u32

text \<open>Status of the hart, as the core reports it.\<close>

record hart =
  hart_halted :: bool
  hart_running :: bool

section \<open>\<open>dm_regfile\<close>\<close>

record dm_regs =
  dmstatus :: u32
  dmcontrol :: u32
  haltsum0 :: u32
  sbcs :: u32
  dm_halt_req :: bool
  dm_halt_req_pulse :: bool
  dm_resume_req :: bool
  dm_resume_req_pulse :: bool
  dm_reset_req :: bool
  dm_ndmreset :: bool
  dm_hartsel :: u16
  sba_enable :: bool
  regs_rdata :: u32
  regs_ack :: bool

definition dmstatus_bits :: "hart \<Rightarrow> u32 \<Rightarrow> u32" where
  "dmstatus_bits h w =
     put_bit 10 False (put_bit 9 False (put_bit 8 (hart_halted h) (put_bit 7 (hart_halted h)
       (put_bit 6 (hart_running h) (put_bit 5 (hart_running h) w)))))"

text \<open>\<open>hart_has_reset\<close> is tied to 0 and \<open>hartinfo\<close> keeps its reset value 2.\<close>

definition regs_edge :: "dmi \<Rightarrow> hart \<Rightarrow> dm_regs \<Rightarrow> dm_regs" where
  "regs_edge x h r =
     (let r1 = r\<lparr>regs_ack := dmi_req x, dmstatus := dmstatus_bits h (dmstatus r),
               haltsum0 := put_bit 0 (hart_halted h) (haltsum0 r),
               dm_halt_req_pulse := False, dm_resume_req_pulse := False\<rparr>;
          w = dmi_wdata x;
          r2 = (if dmi_req x \<and> dmi_wr x then
                  (if dmi_addr x = 0x10 then
                     r1\<lparr>dmcontrol := w, dm_halt_req_pulse := bit w 15, dm_resume_req_pulse := bit w 16,
                        dm_reset_req := bit w 17, dm_ndmreset := bit w 30, dm_hartsel := ucast (bitsel 25 6 w)\<rparr>
                   else if dmi_addr x = 0x38 then r1\<lparr>sbcs := w, sba_enable := bit w 21\<rparr>
                   else r1)
                else r1);
          r3 = (if dmi_req x \<and> \<not> dmi_wr x then
                  r2\<lparr>regs_rdata := (if dmi_addr x = 0x04 then dmstatus r else if dmi_addr x = 0x10 then dmcontrol r
                     else if dmi_addr x = 0x11 then 2 else if dmi_addr x = 0x12 then haltsum0 r
                     else if dmi_addr x = 0x38 then sbcs r else 0)\<rparr>
                else r2)
      in r3\<lparr>dm_halt_req := dm_halt_req_pulse r, dm_resume_req := dm_resume_req_pulse r\<rparr>)"

section \<open>\<open>dm_abstract_cmd\<close>\<close>

text \<open>\<open>state\<close> follows \<open>next_state\<close> by one edge, and \<open>next_state\<close> is a register itself. The states that no
  transition enters are left out.\<close>

datatype cmd_state = S_IDLE | S_DECODE | S_WAIT_ACK

record abs_cmd =
  data_regs :: "u32 list"
  abstractcs :: u32
  command_reg :: "24 word"
  cmd_busy :: bool
  cmd_err :: u3
  cmd_state :: cmd_state
  next_state :: cmd_state
  core_reg_req :: bool
  core_reg_wr :: bool
  core_reg_addr :: u16
  core_reg_wdata :: u32
  abs_rdata :: u32
  abs_ack :: bool

definition cmd_write :: "dmi \<Rightarrow> abs_cmd \<Rightarrow> abs_cmd" where
  "cmd_write x a =
     (let w = dmi_wdata x; n = dmi_addr x in
      if n = 0x17 then a\<lparr>command_reg := ucast w, abstractcs := put_bit 12 True (abstractcs a), cmd_busy := True, cmd_err := 0\<rparr>
      else if n = 0x16 then a\<lparr>abstractcs := w, cmd_err := (if bitsel 10 8 w = 0 then 0 else cmd_err a)\<rparr>
      else if 0x04 \<le> n \<and> n \<le> 0x0F then a\<lparr>data_regs := (data_regs a)[unat (n - 4) := w]\<rparr>
      else a)"

definition cmd_read :: "dmi \<Rightarrow> abs_cmd \<Rightarrow> u32" where
  "cmd_read x a =
     (let n = dmi_addr x in
      if n = 0x16 then abstractcs a else if 0x04 \<le> n \<and> n \<le> 0x0F then data_regs a ! unat (n - 4) else 0)"

definition cmd_fsm :: "dmi \<Rightarrow> bool \<Rightarrow> u32 \<Rightarrow> abs_cmd \<Rightarrow> abs_cmd \<Rightarrow> abs_cmd" where
  "cmd_fsm x ack rdata a r =
     (case cmd_state a of
        S_IDLE \<Rightarrow> r\<lparr>next_state := (if dmi_req x \<and> dmi_wr x \<and> dmi_addr x = 0x17 then S_DECODE else S_IDLE)\<rparr>
      | S_DECODE \<Rightarrow>
          (if bitsel 23 20 (command_reg a) = 0
           then r\<lparr>core_reg_req := True, core_reg_wr := bit (command_reg a) 15,
                  core_reg_addr := ucast (bitsel 15 0 (command_reg a)), core_reg_wdata := data_regs a ! 0,
                  next_state := S_WAIT_ACK\<rparr>
           else r\<lparr>abstractcs := put_bit 12 False ((abstractcs r AND NOT 0x700) OR 0x400),
                  cmd_busy := False, cmd_err := 4, next_state := S_IDLE\<rparr>)
      | S_WAIT_ACK \<Rightarrow>
          (if ack
           then r\<lparr>core_reg_req := False,
                  data_regs := (if bit (command_reg a) 15 then data_regs r else (data_regs r)[0 := rdata]),
                  abstractcs := put_bit 12 False (abstractcs r), cmd_busy := False, next_state := S_IDLE\<rparr>
           else r\<lparr>next_state := S_WAIT_ACK\<rparr>))"

definition cmd_edge :: "dmi \<Rightarrow> bool \<Rightarrow> u32 \<Rightarrow> abs_cmd \<Rightarrow> abs_cmd" where
  "cmd_edge x ack rdata a =
     (let a0 = a\<lparr>cmd_state := next_state a, abs_ack := dmi_req x\<rparr>;
          a1 = (if dmi_req x \<and> dmi_wr x then cmd_write x a0 else a0);
          a2 = (if dmi_req x \<and> \<not> dmi_wr x then a1\<lparr>abs_rdata := cmd_read x a\<rparr> else a1)
      in cmd_fsm x ack rdata a a2)"

section \<open>\<open>dm_progbuf\<close> and \<open>dm_trigger\<close>\<close>

record progbuf =
  progbuf0 :: u32
  progbuf1 :: u32

definition progbuf_edge :: "bool \<Rightarrow> u2 \<Rightarrow> u32 \<Rightarrow> progbuf \<Rightarrow> progbuf" where
  "progbuf_edge wr_en index w p =
     (if wr_en then (if index = 0 then p\<lparr>progbuf0 := w\<rparr> else if index = 1 then p\<lparr>progbuf1 := w\<rparr> else p) else p)"

text \<open>There are two triggers and a two-bit selector; a write to a trigger that is not there is lost and a
  read of one is unknown, here \<open>None\<close>.\<close>

record triggers =
  tdata1 :: "u32 list"
  tdata2 :: "u32 list"
  tdata3 :: "u32 list"
  tselect :: u2

definition trigger_edge :: "bool \<Rightarrow> u12 \<Rightarrow> u32 \<Rightarrow> triggers \<Rightarrow> triggers" where
  "trigger_edge wr addr w t =
     (let n = unat (tselect t) in
      if \<not> wr then t
      else if addr = 0x7A1 then t\<lparr>tdata1 := (tdata1 t)[n := w]\<rparr>
      else if addr = 0x7A2 then t\<lparr>tdata2 := (tdata2 t)[n := w]\<rparr>
      else if addr = 0x7A3 then t\<lparr>tdata3 := (tdata3 t)[n := w]\<rparr>
      else if addr = 0x7A0 then t\<lparr>tselect := ucast (bitsel 1 0 w)\<rparr>
      else t)"

definition treg_rdata :: "bool \<Rightarrow> u12 \<Rightarrow> triggers \<Rightarrow> u32 option" where
  "treg_rdata rd addr t =
     (let n = unat (tselect t); at = (\<lambda>xs. if n < 2 then Some (xs ! n) else None) in
      if \<not> rd then Some 0 else if addr = 0x7A0 then Some (ucast (tselect t))
      else if addr = 0x7A1 then at (tdata1 t) else if addr = 0x7A2 then at (tdata2 t)
      else if addr = 0x7A3 then at (tdata3 t) else Some 0)"

definition trigger_match :: "triggers \<Rightarrow> u32 \<Rightarrow> bool \<Rightarrow> nat \<Rightarrow> bool" where
  "trigger_match t fpc if_valid j \<longleftrightarrow>
     bitsel 31 28 (tdata1 t ! j) = 2 \<and> bit (tdata1 t ! j) 2 \<and> bit (tdata1 t ! j) 6 \<and> if_valid \<and> fpc = tdata2 t ! j"

definition trigger_hit :: "triggers \<Rightarrow> u32 \<Rightarrow> bool \<Rightarrow> bool" where
  "trigger_hit t fpc if_valid \<longleftrightarrow> trigger_match t fpc if_valid 0 \<or> trigger_match t fpc if_valid 1"

section \<open>\<open>dm_top\<close>\<close>

record dm =
  dm_regfile :: dm_regs
  dm_abstract :: abs_cmd
  dm_progbuf :: progbuf
  dm_triggers :: triggers

definition data0_is_write :: "dmi \<Rightarrow> bool" where
  "data0_is_write x \<longleftrightarrow> dmi_addr x = 0x04 \<and> dmi_wr x"

definition addr_is_regfile :: "dmi \<Rightarrow> bool" where
  "addr_is_regfile x \<longleftrightarrow> \<not> data0_is_write x \<and> dmi_addr x \<in> {0x04, 0x10, 0x11, 0x12, 0x38, 0x20, 0x21}"

definition addr_is_abstract :: "dmi \<Rightarrow> bool" where
  "addr_is_abstract x \<longleftrightarrow> dmi_addr x = 0x16 \<or> dmi_addr x = 0x17 \<or> 0x04 \<le> dmi_addr x \<and> dmi_addr x \<le> 0x0F"

definition addr_is_trigger :: "dmi \<Rightarrow> bool" where
  "addr_is_trigger x \<longleftrightarrow> dmi_addr x \<in> {0x00, 0x01, 0x02, 0x03, 0x04, 0x0F}"

definition trigger_csr_addr :: "dmi \<Rightarrow> u12" where
  "trigger_csr_addr x =
     (if dmi_addr x = 0x00 then 0x7A0 else if dmi_addr x = 0x01 then 0x7A1 else if dmi_addr x = 0x03 then 0x7A1
      else if dmi_addr x = 0x02 then 0x7A2 else if dmi_addr x = 0x04 then 0x7A2 else 0)"

definition dm_ack :: "dmi \<Rightarrow> dm \<Rightarrow> bool" where
  "dm_ack x d \<longleftrightarrow> addr_is_regfile x \<and> regs_ack (dm_regfile d) \<or> addr_is_abstract x \<and> abs_ack (dm_abstract d) \<or>
     addr_is_trigger x \<and> dmi_req x"

definition dm_rdata :: "dmi \<Rightarrow> dm \<Rightarrow> u32 option" where
  "dm_rdata x d =
     (if addr_is_regfile x then Some (regs_rdata (dm_regfile d))
      else if addr_is_abstract x then Some (abs_rdata (dm_abstract d))
      else if addr_is_trigger x then
        (if dmi_addr x \<in> {0x00, 0x01, 0x02, 0x03, 0x04}
         then treg_rdata (dmi_req x \<and> \<not> dmi_wr x \<and> addr_is_trigger x) (trigger_csr_addr x) (dm_triggers d)
         else Some 0)
      else Some 0)"

text \<open>\<open>ack\<close> and \<open>rdata\<close> are the answer of the core to a register access.\<close>

definition dm_edge :: "dmi \<Rightarrow> hart \<Rightarrow> bool \<Rightarrow> u32 \<Rightarrow> dm \<Rightarrow> dm" where
  "dm_edge x h ack rdata d =
     \<lparr>dm_regfile = regs_edge (x\<lparr>dmi_req := dmi_req x \<and> addr_is_regfile x\<rparr>) h (dm_regfile d),
      dm_abstract = cmd_edge (x\<lparr>dmi_req := dmi_req x \<and> addr_is_abstract x\<rparr>) ack rdata (dm_abstract d),
      dm_progbuf = progbuf_edge (dmi_req x \<and> dmi_wr x \<and> (dmi_addr x = 0x20 \<or> dmi_addr x = 0x21))
        (ucast (bitsel 1 0 (dmi_addr x))) (dmi_wdata x) (dm_progbuf d),
      dm_triggers = trigger_edge (dmi_req x \<and> dmi_wr x \<and> addr_is_trigger x) (trigger_csr_addr x) (dmi_wdata x) (dm_triggers d)\<rparr>"

definition dm_reset :: "bool \<Rightarrow> u32 \<Rightarrow> bool \<Rightarrow> cmd_state \<Rightarrow> dm" where
  "dm_reset b1 v b2 st =
     \<lparr>dm_regfile = \<lparr>dmstatus = 0x02800800, dmcontrol = 0, haltsum0 = 0, sbcs = 0, dm_halt_req = False,
        dm_halt_req_pulse = False, dm_resume_req = False, dm_resume_req_pulse = False, dm_reset_req = False,
        dm_ndmreset = False, dm_hartsel = 0, sba_enable = False, regs_rdata = 0, regs_ack = b1\<rparr>,
      dm_abstract = \<lparr>data_regs = replicate 12 0, abstractcs = 0xC00, command_reg = 0, cmd_busy = False, cmd_err = 0,
        cmd_state = S_IDLE, next_state = st, core_reg_req = False, core_reg_wr = False, core_reg_addr = 0,
        core_reg_wdata = 0, abs_rdata = v, abs_ack = b2\<rparr>,
      dm_progbuf = \<lparr>progbuf0 = 0x13, progbuf1 = 0x13\<rparr>,
      dm_triggers = \<lparr>tdata1 = replicate 2 0x20001000, tdata2 = replicate 2 0, tdata3 = replicate 2 0, tselect = 0\<rparr>\<rparr>"

section \<open>The core under the debug module\<close>

record debugged =
  d_core :: core
  d_dm :: dm

definition hart_of :: "core \<Rightarrow> hart" where
  "hart_of c = \<lparr>hart_halted = debug_halted (dbg c), hart_running = debug_mode (dbg c) \<and> \<not> debug_halted (dbg c)\<rparr>"

definition dm_inputs :: "core_in \<Rightarrow> debugged \<Rightarrow> core_in" where
  "dm_inputs i s =
     (let r = dm_regfile (d_dm s); a = dm_abstract (d_dm s); c = d_core s in
      i\<lparr>i_dm_halt_req := dm_halt_req r, i_dm_resume_req := dm_resume_req r, i_dm_reset_req := dm_reset_req r,
        i_debug_trigger_hit := trigger_hit (dm_triggers (d_dm s)) (pc_reg (ifs c)) (hart_running (hart_of c)),
        i_dbg_reg_req := core_reg_req a, i_dbg_reg_wr := core_reg_wr a,
        i_dbg_reg_addr := ucast (bitsel 11 0 (core_reg_addr a)), i_dbg_reg_wdata := core_reg_wdata a\<rparr>)"

definition debugged_edge :: "u32 \<Rightarrow> core_in \<Rightarrow> dmi \<Rightarrow> debugged \<Rightarrow> debugged" where
  "debugged_edge rpc i x s =
     \<lparr>d_core = core_edge rpc (dm_inputs i s) (d_core s),
      d_dm = dm_edge x (hart_of (d_core s)) (o_dbg_reg_ack (d_core s)) (o_dbg_reg_rdata (d_core s)) (d_dm s)\<rparr>"

inductive debugged_step :: "u32 \<Rightarrow> debugged \<Rightarrow> debugged \<Rightarrow> bool" for rpc where
  edge: "debugged_step rpc s (debugged_edge rpc i x s)"
| reset: "debugged_step rpc s \<lparr>d_core = core_reset rpc imm a1 a2, d_dm = dm_reset b1 v b2 st\<rparr>"

inductive_cases debugged_stepE: "debugged_step rpc s s'"

section \<open>The hart is never seen running\<close>

lemma debug_mode_halted:
  assumes "debug_mode (dbg c) \<longrightarrow> debug_halted (dbg c)"
  shows "debug_mode (dbg (core_edge rpc i c)) \<longrightarrow> debug_halted (dbg (core_edge rpc i c))"
proof -
  have w: "debug_mode (dbg_csr_write a v d) = debug_mode d" "debug_halted (dbg_csr_write a v d) = debug_halted d" for a v d
    by (simp_all add: dbg_csr_write_def)
  show ?thesis
    using assms by (auto simp: core_edge_def dbg_edge_def Let_def w dbg_enter_regs_def)
qed

definition never_running :: "debugged \<Rightarrow> bool" where
  "never_running s \<longleftrightarrow> (debug_mode (dbg (d_core s)) \<longrightarrow> debug_halted (dbg (d_core s))) \<and>
     \<not> bit (dmstatus (dm_regfile (d_dm s))) 5"

lemma bit_put_bit: "bit (put_bit n b w) k \<longleftrightarrow> (if k = n then b \<and> n < 32 else bit w k)"
  by (auto simp: put_bit_def bit_simps not_le simp del: push_bit_of_1 dest: bit_imp_le_length)

lemma never_running_edge:
  assumes "never_running s"
  shows "never_running (debugged_edge rpc i x s)"
proof -
  have "\<not> hart_running (hart_of (d_core s))"
    using assms by (simp add: never_running_def hart_of_def)
  then have "\<not> bit (dmstatus (regs_edge y (hart_of (d_core s)) r)) 5" for y r
    by (simp add: regs_edge_def Let_def dmstatus_bits_def bit_put_bit)
  then show ?thesis
    using assms debug_mode_halted [of "d_core s" rpc "dm_inputs i s"]
    by (simp add: never_running_def debugged_edge_def dm_edge_def)
qed

lemma never_running_reset:
  "never_running \<lparr>d_core = core_reset rpc imm a1 a2, d_dm = dm_reset b1 v b2 st\<rparr>"
  by (simp add: never_running_def core_reset_def dm_reset_def bit_simps)

text \<open>C21: Hardware breakpoints never fire and the debugger never sees the hart running. The signal for a
  running hart is high only in debug mode and not halted, which no reachable state is; the trigger unit
  takes it as the valid signal of the fetch, and the status register as \<open>anyrunning\<close>, the one bit of it that is claimed
  here. For every program, interrupt and request of the debugger.\<close>

theorem breakpoints_never_hit:
  assumes "(debugged_step rpc)\<^sup>*\<^sup>* \<lparr>d_core = core_reset rpc imm a1 a2, d_dm = dm_reset b1 v b2 st\<rparr> s"
  shows "\<not> trigger_hit (dm_triggers (d_dm s)) pc (hart_running (hart_of (d_core s))) \<and>
    \<not> bit (dmstatus (dm_regfile (d_dm s))) 5"
proof -
  have "never_running s"
    using assms
  proof (induction rule: rtranclp_induct)
    case (step s t)
    then show ?case
      by (auto elim!: debugged_stepE intro: never_running_edge never_running_reset)
  qed (rule never_running_reset)
  then show ?thesis
    by (simp add: never_running_def trigger_hit_def trigger_match_def hart_of_def)
qed

lemma breakpoints_never_hit_witness:
  "\<not> trigger_hit (dm_triggers (d_dm \<lparr>d_core = core_reset 0 0 0 0, d_dm = dm_reset False 0 False S_IDLE\<rparr>)) 0
      (hart_running (hart_of (d_core \<lparr>d_core = core_reset 0 0 0 0, d_dm = dm_reset False 0 False S_IDLE\<rparr>))) \<and>
    \<not> bit (dmstatus (dm_regfile (d_dm \<lparr>d_core = core_reset 0 0 0 0, d_dm = dm_reset False 0 False S_IDLE\<rparr>))) 5"
  by (rule breakpoints_never_hit) (rule rtranclp.rtrancl_refl)

section \<open>Abstract commands\<close>

definition no_dmi :: dmi where
  "no_dmi = \<lparr>dmi_req = False, dmi_wr = False, dmi_addr = 0, dmi_wdata = 0\<rparr>"

definition command :: "u32 \<Rightarrow> dmi" where
  "command w = \<lparr>dmi_req = True, dmi_wr = True, dmi_addr = 0x17, dmi_wdata = w\<rparr>"

definition cmd_idle :: "debugged \<Rightarrow> bool" where
  "cmd_idle s \<longleftrightarrow> cmd_state (dm_abstract (d_dm s)) = S_IDLE \<and> next_state (dm_abstract (d_dm s)) = S_IDLE \<and>
     \<not> core_reg_req (dm_abstract (d_dm s)) \<and> \<not> o_dbg_reg_ack (d_core s) \<and> data_regs (dm_abstract (d_dm s)) \<noteq> []"

lemma abstract_of_edge:
  "dm_abstract (d_dm (debugged_edge rpc i x s)) =
     cmd_edge (x\<lparr>dmi_req := dmi_req x \<and> addr_is_abstract x\<rparr>) (o_dbg_reg_ack (d_core s)) (o_dbg_reg_rdata (d_core s))
       (dm_abstract (d_dm s))"
  by (simp add: debugged_edge_def dm_edge_def)

lemma ack_of_edge:
  "o_dbg_reg_ack (d_core (debugged_edge rpc i x s)) \<longleftrightarrow> core_reg_req (dm_abstract (d_dm s)) \<and> \<not> o_dbg_reg_ack (d_core s)"
  by (simp add: debugged_edge_def core_edge_def dbg_access_def dm_inputs_def Let_def)

lemma command_word:
  "bitsel 23 20 (ucast w :: 24 word) = 0 \<longleftrightarrow> bitsel 23 20 (w :: u32) = 0"
  "ucast (bitsel 15 0 (ucast w :: 24 word)) = (ucast (bitsel 15 0 (w :: u32)) :: u16)"
proof -
  have "bitsel 23 20 (ucast w :: 24 word) = ucast (bitsel 23 20 w)" "bitsel 23 20 w = ucast (bitsel 23 20 (ucast w :: 24 word))"
    by (auto simp: bit_simps intro!: bit_word_eqI)
  then show "bitsel 23 20 (ucast w :: 24 word) = 0 \<longleftrightarrow> bitsel 23 20 (w :: u32) = 0"
    by (metis unsigned_0)
  show "ucast (bitsel 15 0 (ucast w :: 24 word)) = (ucast (bitsel 15 0 (w :: u32)) :: u16)"
    by (auto simp: bit_simps intro!: bit_word_eqI)
qed

lemma no_dmi_edge:
  "dm_abstract (d_dm (debugged_edge rpc i no_dmi s)) =
     cmd_fsm no_dmi (o_dbg_reg_ack (d_core s)) (o_dbg_reg_rdata (d_core s)) (dm_abstract (d_dm s))
       ((dm_abstract (d_dm s))\<lparr>cmd_state := next_state (dm_abstract (d_dm s)), abs_ack := False\<rparr>)"
  by (simp add: abstract_of_edge cmd_edge_def Let_def no_dmi_def cmd_fsm_def)

text \<open>The states of the command unit after a command that is accepted.\<close>

lemma command_edges:
  fixes rpc w s i0 i1 i2 i3
  assumes s: "cmd_idle s" and w: "bitsel 23 20 w = 0" "\<not> bit w 15"
  defines "s1 \<equiv> debugged_edge rpc i0 (command w) s"
  defines "s2 \<equiv> debugged_edge rpc i1 no_dmi s1"
  defines "s3 \<equiv> debugged_edge rpc i2 no_dmi s2"
  defines "s4 \<equiv> debugged_edge rpc i3 no_dmi s3"
  shows "core_reg_req (dm_abstract (d_dm s3)) \<and> \<not> core_reg_wr (dm_abstract (d_dm s3)) \<and>
      core_reg_addr (dm_abstract (d_dm s3)) = ucast (bitsel 15 0 w) \<and> \<not> o_dbg_reg_ack (d_core s3)"
    "cmd_state (dm_abstract (d_dm s4)) = S_WAIT_ACK \<and> o_dbg_reg_ack (d_core s4) \<and>
      \<not> bit (command_reg (dm_abstract (d_dm s4))) 15 \<and> data_regs (dm_abstract (d_dm s4)) \<noteq> []"
proof -
  note i = s [unfolded cmd_idle_def]
  have a1: "cmd_state (dm_abstract (d_dm s1)) = S_IDLE \<and> next_state (dm_abstract (d_dm s1)) = S_DECODE \<and>
      command_reg (dm_abstract (d_dm s1)) = ucast w \<and> \<not> core_reg_req (dm_abstract (d_dm s1)) \<and>
      data_regs (dm_abstract (d_dm s1)) \<noteq> []"
    using i by (simp add: s1_def abstract_of_edge cmd_edge_def Let_def command_def addr_is_abstract_def cmd_write_def cmd_fsm_def)
  have k1: "\<not> o_dbg_reg_ack (d_core s1)"
    using i by (simp add: s1_def ack_of_edge)
  have a2: "cmd_state (dm_abstract (d_dm s2)) = S_DECODE \<and> next_state (dm_abstract (d_dm s2)) = S_IDLE \<and>
      command_reg (dm_abstract (d_dm s2)) = ucast w \<and> \<not> core_reg_req (dm_abstract (d_dm s2)) \<and>
      data_regs (dm_abstract (d_dm s2)) \<noteq> []"
    using a1 by (simp add: s2_def no_dmi_edge cmd_fsm_def) (simp add: no_dmi_def)
  have k2: "\<not> o_dbg_reg_ack (d_core s2)"
    using a1 by (simp add: s2_def ack_of_edge)
  have a3: "cmd_state (dm_abstract (d_dm s3)) = S_IDLE \<and> next_state (dm_abstract (d_dm s3)) = S_WAIT_ACK \<and>
      command_reg (dm_abstract (d_dm s3)) = ucast w \<and> core_reg_req (dm_abstract (d_dm s3)) \<and>
      \<not> core_reg_wr (dm_abstract (d_dm s3)) \<and> core_reg_addr (dm_abstract (d_dm s3)) = ucast (bitsel 15 0 w) \<and>
      data_regs (dm_abstract (d_dm s3)) \<noteq> []"
    using a2 w by (simp add: s3_def no_dmi_edge cmd_fsm_def command_word bit_simps)
  have k3: "\<not> o_dbg_reg_ack (d_core s3)"
    using a2 by (simp add: s3_def ack_of_edge)
  show "core_reg_req (dm_abstract (d_dm s3)) \<and> \<not> core_reg_wr (dm_abstract (d_dm s3)) \<and>
      core_reg_addr (dm_abstract (d_dm s3)) = ucast (bitsel 15 0 w) \<and> \<not> o_dbg_reg_ack (d_core s3)"
    using a3 k3 by simp
  show "cmd_state (dm_abstract (d_dm s4)) = S_WAIT_ACK \<and> o_dbg_reg_ack (d_core s4) \<and>
      \<not> bit (command_reg (dm_abstract (d_dm s4))) 15 \<and> data_regs (dm_abstract (d_dm s4)) \<noteq> []"
    using a3 k3 w by (simp add: s4_def ack_of_edge no_dmi_edge cmd_fsm_def bit_simps)
qed

text \<open>The number of a general-purpose register in a command is \<open>0x1000\<close> plus its index.\<close>

lemma gpr_number:
  assumes "bitsel 15 0 w = 0x1000 + n" and "(n :: u32) < 32"
  shows "bitsel 11 5 (ucast (bitsel 11 0 (ucast (bitsel 15 0 w) :: u16)) :: u12) = 0"
    "ucast (bitsel 4 0 (ucast (bitsel 11 0 (ucast (bitsel 15 0 w) :: u16)) :: u12)) = (ucast n :: u5)"
    "\<not> bit w 15"
proof -
  have k: "unat n < 32" "n = of_nat (unat n)"
    using assms(2) by (simp_all add: word_less_nat_alt)
  have "list_all (\<lambda>k. bitsel 11 5 (ucast (bitsel 11 0 (ucast (0x1000 + of_nat k :: u32) :: u16)) :: u12) = 0 \<and>
      ucast (bitsel 4 0 (ucast (bitsel 11 0 (ucast (0x1000 + of_nat k :: u32) :: u16)) :: u12)) = (ucast (of_nat k :: u32) :: u5) \<and>
      \<not> bit (0x1000 + of_nat k :: u32) 15) [0..<32]"
    by (simp add: upt_rec bitsel_def mask_eq_exp_minus_1)
  then have "bitsel 11 5 (ucast (bitsel 11 0 (ucast (0x1000 + n) :: u16)) :: u12) = 0 \<and>
      ucast (bitsel 4 0 (ucast (bitsel 11 0 (ucast (0x1000 + n) :: u16)) :: u12)) = (ucast n :: u5) \<and> \<not> bit (0x1000 + n) 15"
    unfolding list_all_iff using k by (auto dest!: bspec [of _ _ "unat n"])
  moreover have "bit w 15 \<longleftrightarrow> bit (bitsel 15 0 w) 15"
    by simp
  ultimately show "bitsel 11 5 (ucast (bitsel 11 0 (ucast (bitsel 15 0 w) :: u16)) :: u12) = 0"
    "ucast (bitsel 4 0 (ucast (bitsel 11 0 (ucast (bitsel 15 0 w) :: u16)) :: u12)) = (ucast n :: u5)" "\<not> bit w 15"
    unfolding assms(1) by simp_all
qed

text \<open>C22: Reading a register of the core by an abstract command: the command \<open>0x1000 + n\<close> brings register
  \<open>n\<close> into \<open>data0\<close> in five edges, whatever the core does meanwhile; the value is the one after the third
  edge, and the unit is not busy any more.\<close>

theorem abstract_register_read:
  assumes "cmd_idle s" and "bitsel 23 20 w = 0" and "bitsel 15 0 w = 0x1000 + n" and "n < 32"
    and "s3 = debugged_edge rpc i2 no_dmi (debugged_edge rpc i1 no_dmi (debugged_edge rpc i0 (command w) s))"
    and "s5 = debugged_edge rpc i4 no_dmi (debugged_edge rpc i3 no_dmi s3)"
  shows "data_regs (dm_abstract (d_dm s5)) ! 0 = (if n = 0 then 0 else regfile (d_core s3) (ucast n)) \<and>
    \<not> cmd_busy (dm_abstract (d_dm s5)) \<and> \<not> core_reg_req (dm_abstract (d_dm s5))"
proof -
  define s4 where "s4 = debugged_edge rpc i3 no_dmi s3"
  note g = gpr_number [OF assms(3,4)]
  note e = command_edges(1) [OF assms(1,2) g(3), where rpc = rpc and ?i0.0 = i0 and ?i1.0 = i1 and ?i2.0 = i2, folded assms(5)]
    command_edges(2) [OF assms(1,2) g(3), where rpc = rpc and ?i0.0 = i0 and ?i1.0 = i1 and ?i2.0 = i2 and ?i3.0 = i3,
      folded assms(5), folded s4_def]
  have z: "(ucast n :: u5) = 0 \<longleftrightarrow> n = 0"
    using assms(4) by (auto simp: unsigned_ucast_eq word_less_nat_alt take_bit_eq_mod simp flip: unat_eq_zero)
  have "o_dbg_reg_rdata (d_core s4) = (if n = 0 then 0 else regfile (d_core s3) (ucast n))"
    using e(1) g z by (simp add: s4_def debugged_edge_def core_edge_def dbg_access_def dbg_rdata_def dbg_is_gpr_def
        dbg_gpr_def dm_inputs_def Let_def)
  then show ?thesis
    using e(2) unfolding assms(6) s4_def [symmetric] by (simp add: no_dmi_edge cmd_fsm_def)
qed

text \<open>The debugger reads \<open>x3\<close> right after reset, with no instruction and no interrupt on the buses.\<close>

definition dbg_boot :: debugged where
  "dbg_boot = \<lparr>d_core = core_reset 0 0 0 0, d_dm = dm_reset False 0 False S_IDLE\<rparr>"

definition quiet_in :: core_in where
  "quiet_in = \<lparr>instr = 0x13, mem_rdata = 0, csr_rd_data = 0, i_meip = False, i_mtip = False, i_msip = False,
     i_xcew_resp = 0, i_xcew_done = False, i_dm_halt_req = False, i_dm_resume_req = False,
     i_dm_reset_req = False, i_debug_trigger_hit = False, i_dbg_reg_req = False, i_dbg_reg_wr = False,
     i_dbg_reg_addr = 0, i_dbg_reg_wdata = 0\<rparr>"

definition quiet_edge :: "debugged \<Rightarrow> debugged" where
  "quiet_edge = debugged_edge 0 quiet_in no_dmi"

lemma cmd_idle_boot: "cmd_idle dbg_boot"
  by (simp add: cmd_idle_def dbg_boot_def dm_reset_def core_reset_def)

lemma abstract_register_read_witness:
  "data_regs (dm_abstract (d_dm (quiet_edge (quiet_edge (quiet_edge (quiet_edge (debugged_edge 0 quiet_in (command 0x1003) dbg_boot))))))) ! 0 =
      regfile (d_core (quiet_edge (quiet_edge (debugged_edge 0 quiet_in (command 0x1003) dbg_boot)))) 3 \<and>
    \<not> cmd_busy (dm_abstract (d_dm (quiet_edge (quiet_edge (quiet_edge (quiet_edge (debugged_edge 0 quiet_in (command 0x1003) dbg_boot)))))))"
  unfolding quiet_edge_def
  using abstract_register_read [OF cmd_idle_boot _ _ _ refl refl, of "0x1003" "3" "0" quiet_in quiet_in quiet_in quiet_in quiet_in]
  by (simp add: bitsel_def mask_eq_exp_minus_1)

section \<open>Commands of the debug specification\<close>

text \<open>The specification puts the access size into bits 22 to 20 and the write flag into bit 16; the unit
  takes bits 23 to 20 for the kind of the command.\<close>

lemma refused_status: "bitsel 10 8 (put_bit 12 False ((w AND NOT 0x700) OR 0x400) :: u32) = 4"
  "\<not> bit (put_bit 12 False v :: u32) 12"
proof -
  show "bitsel 10 8 (put_bit 12 False ((w AND NOT 0x700) OR 0x400) :: u32) = 4"
  proof (rule bit_word_eqI)
    fix n assume "n < LENGTH(32)"
    then have "n \<in> set [0..<32]" by simp
    then show "bit (bitsel 10 8 (put_bit 12 False ((w AND NOT 0x700) OR 0x400) :: u32)) n = bit (4 :: u32) n"
      by (simp add: upt_rec) (elim disjE; simp add: bit_bitsel bit_put_bit bit_or_iff bit_and_iff bit_not_iff)
  qed
qed (simp add: bit_put_bit)

text \<open>Every register access of the debug specification, which has the access size 2 for 32-bit
  registers, is refused: after three edges the error of the unit is 4, no request has reached the core and
  the data registers are unchanged.\<close>

lemma specified_access_refused:
  assumes "cmd_idle s" and "bitsel 22 20 w = 2"
    and "s1 = debugged_edge rpc i0 (command w) s" and "s2 = debugged_edge rpc i1 no_dmi s1"
    and "s3 = debugged_edge rpc i2 no_dmi s2"
  shows "cmd_err (dm_abstract (d_dm s3)) = 4 \<and> bitsel 10 8 (abstractcs (dm_abstract (d_dm s3))) = 4 \<and>
    \<not> cmd_busy (dm_abstract (d_dm s3)) \<and> \<not> bit (abstractcs (dm_abstract (d_dm s3))) 12 \<and>
    (\<forall>t \<in> {s1, s2, s3}. \<not> core_reg_req (dm_abstract (d_dm t)) \<and> \<not> o_dbg_reg_ack (d_core t)) \<and>
    data_regs (dm_abstract (d_dm s3)) = data_regs (dm_abstract (d_dm s))"
proof -
  note i = assms(1) [unfolded cmd_idle_def]
  have n: "bitsel 23 20 (ucast w :: 24 word) \<noteq> 0"
  proof
    assume "bitsel 23 20 (ucast w :: 24 word) = 0"
    then have "bit (bitsel 23 20 w) 1 = bit (0 :: u32) 1"
      by (simp add: command_word)
    moreover have "bit (bitsel 22 20 w) 1 = bit (2 :: u32) 1"
      by (simp add: assms(2))
    ultimately show False
      by (simp add: bit_2_iff del: One_nat_def)
  qed
  have a1: "cmd_state (dm_abstract (d_dm s1)) = S_IDLE \<and> next_state (dm_abstract (d_dm s1)) = S_DECODE \<and>
      command_reg (dm_abstract (d_dm s1)) = ucast w \<and> \<not> core_reg_req (dm_abstract (d_dm s1)) \<and>
      data_regs (dm_abstract (d_dm s1)) = data_regs (dm_abstract (d_dm s)) \<and> \<not> o_dbg_reg_ack (d_core s1)"
    using i by (simp add: assms(3) ack_of_edge abstract_of_edge cmd_edge_def Let_def command_def addr_is_abstract_def
        cmd_write_def cmd_fsm_def)
  have a2: "cmd_state (dm_abstract (d_dm s2)) = S_DECODE \<and> command_reg (dm_abstract (d_dm s2)) = ucast w \<and>
      \<not> core_reg_req (dm_abstract (d_dm s2)) \<and> data_regs (dm_abstract (d_dm s2)) = data_regs (dm_abstract (d_dm s)) \<and>
      \<not> o_dbg_reg_ack (d_core s2)"
    using a1 by (simp add: assms(4) ack_of_edge no_dmi_edge cmd_fsm_def) 
  show ?thesis
    using a1 a2 n by (simp add: assms(5) ack_of_edge no_dmi_edge cmd_fsm_def refused_status [simplified])
qed

lemma specified_access_refused_example:
  "cmd_err (dm_abstract (d_dm (quiet_edge (quiet_edge (debugged_edge 0 quiet_in (command 0x00221003) dbg_boot))))) = 4"
  unfolding quiet_edge_def
  using specified_access_refused [OF cmd_idle_boot _ refl refl refl, of "0x00221003" "0" quiet_in quiet_in quiet_in]
  by (simp add: bitsel_def mask_eq_exp_minus_1)

section \<open>From the probe to the debug module\<close>

text \<open>The top level sends a request of the transport through a synchroniser as one word and takes it apart again.\<close>

definition dmi_req_data_tck :: "jtag_dr \<Rightarrow> 40 word" where
  "dmi_req_data_tck d = push_bit 39 (of_bool (dr_dmi_wr d)) OR push_bit 32 (ucast (dr_dmi_addr d)) OR ucast (dr_dmi_wdata d)"

definition dmi_of_core :: "bool \<Rightarrow> 40 word \<Rightarrow> dmi" where
  "dmi_of_core valid w = \<lparr>dmi_req = valid, dmi_wr = bit w 39, dmi_addr = ucast (drop_bit 32 w), dmi_wdata = ucast w\<rparr>"

lemma bit_dmi_word:
  "bit (dmi_req_data_tck d) n \<longleftrightarrow> n = 39 \<and> dr_dmi_wr d \<or> 32 \<le> n \<and> n < 39 \<and> bit (dr_dmi_addr d) (n - 32) \<or>
     n < 32 \<and> bit (dr_dmi_wdata d) n"
proof -
  have "bit (dr_dmi_addr d) (n - 32) \<Longrightarrow> n - 32 < 7" "bit (dr_dmi_wdata d) n \<Longrightarrow> n < 32"
    using bit_imp_le_length [of "dr_dmi_addr d" "n - 32"] bit_imp_le_length [of "dr_dmi_wdata d" n] by simp_all
  then show ?thesis
    unfolding dmi_req_data_tck_def bit_or_iff bit_push_bit_iff bit_unsigned_iff bit_of_bool_iff possible_bit_word by auto
qed

lemma dmi_word_round_trip:
  "dmi_of_core b (dmi_req_data_tck d) =
     \<lparr>dmi_req = b, dmi_wr = dr_dmi_wr d, dmi_addr = dr_dmi_addr d, dmi_wdata = dr_dmi_wdata d\<rparr>"
proof -
  have "ucast (drop_bit 32 (dmi_req_data_tck d)) = dr_dmi_addr d" "ucast (dmi_req_data_tck d) = dr_dmi_wdata d"
    by (auto intro!: bit_word_eqI simp: bit_unsigned_iff bit_drop_bit_eq bit_dmi_word)
  then show ?thesis
    by (simp add: dmi_of_core_def bit_dmi_word)
qed

text \<open>A probe can send every abstract command.\<close>

lemma probe_sends_command:
  "dmi_of_core True (dmi_req_data_tck (dtm_dr (fold dtm_edge (jtag r (goto_idle @ ir_scan 0x11 @ dr_scan (dmi_frame True 0x17 w))) s))) =
     command w"
proof -
  define t where "t = fold dtm_edge (jtag r (ir_scan 0x11)) (fold dtm_edge (jtag r goto_idle) s)"
  have t: "tap_state (dtm_tap t) = Rtl_Dtm.S_IDLE" "ir_reg (dtm_tap t) = 0x11"
    unfolding t_def by (rule ir_scan [OF goto_idle])+
  show ?thesis
    using dr_scan [OF t, of r "dmi_frame True 0x17 w"]
    by (simp add: dmi_word_round_trip command_def t_def [symmetric] dmi_frame_fields del: One_nat_def)
qed

end
