(* ===== verification/Rtl_Xcie.thy ===== *)
theory Rtl_Xcie
  imports Rtl_Core_Alu Rtl_Soc
begin

text \<open>
  Front-end modules that no top level instantiates: the decoder, the CSR block and the control state machine
  of \<open>rtl/core/xcie_*.v\<close>, and the scheduler \<open>rtl/eml/eml_dag_scheduler.v\<close>.
\<close>

section \<open>The decoder\<close>

record decoded =
  o_is_xcew :: bool
  o_xcew_id :: u4
  o_illegal :: bool

definition xcie_decode :: "u7 \<Rightarrow> u3 \<Rightarrow> decoded" where
  "xcie_decode opcode funct3 =
     (if opcode = 0x0B then \<lparr>o_is_xcew = True, o_xcew_id = 1, o_illegal = False\<rparr>
      else if opcode = 0x2B then \<lparr>o_is_xcew = True, o_xcew_id = 6, o_illegal = False\<rparr>
      else if opcode = 0x5B then \<lparr>o_is_xcew = True, o_xcew_id = 5, o_illegal = False\<rparr>
      else if opcode = 0x7B then
        (if funct3 = 0 then \<lparr>o_is_xcew = True, o_xcew_id = 2, o_illegal = False\<rparr>
         else if funct3 = 1 then \<lparr>o_is_xcew = True, o_xcew_id = 3, o_illegal = False\<rparr>
         else if funct3 = 2 then \<lparr>o_is_xcew = True, o_xcew_id = 4, o_illegal = False\<rparr>
         else \<lparr>o_is_xcew = True, o_xcew_id = 2, o_illegal = True\<rparr>)
      else \<lparr>o_is_xcew = False, o_xcew_id = 0, o_illegal = False\<rparr>)"

lemma is_xcew_id: "o_is_xcew (xcie_decode opc f) \<longleftrightarrow> o_xcew_id (xcie_decode opc f) \<noteq> 0"
  by (simp add: xcie_decode_def)

text \<open>The decoder and the core of the chip agree on which instructions are custom ones.\<close>

lemma decoder_agrees_with_core:
  "o_is_xcew (xcie_decode (ucast (bitsel 6 0 w)) f) \<longleftrightarrow> is_xcew w"
proof -
  have "(ucast (bitsel 6 0 w) :: u7) = ucast k \<longleftrightarrow> bitsel 6 0 w = k" if "k < 128" for k :: u32
  proof
    assume e: "(ucast (bitsel 6 0 w) :: u7) = ucast k"
    have "bitsel 6 0 w < 128"
      using bitsel_less [of 6 0 w] by simp
    then have "unat (bitsel 6 0 w) < 128" "unat k < 128"
      using that by (simp_all add: word_less_nat_alt)
    then show "bitsel 6 0 w = k"
      using arg_cong [OF e, of unat] by (simp add: unsigned_ucast_eq take_bit_nat_eq_self word_unat_eq_iff)
  qed simp
  from this [of "0x0B"] this [of "0x2B"] this [of "0x5B"] this [of "0x7B"] show ?thesis
    by (simp add: xcie_decode_def is_xcew_def xcew_opcodes)
qed

section \<open>The configuration registers\<close>

text \<open>The status register is never written after reset, and the address of a read is also the one of a write.\<close>

record xcie_csrs =
  xcew_cfg_reg :: u32
  xcew_status_reg :: u32
  watchdog_timeout_reg :: u32
  ecc_scrub_count_reg :: u32
  ecc_corrected_count_reg :: u32

definition xcie_csr_reset :: xcie_csrs where
  "xcie_csr_reset = \<lparr>xcew_cfg_reg = 0, xcew_status_reg = 0, watchdog_timeout_reg = 0xFFFF,
     ecc_scrub_count_reg = 0, ecc_corrected_count_reg = 0\<rparr>"

definition xcie_csr_write :: "u12 \<Rightarrow> u32 \<Rightarrow> xcie_csrs \<Rightarrow> xcie_csrs" where
  "xcie_csr_write a v s =
     (if a = 0x7C0 then
        s\<lparr>xcew_cfg_reg := push_bit 15 (bitsel 15 15 v) OR push_bit 12 (bitsel 14 12 v) OR push_bit 8 (bitsel 11 8 v) OR
             push_bit 7 (bitsel 7 7 v)\<rparr>
      else if a = 0x7CD then s\<lparr>watchdog_timeout_reg := v\<rparr>
      else if a = 0x7CE then s\<lparr>ecc_scrub_count_reg := v\<rparr>
      else if a = 0x7CF then s\<lparr>ecc_corrected_count_reg := v\<rparr>
      else s)"

definition xcie_csr_read :: "u12 \<Rightarrow> xcie_csrs \<Rightarrow> u32" where
  "xcie_csr_read a s =
     (if a = 0x7C0 then xcew_cfg_reg s else if a = 0x7C1 then xcew_status_reg s
      else if a = 0x7CD then watchdog_timeout_reg s else if a = 0x7CE then ecc_scrub_count_reg s
      else if a = 0x7CF then ecc_corrected_count_reg s else 0)"

text \<open>The registers as a bus without coprocessor and memory; the CSR contract holds with the mask of the newer
  register block, so the lemmas of a CSR are those of the drivers on the chip.\<close>

definition xcie_bus :: "xcie_csrs bus" where
  "xcie_bus = \<lparr>csrr = (\<lambda>a s. (xcie_csr_read a s, s)), csrw = xcie_csr_write, insn = (\<lambda>_ _ _ s. (0, s)),
     ld32 = (\<lambda>_ s. (0, s)), st32 = (\<lambda>_ _ s. s), st8 = (\<lambda>_ _ s. s)\<rparr>"

lemma bit_field: "bit (push_bit lo (bitsel hi lo (v :: u32))) n \<longleftrightarrow> lo \<le> n \<and> n \<le> hi \<and> bit v n"
  by (auto simp: bit_push_bit_iff dest: bit_imp_le_length)

lemma cfg_fields: "push_bit 15 (bitsel 15 15 v) OR push_bit 12 (bitsel 14 12 v) OR push_bit 8 (bitsel 11 8 v) OR
    push_bit 7 (bitsel 7 7 v) = cfg_legal v"
proof (rule u32_eqI)
  fix n :: nat
  have m: "(0xFF80 :: u32) = push_bit 7 (mask 9)"
    by (simp add: mask_eq_exp_minus_1)
  have "bit (cfg_legal v) n \<longleftrightarrow> 7 \<le> n \<and> n \<le> 15 \<and> bit v n"
    unfolding cfg_legal_def m bit_and_iff bit_push_bit_iff bit_mask_iff possible_bit_word by auto
  then show "bit (push_bit 15 (bitsel 15 15 v) OR push_bit 12 (bitsel 14 12 v) OR push_bit 8 (bitsel 11 8 v) OR
      push_bit 7 (bitsel 7 7 v)) n = bit (cfg_legal v) n"
    unfolding bit_or_iff bit_field by (cases "bit v n") (simp_all, linarith)
qed

lemma xcie_cfg_read_back: "fst (csrr xcie_bus 0x7C0 (csrw xcie_bus 0x7C0 v s)) = cfg_legal v"
  by (simp add: xcie_bus_def xcie_csr_read_def xcie_csr_write_def cfg_fields)

interpretation xcie_cfg: csr_reg xcie_bus "0x7C0" "\<lambda>_. True" cfg_legal
  by unfold_locales (simp_all add: xcie_cfg_read_back)

interpretation xcie_watchdog: csr_pair xcie_bus "0x7CD" "\<lambda>_. True" "\<lambda>v. v" "0x7C0"
  by unfold_locales (simp_all add: xcie_bus_def xcie_csr_read_def xcie_csr_write_def)

section \<open>The control state machine\<close>

datatype ctrl_state = C_IDLE | C_DECODE | EXE_EML | EXE_CFG | EXE_MEMO | EXE_SNN | EXE_NVM | C_TRAP

record ctrl_in =
  ci_valid :: bool
  ci_decode_valid :: bool
  ci_xcew_id :: u4
  ci_illegal :: bool
  ci_eml_valid :: bool
  ci_snn_done :: bool
  ci_nvm_busy :: bool
  ci_memo_done :: bool

record ctrl_out =
  ctrl_decode_valid :: bool
  ctrl_csr_wr :: bool
  ctrl_eml_valid :: bool
  ctrl_memo_rd :: bool
  ctrl_memo_wr :: bool
  ctrl_snn_en :: bool
  ctrl_nvm_wr :: bool
  ctrl_irq_gen :: bool
  ctrl_exc_gen :: bool

definition ctrl_next :: "ctrl_in \<Rightarrow> ctrl_state \<Rightarrow> ctrl_state" where
  "ctrl_next i s =
     (case s of
        C_IDLE \<Rightarrow> if ci_valid i then C_DECODE else C_IDLE
      | C_DECODE \<Rightarrow>
          if ci_illegal i then C_TRAP
          else if ci_xcew_id i = 1 then EXE_EML
          else if ci_xcew_id i = 2 then EXE_CFG
          else if ci_xcew_id i = 3 \<or> ci_xcew_id i = 4 then EXE_MEMO
          else if ci_xcew_id i = 5 then EXE_SNN
          else if ci_xcew_id i = 6 then EXE_NVM
          else C_IDLE
      | EXE_EML \<Rightarrow> if ci_eml_valid i then C_IDLE else EXE_EML
      | EXE_CFG \<Rightarrow> C_IDLE
      | EXE_MEMO \<Rightarrow> if ci_memo_done i then C_IDLE else EXE_MEMO
      | EXE_SNN \<Rightarrow> if ci_snn_done i then C_IDLE else EXE_SNN
      | EXE_NVM \<Rightarrow> if \<not> ci_nvm_busy i then C_IDLE else EXE_NVM
      | C_TRAP \<Rightarrow> C_IDLE)"

definition ctrl_none :: ctrl_out where
  "ctrl_none = \<lparr>ctrl_decode_valid = False, ctrl_csr_wr = False, ctrl_eml_valid = False, ctrl_memo_rd = False,
     ctrl_memo_wr = False, ctrl_snn_en = False, ctrl_nvm_wr = False, ctrl_irq_gen = False, ctrl_exc_gen = False\<rparr>"

definition ctrl_outputs :: "ctrl_in \<Rightarrow> ctrl_state \<Rightarrow> ctrl_out" where
  "ctrl_outputs i s =
     (let n = ci_xcew_id i in
      case s of
        C_IDLE \<Rightarrow> ctrl_none
      | C_DECODE \<Rightarrow>
          ctrl_none\<lparr>ctrl_decode_valid := ci_decode_valid i, ctrl_eml_valid := n = 1, ctrl_csr_wr := n = 2,
            ctrl_memo_rd := n = 3, ctrl_memo_wr := n = 4, ctrl_snn_en := n = 5, ctrl_nvm_wr := n = 6\<rparr>
      | EXE_EML \<Rightarrow> ctrl_none\<lparr>ctrl_eml_valid := True\<rparr>
      | EXE_CFG \<Rightarrow> ctrl_none\<lparr>ctrl_csr_wr := True\<rparr>
      | EXE_MEMO \<Rightarrow> ctrl_none\<lparr>ctrl_memo_rd := n = 3, ctrl_memo_wr := n = 4\<rparr>
      | EXE_SNN \<Rightarrow> ctrl_none\<lparr>ctrl_snn_en := True\<rparr>
      | EXE_NVM \<Rightarrow> ctrl_none\<lparr>ctrl_nvm_wr := True\<rparr>
      | C_TRAP \<Rightarrow> ctrl_none\<lparr>ctrl_exc_gen := True, ctrl_irq_gen := True\<rparr>)"

definition unit_strobes :: "ctrl_out \<Rightarrow> bool list" where
  "unit_strobes r = [ctrl_csr_wr r, ctrl_eml_valid r, ctrl_memo_rd r, ctrl_memo_wr r, ctrl_snn_en r, ctrl_nvm_wr r]"

lemma one_unit_at_a_time: "length (filter id (unit_strobes (ctrl_outputs i s))) \<le> 1"
  by (cases s) (simp_all add: ctrl_outputs_def unit_strobes_def ctrl_none_def Let_def)

lemma ctrl_returns_to_idle:
  assumes "\<not> ci_valid k" "\<not> ci_valid j"
    and "\<forall>x \<in> {j, k}. ci_eml_valid x \<and> ci_snn_done x \<and> \<not> ci_nvm_busy x \<and> ci_memo_done x"
  shows "ctrl_next k (ctrl_next j s) = C_IDLE"
  using assms by (cases s) (simp_all add: ctrl_next_def)

text \<open>An instruction with an unknown sub-function is given the number of the configuration write, so the write
  strobe is raised while it is decoded, before the trap.\<close>

lemma illegal_instruction_writes:
  assumes "2 < f" and "d = xcie_decode 0x7B f" and "ci_xcew_id i = o_xcew_id d" and "ci_illegal i = o_illegal d"
  shows "ctrl_csr_wr (ctrl_outputs i C_DECODE) \<and> ctrl_next i C_DECODE = C_TRAP"
proof -
  have "f \<noteq> 0" "f \<noteq> 1" "f \<noteq> 2"
    using assms(1) by auto
  then show ?thesis
    using assms(2-4) by (simp add: xcie_decode_def ctrl_outputs_def ctrl_next_def ctrl_none_def)
qed

section \<open>The DAG scheduler\<close>

record sched =
  pending_nodes :: "u6 \<Rightarrow> u32"
  pending_indices :: "u6 \<Rightarrow> u6"
  pending_count :: u6
  reuse_available :: bool
  reuse_addr :: u32

record sched_in =
  si_dag_mode :: bool
  si_expr_hash :: u32
  si_expr_valid :: bool
  si_node_completed :: bool
  si_completed_hash :: u32

definition sched_reset :: sched where
  "sched_reset = \<lparr>pending_nodes = (\<lambda>_. 0), pending_indices = (\<lambda>_. 0), pending_count = 0, reuse_available = False, reuse_addr = 0\<rparr>"

definition pending_at :: "u32 \<Rightarrow> sched \<Rightarrow> u6 list" where
  "pending_at h s = filter (\<lambda>i. i < pending_count s \<and> pending_nodes s i = h) (map of_nat [0..<64])"

text \<open>The assignments take effect together and the last one to a register wins: the address is the one of the
  last match, and a shift and a decrement override the entry and the count of a node that is added on the
  same edge. The count is 6 bits wide, so its comparison with 64 never fails.\<close>

definition sched_reuse :: "sched_in \<Rightarrow> sched \<Rightarrow> sched \<Rightarrow> sched" where
  "sched_reuse x s r =
     (if \<not> reuse_available s \<and> pending_at (si_expr_hash x) s \<noteq> []
      then r\<lparr>reuse_available := True, reuse_addr := ucast (pending_indices s (last (pending_at (si_expr_hash x) s)))\<rparr>
      else r)"

definition sched_add :: "sched_in \<Rightarrow> sched \<Rightarrow> sched \<Rightarrow> sched" where
  "sched_add x s r =
     (let c = pending_count s in
      if si_expr_valid x \<and> \<not> reuse_available s \<and> (ucast c :: u32) < 64
      then r\<lparr>pending_nodes := (pending_nodes r)(c := si_expr_hash x), pending_indices := (pending_indices r)(c := c),
             pending_count := c + 1\<rparr>
      else r)"

definition sched_remove :: "sched_in \<Rightarrow> sched \<Rightarrow> sched \<Rightarrow> sched" where
  "sched_remove x s r =
     (if si_node_completed x \<and> pending_at (si_completed_hash x) s \<noteq> []
      then let i = hd (pending_at (si_completed_hash x) s); shifted = (\<lambda>j. i \<le> j \<and> j < 63) in
        r\<lparr>pending_nodes := (\<lambda>j. if shifted j then pending_nodes s (j + 1) else pending_nodes r j),
           pending_indices := (\<lambda>j. if shifted j then pending_indices s (j + 1) else pending_indices r j),
           pending_count := pending_count s - 1\<rparr>
      else r)"

definition sched_edge :: "sched_in \<Rightarrow> sched \<Rightarrow> sched" where
  "sched_edge x s =
     (let r = s\<lparr>reuse_available := False\<rparr> in
      if si_dag_mode x then sched_remove x s (sched_add x s (sched_reuse x s r)) else r)"

text \<open>The 64th pending node empties the scheduler: the count wraps to 0 and no node is found any more.\<close>

lemma pending_none: "pending_count s = 0 \<Longrightarrow> pending_at h s = []"
  by (simp add: pending_at_def)

lemma scheduler_overflow:
  assumes "pending_count s = 63" and "si_dag_mode x" and "si_expr_valid x" and "\<not> reuse_available s"
    and "\<not> si_node_completed x"
  shows "pending_count (sched_edge x s) = 0 \<and> \<not> reuse_available (sched_edge y (sched_edge x s))"
proof -
  have "pending_count (sched_edge x s) = 0"
    using assms by (simp add: sched_edge_def sched_remove_def sched_add_def sched_reuse_def Let_def)
  then show ?thesis
    by (simp add: sched_edge_def [of y] sched_remove_def sched_add_def sched_reuse_def pending_none Let_def)
qed

text \<open>A node that is added on the edge on which another completes is lost: the count goes down instead of staying.\<close>

lemma scheduler_loses_node:
  assumes "si_dag_mode x" and "si_node_completed x" and "pending_at (si_completed_hash x) s \<noteq> []"
  shows "pending_count (sched_edge x s) = pending_count s - 1"
  using assms by (simp add: sched_edge_def sched_remove_def Let_def)

end
