(* ===== verification/Rtl_Axi_Masters.thy ===== *)
theory Rtl_Axi_Masters
  imports Rtl_Axi
begin

text \<open>
  The whole interconnect \<open>rtl/soc/axi_lite_interconnect_v1_1.v\<close>: five masters, the arbiter, the channels of
  slaves 0 to 4 and the responses, and the proof that the core, as master 0 with the others tied to 0, sees the
  memory of \<open>Rtl_Axi\<close>.
\<close>

section \<open>Masters, slaves and the arbiter\<close>

record axi_master =
  ax_awaddr :: u16
  ax_awvalid :: bool
  ax_wdata :: u32
  ax_wstrb :: u4
  ax_wvalid :: bool
  ax_bready :: bool
  ax_araddr :: u16
  ax_arvalid :: bool
  ax_rready :: bool

record axi_slave =
  ax_awready :: bool
  ax_wready :: bool
  ax_bresp :: u2
  ax_bvalid :: bool
  ax_arready :: bool
  ax_rdata :: u32
  ax_rresp :: u2
  ax_rvalid :: bool

text \<open>Masters are numbered 0 to 4. Masters 3 and 4 also decode the debug module, but no output of slave 5 is
  driven, so this selects no slave.\<close>

definition m_slave :: "nat \<Rightarrow> u16 \<Rightarrow> slave option" where
  "m_slave j a = (if 3 \<le> j \<and> 0x5000 \<le> a \<and> a \<le> 0x5FFF then None else m0_slave a)"

definition aw_select :: "(nat \<Rightarrow> axi_master) \<Rightarrow> nat option" where
  "aw_select m = find (\<lambda>j. ax_awvalid (m j)) [0, 1, 2, 3, 4]"

definition ar_select :: "(nat \<Rightarrow> axi_master) \<Rightarrow> nat option" where
  "ar_select m = find (\<lambda>j. ax_arvalid (m j)) [0, 1, 2, 3, 4]"

text \<open>The selection of the write channel: the low three bits of the one-hot code.\<close>

definition w_select :: "(nat \<Rightarrow> axi_master) \<Rightarrow> u3" where
  "w_select m = (case aw_select m of None \<Rightarrow> 0 | Some j \<Rightarrow> push_bit j 1)"

section \<open>The slaves' channels\<close>

definition addressed :: "slave \<Rightarrow> nat \<Rightarrow> u16 \<Rightarrow> bool" where
  "addressed k j a \<longleftrightarrow> k = SLAVE_ROM \<or> m_slave j a = Some k"

text \<open>The ROM's multiplexer does not look at the address; those of the SNN and the NVM leave out master 4.\<close>

definition aw_source :: "slave \<Rightarrow> (nat \<Rightarrow> axi_master) \<Rightarrow> nat option" where
  "aw_source k m =
     (case aw_select m of None \<Rightarrow> None
      | Some j \<Rightarrow> if addressed k j (ax_awaddr (m j)) \<and> (j = 4 \<longrightarrow> k \<notin> {SLAVE_SNN, SLAVE_NVM}) then Some j else None)"

definition ar_source :: "slave \<Rightarrow> (nat \<Rightarrow> axi_master) \<Rightarrow> nat option" where
  "ar_source k m =
     (case ar_select m of None \<Rightarrow> None
      | Some j \<Rightarrow> if addressed k j (ax_araddr (m j)) \<and> (j = 4 \<longrightarrow> k \<notin> {SLAVE_SNN, SLAVE_NVM}) then Some j else None)"

definition w_source :: "slave \<Rightarrow> (nat \<Rightarrow> axi_master) \<Rightarrow> nat option" where
  "w_source k m =
     (let w = w_select m; ok = (\<lambda>j. addressed k j (ax_awaddr (m j))) in
      if w = 1 \<and> ok 0 then Some 0
      else if w = 2 \<and> ok 1 then Some 1
      else if k \<in> {SLAVE_SNN, SLAVE_NVM} then (if ok 2 then Some 2 else if ok 3 then Some 3 else None)
      else if w = 3 \<and> ok 2 then Some 2
      else if w = 4 \<and> ok 3 then Some 3
      else if w = 5 \<and> ok 4 then Some 4
      else None)"

definition s_awvalid :: "slave \<Rightarrow> (nat \<Rightarrow> axi_master) \<Rightarrow> bool" where
  "s_awvalid k m = (case aw_source k m of None \<Rightarrow> False | Some j \<Rightarrow> ax_awvalid (m j))"

definition s_awaddr :: "slave \<Rightarrow> (nat \<Rightarrow> axi_master) \<Rightarrow> u16" where
  "s_awaddr k m = (case aw_source k m of None \<Rightarrow> 0 | Some j \<Rightarrow> ax_awaddr (m j))"

definition s_wvalid :: "slave \<Rightarrow> (nat \<Rightarrow> axi_master) \<Rightarrow> bool" where
  "s_wvalid k m = (case w_source k m of None \<Rightarrow> False | Some j \<Rightarrow> ax_wvalid (m j))"

definition s_wdata :: "slave \<Rightarrow> (nat \<Rightarrow> axi_master) \<Rightarrow> u32" where
  "s_wdata k m = (case w_source k m of None \<Rightarrow> 0 | Some j \<Rightarrow> ax_wdata (m j))"

definition s_wstrb :: "slave \<Rightarrow> (nat \<Rightarrow> axi_master) \<Rightarrow> u4" where
  "s_wstrb k m = (case w_source k m of None \<Rightarrow> 0 | Some j \<Rightarrow> ax_wstrb (m j))"

definition s_arvalid :: "slave \<Rightarrow> (nat \<Rightarrow> axi_master) \<Rightarrow> bool" where
  "s_arvalid k m = (case ar_source k m of None \<Rightarrow> False | Some j \<Rightarrow> ax_arvalid (m j))"

definition s_araddr :: "slave \<Rightarrow> (nat \<Rightarrow> axi_master) \<Rightarrow> u16" where
  "s_araddr k m = (case ar_source k m of None \<Rightarrow> 0 | Some j \<Rightarrow> ax_araddr (m j))"

section \<open>The masters' channels\<close>

text \<open>Nothing drives the ready signals and the answers of master 4.\<close>

definition m_awready :: "nat \<Rightarrow> (nat \<Rightarrow> axi_master) \<Rightarrow> (slave \<Rightarrow> axi_slave) \<Rightarrow> bool" where
  "m_awready j m s = (case m_slave j (ax_awaddr (m j)) of None \<Rightarrow> False | Some k \<Rightarrow> ax_awready (s k))"

definition m_wready :: "nat \<Rightarrow> (nat \<Rightarrow> axi_master) \<Rightarrow> (slave \<Rightarrow> axi_slave) \<Rightarrow> bool" where
  "m_wready j m s = (case m_slave j (ax_awaddr (m j)) of None \<Rightarrow> False | Some k \<Rightarrow> ax_wready (s k))"

text \<open>Masters 1 to 3 are never ready for a read of the ROM.\<close>

definition m_arready :: "nat \<Rightarrow> (nat \<Rightarrow> axi_master) \<Rightarrow> (slave \<Rightarrow> axi_slave) \<Rightarrow> bool" where
  "m_arready j m s =
     (case m_slave j (ax_araddr (m j)) of None \<Rightarrow> False | Some k \<Rightarrow> (j \<noteq> 0 \<longrightarrow> k \<noteq> SLAVE_ROM) \<and> ax_arready (s k))"

definition s_bready :: "(nat \<Rightarrow> axi_master) \<Rightarrow> bool" where
  "s_bready m = (case aw_select m of None \<Rightarrow> False | Some j \<Rightarrow> j < 4 \<and> ax_bready (m j))"

definition s_rready :: "(nat \<Rightarrow> axi_master) \<Rightarrow> bool" where
  "s_rready m = (case ar_select m of None \<Rightarrow> False | Some j \<Rightarrow> j < 4 \<and> ax_rready (m j))"

record axi_grants =
  aw_grant :: "nat option"
  ar_grant :: "nat option"

definition grant_reset :: axi_grants where
  "grant_reset = \<lparr>aw_grant = None, ar_grant = None\<rparr>"

definition grant_edge :: "(nat \<Rightarrow> axi_master) \<Rightarrow> axi_grants \<Rightarrow> axi_grants" where
  "grant_edge m g =
     (let keep = (\<lambda>new old. case new of Some j \<Rightarrow> if j < (4 :: nat) then Some j else old | None \<Rightarrow> old)
      in \<lparr>aw_grant = keep (aw_select m) (aw_grant g), ar_grant = keep (ar_select m) (ar_grant g)\<rparr>)"

text \<open>The answer to a write always comes from the ROM, the one to a read from the slave with the master's number.\<close>

definition slave_number :: "nat \<Rightarrow> slave" where
  "slave_number j = (if j = 0 then SLAVE_ROM else if j = 1 then SLAVE_SRAM else if j = 2 then SLAVE_EML else SLAVE_SNN)"

definition m_bvalid :: "nat \<Rightarrow> (slave \<Rightarrow> axi_slave) \<Rightarrow> axi_grants \<Rightarrow> bool" where
  "m_bvalid j s g \<longleftrightarrow> aw_grant g = Some j \<and> ax_bvalid (s SLAVE_ROM)"

definition m_rvalid :: "nat \<Rightarrow> (slave \<Rightarrow> axi_slave) \<Rightarrow> axi_grants \<Rightarrow> bool" where
  "m_rvalid j s g \<longleftrightarrow> ar_grant g = Some j \<and> ax_rvalid (s (slave_number j))"

definition m_rdata :: "nat \<Rightarrow> (slave \<Rightarrow> axi_slave) \<Rightarrow> axi_grants \<Rightarrow> u32" where
  "m_rdata j s g = (if ar_grant g = Some j then ax_rdata (s (slave_number j)) else 0)"

section \<open>Arbitration\<close>

lemma select_first:
  "aw_select m = Some j \<Longrightarrow> j < 5 \<and> ax_awvalid (m j) \<and> (\<forall>i < j. \<not> ax_awvalid (m i))"
  "ar_select m = Some j \<Longrightarrow> j < 5 \<and> ax_arvalid (m j) \<and> (\<forall>i < j. \<not> ax_arvalid (m i))"
  by (auto simp: aw_select_def ar_select_def less_Suc_eq numeral_eq_Suc split: if_splits)

lemma select_none: "aw_select m = None \<longleftrightarrow> (\<forall>j < 5. \<not> ax_awvalid (m j))"
  by (auto simp: aw_select_def less_Suc_eq numeral_eq_Suc)

text \<open>A selected master is the first that asks, and at most one slave other than the ROM sees its address.\<close>

lemma one_slave:
  assumes "aw_source k m = Some j" and "aw_source k' m = Some j'" and "k \<noteq> SLAVE_ROM" and "k' \<noteq> SLAVE_ROM"
  shows "k = k' \<and> j = j'"
  using assms by (auto simp: aw_source_def addressed_def split: option.splits if_splits)

lemma w_select_code: "aw_select m = Some j \<Longrightarrow> w_select m = (if j = 0 then 1 else if j = 1 then 2 else if j = 2 then 4 else 0)"
  using select_first(1) [of m j] by (auto simp: w_select_def less_Suc_eq numeral_eq_Suc)

text \<open>Only masters 0 and 1 can write. When another master is selected for a write to the ROM, the SRAM or the
  EML registers, its own data never reaches the slave: the one-hot code of the arbiter is cut to three bits
  and compared with 3, 4 and 5, so the slave gets the data of master 3 or none.\<close>

lemma later_masters_write_others_data:
  assumes "aw_select m = Some j" and "2 \<le> j" and "k \<in> {SLAVE_ROM, SLAVE_SRAM, SLAVE_EML}"
  shows "w_source k m \<noteq> Some j \<and> (w_source k m = None \<or> w_source k m = Some 3 \<and> j = 2)"
  using w_select_code [OF assms(1)] assms(2,3) by (auto simp: w_source_def Let_def split: if_splits)

section \<open>The chip's interconnect\<close>

text \<open>The top level ties masters 1 to 4 to 0.\<close>

definition chip_masters :: "mem_req \<Rightarrow> nat \<Rightarrow> axi_master" where
  "chip_masters q j =
     (if j = 0
      then \<lparr>ax_awaddr = core_mem_addr_16 (core_mem_addr q), ax_awvalid = core_mem_we q, ax_wdata = core_mem_wdata q,
            ax_wstrb = core_mem_wstrb q, ax_wvalid = core_mem_we q, ax_bready = True,
            ax_araddr = core_mem_addr_16 (core_mem_addr q), ax_arvalid = (\<not> core_mem_we q), ax_rready = True\<rparr>
      else \<lparr>ax_awaddr = 0, ax_awvalid = False, ax_wdata = 0, ax_wstrb = 0, ax_wvalid = False, ax_bready = (j < 4),
            ax_araddr = 0, ax_arvalid = False, ax_rready = (j < 4)\<rparr>)"

lemma chip_selects:
  "aw_select (chip_masters q) = (if core_mem_we q then Some 0 else None)"
  "ar_select (chip_masters q) = (if core_mem_we q then None else Some 0)"
  by (simp_all add: aw_select_def ar_select_def chip_masters_def)

text \<open>
  The slaves behind it. The ROM and the SRAM answer the address that the crossbar gives them, the EML and SNN
  registers hold nothing, and the answer of the NVM controller (theory \<open>Rtl_Nvm\<close>) is an input.
\<close>

definition chip_slaves :: "axi_slave \<Rightarrow> (nat \<Rightarrow> axi_master) \<Rightarrow> (u12 \<Rightarrow> u32) \<Rightarrow> slave \<Rightarrow> axi_slave" where
  "chip_slaves nvm m sram k =
     (let open_slave = (\<lambda>v. \<lparr>ax_awready = True, ax_wready = True, ax_bresp = 0, ax_bvalid = s_awvalid k m \<and> s_wvalid k m,
        ax_arready = True, ax_rdata = v, ax_rresp = 0, ax_rvalid = s_arvalid k m\<rparr>) in
      case k of
        SLAVE_ROM \<Rightarrow> \<lparr>ax_awready = False, ax_wready = False, ax_bresp = 0, ax_bvalid = False, ax_arready = s_arvalid k m,
          ax_rdata = s0_rdata (s_araddr k m), ax_rresp = 0, ax_rvalid = s_arvalid k m\<rparr>
      | SLAVE_SRAM \<Rightarrow> open_slave (sram (sram_index (s_araddr k m)))
      | SLAVE_EML \<Rightarrow> open_slave 0
      | SLAVE_SNN \<Rightarrow> open_slave 0
      | SLAVE_NVM \<Rightarrow> nvm)"

record xbar =
  xbar_sram :: "u12 \<Rightarrow> u32"
  xbar_grants :: axi_grants

definition xbar_reset :: "(u12 \<Rightarrow> u32) \<Rightarrow> xbar" where
  "xbar_reset sram = \<lparr>xbar_sram = sram, xbar_grants = grant_reset\<rparr>"

text \<open>The SRAM takes a word when both channels are valid and ready.\<close>

definition sram_edge :: "(nat \<Rightarrow> axi_master) \<Rightarrow> axi_slave \<Rightarrow> (u12 \<Rightarrow> u32) \<Rightarrow> u12 \<Rightarrow> u32" where
  "sram_edge m sl sram =
     (let k = SLAVE_SRAM; x = sram_index (s_awaddr k m) in
      if s_awvalid k m \<and> s_wvalid k m \<and> ax_awready sl \<and> ax_wready sl
      then sram(x := byte_lanes (s_wstrb k m) (s_wdata k m) (sram x)) else sram)"

definition xbar_edge :: "axi_slave \<Rightarrow> (nat \<Rightarrow> axi_master) \<Rightarrow> xbar \<Rightarrow> xbar" where
  "xbar_edge nvm m x =
     \<lparr>xbar_sram = sram_edge m (chip_slaves nvm m (xbar_sram x) SLAVE_SRAM) (xbar_sram x),
      xbar_grants = grant_edge m (xbar_grants x)\<rparr>"

text \<open>What master \<open>j\<close> reads while the masters drive \<open>m\<close>.\<close>

definition xbar_rdata :: "axi_slave \<Rightarrow> (nat \<Rightarrow> axi_master) \<Rightarrow> nat \<Rightarrow> xbar \<Rightarrow> u32" where
  "xbar_rdata nvm m j x = m_rdata j (chip_slaves nvm m (xbar_sram x)) (xbar_grants x)"

lemma chip_store_channel:
  "s_awvalid SLAVE_SRAM (chip_masters q) \<and> s_wvalid SLAVE_SRAM (chip_masters q) \<longleftrightarrow>
     core_mem_we q \<and> m0_slave (core_mem_addr_16 (core_mem_addr q)) = Some SLAVE_SRAM"
  "core_mem_we q \<Longrightarrow> m0_slave (core_mem_addr_16 (core_mem_addr q)) = Some SLAVE_SRAM \<Longrightarrow>
     s_awaddr SLAVE_SRAM (chip_masters q) = core_mem_addr_16 (core_mem_addr q) \<and>
     s_wdata SLAVE_SRAM (chip_masters q) = core_mem_wdata q \<and> s_wstrb SLAVE_SRAM (chip_masters q) = core_mem_wstrb q"
proof -
  have w: "w_select (chip_masters q) = (if core_mem_we q then 1 else 0)"
    by (simp add: w_select_def chip_selects)
  show "s_awvalid SLAVE_SRAM (chip_masters q) \<and> s_wvalid SLAVE_SRAM (chip_masters q) \<longleftrightarrow>
     core_mem_we q \<and> m0_slave (core_mem_addr_16 (core_mem_addr q)) = Some SLAVE_SRAM"
    by (simp add: s_awvalid_def s_wvalid_def aw_source_def w_source_def chip_selects w addressed_def m_slave_def)
      (simp add: chip_masters_def)
  show "s_awaddr SLAVE_SRAM (chip_masters q) = core_mem_addr_16 (core_mem_addr q) \<and>
     s_wdata SLAVE_SRAM (chip_masters q) = core_mem_wdata q \<and> s_wstrb SLAVE_SRAM (chip_masters q) = core_mem_wstrb q"
    if "core_mem_we q" "m0_slave (core_mem_addr_16 (core_mem_addr q)) = Some SLAVE_SRAM"
    using that by (simp add: s_awaddr_def s_wdata_def s_wstrb_def aw_source_def w_source_def chip_selects w addressed_def
        m_slave_def chip_masters_def)
qed

text \<open>A load of the core puts its address on the read channel of the ROM.\<close>

lemma chip_load_channel:
  "\<not> core_mem_we q \<Longrightarrow> s_arvalid SLAVE_ROM (chip_masters q) \<and>
     s_araddr SLAVE_ROM (chip_masters q) = core_mem_addr_16 (core_mem_addr q)"
  by (simp add: s_arvalid_def s_araddr_def ar_source_def chip_selects addressed_def) (simp add: chip_masters_def)

text \<open>The states correspond.\<close>

definition xbar_shows :: "mem_state \<Rightarrow> xbar \<Rightarrow> bool" where
  "xbar_shows s x \<longleftrightarrow> xbar_sram x = sram_memory s \<and>
     ar_grant (xbar_grants x) = (if ar_grant_master s then Some 0 else None)"

lemma xbar_step: "xbar_shows s x \<Longrightarrow> xbar_shows (mem_edge q s) (xbar_edge nvm (chip_masters q) x)"
  using chip_store_channel [of q]
  by (auto simp: xbar_shows_def xbar_edge_def sram_edge_def chip_slaves_def mem_edge_def grant_edge_def chip_selects Let_def)

lemma xbar_run:
  "xbar_shows s x \<Longrightarrow>
     xbar_shows (fold mem_edge (map fst qs) s) (fold (\<lambda>(q, nvm). xbar_edge nvm (chip_masters q)) qs x)"
  by (induction qs arbitrary: s x) (auto simp: xbar_step)

text \<open>C20: For the core the crossbar of five masters is the memory of \<open>Rtl_Axi\<close>. From reset, after any requests of the
  core and whatever the NVM controller answers, the SRAM behind the crossbar holds the same words, and a
  read of the core at any address gets the same word, with the routing of the addresses, the data and the byte lanes
  to the slaves and of the answers back; so what is proved about the chip's memory holds for the whole interconnect.\<close>

theorem chip_interconnect:
  "let x = fold (\<lambda>(q, nvm). xbar_edge nvm (chip_masters q)) qs (xbar_reset sram);
       s = fold mem_edge (map fst qs) (mem_reset sram)
   in xbar_sram x = sram_memory s \<and> xbar_rdata nvm (chip_masters (load_req a)) 0 x = m0_rdata a s"
proof -
  have "xbar_shows (fold mem_edge (map fst qs) (mem_reset sram))
      (fold (\<lambda>(q, nvm). xbar_edge nvm (chip_masters q)) qs (xbar_reset sram))"
    by (rule xbar_run) (simp add: xbar_shows_def mem_reset_def xbar_reset_def grant_reset_def)
  then show ?thesis
    using chip_load_channel [of "load_req a"]
    by (auto simp: xbar_shows_def xbar_rdata_def m_rdata_def m0_rdata_def slave_number_def chip_slaves_def Let_def)
qed

definition quiet_master :: axi_master where
  "quiet_master = \<lparr>ax_awaddr = 0, ax_awvalid = False, ax_wdata = 0, ax_wstrb = 0, ax_wvalid = False, ax_bready = False,
     ax_araddr = 0, ax_arvalid = False, ax_rready = False\<rparr>"

definition writing_master :: "u16 \<Rightarrow> u32 \<Rightarrow> axi_master" where
  "writing_master a v = quiet_master\<lparr>ax_awaddr := a, ax_awvalid := True, ax_wdata := v, ax_wstrb := 0xF, ax_wvalid := True\<rparr>"

lemma later_masters_write_others_data_example:
  "w_source SLAVE_SRAM (\<lambda>j. if j = 2 then writing_master 0x1000 7 else quiet_master) \<noteq> Some 2"
  using later_masters_write_others_data [of "\<lambda>j. if j = 2 then writing_master 0x1000 7 else quiet_master" 2 SLAVE_SRAM]
  by (simp add: aw_select_def writing_master_def quiet_master_def)

end
