(* ===== verification/Rtl_Rvc.thy ===== *)
theory Rtl_Rvc
  imports Rtl_Core
begin

text \<open>
  What the option \<open>SUPPORT_C\<close> adds to \<open>rtl/core/riscv_core.v\<close>: the expansion of compressed instructions, against
  the tables of the manual, and the fetch stage that cuts a stream of 16-bit and 32-bit instructions out of
  32-bit words. The fetch stage stands alone: the wires from the execute stage are its inputs. \<open>misa\<close>, which
  only reports the option, is left out.
\<close>

section \<open>The compressed instructions of the manual\<close>

text \<open>An immediate is given by pairs of a bit of the halfword and its place in the immediate.\<close>

definition scatter :: "(nat \<times> nat) list \<Rightarrow> u16 \<Rightarrow> u32" where
  "scatter tbl c = fold (\<lambda>(i, j) w. w OR push_bit j (of_bool (bit c i))) tbl 0"

definition rvc_imm :: "u16 \<Rightarrow> u32" where
  "rvc_imm c = signed_take_bit 5 (scatter [(12, 5), (6, 4), (5, 3), (4, 2), (3, 1), (2, 0)] c)"

definition rvc_addi4spn_imm :: "u16 \<Rightarrow> u32" where
  "rvc_addi4spn_imm c = scatter [(12, 5), (11, 4), (10, 9), (9, 8), (8, 7), (7, 6), (6, 2), (5, 3)] c"

definition rvc_addi16sp_imm :: "u16 \<Rightarrow> u32" where
  "rvc_addi16sp_imm c = signed_take_bit 9 (scatter [(12, 9), (6, 4), (5, 6), (4, 8), (3, 7), (2, 5)] c)"

definition rvc_lui_imm :: "u16 \<Rightarrow> u32" where
  "rvc_lui_imm c = signed_take_bit 17 (scatter [(12, 17), (6, 16), (5, 15), (4, 14), (3, 13), (2, 12)] c)"

definition rvc_jump_imm :: "u16 \<Rightarrow> u32" where
  "rvc_jump_imm c = signed_take_bit 11 (scatter
     [(12, 11), (11, 4), (10, 9), (9, 8), (8, 10), (7, 6), (6, 7), (5, 3), (4, 2), (3, 1), (2, 5)] c)"

definition rvc_branch_imm :: "u16 \<Rightarrow> u32" where
  "rvc_branch_imm c = signed_take_bit 8 (scatter
     [(12, 8), (11, 4), (10, 3), (6, 7), (5, 6), (4, 2), (3, 1), (2, 5)] c)"

definition rvc_word_offset :: "u16 \<Rightarrow> u32" where
  "rvc_word_offset c = scatter [(12, 5), (11, 4), (10, 3), (6, 2), (5, 6)] c"

definition rvc_lwsp_offset :: "u16 \<Rightarrow> u32" where
  "rvc_lwsp_offset c = scatter [(12, 5), (6, 4), (5, 3), (4, 2), (3, 7), (2, 6)] c"

definition rvc_swsp_offset :: "u16 \<Rightarrow> u32" where
  "rvc_swsp_offset c = scatter [(12, 5), (11, 4), (10, 3), (9, 2), (8, 7), (7, 6)] c"

text \<open>The registers: all of them by five bits, \<open>x8\<close> to \<open>x15\<close> by three.\<close>

definition rvc_rd :: "u16 \<Rightarrow> u5" where "rvc_rd c = ucast (bitsel 11 7 c)"
definition rvc_rs2 :: "u16 \<Rightarrow> u5" where "rvc_rs2 c = ucast (bitsel 6 2 c)"
definition rvc_rs1' :: "u16 \<Rightarrow> u5" where "rvc_rs1' c = 8 + ucast (bitsel 9 7 c)"
definition rvc_rd' :: "u16 \<Rightarrow> u5" where "rvc_rd' c = 8 + ucast (bitsel 4 2 c)"

definition rvc_shamt :: "u16 \<Rightarrow> u32" where "rvc_shamt c = ucast (bitsel 6 2 c)"

text \<open>What each halfword of the extension C for RV32 without floating point abbreviates; reserved encodings
  have no meaning. The quadrants by their two low bits.\<close>

definition rvc_q0 :: "u16 \<Rightarrow> rv_instr option" where
  "rvc_q0 c =
     (let f = bitsel 15 13 c in
      if f = 0 then (if rvc_addi4spn_imm c = 0 then None else Some (Op_imm Alu_add (rvc_rd' c) 2 (rvc_addi4spn_imm c)))
      else if f = 2 then Some (Load LW (rvc_rd' c) (rvc_rs1' c) (rvc_word_offset c))
      else if f = 6 then Some (Store SW (rvc_rs1' c) (rvc_rd' c) (rvc_word_offset c))
      else None)"

definition rvc_arith :: "u16 \<Rightarrow> rv_instr option" where
  "rvc_arith c =
     (let r = rvc_rs1' c; k = bitsel 11 10 c in
      if k = 0 then (if bit c 12 then None else Some (Op_imm Alu_srl r r (rvc_shamt c)))
      else if k = 1 then (if bit c 12 then None else Some (Op_imm Alu_sra r r (rvc_shamt c)))
      else if k = 2 then Some (Op_imm Alu_and r r (rvc_imm c))
      else if bit c 12 then None
      else Some (Op (if bitsel 6 5 c = 0 then Alu_sub else if bitsel 6 5 c = 1 then Alu_xor
                     else if bitsel 6 5 c = 2 then Alu_or else Alu_and) r r (rvc_rd' c)))"

definition rvc_q1 :: "u16 \<Rightarrow> rv_instr option" where
  "rvc_q1 c =
     (let f = bitsel 15 13 c in
      if f = 0 then Some (Op_imm Alu_add (rvc_rd c) (rvc_rd c) (rvc_imm c))
      else if f = 1 then Some (Jal 1 (rvc_jump_imm c))
      else if f = 2 then Some (Op_imm Alu_add (rvc_rd c) 0 (rvc_imm c))
      else if f = 3 then
        (if rvc_rd c = 2 then (if rvc_addi16sp_imm c = 0 then None else Some (Op_imm Alu_add 2 2 (rvc_addi16sp_imm c)))
         else if rvc_lui_imm c = 0 then None else Some (Lui (rvc_rd c) (rvc_lui_imm c)))
      else if f = 4 then rvc_arith c
      else if f = 5 then Some (Jal 0 (rvc_jump_imm c))
      else if f = 6 then Some (Branch BEQ (rvc_rs1' c) 0 (rvc_branch_imm c))
      else Some (Branch BNE (rvc_rs1' c) 0 (rvc_branch_imm c)))"

definition rvc_q2 :: "u16 \<Rightarrow> rv_instr option" where
  "rvc_q2 c =
     (let f = bitsel 15 13 c; rd = rvc_rd c; rs2 = rvc_rs2 c in
      if f = 0 then (if bit c 12 then None else Some (Op_imm Alu_sll rd rd (rvc_shamt c)))
      else if f = 2 then (if rd = 0 then None else Some (Load LW rd 2 (rvc_lwsp_offset c)))
      else if f = 4 then
        (if \<not> bit c 12
         then (if rs2 \<noteq> 0 then Some (Op Alu_add rd 0 rs2) else if rd = 0 then None else Some (Jalr 0 rd 0))
         else (if rs2 \<noteq> 0 then Some (Op Alu_add rd rd rs2) else if rd = 0 then Some Ebreak else Some (Jalr 1 rd 0)))
      else if f = 6 then Some (Store SW 2 rs2 (rvc_swsp_offset c))
      else None)"

definition rvc :: "u16 \<Rightarrow> rv_instr option" where
  "rvc c = (let q = bitsel 1 0 c in
     if q = 0 then rvc_q0 c else if q = 1 then rvc_q1 c else if q = 2 then rvc_q2 c else None)"

section \<open>The expansion in the core\<close>

text \<open>Verilog's concatenation of bit fields, most significant first.\<close>

definition sel :: "u16 \<Rightarrow> nat \<Rightarrow> nat \<Rightarrow> bool list" where
  "sel c hi lo = map (bit c) (rev [lo..<Suc hi])"

definition lit :: "nat \<Rightarrow> nat \<Rightarrow> bool list" where
  "lit k v = map (bit v) (rev [0..<k])"

definition list_word :: "bool list \<Rightarrow> 'a::len word" where
  "list_word bs = horner_sum of_bool 2 bs"

definition vcat :: "bool list list \<Rightarrow> u32" where
  "vcat fs = list_word (rev (concat fs))"

definition decompress_q0 :: "u16 \<Rightarrow> u32" where
  "decompress_q0 c =
     (let f = bitsel 15 13 c in
      if f = 0 then
        (if bitsel 12 5 c \<noteq> 0
         then vcat [lit 2 0, sel c 10 7, sel c 12 11, sel c 5 5, sel c 6 6, lit 2 0, lit 5 2, lit 3 0, lit 2 1, sel c 4 2, lit 7 0x13]
         else 0)
      else if f = 2 then
        vcat [lit 5 0, sel c 5 5, sel c 12 10, sel c 6 6, lit 2 0, lit 2 1, sel c 9 7, lit 3 2, lit 2 1, sel c 4 2, lit 7 0x03]
      else if f = 6 then
        vcat [lit 5 0, sel c 5 5, sel c 12 12, lit 2 1, sel c 4 2, lit 2 1, sel c 9 7, lit 3 2, sel c 11 10, sel c 6 6, lit 2 0, lit 7 0x23]
      else 0)"

definition decompress_arith :: "u16 \<Rightarrow> u32" where
  "decompress_arith c =
     (let k = bitsel 11 10 c; reg = (\<lambda>f7 f3. vcat [lit 7 f7, lit 2 1, sel c 4 2, lit 2 1, sel c 9 7, lit 3 f3, lit 2 1, sel c 9 7, lit 7 0x33]) in
      if k = 0 then vcat [lit 7 0, sel c 6 2, lit 2 1, sel c 9 7, lit 3 5, lit 2 1, sel c 9 7, lit 7 0x13]
      else if k = 1 then vcat [lit 7 0x20, sel c 6 2, lit 2 1, sel c 9 7, lit 3 5, lit 2 1, sel c 9 7, lit 7 0x13]
      else if k = 2 then
        vcat [replicate 6 (bit c 12), sel c 12 12, sel c 6 2, lit 2 1, sel c 9 7, lit 3 7, lit 2 1, sel c 9 7, lit 7 0x13]
      else if \<not> bit c 12 \<and> bitsel 6 5 c = 0 then reg 0x20 0
      else if \<not> bit c 12 \<and> bitsel 6 5 c = 1 then reg 0 4
      else if \<not> bit c 12 \<and> bitsel 6 5 c = 2 then reg 0 6
      else if \<not> bit c 12 \<and> bitsel 6 5 c = 3 then reg 0 7
      else 0)"

definition decompress_q1 :: "u16 \<Rightarrow> u32" where
  "decompress_q1 c =
     (let f = bitsel 15 13 c; s = bit c 12;
          jump = (\<lambda>rd. vcat [sel c 12 12, sel c 8 8, sel c 10 9, sel c 6 6, sel c 7 7, sel c 2 2, sel c 11 11, sel c 5 3,
            sel c 12 12, replicate 8 s, lit 5 rd, lit 7 0x6F]);
          branch = (\<lambda>f3. vcat [sel c 12 12, sel c 12 12, sel c 12 12, sel c 12 12, sel c 6 6, sel c 5 5, sel c 2 2, lit 5 0,
            lit 2 1, sel c 9 7, lit 3 f3, sel c 11 11, sel c 10 10, sel c 4 4, sel c 3 3, sel c 12 12, lit 7 0x63]) in
      if f = 0 then vcat [replicate 6 s, sel c 12 12, sel c 6 2, sel c 11 7, lit 3 0, sel c 11 7, lit 7 0x13]
      else if f = 1 then jump 1
      else if f = 2 then vcat [replicate 6 s, sel c 12 12, sel c 6 2, lit 5 0, lit 3 0, sel c 11 7, lit 7 0x13]
      else if f = 3 then
        (if bitsel 11 7 c = 2
         then vcat [replicate 2 s, sel c 12 12, sel c 4 3, sel c 5 5, sel c 2 2, sel c 6 6, lit 4 0, lit 5 2, lit 3 0, lit 5 2, lit 7 0x13]
         else vcat [replicate 14 s, sel c 12 12, sel c 6 2, sel c 11 7, lit 7 0x37])
      else if f = 4 then decompress_arith c
      else if f = 5 then jump 0
      else if f = 6 then branch 0
      else branch 1)"

definition decompress_q2 :: "u16 \<Rightarrow> u32" where
  "decompress_q2 c =
     (let f = bitsel 15 13 c in
      if f = 0 then vcat [lit 7 0, sel c 6 2, sel c 11 7, lit 3 1, sel c 11 7, lit 7 0x13]
      else if f = 2 then
        vcat [lit 4 0, sel c 3 2, sel c 12 12, sel c 6 4, lit 2 0, lit 5 2, lit 3 2, sel c 11 7, lit 7 0x03]
      else if f = 4 then
        (if \<not> bit c 12 \<and> bitsel 6 2 c = 0 then vcat [lit 12 0, sel c 11 7, lit 3 0, lit 5 0, lit 7 0x67]
         else if \<not> bit c 12 \<and> bitsel 6 2 c \<noteq> 0 then vcat [lit 7 0, sel c 6 2, lit 5 0, lit 3 0, sel c 11 7, lit 7 0x33]
         else if bit c 12 \<and> bitsel 6 2 c = 0 then
           (if bitsel 11 7 c = 0 then 0x00100073 else vcat [lit 12 0, sel c 11 7, lit 3 0, lit 5 1, lit 7 0x67])
         else vcat [lit 7 0, sel c 6 2, sel c 11 7, lit 3 0, sel c 11 7, lit 7 0x33])
      else if f = 6 then
        vcat [lit 4 0, sel c 8 7, sel c 12 12, sel c 6 2, lit 5 2, lit 3 2, sel c 11 9, lit 2 0, lit 7 0x23]
      else 0)"

definition decompress :: "u16 \<Rightarrow> u32" where
  "decompress c =
     (let q = bitsel 1 0 c in
      if q = 0 then decompress_q0 c else if q = 1 then decompress_q1 c else if q = 2 then decompress_q2 c else 0)"

section \<open>Fields of a concatenation\<close>

lemma bit_scatter: "bit (scatter tbl c) n \<longleftrightarrow> n < 32 \<and> list_ex (\<lambda>(i, j). j = n \<and> bit c i) tbl"
proof -
  have "bit (fold (\<lambda>(i, j) w. w OR push_bit j (of_bool (bit c i))) tbl (w :: u32)) n \<longleftrightarrow>
      bit w n \<or> n < 32 \<and> list_ex (\<lambda>(i, j). j = n \<and> bit c i) tbl" for w
  proof (induction tbl arbitrary: w)
    case (Cons p tbl)
    obtain i j where p: "p = (i, j)"
      by force
    have "bit (push_bit j (of_bool (bit c i)) :: u32) n \<longleftrightarrow> n < 32 \<and> j = n \<and> bit c i"
      by (auto simp: bit_push_bit_iff bit_of_bool_iff)
    then show ?case
      using Cons.IH by (auto simp add: p bit_or_iff)
  qed simp
  then show ?thesis
    by (simp add: scatter_def)
qed

lemma bit_list_word: "bit (list_word bs :: 'a::len word) n \<longleftrightarrow> n < LENGTH('a) \<and> n < length bs \<and> bs ! n"
  by (simp add: list_word_def bit_horner_sum_bit_word_iff)

text \<open>Two words are equal when their bits are, one by one.\<close>

lemma u32_eq_by_bits:
  "list_all (\<lambda>n. bit a n \<longleftrightarrow> bit b n)
     [0, 1, 2, 3, 4, 5, 6, 7, 8, 9, 10, 11, 12, 13, 14, 15, 16, 17,
      18, 19, 20, 21, 22, 23, 24, 25, 26, 27, 28, 29, 30, 31] \<Longrightarrow> a = (b :: u32)"
proof (rule u32_eqI)
  fix n :: nat
  assume l: "list_all (\<lambda>n. bit a n \<longleftrightarrow> bit b n)
     [0, 1, 2, 3, 4, 5, 6, 7, 8, 9, 10, 11, 12, 13, 14, 15, 16, 17,
      18, 19, 20, 21, 22, 23, 24, 25, 26, 27, 28, 29, 30, 31]" and "n < 32"
  then have "n \<in> set [0, 1, 2, 3, 4, 5, 6, 7, 8, 9, 10, 11, 12, 13, 14, 15, 16, 17,
      18, 19, 20, 21, 22, 23, 24, 25, 26, 27, 28, 29, 30, 31]"
    unfolding list.set by (simp add: numeral_eq_Suc less_Suc_eq)
  then show "bit a n \<longleftrightarrow> bit b n"
    using l by (simp only: list_all_iff)
qed

lemma u5_eq_by_bits: "list_all (\<lambda>n. bit a n \<longleftrightarrow> bit b n) [0, 1, 2, 3, 4] \<Longrightarrow> a = (b :: u5)"
  by (rule bit_word_eqI) (auto simp: numeral_eq_Suc less_Suc_eq)

text \<open>The fields and immediates of a word given by its bits, lowest first.\<close>

lemma fields_of_bits:
  assumes "length bs = 32"
  shows "opcode_of (list_word bs) = list_word (take 7 bs)" "rd_of (list_word bs) = list_word (take 5 (drop 7 bs))"
    "funct3_of (list_word bs) = list_word (take 3 (drop 12 bs))" "rs1_of (list_word bs) = list_word (take 5 (drop 15 bs))"
    "rs2_of (list_word bs) = list_word (take 5 (drop 20 bs))" "funct7 (list_word bs) = list_word (drop 25 bs)"
  using assms by (auto intro!: bit_word_eqI simp: opcode_of_def rd_of_def funct3_of_def rs1_of_def rs2_of_def funct7_def
      bit_list_word bit_ucast_iff)

lemma imm_of_bits:
  assumes "length bs = 32"
  shows "imm_I (list_word bs) = signed_take_bit 11 (list_word (drop 20 bs))"
    "imm_S (list_word bs) = signed_take_bit 11 (list_word (take 5 (drop 7 bs) @ drop 25 bs))"
    "imm_B (list_word bs) = signed_take_bit 12 (list_word (False # take 4 (drop 8 bs) @ take 6 (drop 25 bs) @ [bs ! 7, bs ! 31]))"
    "imm_J (list_word bs) = signed_take_bit 20 (list_word (False # take 10 (drop 21 bs) @ bs ! 20 # take 8 (drop 12 bs) @ [bs ! 31]))"
    "imm_U (list_word bs) = push_bit 12 (list_word (drop 12 bs))"
  unfolding imm_I_def imm_S_def imm_B_def imm_J_def imm_U_def
  subgoal by (rule u32_eq_by_bits, simp add: assms bit_list_word bit_simps)
  subgoal by (rule u32_eq_by_bits, simp add: assms bit_list_word bit_simps nth_append)
  subgoal by (rule u32_eq_by_bits, simp add: assms bit_list_word bit_simps nth_append nth_Cons' del: push_bit_Suc One_nat_def)
  subgoal by (rule u32_eq_by_bits, simp add: assms bit_list_word bit_simps nth_append nth_Cons' del: push_bit_Suc One_nat_def)
  subgoal by (rule u32_eq_by_bits, simp add: assms bit_list_word bit_simps)
  done

lemma const_fields:
  "(list_word [True, True, False, False, True, False, False] :: u32) = 0x13"
  "(list_word [True, True, False, False, False, False, False] :: u32) = 0x03"
  "(list_word [True, True, False, False, False, True, False] :: u32) = 0x23"
  "(list_word [True, True, False, False, True, True, False] :: u32) = 0x33"
  "(list_word [True, True, False, False, False, True, True] :: u32) = 0x63"
  "(list_word [True, True, True, True, False, True, True] :: u32) = 0x6F"
  "(list_word [True, True, True, False, False, True, True] :: u32) = 0x67"
  "(list_word [True, True, True, False, True, True, False] :: u32) = 0x37"
  "(list_word [a, b, d] :: u32) = of_bool a + 2 * of_bool b + 4 * of_bool d"
  "(list_word [False, False, False, False, False, False, False] :: u32) = 0"
  "(list_word [False, False, False, False, False, True, False] :: u32) = 0x20"
  "(list_word [False, False, False, False, False] :: u5) = 0"
  "(list_word [True, False, False, False, False] :: u5) = 1"
  "(list_word [False, True, False, False, False] :: u5) = 2"
  by (simp_all add: list_word_def)

lemma reg_fields:
  "list_word [bit c 7, bit c 8, bit c 9, bit c 10, bit c 11] = rvc_rd c"
  "list_word [bit c 2, bit c 3, bit c 4, bit c 5, bit c 6] = rvc_rs2 c"
  "list_word [bit c 7, bit c 8, bit c 9, True, False] = rvc_rs1' c"
  "list_word [bit c 2, bit c 3, bit c 4, True, False] = rvc_rd' c"
proof -
  have p: "8 + (ucast (bitsel (lo + 2) lo c) :: u5) = 8 OR ucast (bitsel (lo + 2) lo c)" for lo
  proof (rule disjunctive_add)
    fix n
    have "bit (8 :: u5) n \<longleftrightarrow> n = 3"
      using bit_one_shift [of 3 n, where 'a = 5] by auto
    then show "\<not> bit (8 :: u5) n \<or> \<not> bit (ucast (bitsel (lo + 2) lo c) :: u5) n"
      by (auto simp: bit_ucast_iff)
  qed
  show "list_word [bit c 7, bit c 8, bit c 9, bit c 10, bit c 11] = rvc_rd c"
    "list_word [bit c 2, bit c 3, bit c 4, bit c 5, bit c 6] = rvc_rs2 c"
    by (rule u5_eq_by_bits, simp add: rvc_rd_def rvc_rs2_def bit_list_word bit_ucast_iff del: add_2_eq_Suc)+
  show "list_word [bit c 7, bit c 8, bit c 9, True, False] = rvc_rs1' c"
    "list_word [bit c 2, bit c 3, bit c 4, True, False] = rvc_rd' c"
    using p [of 7] p [of 2]
    by (rule_tac u5_eq_by_bits, simp add: rvc_rs1'_def rvc_rd'_def bit_list_word bit_ucast_iff bit_or_iff del: add_2_eq_Suc)+
qed

lemmas place = bit_list_word bit_scatter bit_signed_take_bit_iff bit_push_bit_iff

lemma imm_fields:
  "signed_take_bit 11 (list_word [bit c 2, bit c 3, bit c 4, bit c 5, bit c 6, bit c 12, bit c 12, bit c 12, bit c 12,
     bit c 12, bit c 12, bit c 12]) = rvc_imm c"
  "signed_take_bit 11 (list_word [False, False, bit c 6, bit c 5, bit c 11, bit c 12, bit c 7, bit c 8, bit c 9, bit c 10,
     False, False]) = rvc_addi4spn_imm c"
  "signed_take_bit 11 (list_word [False, False, False, False, bit c 6, bit c 2, bit c 5, bit c 3, bit c 4, bit c 12, bit c 12,
     bit c 12]) = rvc_addi16sp_imm c"
  "signed_take_bit 11 (list_word [False, False, bit c 6, bit c 10, bit c 11, bit c 12, bit c 5, False, False, False, False,
     False]) = rvc_word_offset c"
  "signed_take_bit 11 (list_word [False, False, bit c 4, bit c 5, bit c 6, bit c 12, bit c 2, bit c 3, False, False, False,
     False]) = rvc_lwsp_offset c"
  "signed_take_bit 11 (list_word [False, False, bit c 9, bit c 10, bit c 11, bit c 12, bit c 7, bit c 8, False, False, False,
     False]) = rvc_swsp_offset c"
  "signed_take_bit 11 (list_word [False, False, False, False, False, False, False, False, False, False, False, False]) = (0 :: u32)"
  "signed_take_bit 12 (list_word [False, bit c 3, bit c 4, bit c 10, bit c 11, bit c 2, bit c 5, bit c 6, bit c 12, bit c 12,
     bit c 12, bit c 12, bit c 12]) = rvc_branch_imm c"
  "signed_take_bit 20 (list_word [False, bit c 3, bit c 4, bit c 5, bit c 11, bit c 2, bit c 7, bit c 6, bit c 9, bit c 10,
     bit c 8, bit c 12, bit c 12, bit c 12, bit c 12, bit c 12, bit c 12, bit c 12, bit c 12, bit c 12, bit c 12]) = rvc_jump_imm c"
  "push_bit 12 (list_word [bit c 2, bit c 3, bit c 4, bit c 5, bit c 6, bit c 12, bit c 12, bit c 12, bit c 12, bit c 12, bit c 12,
     bit c 12, bit c 12, bit c 12, bit c 12, bit c 12, bit c 12, bit c 12, bit c 12, bit c 12]) = rvc_lui_imm c"
  unfolding rvc_imm_def rvc_addi4spn_imm_def rvc_addi16sp_imm_def rvc_word_offset_def rvc_lwsp_offset_def rvc_swsp_offset_def
    rvc_branch_imm_def rvc_jump_imm_def rvc_lui_imm_def
  subgoal by (rule u32_eq_by_bits, simp add: place)
  subgoal by (rule u32_eq_by_bits, simp add: place)
  subgoal by (rule u32_eq_by_bits, simp add: place)
  subgoal by (rule u32_eq_by_bits, simp add: place)
  subgoal by (rule u32_eq_by_bits, simp add: place)
  subgoal by (rule u32_eq_by_bits, simp add: place)
  subgoal by (rule u32_eq_by_bits, simp add: place)
  subgoal by (rule u32_eq_by_bits, simp add: place)
  subgoal by (rule u32_eq_by_bits, simp add: place)
  subgoal by (rule u32_eq_by_bits, simp add: place)
  done

lemma lit_eqs:
  "lit 2 0 = [False, False]"
  "lit 2 1 = [False, True]"
  "lit 3 0 = [False, False, False]"
  "lit 3 1 = [False, False, True]"
  "lit 3 2 = [False, True, False]"
  "lit 3 4 = [True, False, False]"
  "lit 3 5 = [True, False, True]"
  "lit 3 6 = [True, True, False]"
  "lit 3 7 = [True, True, True]"
  "lit 4 0 = [False, False, False, False]"
  "lit 5 0 = [False, False, False, False, False]"
  "lit 5 1 = [False, False, False, False, True]"
  "lit 5 2 = [False, False, False, True, False]"
  "lit 7 0 = [False, False, False, False, False, False, False]"
  "lit 7 3 = [False, False, False, False, False, True, True]"
  "lit 7 0x13 = [False, False, True, False, False, True, True]"
  "lit 7 0x20 = [False, True, False, False, False, False, False]"
  "lit 7 0x23 = [False, True, False, False, False, True, True]"
  "lit 7 0x33 = [False, True, True, False, False, True, True]"
  "lit 7 0x37 = [False, True, True, False, True, True, True]"
  "lit 7 0x63 = [True, True, False, False, False, True, True]"
  "lit 7 0x67 = [True, True, False, False, True, True, True]"
  "lit 7 0x6f = [True, True, False, True, True, True, True]"
  "lit 12 0 = [False, False, False, False, False, False, False, False, False, False, False, False]"
  by (simp_all add: lit_def upt_rec bit_Suc_0_iff)

lemma replicate_eqs:
  "replicate 2 b = [b, b]" "replicate 6 b = [b, b, b, b, b, b]" "replicate 8 b = [b, b, b, b, b, b, b, b]"
  "replicate 14 b = [b, b, b, b, b, b, b, b, b, b, b, b, b, b]"
  by (simp_all add: numeral_eq_Suc)

lemma shamt_field: "ucast (rvc_rs2 c) = rvc_shamt c"
  by (rule u32_eqI) (simp add: rvc_rs2_def rvc_shamt_def bit_ucast_iff less_Suc_eq_le conj_commute cong: conj_cong)

lemmas build = vcat_def sel_def lit_eqs replicate_eqs
lemmas decode_fields = fields_of_bits const_fields reg_fields imm_of_bits imm_fields decode_load_def decode_store_def
  decode_branch_def decode_op_imm_def decode_op_def base_fn_def

lemma q0_words:
  "decode (vcat [lit 2 0, sel c 10 7, sel c 12 11, sel c 5 5, sel c 6 6, lit 2 0, lit 5 2, lit 3 0, lit 2 1, sel c 4 2, lit 7 0x13]) =
     Some (Op_imm Alu_add (rvc_rd' c) 2 (rvc_addi4spn_imm c))"
  "decode (vcat [lit 5 0, sel c 5 5, sel c 12 10, sel c 6 6, lit 2 0, lit 2 1, sel c 9 7, lit 3 2, lit 2 1, sel c 4 2, lit 7 0x03]) =
     Some (Load LW (rvc_rd' c) (rvc_rs1' c) (rvc_word_offset c))"
  "decode (vcat [lit 5 0, sel c 5 5, sel c 12 12, lit 2 1, sel c 4 2, lit 2 1, sel c 9 7, lit 3 2, sel c 11 10, sel c 6 6, lit 2 0, lit 7 0x23]) =
     Some (Store SW (rvc_rs1' c) (rvc_rd' c) (rvc_word_offset c))"
  by (simp_all add: build decode_def decode_fields del: One_nat_def)

lemma arith_words:
  "decode (vcat [lit 7 0, sel c 6 2, lit 2 1, sel c 9 7, lit 3 5, lit 2 1, sel c 9 7, lit 7 0x13]) =
     Some (Op_imm Alu_srl (rvc_rs1' c) (rvc_rs1' c) (rvc_shamt c))"
  "decode (vcat [lit 7 0x20, sel c 6 2, lit 2 1, sel c 9 7, lit 3 5, lit 2 1, sel c 9 7, lit 7 0x13]) =
     Some (Op_imm Alu_sra (rvc_rs1' c) (rvc_rs1' c) (rvc_shamt c))"
  "decode (vcat [replicate 6 (bit c 12), sel c 12 12, sel c 6 2, lit 2 1, sel c 9 7, lit 3 7, lit 2 1, sel c 9 7, lit 7 0x13]) =
     Some (Op_imm Alu_and (rvc_rs1' c) (rvc_rs1' c) (rvc_imm c))"
  "decode (vcat [lit 7 0x20, lit 2 1, sel c 4 2, lit 2 1, sel c 9 7, lit 3 0, lit 2 1, sel c 9 7, lit 7 0x33]) =
     Some (Op Alu_sub (rvc_rs1' c) (rvc_rs1' c) (rvc_rd' c))"
  "decode (vcat [lit 7 0, lit 2 1, sel c 4 2, lit 2 1, sel c 9 7, lit 3 4, lit 2 1, sel c 9 7, lit 7 0x33]) =
     Some (Op Alu_xor (rvc_rs1' c) (rvc_rs1' c) (rvc_rd' c))"
  "decode (vcat [lit 7 0, lit 2 1, sel c 4 2, lit 2 1, sel c 9 7, lit 3 6, lit 2 1, sel c 9 7, lit 7 0x33]) =
     Some (Op Alu_or (rvc_rs1' c) (rvc_rs1' c) (rvc_rd' c))"
  "decode (vcat [lit 7 0, lit 2 1, sel c 4 2, lit 2 1, sel c 9 7, lit 3 7, lit 2 1, sel c 9 7, lit 7 0x33]) =
     Some (Op Alu_and (rvc_rs1' c) (rvc_rs1' c) (rvc_rd' c))"
  by (simp_all add: build decode_def decode_fields shamt_field del: One_nat_def)

lemma q1_words:
  "decode (vcat [replicate 6 (bit c 12), sel c 12 12, sel c 6 2, sel c 11 7, lit 3 0, sel c 11 7, lit 7 0x13]) =
     Some (Op_imm Alu_add (rvc_rd c) (rvc_rd c) (rvc_imm c))"
  "decode (vcat [replicate 6 (bit c 12), sel c 12 12, sel c 6 2, lit 5 0, lit 3 0, sel c 11 7, lit 7 0x13]) =
     Some (Op_imm Alu_add (rvc_rd c) 0 (rvc_imm c))"
  "decode (vcat [replicate 2 (bit c 12), sel c 12 12, sel c 4 3, sel c 5 5, sel c 2 2, sel c 6 6, lit 4 0, lit 5 2, lit 3 0, lit 5 2,
     lit 7 0x13]) = Some (Op_imm Alu_add 2 2 (rvc_addi16sp_imm c))"
  "decode (vcat [replicate 14 (bit c 12), sel c 12 12, sel c 6 2, sel c 11 7, lit 7 0x37]) = Some (Lui (rvc_rd c) (rvc_lui_imm c))"
  by (simp_all add: build decode_def decode_fields del: One_nat_def)

lemma jump_words:
  "decode (vcat [sel c 12 12, sel c 8 8, sel c 10 9, sel c 6 6, sel c 7 7, sel c 2 2, sel c 11 11, sel c 5 3,
     sel c 12 12, replicate 8 (bit c 12), lit 5 1, lit 7 0x6F]) = Some (Jal 1 (rvc_jump_imm c))"
  "decode (vcat [sel c 12 12, sel c 8 8, sel c 10 9, sel c 6 6, sel c 7 7, sel c 2 2, sel c 11 11, sel c 5 3,
     sel c 12 12, replicate 8 (bit c 12), lit 5 0, lit 7 0x6F]) = Some (Jal 0 (rvc_jump_imm c))"
  "decode (vcat [sel c 12 12, sel c 12 12, sel c 12 12, sel c 12 12, sel c 6 6, sel c 5 5, sel c 2 2, lit 5 0,
     lit 2 1, sel c 9 7, lit 3 0, sel c 11 11, sel c 10 10, sel c 4 4, sel c 3 3, sel c 12 12, lit 7 0x63]) =
     Some (Branch BEQ (rvc_rs1' c) 0 (rvc_branch_imm c))"
  "decode (vcat [sel c 12 12, sel c 12 12, sel c 12 12, sel c 12 12, sel c 6 6, sel c 5 5, sel c 2 2, lit 5 0,
     lit 2 1, sel c 9 7, lit 3 1, sel c 11 11, sel c 10 10, sel c 4 4, sel c 3 3, sel c 12 12, lit 7 0x63]) =
     Some (Branch BNE (rvc_rs1' c) 0 (rvc_branch_imm c))"
  by (simp_all add: build decode_def decode_fields del: One_nat_def)

lemma q2_words:
  "decode (vcat [lit 7 0, sel c 6 2, sel c 11 7, lit 3 1, sel c 11 7, lit 7 0x13]) =
     Some (Op_imm Alu_sll (rvc_rd c) (rvc_rd c) (rvc_shamt c))"
  "decode (vcat [lit 4 0, sel c 3 2, sel c 12 12, sel c 6 4, lit 2 0, lit 5 2, lit 3 2, sel c 11 7, lit 7 0x03]) =
     Some (Load LW (rvc_rd c) 2 (rvc_lwsp_offset c))"
  "decode (vcat [lit 12 0, sel c 11 7, lit 3 0, lit 5 0, lit 7 0x67]) = Some (Jalr 0 (rvc_rd c) 0)"
  "decode (vcat [lit 7 0, sel c 6 2, lit 5 0, lit 3 0, sel c 11 7, lit 7 0x33]) = Some (Op Alu_add (rvc_rd c) 0 (rvc_rs2 c))"
  "decode (vcat [lit 12 0, sel c 11 7, lit 3 0, lit 5 1, lit 7 0x67]) = Some (Jalr 1 (rvc_rd c) 0)"
  "decode (vcat [lit 7 0, sel c 6 2, sel c 11 7, lit 3 0, sel c 11 7, lit 7 0x33]) =
     Some (Op Alu_add (rvc_rd c) (rvc_rd c) (rvc_rs2 c))"
  "decode (vcat [lit 4 0, sel c 8 7, sel c 12 12, sel c 6 2, lit 5 2, lit 3 2, sel c 11 9, lit 2 0, lit 7 0x23]) =
     Some (Store SW 2 (rvc_rs2 c) (rvc_swsp_offset c))"
  by (simp_all add: build decode_def decode_fields shamt_field del: One_nat_def)

lemma ebreak_word: "decode 0x00100073 = Some Ebreak"
  by (simp add: decode_def opcode_of_def decode_system_def funct3_of_def rd_of_def rs1_of_def csr_of_def bitsel_def mask_eq_exp_minus_1)

lemma field_values:
  "bitsel 11 7 c = 0 \<longleftrightarrow> rvc_rd c = 0" "bitsel 6 2 c = 0 \<longleftrightarrow> rvc_rs2 c = 0" "bitsel 11 7 c = 2 \<longleftrightarrow> rvc_rd c = 2"
proof -
  have f: "(ucast (bitsel (lo + 4) lo c) :: u5) = ucast k \<longleftrightarrow> bitsel (lo + 4) lo c = k" if "k < 32" for lo and k :: u16
  proof -
    have "unat (bitsel (lo + 4) lo c) < 32" "unat k < 32"
      using bitsel_less [of "lo + 4" lo c] that by (simp_all add: word_less_nat_alt)
    then show ?thesis
      by (simp add: word_unat_eq_iff unsigned_ucast_eq take_bit_nat_eq_self)
  qed
  show "bitsel 11 7 c = 0 \<longleftrightarrow> rvc_rd c = 0" "bitsel 6 2 c = 0 \<longleftrightarrow> rvc_rs2 c = 0" "bitsel 11 7 c = 2 \<longleftrightarrow> rvc_rd c = 2"
    using f [of 0 7] f [of 0 2] f [of 2 7] by (simp_all add: rvc_rd_def rvc_rs2_def)
qed

lemma addi4spn_zero: "bitsel 12 5 c = 0 \<Longrightarrow> rvc_addi4spn_imm c = 0"
proof -
  assume a: "bitsel 12 5 c = 0"
  have "\<not> bit c (5 + n)" if "n < 8" for n
    using arg_cong [OF a, of "\<lambda>w. bit w n"] that by simp
  from this [of 0] this [of 1] this [of 2] this [of 3] this [of 4] this [of 5] this [of 6] this [of 7]
  have "\<not> bit c 5" "\<not> bit c 6" "\<not> bit c 7" "\<not> bit c 8" "\<not> bit c 9" "\<not> bit c 10" "\<not> bit c 11" "\<not> bit c 12"
    by simp_all
  then show ?thesis
    by (simp add: rvc_addi4spn_imm_def scatter_def)
qed

lemma field_6_5: "bitsel 6 5 (c :: u16) = 0 \<or> bitsel 6 5 c = 1 \<or> bitsel 6 5 c = 2 \<or> bitsel 6 5 c = 3"
proof -
  have "unat (bitsel 6 5 c) < 4"
    using bitsel_less [of 6 5 c] by (simp add: word_less_nat_alt)
  then show ?thesis
    by (auto simp: word_unat_eq_iff)
qed

lemma q0_expands: "rvc_q0 c = Some i \<Longrightarrow> decode (decompress_q0 c) = Some i"
  by (auto simp: rvc_q0_def decompress_q0_def Let_def q0_words addi4spn_zero simp del: One_nat_def split: if_splits)

lemma arith_expands: "rvc_arith c = Some i \<Longrightarrow> decode (decompress_arith c) = Some i"
  using field_6_5 [of c]
  by (auto simp: rvc_arith_def decompress_arith_def Let_def arith_words simp del: One_nat_def split: if_splits)

lemma q1_expands: "rvc_q1 c = Some i \<Longrightarrow> decode (decompress_q1 c) = Some i"
  by (auto simp: rvc_q1_def decompress_q1_def Let_def q1_words jump_words field_values arith_expands
      simp del: One_nat_def split: if_splits)

lemma q2_expands: "rvc_q2 c = Some i \<Longrightarrow> decode (decompress_q2 c) = Some i"
  by (auto simp: rvc_q2_def decompress_q2_def Let_def q2_words ebreak_word field_values simp del: One_nat_def split: if_splits)

text \<open>C3: The core's expansion of the extension C is right: every halfword that abbreviates an instruction in the
  manual's tables is expanded to a word that decodes to exactly this instruction, with all registers and the
  bits of every immediate in their places.\<close>

theorem decompress_expands:
  assumes "rvc c = Some i"
  shows "decode (decompress c) = Some i"
  using assms
  by (auto simp: rvc_def decompress_def Let_def q0_expands q1_expands q2_expands simp del: One_nat_def split: if_splits)

theorem decompress_expands_witness:
  "decode (decompress 0xDD6D) = Some (Branch BEQ 10 0 (-6))"
  by (rule decompress_expands)
    (simp add: rvc_def rvc_q1_def Let_def bitsel_def mask_eq_exp_minus_1 rvc_rs1'_def rvc_branch_imm_def scatter_def)

text \<open>Reserved encodings are not refused: a shift whose amount has bit 5 set, which RV32 reserves, is executed
  with the low five bits, and a load to \<open>x0\<close> is executed; the word of 0s is illegal.\<close>

lemma reserved_shift_expanded:
  assumes "bitsel 1 0 c = 2" and "bitsel 15 13 c = 0" and "bit c 12"
  shows "rvc c = None \<and> decode (decompress c) = Some (Op_imm Alu_sll (rvc_rd c) (rvc_rd c) (rvc_shamt c))"
  using assms by (simp add: rvc_def rvc_q2_def decompress_def decompress_q2_def q2_words Let_def del: One_nat_def)

lemma reserved_load_expanded:
  assumes "bitsel 1 0 c = 2" and "bitsel 15 13 c = 2" and "rvc_rd c = 0"
  shows "rvc c = None \<and> decode (decompress c) = Some (Load LW 0 2 (rvc_lwsp_offset c))"
  using assms by (simp add: rvc_def rvc_q2_def decompress_def decompress_q2_def q2_words Let_def del: One_nat_def)

lemma zero_halfword_illegal: "rvc 0 = None \<and> decode (decompress 0) = None"
  by (simp add: rvc_def rvc_q0_def decompress_def decompress_q0_def rvc_addi4spn_imm_def scatter_def Let_def bitsel_def
      decode_def opcode_of_def)

section \<open>The fetch stage with compressed instructions\<close>

text \<open>The registers, and the wires from the execute stage: \<open>cf_redirect\<close> is
  \<open>debug_enter || debug_exit || trap_taken || mret_taken\<close>, \<open>cf_stall\<close> is \<open>stall_if || bubble_if\<close>.\<close>

record cfetch =
  cf_pc :: u32
  cf_instr :: u32
  cf_if_pc :: u32
  if_is_compressed :: bool
  fetch_buf :: u16
  fetch_buf_valid :: bool

record cfetch_in =
  cf_word :: u32
  cf_redirect :: bool
  cf_stall :: bool
  cf_jump :: bool
  cf_next_pc :: u32

definition cfetch_reset :: "u32 \<Rightarrow> cfetch" where
  "cfetch_reset rpc = \<lparr>cf_pc = rpc, cf_instr = 0, cf_if_pc = rpc, if_is_compressed = False, fetch_buf = 0, fetch_buf_valid = False\<rparr>"

definition cfetch_edge :: "cfetch_in \<Rightarrow> cfetch \<Rightarrow> cfetch" where
  "cfetch_edge i s =
     (let go = s\<lparr>cf_pc := cf_next_pc i, cf_instr := 0x13, cf_if_pc := cf_next_pc i, fetch_buf_valid := False, if_is_compressed := False\<rparr>;
          pc = cf_pc s; low = (ucast (cf_word i) :: u16); high = (ucast (bitsel 31 16 (cf_word i)) :: u16) in
      if cf_redirect i then go
      else if cf_stall i then s
      else if cf_jump i then go
      else if fetch_buf_valid s
      then s\<lparr>cf_pc := pc + 2, cf_instr := push_bit 16 (ucast low) OR ucast (fetch_buf s), cf_if_pc := pc - 2,
             fetch_buf_valid := False, if_is_compressed := False\<rparr>
      else if bit pc 1 then
        (if bitsel 17 16 (cf_word i) = 3
         then s\<lparr>fetch_buf := high, fetch_buf_valid := True, cf_pc := pc + 2, cf_instr := 0x13, cf_if_pc := pc, if_is_compressed := False\<rparr>
         else s\<lparr>cf_pc := pc + 2, cf_instr := decompress high, cf_if_pc := pc, if_is_compressed := True\<rparr>)
      else if bitsel 1 0 (cf_word i) = 3
      then s\<lparr>cf_pc := pc + 4, cf_instr := cf_word i, cf_if_pc := pc, if_is_compressed := False\<rparr>
      else s\<lparr>cf_pc := pc + 2, cf_instr := decompress low, cf_if_pc := pc, if_is_compressed := True\<rparr>)"

section \<open>What the fetch stage promises\<close>

text \<open>A program is a memory of halfwords at even addresses. The instruction at an address, with its length:\<close>

definition halves_at :: "(u32 \<Rightarrow> u16) \<Rightarrow> u32 \<Rightarrow> u32" where
  "halves_at hw a = push_bit 16 (ucast (hw (a + 2))) OR ucast (hw a)"

definition is_wide :: "u16 \<Rightarrow> bool" where
  "is_wide c \<longleftrightarrow> bitsel 1 0 c = 3"

definition instr_at :: "(u32 \<Rightarrow> u16) \<Rightarrow> u32 \<Rightarrow> u32 \<times> bool" where
  "instr_at hw a = (if is_wide (hw a) then (halves_at hw a, False) else (decompress (hw a), True))"

definition length_at :: "(u32 \<Rightarrow> u16) \<Rightarrow> u32 \<Rightarrow> u32" where
  "length_at hw a = (if is_wide (hw a) then 4 else 2)"

text \<open>What the stage hands on: a word, its address and whether it was compressed.\<close>

definition handed :: "cfetch \<Rightarrow> u32 \<times> u32 \<times> bool" where
  "handed s = (cf_instr s, cf_if_pc s, if_is_compressed s)"

text \<open>
  What a program asks for, edge by edge, by the address \<open>a\<close> of its next instruction alone. A trap, a return or
  a jump gives the empty instruction \<open>addi x0, x0, 0\<close> and goes on at the target, a stall hands on the same again, and
  every other edge hands on the next instruction: only a wide one that lies across two words takes two edges, the first of
  which (\<open>half\<close>) again gives the empty instruction.
\<close>

definition nop :: u32 where "nop = 0x13"

fun program_stream :: "(u32 \<Rightarrow> u16) \<Rightarrow> cfetch_in list \<Rightarrow> u32 \<Rightarrow> bool \<Rightarrow> u32 \<times> u32 \<times> bool \<Rightarrow> (u32 \<times> u32 \<times> bool) list" where
  "program_stream hw [] a half h = []"
| "program_stream hw (i # is) a half h =
     (if cf_redirect i \<or> cf_jump i \<and> \<not> cf_stall i
      then let h' = (nop, cf_next_pc i, False) in h' # program_stream hw is (cf_next_pc i) False h'
      else if cf_stall i then h # program_stream hw is a half h
      else if bit a 1 \<and> is_wide (hw a) \<and> \<not> half
      then let h' = (nop, a, False) in h' # program_stream hw is a True h'
      else let (w, c) = instr_at hw a; h' = (w, a, c) in h' # program_stream hw is (a + length_at hw a) False h')"

text \<open>The instruction memory answers with the word that contains the program counter.\<close>

definition feed :: "(u32 \<Rightarrow> u16) \<Rightarrow> cfetch_in \<Rightarrow> cfetch \<Rightarrow> cfetch_in" where
  "feed hw i s = i\<lparr>cf_word := halves_at hw (word_base (cf_pc s))\<rparr>"

fun fetch_stream :: "(u32 \<Rightarrow> u16) \<Rightarrow> cfetch_in list \<Rightarrow> cfetch \<Rightarrow> (u32 \<times> u32 \<times> bool) list" where
  "fetch_stream hw [] s = []"
| "fetch_stream hw (i # is) s =
     (let s' = cfetch_edge (feed hw i s) s in handed s' # fetch_stream hw is s')"

text \<open>The address of the next instruction, and the invariant of the put-aside half.\<close>

definition fetch_addr :: "cfetch \<Rightarrow> u32" where
  "fetch_addr s = (if fetch_buf_valid s then cf_pc s - 2 else cf_pc s)"

definition fetch_ok :: "(u32 \<Rightarrow> u16) \<Rightarrow> cfetch \<Rightarrow> bool" where
  "fetch_ok hw s \<longleftrightarrow> \<not> bit (cf_pc s) 0 \<and>
     (fetch_buf_valid s \<longrightarrow> \<not> bit (cf_pc s) 1 \<and> fetch_buf s = hw (cf_pc s - 2) \<and> is_wide (fetch_buf s))"

lemma low_bits:
  fixes a :: u32
  shows "bit a 0 \<longleftrightarrow> odd (unat a)" "bit a 1 \<longleftrightarrow> odd (unat a div 2)"
  using bit_unsigned_iff [of a 0, where 'a = nat] bit_unsigned_iff [of a 1, where 'a = nat]
  by (simp_all only: bit_iff_odd [of "unat a"] possible_bit_nat simp_thms power_0 power_one_right div_by_1)

lemma bit_three: "bit (3 :: 'a::len word) n \<longleftrightarrow> n < 2 \<and> n < LENGTH('a)"
proof -
  have "(3 :: 'a word) = mask 2"
    by (simp add: mask_eq_exp_minus_1)
  then show ?thesis
    using bit_mask_iff [of 2 n, where 'a = "'a word"] by (simp only: possible_bit_word) auto
qed

lemma mod_four:
  fixes k :: nat
  shows "odd k \<longleftrightarrow> k mod 4 = 1 \<or> k mod 4 = 3" "odd (k div 2) \<longleftrightarrow> k mod 4 = 2 \<or> k mod 4 = 3"
    "k mod 4 = 0 \<Longrightarrow> (k + 2) mod 4 = 2" "k mod 4 = 2 \<Longrightarrow> (k + 2) mod 4 = 0" "(k + 4) mod 4 = k mod 4"
    "k mod 4 = 0 \<or> k mod 4 = 1 \<or> k mod 4 = 2 \<or> k mod 4 = 3"
  by presburger+

lemma aligned:
  fixes a :: u32
  assumes "\<not> bit a 0"
  shows "\<not> bit a 1 \<Longrightarrow> word_base a = a" "bit a 1 \<Longrightarrow> word_base a + 2 = a" "\<not> bit (a + 2) 0" "\<not> bit (a + 4) 0"
    "bit a 1 \<Longrightarrow> \<not> bit (a + 2) 1"
proof -
  have n: "bit (NOT 3 :: u32) n \<longleftrightarrow> 1 < n \<and> n < 32" for n
    using bit_three [of n, where 'a = 32] by (simp only: bit_not_iff possible_bit_word) auto
  show "word_base a = a" if "\<not> bit a 1"
  proof (rule u32_eqI)
    fix n :: nat
    consider "n = 0" | "n = 1" | "1 < n"
      by linarith
    then show "n < 32 \<Longrightarrow> bit (word_base a) n \<longleftrightarrow> bit a n"
      unfolding word_base_def bit_and_iff n using assms that by cases auto
  qed
  have two: "bit (2 :: u32) n \<longleftrightarrow> n = 1" for n
    using bit_one_shift [of 1 n, where 'a = 32] by auto
  have "word_base a + 2 = word_base a OR 2"
    by (rule disjunctive_add) (simp only: word_base_def bit_and_iff n two, auto)
  moreover have "word_base a OR 2 = a" if "bit a 1"
  proof (rule u32_eqI)
    fix n :: nat
    consider "n = 0" | "n = 1" | "1 < n"
      by linarith
    then show "n < 32 \<Longrightarrow> bit (word_base a OR 2) n \<longleftrightarrow> bit a n"
      unfolding word_base_def bit_or_iff bit_and_iff n two using assms that by cases auto
  qed
  ultimately show "word_base a + 2 = a" if "bit a 1"
    using that by simp
  have "(4 :: nat) dvd 4294967296"
    by simp
  then have u: "unat (a + 2) mod 4 = (unat a + 2) mod 4" "unat (a + 4) mod 4 = (unat a + 4) mod 4"
    by (simp_all add: unat_word_ariths mod_mod_cancel)
  have o: "\<not> bit v 0 \<longleftrightarrow> unat v mod 4 = 0 \<or> unat v mod 4 = 2" "bit v 1 \<longleftrightarrow> unat v mod 4 = 2 \<or> unat v mod 4 = 3" for v :: u32
    subgoal unfolding low_bits(1) mod_four(1) using mod_four(6) [of "unat v"] by linarith
    subgoal unfolding low_bits(2) by (rule mod_four(2))
    done
  have k: "unat a mod 4 = 0 \<or> unat a mod 4 = 2"
    using assms o by blast
  show "\<not> bit (a + 2) 0"
    unfolding o u using k
  proof
    assume "unat a mod 4 = 0"
    then show "(unat a + 2) mod 4 = 0 \<or> (unat a + 2) mod 4 = 2"
      by (intro disjI2 mod_four(3))
  next
    assume "unat a mod 4 = 2"
    then show "(unat a + 2) mod 4 = 0 \<or> (unat a + 2) mod 4 = 2"
      by (intro disjI1 mod_four(4))
  qed
  show "\<not> bit (a + 4) 0"
    unfolding o u mod_four(5) by (rule k)
  show "\<not> bit (a + 2) 1" if "bit a 1"
  proof -
    have "unat a mod 4 = 2"
      using k that o(2) [of a] by auto
    then have "unat (a + 2) mod 4 = 0"
      unfolding u by (rule mod_four(4))
    then show ?thesis
      using o(2) [of "a + 2"] by simp
  qed
qed

lemma bit_halves_at:
  "bit (halves_at hw a) n \<longleftrightarrow> (if n < 16 then bit (hw a) n else n < 32 \<and> bit (hw (a + 2)) (n - 16))"
  by (auto simp: halves_at_def bit_or_iff bit_push_bit_iff bit_ucast_iff dest: bit_imp_le_length)

lemma halves:
  "(ucast (halves_at hw a) :: u16) = hw a" "(ucast (bitsel 31 16 (halves_at hw a)) :: u16) = hw (a + 2)"
  "bitsel 1 0 (halves_at hw a) = 3 \<longleftrightarrow> is_wide (hw a)" "bitsel 17 16 (halves_at hw a) = 3 \<longleftrightarrow> is_wide (hw (a + 2))"
proof -
  show 1: "(ucast (halves_at hw a) :: u16) = hw a" 
    by (rule bit_word_eqI) (simp add: bit_ucast_iff bit_halves_at)
  show 2: "(ucast (bitsel 31 16 (halves_at hw a)) :: u16) = hw (a + 2)"
    by (rule bit_word_eqI) (simp add: bit_ucast_iff bit_halves_at)
  have b: "c = 3 \<longleftrightarrow> bit c 0 \<and> bit c 1" if "\<And>n. 1 < n \<Longrightarrow> \<not> bit c n" and "1 < LENGTH('a)" for c :: "'a::len word"
  proof
    assume c: "bit c 0 \<and> bit c 1"
    show "c = 3"
    proof (rule bit_word_eqI)
      fix n :: nat
      consider "n = 0" | "n = 1" | "1 < n"
        by linarith
      then show "bit c n \<longleftrightarrow> bit (3 :: 'a word) n"
        unfolding bit_three using c that by cases auto
    qed
  qed (use that in \<open>simp add: bit_three\<close>)
  have w: "bitsel 1 0 c = 3 \<longleftrightarrow> bit c 0 \<and> bit c 1" for c :: u16
    using b [of "bitsel 1 0 c"] by simp
  have w': "bitsel (Suc lo) lo c = 3 \<longleftrightarrow> bit c lo \<and> bit c (Suc lo)" for lo and c :: u32
    using b [of "bitsel (Suc lo) lo c"] by simp
  show "bitsel 1 0 (halves_at hw a) = 3 \<longleftrightarrow> is_wide (hw a)" "bitsel 17 16 (halves_at hw a) = 3 \<longleftrightarrow> is_wide (hw (a + 2))"
    using w' [of 0 "halves_at hw a"] w' [of 16 "halves_at hw a"] w [of "hw a"] w [of "hw (a + 2)"]
    by (simp_all add: is_wide_def bit_halves_at)
qed

text \<open>One edge: the invariant is kept, and what is handed on is what the program asks for.\<close>

lemma fetch_step:
  assumes "fetch_ok hw s" and "cf_redirect i \<or> cf_jump i \<Longrightarrow> \<not> bit (cf_next_pc i) 0"
  defines "s' \<equiv> cfetch_edge (feed hw i s) s"
  shows "fetch_ok hw s' \<and>
    program_stream hw (i # is) (fetch_addr s) (fetch_buf_valid s) (handed s) =
      handed s' # program_stream hw is (fetch_addr s') (fetch_buf_valid s') (handed s')"
proof -
  have a: "\<not> bit (cf_pc s) 0"
    using assms(1) by (simp add: fetch_ok_def)
  note al = aligned [OF a]
  note defs = cfetch_edge_def feed_def fetch_ok_def fetch_addr_def handed_def nop_def instr_at_def length_at_def halves Let_def
  show ?thesis
  proof (cases "cf_redirect i \<or> cf_stall i \<or> cf_jump i")
    case True
    then show ?thesis
      using assms(1,2) unfolding s'_def by (auto simp: defs)
  next
    case False
    then have e: "\<not> cf_redirect i" "\<not> cf_stall i" "\<not> cf_jump i"
      by simp_all
    consider "fetch_buf_valid s" | "\<not> fetch_buf_valid s" "bit (cf_pc s) 1" | "\<not> fetch_buf_valid s" "\<not> bit (cf_pc s) 1"
      by blast
    then show ?thesis
    proof cases
      case 1
      then show ?thesis
        using assms(1) e al(1,3) unfolding s'_def by (auto simp add: defs halves_at_def [of hw "cf_pc s - 2"] add.commute)
    next
      case 2
      then show ?thesis
        using e a al(2,3,5) unfolding s'_def by (simp add: defs del: One_nat_def)
    next
      case 3
      then show ?thesis
        using e a al(1,3,4) unfolding s'_def by (simp add: defs del: One_nat_def)
    qed
  qed
qed

text \<open>C4: The fetch stage of the core with the option for compressed instructions delivers the program. Whatever the
  mixture of 16-bit and 32-bit instructions, also with wide instructions across two words, and for every
  sequence of stalls, traps and jumps to even addresses, what it hands on at every edge (the word, its address and
  the mark of a compressed one) is what the program asks for: its instructions from the start address or the last
  target on, in order, each expanded and with its own address, the same again on a stall, and the empty
  instruction on a redirection and on the first of the two edges that a wide instruction across two words takes.\<close>

theorem compressed_fetch:
  assumes "fetch_ok hw s" and "\<forall>i \<in> set is. cf_redirect i \<or> cf_jump i \<longrightarrow> \<not> bit (cf_next_pc i) 0"
  shows "fetch_stream hw is s = program_stream hw is (fetch_addr s) (fetch_buf_valid s) (handed s)"
  using assms
proof (induction "is" arbitrary: s)
  case (Cons i "is")
  note step = fetch_step [of hw s i "is"]
  have "fetch_ok hw (cfetch_edge (feed hw i s) s)"
    using step Cons.prems by simp
  then show ?case
    using Cons.IH step Cons.prems by (simp del: program_stream.simps add: Let_def)
qed simp

text \<open>It does not stop: after an edge that only puts a half aside, the next one without a stall delivers.\<close>

lemma fetch_progress:
  assumes "fetch_buf_valid s" and "\<not> cf_stall i"
  shows "\<not> fetch_buf_valid (cfetch_edge (feed hw i s) s)"
  using assms by (simp add: cfetch_edge_def feed_def Let_def)

text \<open>A program of a compressed instruction at 0 and a wide one at 2, which lies in two words: its first half is put
  aside on the second edge, and the last delivers it.\<close>

definition go_in :: cfetch_in where
  "go_in = \<lparr>cf_word = 0, cf_redirect = False, cf_stall = False, cf_jump = False, cf_next_pc = 0\<rparr>"

definition mixed_program :: "u32 \<Rightarrow> u16" where
  "mixed_program a = (if a = 0 then 0x4515 else if a = 2 then 0x0293 else if a = 4 then 0x0070 else 0x0001)"

lemma reset_ok: "\<not> bit rpc 0 \<Longrightarrow> fetch_ok hw (cfetch_reset rpc) \<and> fetch_addr (cfetch_reset rpc) = rpc"
  by (simp add: fetch_ok_def cfetch_reset_def fetch_addr_def)

lemma mixed_program_at:
  "instr_at mixed_program 0 = (0x00500513, True) \<and> instr_at mixed_program 2 = (0x00700293, False) \<and>
     length_at mixed_program 0 = 2 \<and> is_wide (mixed_program 2)"
  by code_simp

theorem compressed_fetch_witness:
  "fetch_stream mixed_program [go_in, go_in, go_in\<lparr>cf_stall := True\<rparr>, go_in] (cfetch_reset 0) =
     [(0x00500513, 0, True), (0x13, 2, False), (0x13, 2, False), (0x00700293, 2, False)]"
  using compressed_fetch [of mixed_program "cfetch_reset 0" "[go_in, go_in, go_in\<lparr>cf_stall := True\<rparr>, go_in]"]
    reset_ok [of 0 mixed_program]
  by (simp add: go_in_def mixed_program_at cfetch_reset_def handed_def nop_def Let_def)

section \<open>The other places of the option\<close>

text \<open>The flag travels with the instruction; the return address of a jump and the \<open>dpc\<close> of a single step are the address
  behind it; a target is misaligned when it is odd.\<close>

definition id_ex_is_compressed_edge :: "bool \<Rightarrow> bool \<Rightarrow> bool \<Rightarrow> bool" where
  "id_ex_is_compressed_edge stall flushed c \<longleftrightarrow> \<not> stall \<and> \<not> flushed \<and> c"

definition address_behind :: "bool \<Rightarrow> u32 \<Rightarrow> u32" where
  "address_behind c pc = (if c then pc + 2 else pc + 4)"

definition exc_instr_ma_c :: "core \<Rightarrow> bool" where
  "exc_instr_ma_c s \<longleftrightarrow> ex_valid s \<and> pc_sel_jump s \<and> bit (target_pc s) 0"

lemma address_behind_fetched:
  assumes "instr_at hw a = (w, c)"
  shows "address_behind c a = a + length_at hw a"
  using assms by (auto simp: address_behind_def instr_at_def length_at_def split: if_splits)

text \<open>No jump from an even address has an odd target, so the exception cannot occur, and the assumption on targets in
  the theorem on fetching holds for every jump.\<close>

lemma jump_targets_even:
  assumes "\<not> bit (id_ex_pc (exs s)) 0" and "id_imm (exs s) = generate_imm (ex_instr s) (op7 s)" and "pc_sel_jump s"
  shows "\<not> bit (target_pc s) 0" and "\<not> exc_instr_ma_c s"
proof -
  have e: "\<not> bit (a + b) 0" if "\<not> bit a 0" "\<not> bit b 0" for a b :: u32
    using that by (simp add: bit_0)
  have i: "\<not> bit (imm_B w) 0" "\<not> bit (imm_J w) 0" for w
    by (simp_all add: imm_B_def imm_J_def bit_simps del: push_bit_Suc One_nat_def)
  show t: "\<not> bit (target_pc s) 0"
    using assms e [OF assms(1) i(1)] e [OF assms(1) i(2)] generate_imm_correct(5,6) [of "ex_instr s"]
    by (auto simp: target_pc_def branch_target_def jump_target_def pc_sel_jump_def bit_and_iff bit_not_iff)
  then show "\<not> exc_instr_ma_c s"
    by (simp add: exc_instr_ma_c_def)
qed

end
