(* ===== verification/Spec2Isabelle.thy ===== *)
theory Spec2Isabelle
  imports Fw_Eml_Table Fw_Snn_Temporal Fw_Main Sdk_Eml Sdk_Snn Sdk_Sys Tc_Xcew_Opt Rtl_Nvm Rtl_Soc
    Rtl_Eml_Cache Rtl_Eml_Ct Rtl_Stdp Rtl_Spare Sdk_Examples Sdk_Client Soc_Programs Soc_Power Soc_Core Soc_Eml Rtl_Debug Rtl_Xcie Rtl_Axi_Masters Rtl_Rvc
begin

text \<open>
  Azmuth is a RISC-V system on chip with three accelerator tiles: EML (expression evaluation), SNN
  (a spiking network) and NVM (a non-volatile memory with ECC). This development models the C code
  that drives it, the RISC-V core, the accelerators, the bus and the debug hardware in RTL, and proves what
  each part does and what they do together.

  \<^bold>\<open>Parts of the program and their theories.\<close>
  \<^item> \<open>Azmuth_Prelude\<close>: machine integers, Verilog bit fields, byte buffers read as little-endian
    words, the loop counters of \<open>for (i = 0; i < n; i += 4)\<close>. \<open>Soft_Float\<close>: binary32 and binary64
    arithmetic as the C code uses it, rounding to nearest even.
  \<^item> \<open>Fw_Eml_Optimizer\<close>, \<open>Fw_Eml_Table\<close>: \<open>firmware/eml_optimizer.c\<close>. The file-scope variables
    are the record \<open>eml_state\<close>; one definition per function. \<open>Fw_Eml_Table\<close> holds the abstract view
    (a map from identifiers to entries), the step relation of calls and the properties.
  \<^item> \<open>Fw_Snn_Temporal\<close>: \<open>firmware/snn_temporal.c\<close>, the TTFS encoders, the temporal-coding cycle with
    its static arrays, and STDP. \<open>expf\<close> and the system frequency are arguments. \<open>fires\<close> says by sample pairs
    when the encoder spikes, without its timers and buffers.
  \<^item> \<open>Fw_Main\<close>: \<open>firmware/main.c\<close>.
  \<^item> \<open>Hw_Bus\<close>: the accesses that C code has on the hardware (CSR reads and writes, an Xcew
    instruction, loads and stores) as a record of operations on a device state, the logging bus,
    and the contracts of a CSR and of a memory as locales.
  \<^item> \<open>Sdk_Eml\<close>, \<open>Sdk_Snn\<close>, \<open>Sdk_Sys\<close>: \<open>sdk/src/xcew_eml.c\<close>, \<open>xcew_snn.c\<close>, \<open>xcew_sys.c\<close> with the
    headers \<open>xcew.h\<close> and \<open>csr.h\<close>, over any bus.
  \<^item> \<open>Sdk_Console\<close>, \<open>Sdk_Examples\<close>: the output functions and the programs of \<open>sdk/examples\<close>, over
    any bus. The locale \<open>console\<close> says what a program's output is, \<open>coded_chip\<close> adds a memory and a
    fixed fault status; the programs' lemmas are proved in it. \<open>Soc_Programs\<close> interprets it on the
    bus of the RTL, for a chip that shows a past fault and for one whose NVM controller holds its error flag.
  \<^item> \<open>Tc_Xcew_Opt\<close>: \<open>toolchain/XcewOptPass.cpp\<close>, the LLVM pass that removes repeated EML
    instructions. A basic block is a list of instructions; opcode numbers and \<open>hash_combine\<close> are
    parameters. What an instruction computes is stated by its own operands (\<open>computation\<close>) and on a register
    file (\<open>exec_block\<close>), apart from what the pass collects of it.
  \<^item> \<open>Rtl_Secded\<close>, \<open>Rtl_Nvm\<close>: \<open>rtl/nvm/nvm_ctrl.v\<close>. \<open>Rtl_Policy\<close>: \<open>rtl/core/policy_determinism.v\<close>.
    \<open>Rtl_Fault\<close>: \<open>rtl/security/fault_monitor.v\<close>. \<open>Rtl_Power\<close>: \<open>rtl/power/orchestrator.v\<close>.
    \<open>Rtl_Bias\<close>: \<open>rtl/power/body_bias_ctrl.v\<close>. \<open>Rtl_Eml_Cache\<close>: \<open>rtl/eml/eml_dag_cache.v\<close>.
    \<open>Rtl_Eml_Ct\<close>: \<open>rtl/eml/eml_constant_time.v\<close>. \<open>Rtl_Neuron\<close>, \<open>Rtl_Snn_Tile\<close>, \<open>Rtl_Stdp\<close>: the SNN
    tile, its neurons and its learning engine, \<open>rtl/snn\<close>. \<open>Rtl_Cdc\<close>: \<open>rtl/soc/cdc_sync.v\<close>.
    \<open>Rtl_Spare\<close>: modules of these files that nothing instantiates.
    \<open>Rtl_Axi\<close>: the core's path through \<open>rtl/soc/axi_lite_interconnect_v1_1.v\<close>; \<open>Rtl_Axi_Masters\<close>: all of
    it with the slaves behind it, and the proof that the core sees the former through the latter. A clocked block is
    a function from its inputs and state before the edge to the state after it.
  \<^item> \<open>Isa_Rv32\<close>: RV32IM with machine-mode traps after the RISC-V manuals, as the abstract specification of
    the core: decoding, and the effect of each instruction on program counter, registers, CSRs and memory.
    \<open>Rtl_Core_Alu\<close>, \<open>Rtl_Core\<close>: \<open>rtl/core/riscv_core.v\<close>, its combinational blocks and its clocked blocks;
    \<open>core_edge\<close> is a clock edge, and each \<open>always\<close> block is one of the functions it applies.
    \<open>Core_Refines\<close>: the simulation. An edge executes exactly the instruction that the abstract state names or
    stutters, at most twice in a row; the programs covered are those without the encodings listed there.
    \<open>Rtl_Rvc\<close>: the expansion of compressed instructions and the fetch stage that the option \<open>SUPPORT_C\<close> adds.
  \<^item> \<open>Rtl_Eml\<close>: \<open>rtl/eml/eml_unit.v\<close>, the fixed-point exponential and logarithm with their monotonicity,
    the stages and the memory of results. \<open>Rtl_Xcie\<close>: \<open>rtl/core/xcie_*.v\<close> and \<open>rtl/eml/eml_dag_scheduler.v\<close>,
    which nothing instantiates; the CSR locales are interpreted on them as well.
  \<^item> \<open>Rtl_Dtm\<close>, \<open>Rtl_Debug\<close>: \<open>rtl/debug\<close>, the JTAG transport edge by edge of \<open>tck\<close>, the debug module, and
    the module with the core as the top level connects them (\<open>debugged_edge\<close>).
  \<^item> \<open>Rtl_Soc\<close>: the CSR block of \<open>rtl/xcew_top_v1_1.v\<close> with these blocks behind it, and the bus
    \<open>soc_bus\<close> on which the SDK's and the firmware's definitions run unchanged. The locales of
    \<open>Hw_Bus\<close> are interpreted on it. The DAG cache stands alone: the top level never drives its inputs.
  \<^item> \<open>Soc_Power\<close>: the body-bias and tile-sleep drivers on the chip, and the set and clear macros of \<open>csr.h\<close>.
  \<^item> \<open>Soc_Core\<close>: the core with the instruction fetch of the top level: what halt, resume, single step and
    coprocessor answers do to the program. \<open>Soc_Eml\<close>: core and EML unit on the coprocessor port; the steps
    between two answers are the relation \<open>between_answers\<close>.
  \<^item> \<open>Soc_Snn\<close>: the path of a classification from the core's coprocessor port through the
    synchronisers to the tile and back, as a step relation over the edges of the two clocks.
  \<^item> \<open>Sdk_Client\<close>: a program that calls the SDK, as a step relation over the calls, with what it owes the SDK.

  This theory holds the properties of drivers and RTL together.

  \<^bold>\<open>How C is read.\<close> A struct is a record, \<open>uint32_t\<close> and \<open>size_t\<close> (ilp32) are 32-bit words
  that wrap, a pointer argument is an option (\<open>None\<close> is \<open>NULL\<close>) of the pointed-to object, and a
  function returns its result with the objects and the device after the call. Undefined behaviour
  that the code can reach (an access outside an object, an out-of-range float conversion) is a
  value of type \<open>ub\<close>. A loop whose counter could wrap is a partial function, where \<open>None\<close> is a
  call that does not return; the properties show that the calls they speak of return. No fuel is
  used.

  \<^bold>\<open>How the RTL is read.\<close> A register is a record field at its width, a wire a function of the state and
  the inputs, and a non-blocking assignment takes effect at the end of the edge: the functions of one
  edge read the state before it. Registers without a reset value are arguments of the reset state. Modules
  that run on one clock are composed by applying their edges to the same state; for two clocks there
  is a step relation with either clock's edge.

  \<^bold>\<open>Not modelled.\<close> The core as a whole with the option \<open>SUPPORT_C\<close>, which one compliance flow sets,
  metastability, the reset and clock-gating cells, the cycle of everything on the chip at once (the
  compositions are those that the properties are about), the older v1.0 top level and its copies
  under \<open>mpw\<close>, the test logic of \<open>dft\<close>, the assembly start-up files, and the declarations of \<open>xcew.h\<close>, whose
  functions are modelled from their bodies.
\<close>

section \<open>The EML drivers on the chip\<close>

lemma cfg_legal_bits: "bit (cfg_legal v) n \<longleftrightarrow> 7 \<le> n \<and> n < 16 \<and> bit v n"
proof -
  have m: "(0xFF80 :: u32) = push_bit 7 (mask 9)"
    by (simp add: mask_eq_exp_minus_1)
  have "bit (0xFF80 :: u32) n \<longleftrightarrow> 7 \<le> n \<and> n < 16"
    unfolding m bit_push_bit_iff bit_mask_iff possible_bit_word by auto
  then show ?thesis
    by (auto simp: cfg_legal_def bit_and_iff)
qed

text \<open>\<open>xcew_eml_init\<close> configures the hardware it means to: on the chip it returns \<open>XCEW_OK\<close> for
  the modes 0 and 1, and afterwards \<open>xcew_cfg\<close> reads back as depth 3 and precision 2 and
  \<open>eml_dag_ctl\<close> as the mode.\<close>

lemma eml_init_configures_chip:
  assumes "m \<le> 1" and "v1_1_en s"
  shows "case xcew_eml_init (soc_bus env) (Some e) m s of (rc, e', s') \<Rightarrow>
    rc = XCEW_OK \<and> e' = Some (e\<lparr>expr_id := 0, flags := 0, mode := m, precision := 2\<rparr>) \<and>
    fst (csrr (soc_bus env) 0x7C0 s') = (XCEW_CFG_MAX_DEPTH 3 OR XCEW_CFG_PRECISION 2) \<and>
    fst (csrr (soc_bus env) 0x7C6 s') = m"
proof -
  have legal: "cfg_legal 0x3200 = 0x3200"
    by (simp add: cfg_legal_def)
  have "v1_1_en (csrw (soc_bus env) 0x7C6 m s)"
    by (simp add: bus_simps)
  then show ?thesis
    unfolding eml_init_ok [OF assms(1)]
    using cfg.rd_wr dag_cfg.rd_wr_other [OF assms(2)] eml_init_cfg_default legal by simp
qed

text \<open>C31: Constant-time EML instructions compute nothing. The unit takes its operation code from the
  low byte of \<open>xcew_cfg\<close>, whose bits 6 to 0 the CSR block does not store: after \<open>xcew_eml_init\<close> with
  the configuration that it writes, a request in constant-time mode has, after five cycles, the
  result 0 whatever the operands are.\<close>

theorem constant_time_eml_returns_zero:
  assumes "m \<le> 1" and "v1_1_en s" and "xcew_eml_init (soc_bus env) (Some e) m s = (rc, e', s')"
    and "ct_phase u = CT_IDLE" and "\<not> bit (cfg_reg u) 0" and "ready_in u" and "\<not> valid_out u"
    and "ct_valid_in i" and "const_time_en i" and "ct_cfg i = fst (csrr (soc_bus env) 0x7C0 s')"
    and "\<forall>j \<in> set is. const_time_en j" and "length is = 4"
  shows "valid_out (fold ct_edge (i # is) u) \<and> result_reg (fold ct_edge (i # is) u) = 0"
proof -
  have "v1_1_en (csrw (soc_bus env) 0x7C6 m s)"
    using assms(2) by (simp add: bus_simps)
  moreover have "s' = csrw (soc_bus env) 0x7C0 0x3200 (csrw (soc_bus env) 0x7C6 m s)"
    using assms(3) unfolding eml_init_ok [OF assms(1)] by simp
  ultimately have "ct_cfg i = 0x3200"
    using cfg.rd_wr assms(10) by (simp add: cfg_legal_def)
  moreover have z: "(0x3200 :: u8) = 0"
    by simp
  moreover have "fixed_cycles 0 = 5"
    by (simp add: fixed_cycles_def ct_ops)
  ultimately show ?thesis
    using fixed_time_result [OF assms(4-9) _ assms(11)] assms(12) by (simp add: z ct_result_def ct_ops)
qed

theorem constant_time_eml_returns_zero_witness:
  "result_reg (fold ct_edge (request 0x3200 3 4 # replicate 4 (request 0 0 0)) ct_zero) = 0"
proof -
  let ?B = "soc_bus (\<lambda>_. idle_env)" and ?e = "\<lparr>expr_id = 0, flags = 0, mode = 0, precision = 0\<rparr>"
  define s' where "s' = csrw ?B 0x7C0 0x3200 (csrw ?B 0x7C6 0 idle_soc)"
  have i: "xcew_eml_init ?B (Some ?e) 0 idle_soc = (XCEW_OK, Some (?e\<lparr>expr_id := 0, flags := 0, mode := 0, precision := 2\<rparr>), s')"
    using eml_init_ok [of 0 ?B ?e idle_soc] by (simp add: s'_def)
  have "v1_1_en (csrw ?B 0x7C6 0 idle_soc)"
    by (simp add: bus_simps)
  then have "fst (csrr ?B 0x7C0 s') = 0x3200"
    using cfg.rd_wr unfolding s'_def by (simp add: cfg_legal_def)
  then show ?thesis
    using constant_time_eml_returns_zero [OF _ _ i, of ct_zero "request 0x3200 3 4" "replicate 4 (request 0 0 0)"]
    by (simp add: request_def ct_zero_def ct_reset_def)
qed

text \<open>The DAG mode that \<open>eml_precompile\<close> sets does not exist: bit 5 of CSR 0x7C0 is not
  implemented. With \<open>eml_get_csr\<close> and \<open>eml_set_csr\<close> as plain CSR accesses the register reads back
  without the bit and otherwise as before, and the DAG control register 0x7C6 is not touched.\<close>

lemma dag_mode_bit_is_dropped:
  assumes "v1_1_en s" and "cfg_legal (csr_xcew_cfg s) = csr_xcew_cfg s"
  shows "let s' = set_dag_mode (\<lambda>d. fst (csrr (soc_bus env) 0x7C0 d)) (csrw (soc_bus env) 0x7C0) s
    in fst (csrr (soc_bus env) 0x7C0 s') = fst (csrr (soc_bus env) 0x7C0 s) \<and>
       \<not> bit (fst (csrr (soc_bus env) 0x7C0 s')) 5 \<and>
       csr_eml_dag_ctl s' = csr_eml_dag_ctl s"
proof -
  have "cfg_legal (v OR push_bit 5 1) = cfg_legal v" for v
    by (rule bit_word_eqI) (auto simp: cfg_legal_bits bit_or_iff bit_one_shift simp del: push_bit_of_1)
  moreover have "\<not> bit (csr_xcew_cfg s) 5"
    using cfg_legal_bits [of "csr_xcew_cfg s" 5] assms(2) by simp
  ultimately show ?thesis
    using assms cfg.rd_wr [of s env] dag_cfg.other_wr [OF assms(1), of env]
    by (simp add: set_dag_mode_def Let_def bus_simps soc_reg_simps del: push_bit_of_1)
qed

section \<open>The SNN drivers on the chip\<close>

text \<open>The SDK and the RTL disagree on \<open>snn_ctrl_ext\<close>. After \<open>xcew_snn_enable_stdp\<close> succeeds,
  STDP and learning are disabled in the tile and its STDP policy is 0, whatever policy was asked
  for: the requested number is the refractory period instead, TTFS is on exactly when bit 7 of
  the neuron count is set, and the TTFS switch is bit 0 of the time window.\<close>

lemma enable_stdp_does_not:
  assumes "v1_1_en s" and "policy \<le> 5"
  shows "case xcew_snn_enable_stdp (soc_bus env) (Some c) policy s of (rc, c', s') \<Rightarrow>
    rc = XCEW_OK \<and> \<not> snn_stdp_enable_int s' \<and> \<not> snn_learning_enable_int s' \<and>
    snn_stdp_policy_int s' = 0 \<and> snn_refractory_cycles_int s' = policy \<and>
    (snn_ttfs_enable_int s' \<longleftrightarrow> bit (neuron_count c) 7) \<and>
    snn_t_window_int s' = ttfs_enabled c AND 1"
proof -
  define w where "w = ((neuron_count c AND 0xFF) OR push_bit 8 (ttfs_enabled c AND 0x1))
    OR push_bit 12 (policy AND 0x7)"
  have b: "bit w n \<longleftrightarrow> (n < 8 \<and> bit (neuron_count c) n) \<or> (n = 8 \<and> bit (ttfs_enabled c) 0) \<or>
      (12 \<le> n \<and> n < 15 \<and> bit policy (n - 12))" for n
  proof -
    have m: "(0xFF :: u32) = mask 8" "(0x7 :: u32) = mask 3" "(0x1 :: u32) = mask 1"
      by (simp_all add: mask_eq_exp_minus_1)
    show ?thesis
      unfolding w_def m bit_or_iff bit_and_iff bit_push_bit_iff bit_mask_iff possible_bit_word
      by (auto simp: le_Suc_eq)
  qed
  have small: "n < 3" if "bit policy n" for n
  proof -
    have "unat policy div 2 ^ n = 0" if "3 \<le> n"
      using assms(2) that power_increasing [of 3 n "2 :: nat"] by (simp add: word_le_nat_alt)
    moreover have "bit (unat policy) n"
      using that by (simp add: bit_unsigned_iff bit_imp_possible_bit)
    ultimately show ?thesis
      by (fastforce simp: bit_iff_odd not_le [symmetric])
  qed
  have "xcew_snn_enable_stdp (soc_bus env) (Some c) policy s =
      (XCEW_OK, Some (c\<lparr>stdp_policy := policy\<rparr>), csrw (soc_bus env) 0x7C5 w s)"
    using assms(2) by (simp add: xcew_snn_enable_stdp_def w_def not_less [symmetric])
  moreover have "csr_snn_ctrl_ext (csrw (soc_bus env) 0x7C5 w s) = w"
    using assms(1) by (simp add: bus_simps soc_reg_simps)
  moreover have "bitsel 19 16 w = 0" "bitsel 14 12 w = policy" "bitsel 10 8 w = ttfs_enabled c AND 1"
    by (rule bit_word_eqI, auto simp: b bit_and_iff bit_1_iff dest: small)+
  ultimately show ?thesis
    by (simp add: snn_fields b bus_simps)
qed

section \<open>The policy unit\<close>

lemma policy_word_nibble: "drop_bit 1 (policy_word n) AND 0xF = 0"
proof -
  have m: "(0xF :: u32) = mask 4" "(0xFFFF :: u32) = mask 16" "push_bit 0 (1 :: u32) = mask 1"
    by (simp_all add: mask_eq_exp_minus_1)
  show ?thesis
  proof (rule bit_word_eqI)
    fix k
    show "bit (drop_bit 1 (policy_word n) AND 0xF) k = bit (0 :: u32) k"
      unfolding policy_word_def m bit_or_iff bit_and_iff bit_push_bit_iff bit_drop_bit_eq o_def
        bit_mask_iff possible_bit_word
      by auto
  qed
qed

lemma pol_step_setting [simp]: "max_cycle_setting (pol_step i m s) = max_cycle_setting s"
  by (simp add: pol_step_def Let_def split: pol_phase.split)

lemma poldet_after_set:
  assumes "\<not> core_asleep s" and "ready (poldet s)"
  shows "max_cycle_setting (poldet (csrw (soc_bus env) 0x7CB (policy_word n) s)) = 0 \<and>
    ready (poldet (csrw (soc_bus env) 0x7CB (policy_word n) s))"
  using assms
  by (simp add: bus_simps poldet_edge pol_edge_def pol_csr_write_def pol_port_def policy_word_nibble
      policy_word_nibble [unfolded One_nat_def])
    (simp add: ready_def pol_step_def Let_def)

text \<open>C35: \<open>xcew_policy_set_deterministic\<close> makes every policy time out. Whatever number of cycles
  is asked for, the policy unit takes its maximum from bits 4 to 1 of the word, which the driver
  leaves 0; a policy of any type that is then started, with its inputs held, ends within 20 cycles with the result
  0xDEADBEEF and the timeout interrupt.\<close>

theorem deterministic_policy_times_out:
  assumes "\<not> core_asleep s" and "v1_1_en s" and "ready (poldet s)"
    and "runs i" and "policy_exec_start i"
  shows "case xcew_policy_set_deterministic (soc_bus env) max_cycles s of (rc, s') \<Rightarrow>
    rc = XCEW_OK \<and> bit (csr_pol_sec s') 0 \<and> max_cycle_setting (poldet s') = 0 \<and>
    (\<exists>k \<le> 20. let t = (pol_edge i ^^ k) (poldet s')
      in policy_done t \<and> policy_result t = 0xDEADBEEF \<and> timeout_irq t)"
proof -
  define s' where "s' = csrw (soc_bus env) 0x7CB (policy_word max_cycles) s"
  have s': "max_cycle_setting (poldet s') = 0" "ready (poldet s')"
    using poldet_after_set [OF assms(1,3)] by (simp_all add: s'_def)
  have "bit (csr_pol_sec s') 0"
    using assms(2)
    by (simp add: s'_def bus_simps soc_reg_simps policy_word_def bit_or_iff bit_push_bit_iff)
  then show ?thesis
    using run_outcome [OF assms(4) s'(2) assms(5)] s'
    by (simp add: xcew_policy_set_deterministic_def s'_def [symmetric] Let_def)
qed

theorem deterministic_policy_times_out_witness:
  "max_cycle_setting (poldet (snd (xcew_policy_set_deterministic (soc_bus (\<lambda>_. idle_env)) 1000 idle_soc))) = 0"
  using deterministic_policy_times_out [of idle_soc "\<lparr>policy_exec_start = True, policy_data = 1,
     det_en = True, pol_csr_addr = 0, pol_csr_wr_en = False, pol_csr_wr_data = 0\<rparr>" "\<lambda>_. idle_env" 1000]
  by (simp add: runs_def ready_def pol_reset_def split: prod.splits)

section \<open>Faults seen through the SDK\<close>

lemma bit_ucast4: "bit (ucast (c :: u4) :: u32) n \<longleftrightarrow> n < 4 \<and> bit c n"
  by (auto simp: bit_unsigned_iff dest: bit_imp_le_length)

lemma shows_code_access:
  assumes "\<And>n. quiet_env (env n)" and "shows_code c s"
  shows "shows_code c (snd (csrr (soc_bus env) a s))" "shows_code c (snd (insn (soc_bus env) op x y s))"
    "a \<noteq> 0x7CD \<Longrightarrow> shows_code c (csrw (soc_bus env) a v s)"
  by (simp_all add: bus_simps shows_code_edge assms)

text \<open>\<open>xcew_nvm_read\<close> misreports ECC. On a chip where no new error occurs and the fault monitor
  shows code \<open>c\<close>, the call returns \<open>XCEW_ERR_ECC\<close> exactly when bit 2 of the code is set. So an
  uncorrectable error (code 3) is returned as \<open>XCEW_OK\<close> with the bad data, while an EML exception
  (code 4) is returned as an ECC error.\<close>

lemma nvm_read_misreports_ecc:
  assumes "\<And>n. quiet_env (env n)" and "shows_code c s" and "ar_grant_master (dmem s)"
    and "in_window addr len" and "4 * nwords (unat len) \<le> length dst"
  shows "\<exists>dst' s'. xcew_nvm_read (soc_bus env) addr (Some dst) len s =
      Some (Inr (if bit c 2 then XCEW_ERR_ECC else XCEW_OK, Some dst', s')) \<and>
    \<not> bit ERR_ECC_DOUBLE 2 \<and> bit ERR_SOFT_EML 2"
proof -
  have codes: "\<not> bit (3 :: u4) 2" "bit (4 :: u4) 2"
    by code_simp+
  obtain dst' d' where r: "xcew_nvm_read (soc_bus env) addr (Some dst) len s =
      Some (Inr (if bit (fst (csrr (soc_bus env) 0x7CC d')) 2 then XCEW_ERR_ECC else XCEW_OK, Some dst',
                 snd (csrr (soc_bus env) 0x7CC d')))"
    and d': "shows_code c d'"
    using bus_memory.nvm_read_in_window [OF rom_shows_code [where env = env and c = c] assms(4,5)]
      assms(1-3) by blast
  have "fst (csrr (soc_bus env) 0x7CC d') = ucast c"
    using shows_code_read [OF assms(1) d'] by (simp add: bus_simps)
  then show ?thesis
    using r codes by (simp add: bit_ucast4 err_codes)
qed

text \<open>A fault outlives its handling. Once the monitor shows a code other than 0, clearing the
  fault status with \<open>xcew_fault_clear\<close>, whatever the mask, does not remove it: the next
  \<open>xcew_eml_compute\<close> still returns \<open>XCEW_ERR_FAULT\<close>, although its result was stored and no new
  fault occurred.\<close>

lemma fault_clear_does_not_help:
  assumes "\<And>n. quiet_env (env n)" and "shows_code c s" and "c \<noteq> 0"
  shows "\<exists>result s'. xcew_eml_compute (soc_bus env) (Some e) inp (Some out)
      (snd (xcew_fault_clear (soc_bus env) fault_mask s)) = (XCEW_ERR_FAULT, Some result, s')"
proof -
  define s1 where "s1 = snd (xcew_fault_clear (soc_bus env) fault_mask s)"
  have "shows_code c s1"
    using shows_code_access(3) [OF assms(1,2), of "0x7CC"] by (simp add: s1_def xcew_fault_clear_def)
  moreover obtain result s2 where i: "insn (soc_bus env) 0x0B (expr_id e) inp s1 = (result, s2)"
    by fastforce
  ultimately have "shows_code c s2"
    using shows_code_access(2) [where env = env and s = s1 and op = "0x0B" and x = "expr_id e" and y = inp,
        OF assms(1)] by simp
  then have read: "fst (csrr (soc_bus env) 0x7CC s2) = ucast c"
    using shows_code_read [OF assms(1)] by (simp add: bus_simps)
  have "(ucast c :: u32) AND 0xFF \<noteq> 0"
  proof -
    have m: "(0xFF :: u32) = mask 8"
      by (simp add: mask_eq_exp_minus_1)
    obtain n where "bit c n"
      using assms(3) by (metis bit_0_eq bot_apply bot_bool_def bit_word_eqI)
    then have "bit ((ucast c :: u32) AND 0xFF) n"
      unfolding m bit_and_iff bit_mask_iff by (auto simp: bit_ucast4 dest: bit_imp_le_length)
    then show ?thesis
      by auto
  qed
  then show ?thesis
    using i read
    by (cases "csrr (soc_bus env) 0x7CC s2")
      (simp add: s1_def [symmetric] xcew_eml_compute_def eml_csr_read_def)
qed

section \<open>Memory accesses of software\<close>

lemma core_addr_small: "unat a < 2 ^ 16 \<Longrightarrow> unat (core_mem_addr_16 a) = unat a"
  by (simp add: core_mem_addr_16_def unsigned_ucast_eq take_bit_nat_eq_self)

lemma window_decodes_nowhere:
  assumes "0x4000 \<le> a" and "a < 0x5000"
  shows "m0_slave (core_mem_addr_16 a) = None" "\<not> bit a 12"
proof -
  have u: "0x4000 \<le> unat a" "unat a < 0x5000"
    using assms by (simp_all add: word_le_nat_alt word_less_nat_alt)
  then have "unat (core_mem_addr_16 a) = unat a"
    by (intro core_addr_small) simp
  then show "m0_slave (core_mem_addr_16 a) = None"
    using u by (intro no_slave) (simp add: word_le_nat_alt)
  have "unat a div 2 ^ 12 = 4"
    using u by (simp add: div_nat_eqI)
  then have "\<not> bit (unat a) 12"
    by (simp add: bit_iff_odd)
  then show "\<not> bit a 12"
    by (simp add: bit_unsigned_iff)
qed

lemma store_elsewhere:
  assumes "m0_slave (core_mem_addr_16 a) \<noteq> Some SLAVE_SRAM"
  shows "sram_memory (dmem (st32 (soc_bus env) a v s)) = sram_memory (dmem s)"
    "sram_memory (dmem (st8 (soc_bus env) a b s)) = sram_memory (dmem s)"
  using assms by (simp_all add: bus_simps dmem_edge mem_edge_sram)

lemma store_grant:
  assumes "ar_grant_master (dmem s)"
  shows "ar_grant_master (dmem (st32 (soc_bus env) a v s))"
    "ar_grant_master (dmem (st8 (soc_bus env) a b s))"
  using assms by (simp_all add: bus_simps soc_edge_grant)

lemma stores_in_window:
  assumes "\<forall>k \<in> set ks. m0_slave (core_mem_addr_16 (addr + ctr k)) = None"
  shows "sram_memory (dmem (stores (soc_bus env) addr src ks s)) = sram_memory (dmem s) \<and>
    (ar_grant_master (dmem s) \<longrightarrow> ar_grant_master (dmem (stores (soc_bus env) addr src ks s)))"
  using assms by (induction ks arbitrary: s) (simp_all add: store_elsewhere store_grant)

text \<open>C13: The NVM window of the SDK is not there. On the chip \<open>xcew_nvm_write\<close> of any range in
  0x4000-0x4FFF returns \<open>XCEW_OK\<close> and stores nothing, and \<open>xcew_nvm_read\<close> of the range then
  fills the buffer with the instructions of the boot ROM.\<close>

theorem nvm_window_reads_boot_rom:
  assumes "ar_grant_master (dmem s)" and "in_window addr len"
    and "4 * nwords (unat len) \<le> length src" and "4 * nwords (unat len) \<le> length dst"
  shows "\<exists>s1 rc dst' s2. xcew_nvm_write (soc_bus env) addr (Some src) len s = Some (Inr (XCEW_OK, s1)) \<and>
    sram_memory (dmem s1) = sram_memory (dmem s) \<and>
    xcew_nvm_read (soc_bus env) addr (Some dst) len s1 = Some (Inr (rc, Some dst', s2)) \<and>
    (\<forall>k < nwords (unat len). load32 dst' (4 * k) = Some (instr_rom (ucast (drop_bit 2 (addr + ctr k)))))"
proof -
  define s1 where "s1 = stores (soc_bus env) addr src [0..<nwords (unat len)] s"
  have slave: "\<forall>k \<in> set [0..<nwords (unat len)]. m0_slave (core_mem_addr_16 (addr + ctr k)) = None"
    using window_decodes_nowhere(1) in_window_word [OF assms(2)] by simp
  have w: "xcew_nvm_write (soc_bus env) addr (Some src) len s = Some (Inr (XCEW_OK, s1))"
    using nvm_write_loop_stores [OF in_window_small [OF assms(2)] assms(3), of 0 "soc_bus env" addr s]
      in_window_accepted [OF assms(2)]
    by (simp add: xcew_nvm_write_def s1_def)
  have s1: "sram_memory (dmem s1) = sram_memory (dmem s)" "ar_grant_master (dmem s1)"
    using stores_in_window [OF slave] assms(1) by (simp_all add: s1_def)
  obtain rc dst' s2 where r: "xcew_nvm_read (soc_bus env) addr (Some dst) len s1 = Some (Inr (rc, Some dst', s2))"
      "\<forall>k. load32 dst' (4 * k) =
         (if k < nwords (unat len) then Some (rom_word (addr + ctr k)) else load32 dst (4 * k))"
    using bus_memory.nvm_read_in_window [OF rom.bus_memory_axioms assms(2,4) s1(2), of env] by blast
  have "rom_word (addr + ctr k) = instr_rom (ucast (drop_bit 2 (addr + ctr k)))"
    if "k < nwords (unat len)" for k
  proof -
    have "addr + ctr k < 0x10000000"
      using in_window_word(2) [OF assms(2) that] by (rule less_trans) simp
    then show ?thesis
      using rom_word_low window_decodes_nowhere(2) in_window_word [OF assms(2) that] by simp
  qed
  then show ?thesis
    using w s1(1) r by (intro exI [of _ s1] exI [of _ rc] exI [of _ dst'] exI [of _ s2]) simp
qed

theorem nvm_window_reads_boot_rom_witness:
  "\<exists>s1 rc dst' s2. xcew_nvm_write (soc_bus (\<lambda>_. idle_env)) 0x4004 (Some [0xBE, 0xBA, 0xFE, 0xCA]) 4
      (idle_soc\<lparr>dmem := (mem_reset (\<lambda>_. 0))\<lparr>ar_grant_master := True\<rparr>\<rparr>) = Some (Inr (XCEW_OK, s1)) \<and>
    xcew_nvm_read (soc_bus (\<lambda>_. idle_env)) 0x4004 (Some [0, 0, 0, 0]) 4 s1 = Some (Inr (rc, Some dst', s2)) \<and>
    load32 dst' 0 = Some 0x00A00093"
proof -
  have "nwords 4 = 1" "ucast (drop_bit 2 (0x4004 :: u32)) = (1 :: u10)"
    by (simp add: nwords_def) code_simp
  then show ?thesis
    using nvm_window_reads_boot_rom [of "idle_soc\<lparr>dmem := (mem_reset (\<lambda>_. 0))\<lparr>ar_grant_master := True\<rparr>\<rparr>"
      "0x4004" 4 "[0xBE, 0xBA, 0xFE, 0xCA]" "[0, 0, 0, 0]" "\<lambda>_. idle_env"]
    by (auto simp: in_window_def instr_rom_def)
qed

section \<open>The firmware's self-test on the chip\<close>

text \<open>What an access outside the SRAM leaves alone, with a core that stays awake.\<close>

definition same_chip :: "soc \<Rightarrow> soc \<Rightarrow> bool" where
  "same_chip s s' \<longleftrightarrow> sram_memory (dmem s') = sram_memory (dmem s) \<and> csr_xcew_cfg s' = csr_xcew_cfg s \<and>
     csr_snn_ctrl_ext s' = csr_snn_ctrl_ext s \<and> csr_eml_dag_ctl s' = csr_eml_dag_ctl s"

lemma same_chip_trans [trans]: "same_chip s s' \<Longrightarrow> same_chip s' s'' \<Longrightarrow> same_chip s s''"
  by (simp add: same_chip_def)

lemma same_chip_store:
  assumes "m0_slave (core_mem_addr_16 a) \<noteq> Some SLAVE_SRAM"
  shows "same_chip s (st32 (soc_bus env) a v s)" "same_chip s (st8 (soc_bus env) a b s)"
  using store_elsewhere [OF assms] by (simp_all add: same_chip_def) (simp_all add: bus_simps)

lemma same_chip_load: "same_chip s (snd (ld32 (soc_bus env) a s))"
  by (simp add: same_chip_def bus_simps dmem_edge mem_edge_sram)

lemma same_chip_round:
  assumes "k < 10"
  shows "same_chip s (round_effect (soc_bus env) out_reg k s)"
proof -
  have "unat (0x10000 + of_nat (k * 4) :: u32) = 0x10000 + k * 4"
    using assms by (subst unat_add_small) (simp_all add: unat_of_nat_u32 del: of_nat_mult)
  then have "unat (core_mem_addr_16 (0x10000 + of_nat (k * 4))) = k * 4"
    using assms by (simp add: core_mem_addr_16_def unsigned_ucast_eq take_bit_eq_mod del: of_nat_mult)
  then have log: "m0_slave (core_mem_addr_16 (0x10000 + of_nat (k * 4))) = Some SLAVE_ROM"
    using assms by (simp add: m0_slave_def word_le_nat_alt del: of_nat_mult)
  have cfg: "m0_slave (core_mem_addr_16 0x20000) = Some SLAVE_ROM"
    by (simp add: m0_slave_def core_mem_addr_16_def)
  obtain c s1 where ld: "ld32 (soc_bus env) 0x20000 s = (c, s1)"
    by fastforce
  have "same_chip s s1"
    using same_chip_load [of s env "0x20000"] ld by simp
  also note same_chip_store(1) [of "0x20000" s1 env "adjust_cfg k c"]
  also note same_chip_store(1) [of "0x10000 + of_nat (k * 4)" _ env "out_reg (Suc k)"]
  finally show ?thesis
    using log cfg by (simp add: round_effect_def ld del: of_nat_mult)
qed

lemma same_chip_rounds:
  "\<forall>k \<in> set ks. k < 10 \<Longrightarrow> same_chip s (fold (round_effect (soc_bus env) out_reg) ks s)"
proof (induction ks arbitrary: s)
  case (Cons k ks)
  then show ?case
    using same_chip_trans [OF same_chip_round [of k s env out_reg]
        Cons.IH [of "round_effect (soc_bus env) out_reg k s"]] by simp
qed (simp add: same_chip_def)

text \<open>A store that reaches the SRAM of an awake chip.\<close>

lemma store_sram:
  assumes "awake s" and "0x1000 \<le> unat a mod 2 ^ 16" and "unat a mod 2 ^ 16 \<le> 0x1FFF"
  shows "sram_memory (dmem (st32 (soc_bus env) a v s)) =
    (sram_memory (dmem s))(sram_index (core_mem_addr_16 a) := v)"
proof -
  have "m0_slave (core_mem_addr_16 a) = Some SLAVE_SRAM"
    using assms(2,3) by (simp add: m0_slave_def core_mem_addr_16_def word_le_nat_alt unsigned_ucast_eq take_bit_eq_mod)
  then show ?thesis
    using assms(1) by (simp add: awake_def bus_simps dmem_edge mem_edge_def byte_lanes_full)
qed

text \<open>The SNN control words of \<open>main\<close>: two stores to 0x21000, which is SRAM word 0x400.\<close>

lemma snn_words_to_sram:
  assumes "\<And>n. busy_env (env n)" and "awake s"
  shows "sram_memory (dmem (st32 (soc_bus env) 0x21000 w (st32 (soc_bus env) 0x21000 v s))) =
      (sram_memory (dmem s))(0x400 := w)"
    "csr_xcew_cfg (st32 (soc_bus env) 0x21000 w (st32 (soc_bus env) 0x21000 v s)) = csr_xcew_cfg s"
    "csr_snn_ctrl_ext (st32 (soc_bus env) 0x21000 w (st32 (soc_bus env) 0x21000 v s)) = csr_snn_ctrl_ext s"
    "csr_eml_dag_ctl (st32 (soc_bus env) 0x21000 w (st32 (soc_bus env) 0x21000 v s)) = csr_eml_dag_ctl s"
proof -
  have idx: "sram_index (core_mem_addr_16 0x21000) = 0x400"
    by code_simp
  have "awake (st32 (soc_bus env) 0x21000 v s)"
    using assms by (simp add: bus_simps awake_edge)
  then show "sram_memory (dmem (st32 (soc_bus env) 0x21000 w (st32 (soc_bus env) 0x21000 v s))) =
      (sram_memory (dmem s))(0x400 := w)"
    using store_sram [of _ "0x21000" env] assms(2) by (simp add: idx)
qed (simp_all add: bus_simps)

lemma main_slaves:
  "m0_slave (core_mem_addr_16 0x20000) \<noteq> Some SLAVE_SRAM" "m0_slave (core_mem_addr_16 0x22000) \<noteq> Some SLAVE_SRAM"
  "m0_slave (core_mem_addr_16 0x22004) \<noteq> Some SLAVE_SRAM" "m0_slave (core_mem_addr_16 0x30000) \<noteq> Some SLAVE_SRAM"
  "m0_slave (core_mem_addr_16 0x30001) \<noteq> Some SLAVE_SRAM"
  by (simp_all add: m0_slave_def core_mem_addr_16_def)

text \<open>Everything that \<open>main\<close> does after the SNN control words.\<close>

lemma main_tail:
  "same_chip s (st8 (soc_bus env) 0x30001 0xFF (fold (round_effect (soc_bus env) out_reg) [0..<10]
     (st8 (soc_bus env) 0x30000 byte (st32 (soc_bus env) 0x22004 1 (st32 (soc_bus env) 0x22000 1
       (snd (ld32 (soc_bus env) 0x21004 s)))))))" (is "same_chip s (st8 ?B _ _ (fold _ _ ?s3))")
proof -
  note same_chip_load [of s env "0x21004"]
  also note same_chip_store(1) [OF main_slaves(2), where env = env and v = 1]
  also note same_chip_store(1) [OF main_slaves(3), where env = env and v = 1]
  also note same_chip_store(2) [OF main_slaves(4), where env = env and b = byte]
  also have "same_chip ?s3 (fold (round_effect ?B out_reg) [0..<10] ?s3)"
    by (rule same_chip_rounds) simp
  also note same_chip_store(2) [OF main_slaves(5), where env = env and b = "0xFF"]
  finally show ?thesis .
qed

text \<open>None of what \<open>main\<close> addresses is where it writes. On the chip its addresses are truncated
  to 16 bits: the configuration and the log entries hit the boot ROM, the UART is the boot ROM
  too, the NVM words go to the EML slave and the SNN control words land in the SRAM at 0x1000.
  \<open>main\<close> returns 0, leaves every configuration register as it was, and its only effect is that
  SRAM word, 0x80010000.\<close>

lemma main_on_chip:
  assumes "\<And>n. busy_env (env n)" and "awake s"
  shows "\<exists>s'. main (soc_bus env) out_reg s = Some (0, s') \<and>
    sram_memory (dmem s') = (sram_memory (dmem s))(0x400 := 0x80010000) \<and>
    csr_xcew_cfg s' = csr_xcew_cfg s \<and> csr_snn_ctrl_ext s' = csr_snn_ctrl_ext s \<and>
    csr_eml_dag_ctl s' = csr_eml_dag_ctl s"
proof -
  define s1 where "s1 = st32 (soc_bus env) 0x20000 0x8000 s"
  define s3 where "s3 = st32 (soc_bus env) 0x21000 0x80010000 (st32 (soc_bus env) 0x21000 1 s1)"
  define s6 where "s6 = st8 (soc_bus env) 0x30001 0xFF (fold (round_effect (soc_bus env) out_reg) [0..<10]
     (st8 (soc_bus env) 0x30000 (eml_test (out_reg 0) OR snn_test (fst (ld32 (soc_bus env) 0x21004 s3)))
       (st32 (soc_bus env) 0x22004 1 (st32 (soc_bus env) 0x22000 1 (snd (ld32 (soc_bus env) 0x21004 s3))))))"
  have "main (soc_bus env) out_reg s = Some (0, s6)"
    by (simp add: main_total Let_def s6_def s3_def s1_def split: prod.split del: upt.simps upt_conv_Cons)
  moreover have "same_chip s s1"
    unfolding s1_def by (rule same_chip_store) (rule main_slaves)
  moreover have "same_chip s3 s6"
    unfolding s6_def by (rule main_tail)
  moreover have "awake s1"
    using assms by (simp add: s1_def bus_simps awake_edge)
  ultimately show ?thesis
    using snn_words_to_sram [OF assms(1) \<open>awake s1\<close>, where w = "0x80010000" and v = 1]
    by (simp add: same_chip_def s3_def)
qed

section \<open>The cache tag in the firmware, the RTL and the compiler\<close>

lemma fold_is_djb2: "fold (\<lambda>x h. (push_bit 5 h + h) + x) ws h = djb2 h ws"
  by (simp add: djb2_def shift5_add foldl_conv_fold)

lemma compress_hash_rtl: "compress_hash h = rtl_compress_hash h"
  by (rule u8_eqI) (auto simp: compress_hash_def rtl_compress_hash_def bit_simps bit_bitsel less_Suc_eq numeral_eq_Suc)

text \<open>C38: The three parts hash an expression alike but do not agree on its tag. Let \<open>h\<close> be the djb2 hash of an EML
  instruction, whose opcode and operands are written as the words of a tree, without a zero word. The firmware's
  tag is the four bytes of \<open>h\<close> folded into one, and that is the tag that the DAG cache stores when it takes in an
  expression with this hash; the LLVM pass takes the low byte of \<open>h\<close> instead, "as specified in RTL".\<close>

theorem firmware_tag_is_rtl_tag:
  assumes "t = op_number T (n_opcode n) # n_operands n" and "0 \<notin> set t" and "length t < 2 ^ 32"
  shows "eml_hash_expr (Some t) (of_nat (length t)) = Inr (ucast (rtl_compress_hash (djb2 5381 t))) \<and>
    getEMLHash T n = djb2 5381 t AND 0xFF \<and>
    (\<forall>c s. c_enable c \<and> dag_mode c \<and> expr_valid_in c \<and> expr_compute_done c \<and> expr_hash_in c = djb2 5381 t \<and>
       find_way s (djb2 5381 t) = None \<longrightarrow>
       cache_tags (cache_edge c s) (slot (set_of (djb2 5381 t)) (unat (lru_counters s (set_of (djb2 5381 t))))) =
         rtl_compress_hash (djb2 5381 t))"
proof (intro conjI allI impI)
  have d: "unat (of_nat (length t) :: u32) = length t" "of_nat (length t) \<noteq> (0 :: u32)"
    using assms(1,3) by (simp_all only: unat_of_nat word_unat_eq_iff) (simp_all add: take_bit_nat_eq_self)
  have words: "takeWhile (\<lambda>w. w \<noteq> 0) t = t"
    using assms(2) by (auto simp: takeWhile_eq_all_conv)
  have "hash_loop t (of_nat (length t)) 0 5381 = Inr (djb2 5381 t)"
    using hash_loop_djb2 [of 0 t "of_nat (length t)" 5381] d by (simp add: words)
  then show "eml_hash_expr (Some t) (of_nat (length t)) = Inr (ucast (rtl_compress_hash (djb2 5381 t)))"
    using d by (auto simp: eml_hash_expr_def compress_hash_rtl)
  show "getEMLHash T n = djb2 5381 t AND 0xFF"
    unfolding getEMLHash_def fold_is_djb2 assms(1) by (simp add: djb2_def shift5_add)
  show "cache_tags (cache_edge c s) (slot (set_of (djb2 5381 t)) (unat (lru_counters s (set_of (djb2 5381 t))))) =
      rtl_compress_hash (djb2 5381 t)"
    if "c_enable c \<and> dag_mode c \<and> expr_valid_in c \<and> expr_compute_done c \<and> expr_hash_in c = djb2 5381 t \<and>
      find_way s (djb2 5381 t) = None" for c s
    using that lookup_store(1) [of s c] by simp
qed

theorem firmware_tag_is_rtl_tag_witness:
  "eml_hash_expr (Some [300, 1, 2]) 3 = Inr (ucast (rtl_compress_hash (djb2 5381 [300, 1, 2]))) \<and>
    getEMLHash \<lparr>op_number = \<lambda>_. 300, hash_combine = \<lambda>h x. h\<rparr>
      \<lparr>n_opcode = XE_ADD, n_operands = [1, 2], hash_value = 0\<rparr> = djb2 5381 [300, 1, 2] AND 0xFF"
  using firmware_tag_is_rtl_tag [of "[300, 1, 2]" "\<lparr>op_number = \<lambda>_. 300, hash_combine = \<lambda>h x. h\<rparr>"
      "\<lparr>n_opcode = XE_ADD, n_operands = [1, 2], hash_value = 0\<rparr>"]
  by (simp add: djb2_def)

text \<open>The two tags of one expression differ.\<close>

lemma compiler_tag_differs:
  "eml_hash_expr (Some [300, 1, 2]) 3 \<noteq> Inr (getEMLHash \<lparr>op_number = \<lambda>_. 300, hash_combine = \<lambda>h x. h\<rparr>
      \<lparr>n_opcode = XE_ADD, n_operands = [1, 2], hash_value = 0\<rparr>)"
  by (simp add: eml_hash_expr_def hash_loop_djb2 djb2_def compress_hash_def getEMLHash_def)

section \<open>The machine CSRs of the header\<close>

text \<open>The core answers the standard CSRs of \<open>csr.h\<close> itself, and no other.\<close>

lemma header_csrs_in_core:
  "csr_is_machine a \<longleftrightarrow> a \<in> {CSR_MSTATUS, CSR_MISA, CSR_MIE, CSR_MTVEC, CSR_MSCRATCH, CSR_MEPC,
     CSR_MCAUSE, CSR_MTVAL, CSR_MIP, CSR_MHARTID}"
  by (auto simp: csr_is_machine_def machine_csr_numbers)

end
